(* ===== verification/Prelude.thy ===== *)
theory Prelude
  imports Complex_Main
begin

text \<open>
  Shared vocabulary of the development: the hint collections the component theories fill, the
  result type of a fallible host routine, and the string and list routines that stand for the
  parts of the JavaScript standard library the virtual machine uses.

  A JavaScript string is represented by the list of its UTF-8 bytes, so \<open>length s\<close> is
  \<open>Buffer.byteLength(s, 'utf8')\<close>, and a search for an ASCII needle (\<open>'|'\<close>, NUL, \<open>':'\<close>) is a
  search for that byte. Lone surrogates have no representation. Routines that count UTF-16 code
  units (\<open>s.length\<close>, \<open>s.substring\<close>) are \<open>utf16_len\<close> and \<open>utf16_take\<close> below.
\<close>

named_theorems gas_mono \<open>operations that never lower the gas tracker's total\<close>
named_theorems frame_simps \<open>components an operation leaves unchanged\<close>
named_theorems inv_intros \<open>operations that keep the host invariant\<close>

subsection \<open>Results of fallible routines\<close>

text \<open>Sequencing of pure routines that may throw: the left injection is the thrown value.\<close>

fun rbind :: "'e + 'a \<Rightarrow> ('a \<Rightarrow> 'e + 'b) \<Rightarrow> 'e + 'b" where
  "rbind (Inl e) f = Inl e"
| "rbind (Inr a) f = f a"

lemma rbind_Inr_iff: "rbind m f = Inr b \<longleftrightarrow> (\<exists>a. m = Inr a \<and> f a = Inr b)"
  by (cases m) auto

lemma rbind_Inl_iff: "rbind m f = Inl e \<longleftrightarrow> m = Inl e \<or> (\<exists>a. m = Inr a \<and> f a = Inl e)"
  by (cases m) auto

lemma rbind_assoc: "rbind (rbind m f) g = rbind m (\<lambda>a. rbind (f a) g)"
  by (cases m) auto

text \<open>The loop \<open>for (const x of xs) check(x)\<close>: the first check that throws ends it.\<close>

fun check_all :: "('a \<Rightarrow> 'e + unit) \<Rightarrow> 'a list \<Rightarrow> 'e + unit" where
  "check_all f [] = Inr ()"
| "check_all f (x # xs) = rbind (f x) (\<lambda>_. check_all f xs)"

lemma check_all_ok_iff: "check_all f xs = Inr u \<longleftrightarrow> (\<forall>x \<in> set xs. f x = Inr ())"
  by (induction xs) (auto simp: rbind_Inr_iff)

text \<open>A loop that maps a fallible routine over a list.\<close>

fun rmap :: "('a \<Rightarrow> 'e + 'b) \<Rightarrow> 'a list \<Rightarrow> 'e + 'b list" where
  "rmap f [] = Inr []"
| "rmap f (x # xs) = rbind (f x) (\<lambda>y. rbind (rmap f xs) (\<lambda>ys. Inr (y # ys)))"

lemma rmap_length: "rmap f xs = Inr ys \<Longrightarrow> length ys = length xs"
  by (induction xs arbitrary: ys) (auto simp: rbind_Inr_iff)

subsection \<open>Searching and cutting strings\<close>

definition starts_with :: "string \<Rightarrow> string \<Rightarrow> bool" where
  "starts_with p s \<longleftrightarrow> take (length p) s = p"

fun includes_str :: "string \<Rightarrow> string \<Rightarrow> bool" where
  "includes_str p [] = (p = [])"
| "includes_str p (c # s) = (starts_with p (c # s) \<or> includes_str p s)"

lemma starts_with_append [simp]: "starts_with p (p @ s)"
  by (simp add: starts_with_def)

lemma starts_withE: "starts_with p s \<Longrightarrow> \<exists>r. s = p @ r"
  unfolding starts_with_def by (metis append_take_drop_id)

lemma includes_str_iff: "includes_str p s \<longleftrightarrow> (\<exists>a b. s = a @ p @ b)"
proof (induction s)
  case Nil
  then show ?case by simp
next
  case (Cons c s)
  show ?case
  proof
    assume "includes_str p (c # s)"
    then consider "starts_with p (c # s)" | "includes_str p s" by auto
    then show "\<exists>a b. c # s = a @ p @ b"
    proof cases
      case 1
      then show ?thesis using starts_withE by (metis append_Nil)
    next
      case 2
      with Cons.IH obtain a b where "s = a @ p @ b" by blast
      then have "c # s = (c # a) @ p @ b" by simp
      then show ?thesis by blast
    qed
  next
    assume "\<exists>a b. c # s = a @ p @ b"
    then obtain a b where ab: "c # s = a @ p @ b" by blast
    show "includes_str p (c # s)"
    proof (cases a)
      case Nil
      with ab have "c # s = p @ b" by simp
      then have "starts_with p (c # s)" by (metis starts_with_append)
      then show ?thesis by simp
    next
      case (Cons d a')
      with ab have "s = a' @ p @ b" by simp
      with Cons.IH show ?thesis by auto
    qed
  qed
qed

text \<open>\<open>s.split(sep)\<close> for a one-character ASCII separator.\<close>

fun split_on :: "char \<Rightarrow> string \<Rightarrow> string list" where
  "split_on sep [] = [[]]"
| "split_on sep (c # s) =
     (if c = sep then [] # split_on sep s
      else (case split_on sep s of [] \<Rightarrow> [[c]] | w # ws \<Rightarrow> (c # w) # ws))"

lemma split_on_nonempty: "split_on sep s \<noteq> []"
  by (induction s) (auto split: list.splits)

lemma split_on_no_sep: "sep \<notin> set s \<Longrightarrow> split_on sep s = [s]"
  by (induction s) auto

lemma split_on_sep: "sep \<notin> set a \<Longrightarrow> split_on sep (a @ sep # b) = a # split_on sep b"
  by (induction a) auto

text \<open>\<open>xs.join(sep)\<close>.\<close>

fun join_with :: "string \<Rightarrow> string list \<Rightarrow> string" where
  "join_with sep [] = []"
| "join_with sep [w] = w"
| "join_with sep (w # ws) = w @ sep @ join_with sep ws"

subsection \<open>ASCII case, digits, white space\<close>

definition is_digit :: "char \<Rightarrow> bool" where
  "is_digit c \<longleftrightarrow> 48 \<le> (of_char c :: nat) \<and> (of_char c :: nat) \<le> 57"

definition digit_val :: "char \<Rightarrow> nat" where
  "digit_val c = of_char c - 48"

definition is_hex :: "char \<Rightarrow> bool" where
  "is_hex c \<longleftrightarrow> is_digit c \<or> (65 \<le> (of_char c :: nat) \<and> (of_char c :: nat) \<le> 70)
     \<or> (97 \<le> (of_char c :: nat) \<and> (of_char c :: nat) \<le> 102)"

definition to_lower :: "char \<Rightarrow> char" where
  "to_lower c = (if 65 \<le> (of_char c :: nat) \<and> (of_char c :: nat) \<le> 90
                 then char_of ((of_char c :: nat) + 32) else c)"

text \<open>
  The white space \<open>String.prototype.trim\<close> removes, as UTF-8: tab, line feed, vertical tab, form
  feed, carriage return, space, and the Unicode space separators, line separators and BOM.
\<close>

definition white_space :: "string list" where
  "white_space = map (map (char_of :: nat \<Rightarrow> char))
     ([[9], [10], [11], [12], [13], [32], [194, 160], [225, 154, 128], [227, 128, 128],
       [226, 128, 168], [226, 128, 169], [226, 128, 175], [226, 129, 159], [239, 187, 191]]
      @ map (\<lambda>k. [226, 128, 128 + k]) [0..<11])"

fun strip_prefix_of :: "string list \<Rightarrow> string \<Rightarrow> string option" where
  "strip_prefix_of [] s = None"
| "strip_prefix_of (p # ps) s =
     (if p \<noteq> [] \<and> starts_with p s then Some (drop (length p) s) else strip_prefix_of ps s)"

lemma strip_prefix_of_shorter: "strip_prefix_of ps s = Some r \<Longrightarrow> length r < length s"
proof (induction ps)
  case Nil
  then show ?case by simp
next
  case (Cons p ps)
  show ?case
  proof (cases "p \<noteq> [] \<and> starts_with p s")
    case True
    then have "s \<noteq> []" "0 < length p" by (auto simp: starts_with_def)
    with Cons.prems True show ?thesis by auto
  next
    case False
    with Cons show ?thesis by auto
  qed
qed

function strip_all_prefixes :: "string list \<Rightarrow> string \<Rightarrow> string" where
  "strip_all_prefixes ps s =
     (case strip_prefix_of ps s of None \<Rightarrow> s | Some r \<Rightarrow> strip_all_prefixes ps r)"
  by pat_completeness auto
termination
  by (relation "measure (\<lambda>(ps, s). length s)") (auto dest: strip_prefix_of_shorter)

declare strip_all_prefixes.simps [simp del]

definition trim :: "string \<Rightarrow> string" where
  "trim s = rev (strip_all_prefixes (map rev white_space)
                  (rev (strip_all_prefixes white_space s)))"

subsection \<open>Decimal text of integers\<close>

definition digit_char :: "nat \<Rightarrow> char" where
  "digit_char d = char_of (48 + d)"

fun nat_text :: "nat \<Rightarrow> string" where
  "nat_text n = (if n < 10 then [digit_char n] else nat_text (n div 10) @ [digit_char (n mod 10)])"

declare nat_text.simps [simp del]

definition int_text :: "int \<Rightarrow> string" where
  "int_text i = (if i < 0 then CHR ''-'' # nat_text (nat (- i)) else nat_text (nat i))"

text \<open>Reading a run of decimal digits back.\<close>

definition digits_val :: "string \<Rightarrow> nat" where
  "digits_val s = foldl (\<lambda>v c. 10 * v + digit_val c) 0 s"

lemma of_char_digit_char: "d < 10 \<Longrightarrow> (of_char (digit_char d) :: nat) = 48 + d"
  by (simp add: digit_char_def)

lemma digit_val_digit_char [simp]: "d < 10 \<Longrightarrow> digit_val (digit_char d) = d"
  by (simp add: digit_val_def of_char_digit_char)

lemma is_digit_digit_char [simp]: "d < 10 \<Longrightarrow> is_digit (digit_char d)"
  by (simp add: is_digit_def of_char_digit_char)

lemma nat_text_nonempty [simp]: "nat_text n \<noteq> []"
  by (subst nat_text.simps) simp

lemma nat_text_digits: "\<forall>c \<in> set (nat_text n). is_digit c"
proof (induction n rule: nat_text.induct)
  case (1 n)
  then show ?case by (cases "n < 10") (simp_all add: nat_text.simps [of n])
qed

lemma digits_val_nat_text [simp]: "digits_val (nat_text n) = n"
proof (induction n rule: nat_text.induct)
  case (1 n)
  then show ?case
    by (cases "n < 10") (simp_all add: nat_text.simps [of n] digits_val_def)
qed

lemma nat_text_inject [simp]: "nat_text m = nat_text n \<longleftrightarrow> m = n"
  by (metis digits_val_nat_text)

lemma is_digit_not_special:
  "is_digit c \<Longrightarrow> c \<noteq> CHR ''-'' \<and> c \<noteq> CHR '':'' \<and> c \<noteq> CHR ''|'' \<and> c \<noteq> CHR ''.''
     \<and> c \<noteq> CHR 0x00"
  by (auto simp: is_digit_def)

lemma nat_text_no_special:
  "CHR ''-'' \<notin> set (nat_text n)" "CHR '':'' \<notin> set (nat_text n)" "CHR ''|'' \<notin> set (nat_text n)"
  "CHR ''.'' \<notin> set (nat_text n)" "CHR 0x00 \<notin> set (nat_text n)"
  using nat_text_digits [of n] is_digit_not_special by blast+

lemma int_text_inject [simp]: "int_text i = int_text j \<longleftrightarrow> i = j"
proof
  assume eq: "int_text i = int_text j"
  have minus: "\<And>n s. nat_text n \<noteq> CHR ''-'' # s"
    using nat_text_no_special(1) by (metis list.set_intros(1))
  show "i = j"
    using eq minus by (cases "i < 0"; cases "j < 0") (auto simp: int_text_def dest: sym)
qed simp

lemma int_text_no_colon: "CHR '':'' \<notin> set (int_text i)"
  using nat_text_no_special(2) by (auto simp: int_text_def)

subsection \<open>UTF-16 lengths of UTF-8 text\<close>

text \<open>
  A code point is one UTF-16 unit, or two when its UTF-8 form has four bytes (lead byte at least
  240). Continuation bytes (128 to 191) belong to the code point before them.
\<close>

definition is_cont :: "char \<Rightarrow> bool" where
  "is_cont c \<longleftrightarrow> 128 \<le> (of_char c :: nat) \<and> (of_char c :: nat) < 192"

definition units_of :: "char \<Rightarrow> nat" where
  "units_of c = (if is_cont c then 0 else if 240 \<le> (of_char c :: nat) then 2 else 1)"

definition utf16_len :: "string \<Rightarrow> nat" where
  "utf16_len s = sum_list (map units_of s)"

text \<open>
  The first \<open>n\<close> UTF-16 units. A cut through a surrogate pair would leave a lone surrogate, which
  has no UTF-8 form: Node's encoders write the replacement character EF BF BD for it.
\<close>

fun utf16_take :: "nat \<Rightarrow> string \<Rightarrow> string" where
  "utf16_take n [] = []"
| "utf16_take n (c # s) =
     (if is_cont c then c # utf16_take n s
      else if units_of c \<le> n then c # utf16_take (n - units_of c) s
      else if n = 0 then []
      else map (char_of :: nat \<Rightarrow> char) [239, 191, 189])"

lemma utf16_take_len: "utf16_len (utf16_take n s) \<le> n"
proof (induction n s rule: utf16_take.induct)
  case (1 n)
  then show ?case by (simp add: utf16_len_def)
next
  case (2 n c s)
  then show ?case
    by (auto simp: utf16_len_def units_of_def is_cont_def)
qed

end
