(* ===== verification/JsValue.thy ===== *)
theory JsValue
  imports Prelude
begin

text \<open>
  The JavaScript values that cross the isolate boundary, and the conversions of the standard
  library the host code applies to them: \<open>typeof\<close>, truthiness, \<open>String(v)\<close>, \<open>Number(v)\<close>,
  property reads, \<open>Object.keys\<close>, \<open>JSON.stringify\<close>.

  Arguments of a gateway call arrive as values rebuilt from JSON, so they are trees: \<open>undefined\<close>,
  \<open>null\<close>, booleans, numbers, strings, arrays and plain objects (an association list of own
  properties in the engine's own-key order). \<open>JNative\<close> is a member of a built-in prototype, which
  a plain property read can reach. A finite double is the rational its canonical (shortest
  round-trip) decimal text names; arithmetic on it is exact, and negative zero is zero.
\<close>

datatype jsnum = Num rat | NaN | PInf | NInf

datatype jsval =
    JUndef
  | JNull
  | JBool bool
  | JNum jsnum
  | JStr string
  | JArr "jsval list"
  | JObj "(string \<times> jsval) list"
  | JNative string

text \<open>Thrown values: the VM's own error classes (errors.js) and the language's.\<close>

datatype exn =
    ContractRevertError string
  | GasExhaustedError rat rat
  | HostFaultError string
  | TypeError string
  | PlainError string

type_synonym 'a res = "exn + 'a"

abbreviation throw :: "string \<Rightarrow> 'a res" where
  "throw m \<equiv> Inl (PlainError m)"

abbreviation guard :: "bool \<Rightarrow> string \<Rightarrow> unit res" where
  "guard bad m \<equiv> (if bad then throw m else Inr ())"

subsection \<open>Numbers\<close>

definition rat_integral :: "rat \<Rightarrow> bool" where
  "rat_integral r \<longleftrightarrow> of_int \<lfloor>r\<rfloor> = r"

lemma rat_integral_of_int [simp]: "rat_integral (of_int i)"
  by (simp add: rat_integral_def)

lemma rat_integral_numeral [simp]: "rat_integral (numeral n)" "rat_integral 0" "rat_integral 1"
  "rat_integral (- numeral n)"
  using rat_integral_of_int [of "numeral n"] rat_integral_of_int [of 0] rat_integral_of_int [of 1]
    rat_integral_of_int [of "- numeral n"] by simp_all

lemma rat_integralE: "rat_integral r \<Longrightarrow> \<exists>i. r = of_int i"
  unfolding rat_integral_def by metis

lemma rat_integral_add: "rat_integral a \<Longrightarrow> rat_integral b \<Longrightarrow> rat_integral (a + b)"
  by (metis of_int_add rat_integralE rat_integral_of_int)

text \<open>\<open>Number.isInteger\<close>, \<open>Number.isFinite\<close>, \<open>Number.MAX_SAFE_INTEGER\<close>.\<close>

fun isInteger :: "jsval \<Rightarrow> bool" where
  "isInteger (JNum (Num r)) = rat_integral r"
| "isInteger _ = False"

fun isFinite :: "jsval \<Rightarrow> bool" where
  "isFinite (JNum (Num r)) = True"
| "isFinite _ = False"

definition MAX_SAFE :: rat where
  "MAX_SAFE = 9007199254740991"

lemma isInteger_iff: "isInteger v \<longleftrightarrow> (\<exists>i. v = JNum (Num (of_int i)))"
  by (cases v rule: isInteger.cases) (auto dest: rat_integralE)

lemma isFinite_iff: "isFinite v \<longleftrightarrow> (\<exists>r. v = JNum (Num r))"
  by (cases v rule: isFinite.cases) auto

text \<open>The relational operators on numbers; every comparison with NaN is false.\<close>

fun num_less :: "jsnum \<Rightarrow> jsnum \<Rightarrow> bool" where
  "num_less (Num a) (Num b) = (a < b)"
| "num_less NaN _ = False"
| "num_less _ NaN = False"
| "num_less NInf NInf = False"
| "num_less NInf _ = True"
| "num_less _ NInf = False"
| "num_less PInf _ = False"
| "num_less _ PInf = True"

text \<open>Addition and multiplication of numbers.\<close>

fun num_add :: "jsnum \<Rightarrow> jsnum \<Rightarrow> jsnum" where
  "num_add (Num a) (Num b) = Num (a + b)"
| "num_add NaN _ = NaN"
| "num_add _ NaN = NaN"
| "num_add PInf NInf = NaN"
| "num_add NInf PInf = NaN"
| "num_add PInf _ = PInf"
| "num_add _ PInf = PInf"
| "num_add NInf _ = NInf"
| "num_add _ NInf = NInf"

text \<open>
  \<open>Number::toString\<close>. Integers below 10^21 print all their digits. For the rest, \<open>scale10\<close> finds
  the digits \<open>s\<close> and the point position; four cases print them, as in ECMA-262 6.1.6.1.20.
\<close>

fun scale10 :: "nat \<Rightarrow> rat \<Rightarrow> nat \<times> nat" where
  "scale10 0 r = (0, nat \<lfloor>r\<rfloor>)"
| "scale10 (Suc f) r =
     (if rat_integral r then (0, nat \<lfloor>r\<rfloor>) else (case scale10 f (10 * r) of (j, m) \<Rightarrow> (Suc j, m)))"

fun strip_zeros :: "nat \<Rightarrow> nat \<Rightarrow> nat \<times> nat" where
  "strip_zeros 0 m = (0, m)"
| "strip_zeros (Suc f) m =
     (if m mod 10 = 0 then (case strip_zeros f (m div 10) of (z, d) \<Rightarrow> (Suc z, d)) else (0, m))"

definition sign_text :: "int \<Rightarrow> string" where
  "sign_text e = (if e < 0 then ''-'' else ''+'') @ nat_text (nat \<bar>e\<bar>)"

definition pos_text :: "rat \<Rightarrow> string" where
  "pos_text r =
     (let (j, m) = scale10 400 r; (z, d) = strip_zeros 400 m; s = nat_text d;
          k = length s; n = int k + int z - int j
      in if int k \<le> n \<and> n \<le> 21 then s @ replicate (nat n - k) (CHR ''0'')
         else if 0 < n \<and> n \<le> 21 then take (nat n) s @ ''.'' @ drop (nat n) s
         else if - 6 < n \<and> n \<le> 0 then ''0.'' @ replicate (nat (- n)) (CHR ''0'') @ s
         else if k = 1 then s @ ''e'' @ sign_text (n - 1)
         else take 1 s @ ''.'' @ drop 1 s @ ''e'' @ sign_text (n - 1))"

fun num_text :: "jsnum \<Rightarrow> string" where
  "num_text (Num r) =
     (if rat_integral r \<and> \<bar>r\<bar> < 1000000000000000000000 then int_text \<lfloor>r\<rfloor>
      else if r < 0 then CHR ''-'' # pos_text (- r) else pos_text r)"
| "num_text NaN = ''NaN''"
| "num_text PInf = ''Infinity''"
| "num_text NInf = ''-Infinity''"

lemma num_text_of_int: "\<bar>i\<bar> < 1000000000000000000000 \<Longrightarrow> num_text (Num (of_int i)) = int_text i"
proof -
  assume "\<bar>i\<bar> < 1000000000000000000000"
  then have "(of_int \<bar>i\<bar> :: rat) < of_int 1000000000000000000000" by (simp only: of_int_less_iff)
  then have "\<bar>of_int i :: rat\<bar> < 1000000000000000000000" by simp
  then show ?thesis by simp
qed

text \<open>\<open>StringToNumber\<close>: the decimal, hexadecimal, octal and binary literals and \<open>Infinity\<close>.\<close>

definition overflow_bound :: rat where
  "overflow_bound = 2 ^ 1024 - 2 ^ 970"

definition clip_num :: "rat \<Rightarrow> jsnum" where
  "clip_num r = (if overflow_bound \<le> r then PInf else if r \<le> - overflow_bound then NInf else Num r)"

definition pow10 :: "int \<Rightarrow> rat" where
  "pow10 e = (if 0 \<le> e then 10 ^ nat e else 1 / 10 ^ nat (- e))"

text \<open>The exponent part: empty, or e/E, an optional sign and at least one digit.\<close>

definition parse_exponent :: "string \<Rightarrow> int option" where
  "parse_exponent s =
     (case s of [] \<Rightarrow> Some 0
      | c # t \<Rightarrow>
        if c = CHR ''e'' \<or> c = CHR ''E'' then
          (let neg = starts_with ''-'' t;
               ds = (if starts_with ''-'' t \<or> starts_with ''+'' t then drop 1 t else t)
           in if ds \<noteq> [] \<and> list_all is_digit ds
              then Some (if neg then - int (digits_val ds) else int (digits_val ds)) else None)
        else None)"

definition parse_decimal :: "string \<Rightarrow> jsnum" where
  "parse_decimal s =
     (let ip = takeWhile is_digit s; r1 = dropWhile is_digit s;
          dot = starts_with ''.'' r1;
          fp = (if dot then takeWhile is_digit (drop 1 r1) else []);
          r2 = (if dot then dropWhile is_digit (drop 1 r1) else r1)
      in if ip @ fp = [] then NaN
         else (case parse_exponent r2 of None \<Rightarrow> NaN
               | Some e \<Rightarrow> clip_num (of_nat (digits_val (ip @ fp)) * pow10 (e - int (length fp)))))"

definition hex_val :: "char \<Rightarrow> nat" where
  "hex_val c = (if is_digit c then digit_val c else (of_char (to_lower c) :: nat) - 87)"

definition radix_val :: "nat \<Rightarrow> string \<Rightarrow> nat" where
  "radix_val b s = foldl (\<lambda>v c. b * v + hex_val c) 0 s"

definition parse_number :: "string \<Rightarrow> jsnum" where
  "parse_number s =
     (let t = trim s; p = map to_lower (take 2 t); b = drop 2 t in
      if t = [] then Num 0
      else if p = ''0x'' then
        (if b \<noteq> [] \<and> list_all is_hex b then clip_num (of_nat (radix_val 16 b)) else NaN)
      else if p = ''0o'' then
        (if b \<noteq> [] \<and> list_all (\<lambda>c. is_digit c \<and> digit_val c < 8) b
         then clip_num (of_nat (radix_val 8 b)) else NaN)
      else if p = ''0b'' then
        (if b \<noteq> [] \<and> list_all (\<lambda>c. is_digit c \<and> digit_val c < 2) b
         then clip_num (of_nat (radix_val 2 b)) else NaN)
      else if t = ''Infinity'' \<or> t = ''+Infinity'' then PInf
      else if t = ''-Infinity'' then NInf
      else if starts_with ''-'' t then
        (case parse_decimal (drop 1 t) of Num r \<Rightarrow> Num (- r) | PInf \<Rightarrow> NInf | x \<Rightarrow> x)
      else if starts_with ''+'' t then parse_decimal (drop 1 t)
      else parse_decimal t)"

subsection \<open>typeof, truthiness, nullish\<close>

fun typeof :: "jsval \<Rightarrow> string" where
  "typeof JUndef = ''undefined''"
| "typeof JNull = ''object''"
| "typeof (JBool b) = ''boolean''"
| "typeof (JNum n) = ''number''"
| "typeof (JStr s) = ''string''"
| "typeof (JArr xs) = ''object''"
| "typeof (JObj kvs) = ''object''"
| "typeof (JNative s) = (if s = ''Object.prototype'' then ''object'' else ''function'')"

fun truthy :: "jsval \<Rightarrow> bool" where
  "truthy JUndef = False"
| "truthy JNull = False"
| "truthy (JBool b) = b"
| "truthy (JNum n) = (n \<noteq> NaN \<and> n \<noteq> Num 0)"
| "truthy (JStr s) = (s \<noteq> [])"
| "truthy _ = True"

fun nullish :: "jsval \<Rightarrow> bool" where
  "nullish JUndef = True"
| "nullish JNull = True"
| "nullish _ = False"

fun isArray :: "jsval \<Rightarrow> bool" where
  "isArray (JArr xs) = True"
| "isArray _ = False"

text \<open>\<open>v || d\<close>.\<close>

definition js_or :: "jsval \<Rightarrow> jsval \<Rightarrow> jsval" where
  "js_or v d = (if truthy v then v else d)"

lemma truthy_not_nullish: "truthy v \<Longrightarrow> \<not> nullish v"
  by (cases v) auto

subsection \<open>Property reads\<close>

definition object_proto :: "string list" where
  "object_proto = [''__defineGetter__'', ''__defineSetter__'', ''__lookupGetter__'',
     ''__lookupSetter__'', ''hasOwnProperty'', ''isPrototypeOf'', ''propertyIsEnumerable'',
     ''toLocaleString'', ''toString'', ''valueOf'']"

definition array_proto :: "string list" where
  "array_proto = [''at'', ''concat'', ''copyWithin'', ''entries'', ''every'', ''fill'', ''filter'',
     ''find'', ''findIndex'', ''findLast'', ''findLastIndex'', ''flat'', ''flatMap'', ''forEach'',
     ''includes'', ''indexOf'', ''join'', ''keys'', ''lastIndexOf'', ''map'', ''pop'', ''push'',
     ''reduce'', ''reduceRight'', ''reverse'', ''shift'', ''slice'', ''some'', ''sort'', ''splice'',
     ''toReversed'', ''toSorted'', ''toSpliced'', ''unshift'', ''values'', ''with'']"

definition inherited :: "string \<Rightarrow> jsval" where
  "inherited k = (if k = ''__proto__'' then JNative ''Object.prototype''
     else if k = ''constructor'' then JNative ''Object''
     else if k \<in> set object_proto then JNative k else JUndef)"

definition array_index :: "string \<Rightarrow> nat option" where
  "array_index k = (if k \<noteq> [] \<and> list_all is_digit k \<and> nat_text (digits_val k) = k
                    then Some (digits_val k) else None)"

text \<open>Own properties of a value; \<open>hasOwnProperty\<close> and a plain read \<open>v[k]\<close>.\<close>

fun own_prop :: "jsval \<Rightarrow> string \<Rightarrow> jsval option" where
  "own_prop (JObj kvs) k = map_of kvs k"
| "own_prop (JArr xs) k =
     (if k = ''length'' then Some (JNum (Num (of_nat (length xs))))
      else case array_index k of None \<Rightarrow> None
           | Some i \<Rightarrow> if i < length xs then Some (xs ! i) else None)"
| "own_prop _ k = None"

definition has_own :: "jsval \<Rightarrow> string \<Rightarrow> bool" where
  "has_own v k \<longleftrightarrow> own_prop v k \<noteq> None"

definition js_get :: "jsval \<Rightarrow> string \<Rightarrow> jsval" where
  "js_get v k = (case own_prop v k of Some x \<Rightarrow> x
     | None \<Rightarrow> (case v of JObj _ \<Rightarrow> inherited k
                | JArr _ \<Rightarrow> if k \<in> set array_proto then JNative k else inherited k
                | _ \<Rightarrow> JUndef))"

text \<open>\<open>Object.entries\<close> and \<open>Object.keys\<close>.\<close>

fun own_entries :: "jsval \<Rightarrow> (string \<times> jsval) list" where
  "own_entries (JObj kvs) = kvs"
| "own_entries (JArr xs) = zip (map nat_text [0..<length xs]) xs"
| "own_entries _ = []"

lemma array_index_nat_text [simp]: "array_index (nat_text n) = Some n"
  using nat_text_digits [of n] by (simp add: array_index_def list_all_iff)

lemma js_get_own: "own_prop v k = Some x \<Longrightarrow> js_get v k = x"
  by (simp add: js_get_def)

subsection \<open>String(v) and Number(v)\<close>

text \<open>
  \<open>String(v)\<close>, also the property key a computed access uses. A plain object prints as
  \<open>[object Object]\<close>, unless an own (hence not callable) \<open>toString\<close> hides the inherited one: then
  \<open>valueOf\<close> answers with the object itself and the conversion throws. An array joins its elements.
\<close>

fun to_str :: "jsval \<Rightarrow> string res" and to_str_elems :: "jsval list \<Rightarrow> string list res" where
  "to_str JUndef = Inr ''undefined''"
| "to_str JNull = Inr ''null''"
| "to_str (JBool b) = Inr (if b then ''true'' else ''false'')"
| "to_str (JNum n) = Inr (num_text n)"
| "to_str (JStr s) = Inr s"
| "to_str (JArr xs) = rbind (to_str_elems xs) (\<lambda>ws. Inr (join_with '','' ws))"
| "to_str (JObj kvs) =
     (if map_of kvs ''toString'' = None then Inr ''[object Object]''
      else Inl (TypeError ''Cannot convert object to primitive value''))"
| "to_str (JNative s) =
     Inr (if s = ''Object.prototype'' then ''[object Object]''
          else ''function '' @ s @ ''() { [native code] }'')"
| "to_str_elems [] = Inr []"
| "to_str_elems (x # xs) =
     rbind (if nullish x then Inr [] else to_str x)
       (\<lambda>w. rbind (to_str_elems xs) (\<lambda>ws. Inr (w # ws)))"

text \<open>\<open>Number(v)\<close>.\<close>

fun to_num :: "jsval \<Rightarrow> jsnum res" where
  "to_num JUndef = Inr NaN"
| "to_num JNull = Inr (Num 0)"
| "to_num (JBool b) = Inr (Num (if b then 1 else 0))"
| "to_num (JNum n) = Inr n"
| "to_num (JStr s) = Inr (parse_number s)"
| "to_num v = rbind (to_str v) (\<lambda>s. Inr (parse_number s))"

subsection \<open>JSON.stringify\<close>

definition hex_digit :: "nat \<Rightarrow> char" where
  "hex_digit d = (if d < 10 then digit_char d else char_of (87 + d))"

definition json_char :: "char \<Rightarrow> string" where
  "json_char c =
     (let n = (of_char c :: nat) in
      if c = CHR 0x22 then [CHR 0x5C, CHR 0x22]
      else if c = CHR 0x5C then [CHR 0x5C, CHR 0x5C]
      else if n = 8 then [CHR 0x5C, CHR ''b'']
      else if n = 9 then [CHR 0x5C, CHR ''t'']
      else if n = 10 then [CHR 0x5C, CHR ''n'']
      else if n = 12 then [CHR 0x5C, CHR ''f'']
      else if n = 13 then [CHR 0x5C, CHR ''r'']
      else if n < 32 then CHR 0x5C # ''u00'' @ [hex_digit (n div 16), hex_digit (n mod 16)]
      else [c])"

definition json_string :: "string \<Rightarrow> string" where
  "json_string s = CHR 0x22 # concat (map json_char s) @ [CHR 0x22]"

text \<open>
  \<open>None\<close> is the result \<open>undefined\<close>: an undefined or function value. Inside an array such an
  element prints as null, and such a member of an object is left out.
\<close>

fun json_text :: "jsval \<Rightarrow> string option"
and json_elems :: "jsval list \<Rightarrow> string list"
and json_members :: "(string \<times> jsval) list \<Rightarrow> string list" where
  "json_text JUndef = None"
| "json_text JNull = Some ''null''"
| "json_text (JBool b) = Some (if b then ''true'' else ''false'')"
| "json_text (JNum n) = Some (case n of Num r \<Rightarrow> num_text (Num r) | _ \<Rightarrow> ''null'')"
| "json_text (JStr s) = Some (json_string s)"
| "json_text (JArr xs) = Some (''['' @ join_with '','' (json_elems xs) @ '']'')"
| "json_text (JObj kvs) = Some (''{'' @ join_with '','' (json_members kvs) @ ''}'')"
| "json_text (JNative s) = (if s = ''Object.prototype'' then Some ''{}'' else None)"
| "json_elems [] = []"
| "json_elems (x # xs) = (case json_text x of None \<Rightarrow> ''null'' | Some t \<Rightarrow> t) # json_elems xs"
| "json_members [] = []"
| "json_members ((k, v) # kvs) =
     (case json_text v of None \<Rightarrow> json_members kvs
      | Some t \<Rightarrow> (json_string k @ '':'' @ t) # json_members kvs)"

lemma json_text_None_iff:
  "json_text v = None \<longleftrightarrow> v = JUndef \<or> (\<exists>s. v = JNative s \<and> s \<noteq> ''Object.prototype'')"
  by (cases v) auto

lemma json_string_length: "length s + 2 \<le> length (json_string s)"
proof -
  have "\<And>c. 1 \<le> length (json_char c)" by (simp add: json_char_def Let_def)
  then have "length s \<le> length (concat (map json_char s))"
  proof (induction s)
    case (Cons c s)
    from Cons.prems [of c] Cons.IH [OF Cons.prems] show ?case
      by simp
  qed simp
  then show ?thesis by (simp add: json_string_def)
qed

subsection \<open>Number(String(i)) for an integer\<close>

lemma white_space_check:
  "list_all (\<lambda>p. p \<noteq> [] \<and> \<not> is_digit (hd p) \<and> of_char (hd p) \<noteq> (45 :: nat)
     \<and> \<not> is_digit (last p) \<and> of_char (last p) \<noteq> (45 :: nat)) white_space"
  by (simp add: white_space_def is_digit_def upt_rec)

lemma white_space_first:
  assumes "p \<in> set white_space"
  shows "p = c # q \<Longrightarrow> \<not> is_digit c \<and> c \<noteq> CHR ''-''"
    "rev p = c # q \<Longrightarrow> \<not> is_digit c \<and> c \<noteq> CHR ''-''"
proof -
  have w: "p \<noteq> [] \<and> \<not> is_digit (hd p) \<and> of_char (hd p) \<noteq> (45 :: nat)
      \<and> \<not> is_digit (last p) \<and> of_char (last p) \<noteq> (45 :: nat)"
    using white_space_check assms unfolding list_all_iff by blast
  show "p = c # q \<Longrightarrow> \<not> is_digit c \<and> c \<noteq> CHR ''-''" using w by auto
  assume "rev p = c # q"
  then have "last p = c" by (metis hd_rev list.sel(1))
  with w show "\<not> is_digit c \<and> c \<noteq> CHR ''-''" by auto
qed

lemma strip_prefix_of_None:
  "(\<And>p d q. p \<in> set ps \<Longrightarrow> p = d # q \<Longrightarrow> d \<noteq> c) \<Longrightarrow> strip_prefix_of ps (c # s) = None"
proof (induction ps)
  case (Cons p ps)
  have "\<not> (p \<noteq> [] \<and> starts_with p (c # s))"
  proof
    assume p: "p \<noteq> [] \<and> starts_with p (c # s)"
    then obtain d q where dq: "p = d # q" by (cases p) auto
    with p have "d = c" by (simp add: starts_with_def)
    with Cons.prems [of p d q] dq show False by simp
  qed
  moreover have "strip_prefix_of ps (c # s) = None"
    by (rule Cons.IH) (use Cons.prems in \<open>auto\<close>)
  ultimately show ?case by simp
qed simp

lemma trim_id:
  assumes "s = c # t" "is_digit c \<or> c = CHR ''-''" "s = u @ [d]" "is_digit d"
  shows "trim s = s"
proof -
  have "strip_prefix_of white_space s = None"
    unfolding assms(1) by (rule strip_prefix_of_None) (use white_space_first(1) assms(2) in blast)
  then have 1: "strip_all_prefixes white_space s = s" by (simp add: strip_all_prefixes.simps)
  have "strip_prefix_of (map rev white_space) (d # rev u) = None"
  proof (rule strip_prefix_of_None)
    fix p e q assume "p \<in> set (map rev white_space)" "p = e # q"
    then obtain w where "w \<in> set white_space" "rev w = e # q"
      by (metis imageE list.set_map)
    then show "e \<noteq> d" using white_space_first(2) assms(4) by blast
  qed
  then have "strip_all_prefixes (map rev white_space) (rev s) = rev s"
    by (simp add: strip_all_prefixes.simps assms(3))
  with 1 show ?thesis by (simp add: trim_def)
qed

lemma trim_nat_text: "trim (nat_text n) = nat_text n" "trim (CHR ''-'' # nat_text n) = CHR ''-'' # nat_text n"
proof -
  have d: "\<forall>c \<in> set (nat_text n). is_digit c" by (rule nat_text_digits)
  obtain c t where ct: "nat_text n = c # t" using nat_text_nonempty by (cases "nat_text n") auto
  obtain u e where ue: "nat_text n = u @ [e]" using nat_text_nonempty by (metis rev_exhaust)
  have "c \<in> set (nat_text n)" "e \<in> set (nat_text n)" using ct by simp (use ue in simp)
  then have "is_digit c" "is_digit e" using d by blast+
  then show "trim (nat_text n) = nat_text n" using trim_id ct ue by blast
  show "trim (CHR ''-'' # nat_text n) = CHR ''-'' # nat_text n"
    using trim_id [of _ "CHR ''-''" "nat_text n" "CHR ''-'' # u" e] ue \<open>is_digit e\<close> by simp
qed

lemma parse_decimal_nat_text:
  assumes "n < 2 ^ 100" shows "parse_decimal (nat_text n) = Num (of_nat n)"
proof -
  have tw: "takeWhile is_digit (nat_text n) = nat_text n"
    using nat_text_digits by (simp add: takeWhile_eq_all_conv)
  have dw: "dropWhile is_digit (nat_text n) = []"
    using nat_text_digits by (simp add: dropWhile_eq_Nil_conv)
  have "(of_nat n :: rat) < of_nat (2 ^ 100)" using assms by (simp only: of_nat_less_iff)
  also have "(of_nat (2 ^ 100) :: rat) < overflow_bound" by (simp add: overflow_bound_def)
  finally have lt: "(of_nat n :: rat) < overflow_bound" .
  have "(0::rat) \<le> of_nat n" "0 < overflow_bound" by (simp_all add: overflow_bound_def)
  with lt have "clip_num (of_nat n) = Num (of_nat n)"
    unfolding clip_num_def by (simp add: not_le)
  then show ?thesis
    by (simp add: parse_decimal_def tw dw starts_with_def parse_exponent_def pow10_def)
qed

lemma lower_digits: "is_digit c \<Longrightarrow> to_lower c = c"
  by (auto simp: is_digit_def to_lower_def)

lemma nat_text_no_letter: "is_digit c \<Longrightarrow> c \<noteq> CHR ''x'' \<and> c \<noteq> CHR ''o'' \<and> c \<noteq> CHR ''b''
   \<and> c \<noteq> CHR ''I'' \<and> c \<noteq> CHR ''+''"
  by (auto simp: is_digit_def)

lemma parse_number_nat_text:
  assumes "n < 2 ^ 100" shows "parse_number (nat_text n) = Num (of_nat n)"
proof -
  have d: "\<forall>c \<in> set (nat_text n). is_digit c" by (rule nat_text_digits)
  obtain c t where ct: "nat_text n = c # t" using nat_text_nonempty by (cases "nat_text n") auto
  have pre: "map to_lower (take 2 (nat_text n)) = take 2 (nat_text n)"
  proof (rule map_idI)
    fix z assume "z \<in> set (take 2 (nat_text n))"
    then have "z \<in> set (nat_text n)" by (rule in_set_takeD)
    with d show "to_lower z = z" by (simp add: lower_digits)
  qed
  have x: "take 2 (nat_text n) \<noteq> [CHR ''0'', z]" if "\<not> is_digit z" for z
  proof
    assume "take 2 (nat_text n) = [CHR ''0'', z]"
    then have "z \<in> set (take 2 (nat_text n))" by simp
    then have "z \<in> set (nat_text n)" by (rule in_set_takeD)
    with d that show False by blast
  qed
  have z: "\<not> is_digit (CHR ''x'')" "\<not> is_digit (CHR ''o'')" "\<not> is_digit (CHR ''b'')"
    by (simp_all add: is_digit_def)
  have "is_digit c" using d ct by simp
  then have "c \<noteq> CHR ''-''" "c \<noteq> CHR ''I''" "c \<noteq> CHR ''+''"
    using is_digit_not_special [of c] nat_text_no_letter [of c] by simp_all
  then have y: "nat_text n \<noteq> ''Infinity''" "nat_text n \<noteq> ''+Infinity''" "nat_text n \<noteq> ''-Infinity''"
    "\<not> starts_with ''-'' (nat_text n)" "\<not> starts_with ''+'' (nat_text n)"
    by (auto simp: ct starts_with_def)
  show ?thesis
    by (simp only: parse_number_def Let_def trim_nat_text pre nat_text_nonempty x [OF z(1)]
        x [OF z(2)] x [OF z(3)] y if_False disj_not1 simp_thms parse_decimal_nat_text [OF assms])
qed

lemma parse_number_neg_text:
  assumes "n < 2 ^ 100" shows "parse_number (CHR ''-'' # nat_text n) = Num (- of_nat n)"
proof -
  obtain c t where ct: "nat_text n = c # t" using nat_text_nonempty by (cases "nat_text n") auto
  with nat_text_digits [of n] have "is_digit c" by simp
  with nat_text_no_letter have "c \<noteq> CHR ''I''" by blast
  then show ?thesis
    using assms trim_nat_text(2) [of n] parse_decimal_nat_text [OF assms]
    by (simp add: parse_number_def Let_def starts_with_def ct to_lower_def)
qed

lemma parse_number_int_text:
  assumes "\<bar>i\<bar> < 2 ^ 100" shows "parse_number (int_text i) = Num (of_int i)"
  using assms parse_number_nat_text [of "nat i"] parse_number_neg_text [of "nat (- i)"]
  by (auto simp: int_text_def nat_less_iff)

end
