(* ===== verification/Gas.thy ===== *)
theory Gas
  imports JsValue
begin

text \<open>
  Gas accounting (src/gas.js): the schedule validation of the tracker's constructor, \<open>charge\<close>
  with its sticky exhaustion flag, and \<open>effectiveCeiling\<close>. The interface other components rely on
  is the locale \<open>gas_meter\<close>: what one payment does to the total and when it is refused. Its
  lemmas about whole sequences of payments are proved once and interpreted on the tracker.
\<close>

definition CANONICAL_GAS_KEYS :: "string list" where
  "CANONICAL_GAS_KEYS =
     [''VM_COMPUTATION'', ''VM_STATE_READ'', ''VM_STATE_WRITE'', ''VM_STATE_DELETE'',
      ''VM_ORACLE_READ'', ''VM_CROSSCHAIN_READ'', ''VM_ATTEST_REQUEST'', ''VM_EMISSION'',
      ''VM_XCALL_REQUEST'', ''VM_XCALL_CALLBACK'']"

record gas_tracker =
  schedule :: jsval
  ceiling :: rat
  used :: rat
  exhausted :: bool

text \<open>The ceiling of one execution: a positive integer request below the configured ceiling.\<close>

fun effectiveCeiling :: "jsval \<Rightarrow> rat \<Rightarrow> rat" where
  "effectiveCeiling (JNum (Num r)) configCeiling =
     (if rat_integral r \<and> 0 < r \<and> r < configCeiling then r else configCeiling)"
| "effectiveCeiling _ configCeiling = configCeiling"

text \<open>The constructor's two validation loops: every value, then every canonical key.\<close>

definition valid_cost :: "jsval \<Rightarrow> bool" where
  "valid_cost v \<longleftrightarrow> (case v of JNum (Num r) \<Rightarrow> rat_integral r \<and> 0 \<le> r | _ \<Rightarrow> False)"

definition check_schedule_value :: "string \<times> jsval \<Rightarrow> unit res" where
  "check_schedule_value kv =
     (if valid_cost (snd kv) then Inr ()
      else rbind (to_str (snd kv))
        (\<lambda>t. throw (''gas schedule value for '' @ fst kv @ '' must be a non-negative integer, got: '' @ t)))"

text \<open>\<open>key in gasSchedule\<close>: an own or an inherited property; the operator throws on a primitive.\<close>

definition check_schedule_key :: "jsval \<Rightarrow> string \<Rightarrow> unit res" where
  "check_schedule_key sched k =
     (if typeof sched \<noteq> ''object'' \<or> sched = JNull then Inl (TypeError ''Cannot use in operator'')
      else guard (js_get sched k = JUndef \<and> \<not> has_own sched k)
             (''gas schedule is missing required key: '' @ k))"

definition newGasTracker :: "jsval \<Rightarrow> rat \<Rightarrow> gas_tracker res" where
  "newGasTracker gasSchedule gasCeiling =
     rbind (check_all check_schedule_value (own_entries gasSchedule)) (\<lambda>_.
     rbind (check_all (check_schedule_key gasSchedule) CANONICAL_GAS_KEYS) (\<lambda>_.
     Inr \<lparr>schedule = gasSchedule, ceiling = gasCeiling, used = 0, exhausted = False\<rparr>))"

text \<open>\<open>charge\<close>: the total moves before the ceiling is compared, and stays moved when it throws.\<close>

definition bad_amount :: "jsval \<Rightarrow> unit res" where
  "bad_amount amount = rbind (to_str amount)
     (\<lambda>t. throw (''gas charge amount must be a non-negative finite number, got: '' @ t))"

fun charge :: "gas_tracker \<Rightarrow> jsval \<Rightarrow> unit res \<times> gas_tracker" where
  "charge tr (JNum (Num a)) =
     (if a < 0 then (bad_amount (JNum (Num a)), tr)
      else (let u = used tr + a in
        if ceiling tr < u
        then (Inl (GasExhaustedError u (ceiling tr)), tr\<lparr>used := u, exhausted := True\<rparr>)
        else (Inr (), tr\<lparr>used := u\<rparr>)))"
| "charge tr amount = (bad_amount amount, tr)"

definition gas_cost :: "gas_tracker \<Rightarrow> string \<Rightarrow> jsval" where
  "gas_cost tr k = js_get (schedule tr) k"

definition chargeComputation :: "gas_tracker \<Rightarrow> unit res \<times> gas_tracker" where
  "chargeComputation tr = charge tr (gas_cost tr ''VM_COMPUTATION'')"

definition getUsed :: "gas_tracker \<Rightarrow> rat" where
  "getUsed tr = used tr"

subsection \<open>One charge\<close>

lemma bad_amount_Inl [simp]: "isl (bad_amount v)" "bad_amount v \<noteq> Inr u"
  by (cases "to_str v"; simp add: bad_amount_def)+

lemma charge_frame [simp, frame_simps]:
  "schedule (snd (charge tr v)) = schedule tr"
  "ceiling (snd (charge tr v)) = ceiling tr"
  by (cases "(tr, v)" rule: charge.cases; simp add: Let_def)+

lemma charge_used_mono [gas_mono]: "used tr \<le> used (snd (charge tr v))"
  by (cases "(tr, v)" rule: charge.cases) (simp_all add: Let_def)

lemma charge_ok_used:
  "fst (charge tr v) = Inr u \<Longrightarrow>
   \<exists>a. v = JNum (Num a) \<and> 0 \<le> a \<and> used (snd (charge tr v)) = used tr + a
       \<and> used (snd (charge tr v)) \<le> ceiling tr"
proof -
  assume ok: "fst (charge tr v) = Inr u"
  then show ?thesis
    by (cases "(tr, v)" rule: charge.cases) (auto simp: Let_def not_less split: if_splits)
qed

text \<open>The tracker's invariant: the flag records exactly that the total passed the ceiling.\<close>

definition gas_inv :: "gas_tracker \<Rightarrow> bool" where
  "gas_inv tr \<longleftrightarrow> 0 \<le> used tr \<and> (exhausted tr \<longleftrightarrow> ceiling tr < used tr)"

lemma charge_inv [inv_intros]: "gas_inv tr \<Longrightarrow> gas_inv (snd (charge tr v))"
  by (cases "(tr, v)" rule: charge.cases) (auto simp: gas_inv_def Let_def)

lemma charge_sticky: "exhausted tr \<Longrightarrow> exhausted (snd (charge tr v))"
  by (cases "(tr, v)" rule: charge.cases) (auto simp: Let_def)

lemma charge_exhausted_throws:
  "gas_inv tr \<Longrightarrow> exhausted tr \<Longrightarrow> isl (fst (charge tr v))"
  by (cases "(tr, v)" rule: charge.cases) (auto simp: gas_inv_def Let_def)

subsection \<open>The interface: paying into a capped meter\<close>

fun pay_all :: "('t \<Rightarrow> rat \<Rightarrow> unit res \<times> 't) \<Rightarrow> rat list \<Rightarrow> 't \<Rightarrow> unit res \<times> 't" where
  "pay_all pay [] t = (Inr (), t)"
| "pay_all pay (a # as) t =
     (case pay t a of (Inl e, t') \<Rightarrow> (Inl e, t') | (Inr _, t') \<Rightarrow> pay_all pay as t')"

locale gas_meter =
  fixes pay :: "'t \<Rightarrow> rat \<Rightarrow> unit res \<times> 't"
    and spent :: "'t \<Rightarrow> rat"
    and cap :: "'t \<Rightarrow> rat"
  assumes pay_spent: "0 \<le> a \<Longrightarrow> spent (snd (pay t a)) = spent t + a"
    and pay_cap: "cap (snd (pay t a)) = cap t"
    and pay_refused: "0 \<le> a \<Longrightarrow> isl (fst (pay t a)) \<longleftrightarrow> cap t < spent t + a"
begin

lemma pay_all_cap: "cap (snd (pay_all pay as t)) = cap t"
proof (induction as arbitrary: t)
  case (Cons a as)
  then show ?case
    using pay_cap [of t a] by (auto split: prod.splits sum.splits)
qed simp

lemma pay_all_ok_iff:
  assumes "list_all (\<lambda>a. 0 \<le> a) as" "spent t \<le> cap t"
  shows "fst (pay_all pay as t) = Inr () \<longleftrightarrow> spent t + sum_list as \<le> cap t"
  using assms
proof (induction as arbitrary: t)
  case (Cons a as)
  then have a: "0 \<le> a" and as: "list_all (\<lambda>a. 0 \<le> a) as" by auto
  from as have nonneg: "0 \<le> sum_list as" by (induction as) auto
  obtain r t' where p: "pay t a = (r, t')" by fastforce
  show ?case
  proof (cases r)
    case (Inl e)
    with pay_refused [OF a, of t] p have "cap t < spent t + a" by simp
    with Inl p nonneg show ?thesis by simp
  next
    case (Inr u)
    with pay_refused [OF a, of t] pay_spent [OF a, of t] pay_cap [of t a] p
    have "spent t' = spent t + a" "cap t' = cap t" "spent t' \<le> cap t'" by simp_all
    with Cons.IH [OF as, of t'] Inr p show ?thesis by (simp add: add.assoc)
  qed
qed simp

lemma pay_all_ok_spent:
  assumes "list_all (\<lambda>a. 0 \<le> a) as" "fst (pay_all pay as t) = Inr ()"
  shows "spent (snd (pay_all pay as t)) = spent t + sum_list as"
  using assms
proof (induction as arbitrary: t)
  case (Cons a as)
  then have a: "0 \<le> a" and as: "list_all (\<lambda>a. 0 \<le> a) as" by auto
  obtain u t' where p: "pay t a = (Inr u, t')"
    using Cons.prems(2) by (cases "pay t a") (auto split: sum.splits)
  with pay_spent [OF a, of t] have "spent t' = spent t + a" by simp
  with Cons.IH [OF as, of t'] Cons.prems(2) p show ?case by (simp add: add.assoc)
qed simp

lemma pay_all_overshoot:
  assumes "list_all (\<lambda>a. 0 \<le> a \<and> a \<le> m) as" "spent t \<le> cap t"
  shows "spent (snd (pay_all pay as t)) \<le> cap t + m \<or> as = []"
  using assms
proof (induction as arbitrary: t)
  case (Cons a as)
  then have a: "0 \<le> a" "a \<le> m" and as: "list_all (\<lambda>a. 0 \<le> a \<and> a \<le> m) as" by auto
  obtain r t' where p: "pay t a = (r, t')" by fastforce
  with pay_spent [OF a(1), of t] pay_cap [of t a]
  have t': "spent t' = spent t + a" "cap t' = cap t" by simp_all
  show ?case
  proof (cases r)
    case (Inl e)
    with p t' a Cons.prems(2) show ?thesis by simp
  next
    case (Inr u)
    with pay_refused [OF a(1), of t] p t' have le: "spent t' \<le> cap t'" by simp
    have "0 \<le> m" using a by simp
    with Cons.IH [OF as le] Inr p t' le show ?thesis by (cases as) auto
  qed
qed simp

end

definition charge_num :: "gas_tracker \<Rightarrow> rat \<Rightarrow> unit res \<times> gas_tracker" where
  "charge_num tr a = charge tr (JNum (Num a))"

interpretation tracker: gas_meter charge_num used ceiling
proof unfold_locales
  fix tr :: gas_tracker and a :: rat assume "0 \<le> a"
  then show "used (snd (charge_num tr a)) = used tr + a"
    and "isl (fst (charge_num tr a)) \<longleftrightarrow> ceiling tr < used tr + a"
    by (auto simp: charge_num_def Let_def)
next
  fix tr :: gas_tracker and a :: rat
  show "ceiling (snd (charge_num tr a)) = ceiling tr"
    unfolding charge_num_def by (rule charge_frame)
qed

subsection \<open>The validated schedule\<close>

lemma canonical_not_inherited: "k \<in> set CANONICAL_GAS_KEYS \<Longrightarrow> inherited k = JUndef"
  by (auto simp: CANONICAL_GAS_KEYS_def inherited_def object_proto_def)

lemma canonical_not_index: "k \<in> set CANONICAL_GAS_KEYS \<Longrightarrow> own_prop (JArr xs) k = None"
  by (auto simp: CANONICAL_GAS_KEYS_def array_index_def is_digit_def)

lemma canonical_not_array: "k \<in> set CANONICAL_GAS_KEYS \<Longrightarrow> k \<notin> set array_proto"
  by (auto simp: CANONICAL_GAS_KEYS_def array_proto_def)

lemma canonical_lookup:
  assumes "check_schedule_key sched k = Inr ()" "k \<in> set CANONICAL_GAS_KEYS"
  shows "\<exists>v. (k, v) \<in> set (own_entries sched) \<and> js_get sched k = v"
proof (cases sched)
  case (JObj kvs)
  with assms obtain v where "map_of kvs k = Some v"
    using canonical_not_inherited [of k]
    by (auto simp: check_schedule_key_def js_get_def has_own_def split: option.splits if_splits)
  with JObj show ?thesis by (auto simp: js_get_def dest: map_of_SomeD)
next
  case (JArr xs)
  with assms show ?thesis
    using canonical_not_inherited canonical_not_index canonical_not_array
    by (auto simp: check_schedule_key_def js_get_def has_own_def split: if_splits)
qed (use assms canonical_not_inherited [of k] in
      \<open>auto simp: check_schedule_key_def js_get_def has_own_def split: if_splits\<close>)

lemma newGasTracker_ok:
  assumes "newGasTracker sched c = Inr tr"
  shows "tr = \<lparr>schedule = sched, ceiling = c, used = 0, exhausted = False\<rparr>"
    "k \<in> set CANONICAL_GAS_KEYS \<Longrightarrow> valid_cost (gas_cost tr k)"
proof -
  from assms show tr: "tr = \<lparr>schedule = sched, ceiling = c, used = 0, exhausted = False\<rparr>"
    by (auto simp: newGasTracker_def rbind_Inr_iff)
  assume k: "k \<in> set CANONICAL_GAS_KEYS"
  from assms have vals: "\<forall>kv \<in> set (own_entries sched). check_schedule_value kv = Inr ()"
    and keys: "\<forall>k \<in> set CANONICAL_GAS_KEYS. check_schedule_key sched k = Inr ()"
    by (auto simp: newGasTracker_def rbind_Inr_iff check_all_ok_iff)
  from keys k canonical_lookup obtain v where
    "(k, v) \<in> set (own_entries sched)" "js_get sched k = v" by blast
  with vals tr show "valid_cost (gas_cost tr k)"
    by (force simp: gas_cost_def check_schedule_value_def rbind_Inr_iff split: if_splits)
qed

lemma valid_costE: "valid_cost v \<Longrightarrow> \<exists>r. v = JNum (Num r) \<and> 0 \<le> r \<and> rat_integral r"
  by (auto simp: valid_cost_def split: jsval.splits jsnum.splits)

subsection \<open>Properties\<close>


definition demo_tracker :: gas_tracker where
  "demo_tracker = \<lparr>schedule = JObj [], ceiling = 10, used = 0, exhausted = False\<rparr>"


text \<open>The charges of a run whose contract catches every fault: each is attempted.\<close>

fun charge_each :: "jsval list \<Rightarrow> gas_tracker \<Rightarrow> unit res list \<times> gas_tracker" where
  "charge_each [] tr = ([], tr)"
| "charge_each (v # vs) tr =
     (let (r, tr') = charge tr v; (rs, tr'') = charge_each vs tr' in (r # rs, tr''))"

lemma charge_each_inv:
  "gas_inv tr \<Longrightarrow> gas_inv (snd (charge_each vs tr)) \<and> ceiling (snd (charge_each vs tr)) = ceiling tr
     \<and> used tr \<le> used (snd (charge_each vs tr))"
proof (induction vs arbitrary: tr)
  case (Cons v vs)
  have "gas_inv (snd (charge tr v))" by (rule charge_inv [OF Cons.prems])
  from Cons.IH [OF this] charge_used_mono [of tr v] charge_frame(2) [of tr v] show ?case
    by (auto simp: Let_def split: prod.splits)
qed simp

lemma charge_each_spent:
  "gas_inv tr \<Longrightarrow> exhausted tr \<Longrightarrow> list_all isl (fst (charge_each vs tr))"
proof (induction vs arbitrary: tr)
  case (Cons v vs)
  have i: "gas_inv (snd (charge tr v))" and e: "exhausted (snd (charge tr v))"
    using charge_inv [OF Cons.prems(1)] charge_sticky [OF Cons.prems(2)] by blast+
  from Cons.IH [OF i e] charge_exhausted_throws [OF Cons.prems, of v] show ?case
    by (auto simp: Let_def split: prod.splits)
qed simp

lemma to_str_faults:
  "to_str v = Inl e \<Longrightarrow> \<exists>m. e = TypeError m"
  "to_str_elems vs = Inl e \<Longrightarrow> \<exists>m. e = TypeError m"
  by (induction v and vs arbitrary: e and e rule: to_str_to_str_elems.induct)
    (auto simp: rbind_Inl_iff split: if_splits)

lemma bad_amount_no_gas: "bad_amount v \<noteq> Inl (GasExhaustedError u c)"
  using to_str_faults(1) [of v] by (cases "to_str v") (auto simp: bad_amount_def)

lemma charge_gas_fault: "fst (charge tr v) = Inl (GasExhaustedError u c) \<Longrightarrow> exhausted (snd (charge tr v))"
  by (cases "(tr, v)" rule: charge.cases) (auto simp: Let_def bad_amount_no_gas split: if_splits)

lemma charge_gas_flag:
  "exhausted (snd (charge tr v)) \<Longrightarrow> \<not> exhausted tr \<Longrightarrow>
     fst (charge tr v) = Inl (GasExhaustedError (used (snd (charge tr v))) (ceiling tr))"
  by (cases "(tr, v)" rule: charge.cases) (auto simp: Let_def split: if_splits)

lemma charge_each_sticky: "exhausted tr \<Longrightarrow> exhausted (snd (charge_each vs tr))"
proof (induction vs arbitrary: tr)
  case (Cons v vs)
  from Cons.IH [OF charge_sticky [OF Cons.prems], of v] show ?case
    by (auto simp: Let_def split: prod.splits)
qed simp

lemma charge_each_flag:
  "\<not> exhausted tr \<Longrightarrow> exhausted (snd (charge_each vs tr)) \<longleftrightarrow>
     (\<exists>r \<in> set (fst (charge_each vs tr)). \<exists>u c. r = Inl (GasExhaustedError u c))"
proof (induction vs arbitrary: tr)
  case (Cons v vs)
  show ?case
  proof (cases "exhausted (snd (charge tr v))")
    case True
    with charge_gas_flag [OF True Cons.prems] charge_each_sticky [OF True, of vs] show ?thesis
      by (auto simp: Let_def split: prod.splits)
  next
    case False
    with Cons.IH [OF False] charge_gas_fault [of tr v] show ?thesis
      by (fastforce simp: Let_def split: prod.splits)
  qed
qed simp

text \<open>A swallowed exhaustion is still known to the host. Whatever amounts a contract causes to
  be charged, catching every fault, the flag is up at the end exactly when some charge threw
  \<open>GasExhaustedError\<close>, exactly when the total passed the ceiling; the total never falls, the
  ceiling never moves, and once the flag is up every further charge throws.\<close>

theorem exhaustion_is_recorded:
  assumes "gas_inv tr"
  shows "(exhausted (snd (charge_each vs tr)) \<longleftrightarrow> ceiling tr < used (snd (charge_each vs tr)))
     \<and> (\<not> exhausted tr \<longrightarrow> (exhausted (snd (charge_each vs tr)) \<longleftrightarrow>
          (\<exists>r \<in> set (fst (charge_each vs tr)). \<exists>u c. r = Inl (GasExhaustedError u c))))
     \<and> (exhausted tr \<longrightarrow> list_all isl (fst (charge_each vs tr)))
     \<and> used tr \<le> used (snd (charge_each vs tr)) \<and> ceiling (snd (charge_each vs tr)) = ceiling tr"
  using charge_each_inv [OF assms, of vs] charge_each_flag [of tr vs] charge_each_spent [OF assms, of vs]
  by (auto simp: gas_inv_def)

theorem exhaustion_is_recorded_witness:
  "exhausted (snd (charge_each [JNum (Num 8), JNum NaN, JNum (Num 5), JNum (Num 0)] demo_tracker))"
proof -
  have "gas_inv demo_tracker" by (simp add: gas_inv_def demo_tracker_def)
  from exhaustion_is_recorded [OF this, of "[JNum (Num 8), JNum NaN, JNum (Num 5), JNum (Num 0)]"]
  show ?thesis by (simp add: demo_tracker_def Let_def)
qed

text \<open>A schedule the constructor accepts never faults a metered operation: on every canonical
  key a charge either succeeds or reports exhaustion, it never stops the run with the
  bad-amount error that a missing or malformed schedule value would raise, and it moves the total
  by exactly the scheduled integer.\<close>

theorem accepted_schedule_never_faults:
  assumes "newGasTracker sched c = Inr tr0" "schedule tr = sched" "k \<in> set CANONICAL_GAS_KEYS"
  shows "\<exists>a. 0 \<le> a \<and> rat_integral a \<and> used (snd (charge tr (gas_cost tr k))) = used tr + a
     \<and> fst (charge tr (gas_cost tr k)) =
          (if used tr + a \<le> ceiling tr then Inr () else Inl (GasExhaustedError (used tr + a) (ceiling tr)))"
proof -
  from newGasTracker_ok [OF assms(1)] assms(3) have "valid_cost (gas_cost tr0 k)" "schedule tr0 = sched"
    by simp_all
  with assms(2) have "valid_cost (gas_cost tr k)" by (simp add: gas_cost_def)
  from valid_costE [OF this] obtain a where "gas_cost tr k = JNum (Num a)" "0 \<le> a" "rat_integral a"
    by blast
  then show ?thesis by (intro exI [of _ a]) (auto simp: Let_def)
qed

definition unit_schedule :: jsval where
  "unit_schedule = JObj (map (\<lambda>k. (k, JNum (Num 1))) CANONICAL_GAS_KEYS)"

theorem accepted_schedule_never_faults_witness:
  "fst (charge \<lparr>schedule = unit_schedule, ceiling = 10, used = 0, exhausted = False\<rparr> (JNum (Num 1))) = Inr ()"
proof -
  have i: "rat_integral 1" by (simp add: rat_integral_def)
  have a: "newGasTracker unit_schedule 10
      = Inr \<lparr>schedule = unit_schedule, ceiling = 10, used = 0, exhausted = False\<rparr>"
    using i
    by (simp add: newGasTracker_def unit_schedule_def CANONICAL_GAS_KEYS_def check_schedule_value_def
        valid_cost_def check_schedule_key_def js_get_def has_own_def)
  from accepted_schedule_never_faults [OF a, of "\<lparr>schedule = unit_schedule, ceiling = 10, used = 0, exhausted = False\<rparr>" "''VM_EMISSION''"]
  show ?thesis
    by (auto simp: gas_cost_def unit_schedule_def CANONICAL_GAS_KEYS_def js_get_def Let_def)
qed

end
