(* ===== verification/VmLimits.thy ===== *)
theory VmLimits
  imports JsValue
begin

text \<open>
  The resource limits (src/index/runtime/limits_defaults.js) and the protocol constants they
  default to (src/protocol/constants.js, src/index/constants.js). \<open>resolveLimits\<close> back-fills every
  bound an execution depends on, so a partial limits object never leaves a cap undefined.
\<close>

definition MAX_CODE_SIZE :: int where "MAX_CODE_SIZE = 65536"
definition VM_MAX_CALL_DEPTH :: int where "VM_MAX_CALL_DEPTH = 4"
definition VM_MIN_CALL_GAS :: int where "VM_MIN_CALL_GAS = 5000"
definition MAX_STACK_DEPTH :: int where "MAX_STACK_DEPTH = 512"
definition XCALL_MIN_GAS :: int where "XCALL_MIN_GAS = 5000"
definition XCALL_MAX_GAS :: int where "XCALL_MAX_GAS = 200000"
definition XCALL_MAX_HOPS :: int where "XCALL_MAX_HOPS = 2"
definition XCALL_MIN_DEADLINE_BLOCKS :: int where "XCALL_MIN_DEADLINE_BLOCKS = 10"
definition XCALL_MAX_DEADLINE_BLOCKS :: int where "XCALL_MAX_DEADLINE_BLOCKS = 4000"

text \<open>
  The limits an execution reads. The bounds \<open>resolveLimits\<close> back-fills are integers; the wall
  clock knob, the isolate memory, the compilation-cache bound and the key size are whatever the
  caller gave (\<open>JUndef\<close> when absent).
\<close>

record vm_limits =
  maxCpuTimeMs :: jsval
  maxMemory :: jsval
  maxBlockCacheSize :: jsval
  maxStateKeySize :: jsval
  maxEmissions :: int
  maxStateKeys :: int
  maxStateValueSize :: int
  maxCodeSize :: int
  maxCallDepth :: int
  minCallGas :: int
  maxStackDepth :: int

definition DEFAULT_LIMITS :: "(string \<times> jsval) list" where
  "DEFAULT_LIMITS =
     [(''maxCpuTimeMs'', JNum (Num 30000)), (''maxMemory'', JNum (Num 8)),
      (''maxEmissions'', JNum (Num 50)), (''maxStateKeys'', JNum (Num 10000)),
      (''maxStateValueSize'', JNum (Num 65536)), (''maxCodeSize'', JNum (Num 65536)),
      (''maxBlockCacheSize'', JNum (Num 1000))]"

definition int_or :: "jsval \<Rightarrow> int \<Rightarrow> int" where
  "int_or v d = (case v of JNum (Num r) \<Rightarrow> if rat_integral r then \<lfloor>r\<rfloor> else d | _ \<Rightarrow> d)"

definition resolveLimits :: "jsval \<Rightarrow> vm_limits" where
  "resolveLimits limits =
     (let out = (if truthy limits then limits else JObj DEFAULT_LIMITS) in
      \<lparr>maxCpuTimeMs = js_get out ''maxCpuTimeMs'',
       maxMemory = js_get out ''maxMemory'',
       maxBlockCacheSize = js_get out ''maxBlockCacheSize'',
       maxStateKeySize = js_get out ''maxStateKeySize'',
       maxEmissions = int_or (js_get out ''maxEmissions'') 50,
       maxStateKeys = int_or (js_get out ''maxStateKeys'') 10000,
       maxStateValueSize = int_or (js_get out ''maxStateValueSize'') 65536,
       maxCodeSize = int_or (js_get out ''maxCodeSize'') MAX_CODE_SIZE,
       maxCallDepth = int_or (js_get out ''maxCallDepth'') VM_MAX_CALL_DEPTH,
       minCallGas = int_or (js_get out ''minCallGas'') VM_MIN_CALL_GAS,
       maxStackDepth = MAX_STACK_DEPTH\<rparr>)"

text \<open>\<open>limits.maxStateKeySize || 1024\<close>, the bound on a key's byte length.\<close>

definition maxKeySize :: "vm_limits \<Rightarrow> jsval" where
  "maxKeySize l = js_or (maxStateKeySize l) (JNum (Num 1024))"

text \<open>The relational comparison of a byte length with a limit that may not be a number.\<close>

definition exceeds :: "nat \<Rightarrow> jsval \<Rightarrow> bool" where
  "exceeds n v = (case to_num v of Inl _ \<Rightarrow> False | Inr b \<Rightarrow> num_less b (Num (of_nat n)))"

lemma int_or_of_int [simp]: "int_or (JNum (Num (of_int i))) d = i"
  by (simp add: int_or_def)

lemma exceeds_num [simp]: "exceeds n (JNum (Num r)) \<longleftrightarrow> r < of_nat n"
  by (simp add: exceeds_def)

text \<open>A partial limits object still has every back-filled bound: whatever field the caller
  left out or mistyped resolves to the protocol default, a field the caller gave as an integer is
  kept, and the recursion bound is the protocol constant whatever the caller passed.\<close>

theorem resolveLimits_backfills:
  assumes "truthy limits"
  shows "(\<not> isInteger (js_get limits ''maxEmissions'') \<longrightarrow> maxEmissions (resolveLimits limits) = 50)
     \<and> (\<not> isInteger (js_get limits ''maxCodeSize'') \<longrightarrow> maxCodeSize (resolveLimits limits) = 65536)
     \<and> (\<not> isInteger (js_get limits ''maxStateKeys'') \<longrightarrow> maxStateKeys (resolveLimits limits) = 10000)
     \<and> (\<not> isInteger (js_get limits ''maxStateValueSize'')
          \<longrightarrow> maxStateValueSize (resolveLimits limits) = 65536)
     \<and> (\<not> isInteger (js_get limits ''maxCallDepth'') \<longrightarrow> maxCallDepth (resolveLimits limits) = 4)
     \<and> (\<not> isInteger (js_get limits ''minCallGas'') \<longrightarrow> minCallGas (resolveLimits limits) = 5000)
     \<and> (js_get limits ''maxEmissions'' = JNum (Num (of_int n)) \<longrightarrow> maxEmissions (resolveLimits limits) = n)
     \<and> maxStackDepth (resolveLimits limits) = 512"
proof -
  have d: "\<not> isInteger v \<Longrightarrow> int_or v d = d" for v d
    by (cases v rule: isInteger.cases) (auto simp: int_or_def)
  from assms show ?thesis
    by (simp add: resolveLimits_def Let_def d MAX_CODE_SIZE_def VM_MAX_CALL_DEPTH_def
        VM_MIN_CALL_GAS_def MAX_STACK_DEPTH_def)
qed

theorem resolveLimits_backfills_witness:
  "maxEmissions (resolveLimits (JObj [(''maxCodeSize'', JStr ''big'')])) = 50
   \<and> maxCodeSize (resolveLimits (JObj [(''maxCodeSize'', JStr ''big'')])) = 65536"
proof -
  let ?l = "JObj [(''maxCodeSize'', JStr ''big'')]"
  have h: "truthy ?l" "\<not> isInteger (js_get ?l ''maxEmissions'')"
    "\<not> isInteger (js_get ?l ''maxCodeSize'')"
    by (simp_all add: js_get_def inherited_def object_proto_def)
  show ?thesis using resolveLimits_backfills [OF h(1)] h(2,3) by simp
qed

end
