(* ===== verification/StateStore.thy ===== *)
theory StateStore
  imports VmLimits
begin

text \<open>
  The contract state manager (src/state.js): a snapshot of the stored state overlaid by a
  \<open>dirty\<close> map in which null marks a deletion, with the size, NUL, value and key-count guards.
  The interface a client relies on is the locale \<open>kv_store\<close>; it is interpreted on the manager
  with canonical string keys (the behaviour at and after the key-normalisation gate).
\<close>

text \<open>
  \<open>st_base\<close> is the prototype-free \<open>state\<close> object, \<open>st_dirty\<close> the insertion-ordered \<open>Map\<close>. A \<open>Map\<close>
  compares keys by identity: primitives by value, and two object keys never, since every gateway
  call rebuilds its arguments.
\<close>

record store =
  st_base :: "(string \<times> jsval) list"
  st_dirty :: "(jsval \<times> jsval) list"
  keyCount :: int
  st_limits :: vm_limits
  rejectNulKeys :: bool
  normalizeKeys :: bool

fun is_primitive :: "jsval \<Rightarrow> bool" where
  "is_primitive (JArr _) = False"
| "is_primitive (JObj _) = False"
| "is_primitive (JNative _) = False"
| "is_primitive _ = True"

definition dirty_get :: "(jsval \<times> jsval) list \<Rightarrow> jsval \<Rightarrow> jsval option" where
  "dirty_get d k = (if is_primitive k then map_of d k else None)"

text \<open>\<open>Map.set\<close>: an existing key keeps its place, a new one goes to the end.\<close>

fun map_set :: "(jsval \<times> jsval) list \<Rightarrow> jsval \<Rightarrow> jsval \<Rightarrow> (jsval \<times> jsval) list" where
  "map_set [] k v = [(k, v)]"
| "map_set ((k', v') # d) k v =
     (if is_primitive k \<and> k' = k then (k, v) # d else (k', v') # map_set d k v)"

definition newStateManager :: "jsval \<Rightarrow> vm_limits \<Rightarrow> bool \<Rightarrow> bool \<Rightarrow> store" where
  "newStateManager initialState limits rejectNul canonKeys =
     (let base = filter (\<lambda>(k, v). \<not> nullish v) (own_entries initialState) in
      \<lparr>st_base = base, st_dirty = [], keyCount = int (length base), st_limits = limits,
       rejectNulKeys = rejectNul, normalizeKeys = canonKeys\<rparr>)"

definition normKey :: "store \<Rightarrow> jsval \<Rightarrow> jsval res" where
  "normKey st key =
     (if \<not> normalizeKeys st then Inr key
      else case key of
        JStr s \<Rightarrow> Inr (JStr s)
      | JNum n \<Rightarrow> Inr (JStr (num_text n))
      | JBool b \<Rightarrow> Inr (JStr (if b then ''true'' else ''false''))
      | _ \<Rightarrow> throw ''state key must be a string, number, or boolean'')"

text \<open>The read and liveness of an already normalised key; \<open>key in this.state\<close> string-coerces.\<close>

definition get_norm :: "store \<Rightarrow> jsval \<Rightarrow> jsval res" where
  "get_norm st k =
     (case dirty_get (st_dirty st) k of
        Some v \<Rightarrow> Inr v
      | None \<Rightarrow> rbind (to_str k)
          (\<lambda>s. Inr (case map_of (st_base st) s of Some v \<Rightarrow> v | None \<Rightarrow> JNull)))"

definition has_norm :: "store \<Rightarrow> jsval \<Rightarrow> bool res" where
  "has_norm st k =
     (case dirty_get (st_dirty st) k of
        Some v \<Rightarrow> Inr (v \<noteq> JNull)
      | None \<Rightarrow> rbind (to_str k) (\<lambda>s. Inr (map_of (st_base st) s \<noteq> None)))"

definition stateGet :: "store \<Rightarrow> jsval \<Rightarrow> jsval res" where
  "stateGet st key = rbind (normKey st key) (get_norm st)"

definition stateHas :: "store \<Rightarrow> jsval \<Rightarrow> bool res" where
  "stateHas st key = rbind (normKey st key) (has_norm st)"

text \<open>The key guards \<open>set\<close> and \<open>delete\<close> share.\<close>

definition check_key :: "store \<Rightarrow> jsval \<Rightarrow> unit res" where
  "check_key st k =
     (case k of
        JStr s \<Rightarrow>
          if exceeds (length s) (maxKeySize (st_limits st))
          then rbind (to_str (maxKeySize (st_limits st)))
                 (\<lambda>t. throw (''state key exceeds max size ('' @ t @ '' bytes)''))
          else guard (rejectNulKeys st \<and> CHR 0x00 \<in> set s) ''state key contains a NUL (0x00) byte''
      | _ \<Rightarrow> Inr ())"

definition check_value :: "store \<Rightarrow> jsval \<Rightarrow> unit res" where
  "check_value st v =
     (if nullish v
      then throw ''state value cannot be null or undefined; use state.delete() to remove keys''
      else if typeof v = ''number'' \<and> \<not> isFinite v
      then throw ''state value cannot be NaN or Infinity; use xchain.math for numeric operations''
      else case json_text v of
        None \<Rightarrow> throw ''state value must be JSON-serializable''
      | Some t \<Rightarrow> guard (maxStateValueSize (st_limits st) < int (length t))
                    (''state value exceeds max size ('' @ int_text (maxStateValueSize (st_limits st))
                       @ '' bytes)''))"

definition set_norm :: "store \<Rightarrow> jsval \<Rightarrow> jsval \<Rightarrow> unit res \<times> store" where
  "set_norm st k v =
     (case rbind (check_key st k) (\<lambda>_. rbind (check_value st v) (\<lambda>_. has_norm st k)) of
        Inl e \<Rightarrow> (Inl e, st)
      | Inr isLive \<Rightarrow>
          if \<not> isLive \<and> maxStateKeys (st_limits st) \<le> keyCount st
          then (throw (''contract exceeds max state keys ('' @ int_text (maxStateKeys (st_limits st))
                  @ '')''), st)
          else (Inr (), st\<lparr>st_dirty := map_set (st_dirty st) k v,
                          keyCount := (if isLive then keyCount st else keyCount st + 1)\<rparr>))"

definition stateSet :: "store \<Rightarrow> jsval \<Rightarrow> jsval \<Rightarrow> unit res \<times> store" where
  "stateSet st key v =
     (case normKey st key of Inl e \<Rightarrow> (Inl e, st) | Inr k \<Rightarrow> set_norm st k v)"

definition delete_norm :: "store \<Rightarrow> jsval \<Rightarrow> bool res \<times> store" where
  "delete_norm st k =
     (case rbind (check_key st k) (\<lambda>_. has_norm st k) of
        Inl e \<Rightarrow> (Inl e, st)
      | Inr isLive \<Rightarrow>
          (Inr isLive,
           if isLive then st\<lparr>st_dirty := map_set (st_dirty st) k JNull, keyCount := keyCount st - 1\<rparr>
           else st))"

definition stateDelete :: "store \<Rightarrow> jsval \<Rightarrow> bool res \<times> store" where
  "stateDelete st key =
     (case normKey st key of Inl e \<Rightarrow> (Inl e, st) | Inr k \<Rightarrow> delete_norm st k)"

text \<open>The committed writes and deletes, each in the order of first touch.\<close>

definition getChanges :: "store \<Rightarrow> (jsval \<times> jsval) list \<times> jsval list" where
  "getChanges st =
     (filter (\<lambda>(k, v). v \<noteq> JNull) (st_dirty st), map fst (filter (\<lambda>(k, v). v = JNull) (st_dirty st)))"

subsection \<open>The dirty map\<close>

lemma map_of_map_set [simp]: "is_primitive k \<Longrightarrow> map_of (map_set d k v) = (map_of d)(k \<mapsto> v)"
  by (induction d k v rule: map_set.induct) auto

lemma fst_map_set: "is_primitive k \<Longrightarrow> set (map fst (map_set d k v)) = insert k (set (map fst d))"
  by (induction d k v rule: map_set.induct) auto

lemma distinct_map_set: "is_primitive k \<Longrightarrow> distinct (map fst d) \<Longrightarrow> distinct (map fst (map_set d k v))"
  by (induction d k v rule: map_set.induct) (auto simp: fst_map_set simp del: set_map)

lemma set_map_set: "set (map_set d k v) \<subseteq> insert (k, v) (set d)"
  by (induction d k v rule: map_set.induct) auto

subsection \<open>The store as a map, and its invariant\<close>

text \<open>What a contract sees: the dirty entry if there is one, else the snapshot.\<close>

definition live :: "store \<Rightarrow> string \<Rightarrow> jsval option" where
  "live st s = (case map_of (st_dirty st) (JStr s) of
      Some v \<Rightarrow> if v = JNull then None else Some v
    | None \<Rightarrow> map_of (st_base st) s)"

definition store_inv :: "store \<Rightarrow> bool" where
  "store_inv st \<longleftrightarrow> normalizeKeys st
     \<and> distinct (map fst (st_base st)) \<and> (\<forall>(k, v) \<in> set (st_base st). \<not> nullish v)
     \<and> distinct (map fst (st_dirty st)) \<and> (\<forall>(k, v) \<in> set (st_dirty st). \<exists>s. k = JStr s)
     \<and> keyCount st = int (card (dom (live st)))"

lemma finite_dom_live [simp]: "finite (dom (live st))"
proof -
  have "dom (live st) \<subseteq> (\<Union>k \<in> fst ` set (st_dirty st). {s. k = JStr s}) \<union> fst ` set (st_base st)"
    by (force simp: live_def dom_def split: option.splits if_splits dest: map_of_SomeD)
  moreover have "finite {s. k = JStr s}" for k by (cases k) auto
  ultimately show ?thesis by (meson finite_UN_I finite_Un finite_imageI finite_set finite_subset)
qed

lemma newStateManager_inv:
  assumes "distinct (map fst (own_entries initial))"
  shows "store_inv (newStateManager initial lims nul True)"
proof -
  let ?b = "filter (\<lambda>(k, v). \<not> nullish v) (own_entries initial)"
  have d: "distinct (map fst ?b)" using assms by (rule distinct_map_filter)
  then have "card (dom (map_of ?b)) = length ?b"
    using distinct_card [OF d] by (simp add: dom_map_of_conv_image_fst)
  moreover have "live (newStateManager initial lims nul True) = map_of ?b"
    by (rule ext) (simp add: live_def newStateManager_def Let_def)
  ultimately show ?thesis
    using d by (auto simp: store_inv_def newStateManager_def Let_def)
qed

lemma normKey_JStr: "store_inv st \<Longrightarrow> normKey st key = Inr k \<Longrightarrow> \<exists>s. k = JStr s"
  by (auto simp: store_inv_def normKey_def split: jsval.splits)

lemma get_norm_live: "get_norm st (JStr s) = Inr (case live st s of Some v \<Rightarrow> v | None \<Rightarrow> JNull)"
  by (auto simp: get_norm_def dirty_get_def live_def split: option.splits)

lemma has_norm_live: "has_norm st (JStr s) = Inr (live st s \<noteq> None)"
  by (auto simp: has_norm_def dirty_get_def live_def split: option.splits)

lemma live_dirty_upd:
  "live (st\<lparr>st_dirty := map_set (st_dirty st) (JStr s) v, keyCount := n\<rparr>) =
     (live st)(s := (if v = JNull then None else Some v))"
  by (rule ext) (auto simp: live_def split: option.split)

lemma card_dom_upd:
  "int (card (dom ((live st)(s \<mapsto> v)))) =
     (if live st s = None then int (card (dom (live st))) + 1 else int (card (dom (live st))))"
  by (auto simp: card_insert_if domIff insert_absorb)

lemma card_dom_del:
  "live st s \<noteq> None \<Longrightarrow> int (card (dom ((live st)(s := None)))) = int (card (dom (live st))) - 1"
proof -
  assume "live st s \<noteq> None"
  then have "s \<in> dom (live st)" by auto
  moreover from this have "0 < card (dom (live st))" by (auto simp: card_gt_0_iff)
  ultimately show ?thesis by (simp add: of_nat_diff)
qed

lemma store_inv_upd:
  assumes "store_inv st" "n = int (card (dom ((live st)(s := (if v = JNull then None else Some v)))))"
  shows "store_inv (st\<lparr>st_dirty := map_set (st_dirty st) (JStr s) v, keyCount := n\<rparr>)"
  using assms set_map_set [of "st_dirty st" "JStr s" v]
  unfolding store_inv_def live_dirty_upd by (auto simp: distinct_map_set)

text \<open>The functional behaviour of a successful write and of every delete, on a canonical key.\<close>

lemma set_norm_ok:
  assumes "store_inv st" "set_norm st (JStr s) v = (Inr u, st')"
  shows "live st' = (live st)(s \<mapsto> v)" "store_inv st'" "v \<noteq> JNull"
    "st_limits st' = st_limits st" "keyCount st' \<le> max (keyCount st) (maxStateKeys (st_limits st))"
proof -
  from assms(2) have v: "v \<noteq> JNull"
    by (auto simp: set_norm_def check_value_def split: sum.splits if_splits dest!: rbind_Inr_iff [THEN iffD1])
  let ?n = "if live st s \<noteq> None then keyCount st else keyCount st + 1"
  from assms(2) have st': "st' = st\<lparr>st_dirty := map_set (st_dirty st) (JStr s) v, keyCount := ?n\<rparr>"
    and room: "live st s = None \<Longrightarrow> keyCount st < maxStateKeys (st_limits st)"
    by (auto simp: set_norm_def has_norm_live split: sum.splits if_splits
        dest!: rbind_Inr_iff [THEN iffD1])
  from v show "v \<noteq> JNull" .
  from v st' show "live st' = (live st)(s \<mapsto> v)" by (simp add: live_dirty_upd)
  have "?n = int (card (dom ((live st)(s \<mapsto> v))))"
    using assms(1) by (simp only: card_dom_upd store_inv_def) auto
  with v have "?n = int (card (dom ((live st)(s := (if v = JNull then None else Some v)))))" by simp
  with assms(1) show "store_inv st'" unfolding st' by (rule store_inv_upd)
  from st' room show "st_limits st' = st_limits st"
    "keyCount st' \<le> max (keyCount st) (maxStateKeys (st_limits st))" by auto
qed

lemma set_norm_error: "set_norm st k v = (Inl e, st') \<Longrightarrow> st' = st"
  by (auto simp: set_norm_def split: sum.splits if_splits)

lemma delete_norm_ok:
  assumes "store_inv st" "delete_norm st (JStr s) = (Inr b, st')"
  shows "live st' = (live st)(s := None)" "store_inv st'" "b \<longleftrightarrow> live st s \<noteq> None"
    "st_limits st' = st_limits st" "keyCount st' \<le> keyCount st"
proof -
  from assms(2) have b: "b \<longleftrightarrow> live st s \<noteq> None"
    and st': "st' = (if b then st\<lparr>st_dirty := map_set (st_dirty st) (JStr s) JNull,
                                 keyCount := keyCount st - 1\<rparr> else st)"
    by (auto simp: delete_norm_def has_norm_live split: sum.splits dest!: rbind_Inr_iff [THEN iffD1])
  from b show "b \<longleftrightarrow> live st s \<noteq> None" .
  show "live st' = (live st)(s := None)" using st' b by (auto simp: live_dirty_upd)
  show "store_inv st'"
  proof (cases b)
    case True
    with b card_dom_del [of st s] assms(1)
    have "keyCount st - 1 = int (card (dom ((live st)(s := None))))" by (simp add: store_inv_def)
    with assms(1) st' True show ?thesis by (simp add: store_inv_upd)
  qed (use assms(1) st' in simp)
  from st' show "st_limits st' = st_limits st" "keyCount st' \<le> keyCount st" by auto
qed

lemma delete_norm_error: "delete_norm st k = (Inl e, st') \<Longrightarrow> st' = st"
  by (auto simp: delete_norm_def split: sum.splits)

subsection \<open>The interface a client of the store relies on\<close>

datatype ('k, 'v) mutation = Write 'k 'v | Erase 'k

text \<open>
  A contract issues writes and deletes in any order and may catch each refusal, so a run applies
  a list of mutations and skips those that throw; \<open>accepted\<close> is the log of the others.
\<close>

fun run_muts :: "('s \<Rightarrow> 'k \<Rightarrow> 'v \<Rightarrow> unit res \<times> 's) \<Rightarrow> ('s \<Rightarrow> 'k \<Rightarrow> bool res \<times> 's)
    \<Rightarrow> ('k, 'v) mutation list \<Rightarrow> 's \<Rightarrow> 's" where
  "run_muts w d [] s = s"
| "run_muts w d (Write k v # ms) s = run_muts w d ms (snd (w s k v))"
| "run_muts w d (Erase k # ms) s = run_muts w d ms (snd (d s k))"

fun accepted :: "('s \<Rightarrow> 'k \<Rightarrow> 'v \<Rightarrow> unit res \<times> 's) \<Rightarrow> ('s \<Rightarrow> 'k \<Rightarrow> bool res \<times> 's)
    \<Rightarrow> ('k, 'v) mutation list \<Rightarrow> 's \<Rightarrow> ('k, 'v) mutation list" where
  "accepted w d [] s = []"
| "accepted w d (Write k v # ms) s =
     (if isl (fst (w s k v)) then [] else [Write k v]) @ accepted w d ms (snd (w s k v))"
| "accepted w d (Erase k # ms) s =
     (if isl (fst (d s k)) then [] else [Erase k]) @ accepted w d ms (snd (d s k))"

fun apply_mut :: "('k, 'v) mutation \<Rightarrow> ('k \<Rightarrow> 'v option) \<Rightarrow> ('k \<Rightarrow> 'v option)" where
  "apply_mut (Write k v) m = m(k \<mapsto> v)"
| "apply_mut (Erase k) m = m(k := None)"

locale kv_store =
  fixes store_put :: "'s \<Rightarrow> 'k \<Rightarrow> 'v \<Rightarrow> unit res \<times> 's"
    and store_del :: "'s \<Rightarrow> 'k \<Rightarrow> bool res \<times> 's"
    and view :: "'s \<Rightarrow> 'k \<Rightarrow> 'v option"
    and ok :: "'s \<Rightarrow> bool"
    and count :: "'s \<Rightarrow> int"
    and room :: "'s \<Rightarrow> int"
  assumes write_view: "ok s \<Longrightarrow> \<not> isl (fst (store_put s k v)) \<Longrightarrow> view (snd (store_put s k v)) = (view s)(k \<mapsto> v)"
    and write_refused: "isl (fst (store_put s k v)) \<Longrightarrow> snd (store_put s k v) = s"
    and write_ok: "ok s \<Longrightarrow> ok (snd (store_put s k v))"
    and write_count: "ok s \<Longrightarrow> count (snd (store_put s k v)) \<le> max (count s) (room s)"
    and erase_view: "ok s \<Longrightarrow> \<not> isl (fst (store_del s k)) \<Longrightarrow> view (snd (store_del s k)) = (view s)(k := None)"
    and erase_refused: "isl (fst (store_del s k)) \<Longrightarrow> snd (store_del s k) = s"
    and erase_ok: "ok s \<Longrightarrow> ok (snd (store_del s k))"
    and erase_count: "ok s \<Longrightarrow> count (snd (store_del s k)) \<le> count s"
    and write_room: "room (snd (store_put s k v)) = room s"
    and erase_room: "room (snd (store_del s k)) = room s"
begin

lemma run_ok: "ok s \<Longrightarrow> ok (run_muts store_put store_del ms s)"
proof (induction ms arbitrary: s)
  case (Cons m ms)
  then show ?case using write_ok erase_ok by (cases m) auto
qed simp

lemma run_view:
  "ok s \<Longrightarrow> view (run_muts store_put store_del ms s) = fold apply_mut (accepted store_put store_del ms s) (view s)"
proof (induction ms arbitrary: s)
  case (Cons m ms)
  show ?case
  proof (cases m)
    case (Write k v)
    with Cons.IH [of "snd (store_put s k v)"] Cons.prems write_ok [of s k v] write_view [of s k v]
      write_refused [of s k v] show ?thesis by auto
  next
    case (Erase k)
    with Cons.IH [of "snd (store_del s k)"] Cons.prems erase_ok [of s k] erase_view [of s k]
      erase_refused [of s k] show ?thesis by auto
  qed
qed simp

lemma run_count: "ok s \<Longrightarrow> count (run_muts store_put store_del ms s) \<le> max (count s) (room s)"
proof (induction ms arbitrary: s)
  case (Cons m ms)
  show ?case
  proof (cases m)
    case (Write k v)
    with Cons.IH [of "snd (store_put s k v)"] Cons.prems write_ok write_count [of s k v]
      write_room [of s k v] show ?thesis by (auto simp: max_def split: if_splits)
  next
    case (Erase k)
    with Cons.IH [of "snd (store_del s k)"] Cons.prems erase_ok erase_count [of s k]
      erase_room [of s k] show ?thesis by (auto simp: max_def split: if_splits)
  qed
qed simp

end

text \<open>The manager implements it, for the canonical string keys \<open>normKey\<close> produces.\<close>

definition write_key :: "store \<Rightarrow> string \<Rightarrow> jsval \<Rightarrow> unit res \<times> store" where
  "write_key st s v = set_norm st (JStr s) v"

definition erase_key :: "store \<Rightarrow> string \<Rightarrow> bool res \<times> store" where
  "erase_key st s = delete_norm st (JStr s)"

interpretation manager: kv_store write_key erase_key live store_inv keyCount "maxStateKeys \<circ> st_limits"
proof unfold_locales
  fix st :: store and s v
  assume inv: "store_inv st"
  show "\<not> isl (fst (write_key st s v)) \<Longrightarrow> live (snd (write_key st s v)) = (live st)(s \<mapsto> v)"
    using set_norm_ok(1) [OF inv]
    by (cases "fst (write_key st s v)"; cases "write_key st s v") (auto simp: write_key_def)
  show "store_inv (snd (write_key st s v))"
    using set_norm_ok(2) [OF inv] set_norm_error [of st] inv
    by (cases "fst (write_key st s v)"; cases "write_key st s v") (fastforce simp: write_key_def)+
  show "keyCount (snd (write_key st s v)) \<le> max (keyCount st) ((maxStateKeys \<circ> st_limits) st)"
    using set_norm_ok(5) [OF inv] set_norm_error
    by (cases "fst (write_key st s v)"; cases "write_key st s v") (fastforce simp: write_key_def)+
next
  fix st :: store and s
  assume inv: "store_inv st"
  show "\<not> isl (fst (erase_key st s)) \<Longrightarrow> live (snd (erase_key st s)) = (live st)(s := None)"
    using delete_norm_ok(1) [OF inv] by (cases "fst (erase_key st s)"; cases "erase_key st s") (auto simp: erase_key_def)
  show "store_inv (snd (erase_key st s))"
    using delete_norm_ok(2) [OF inv] delete_norm_error [of st] inv
    by (cases "fst (erase_key st s)"; cases "erase_key st s") (fastforce simp: erase_key_def)+
  show "keyCount (snd (erase_key st s)) \<le> keyCount st"
    using delete_norm_ok(5) [OF inv] delete_norm_error
    by (cases "fst (erase_key st s)"; cases "erase_key st s") (fastforce simp: erase_key_def)+
next
  fix st :: store and s v
  show "isl (fst (write_key st s v)) \<Longrightarrow> snd (write_key st s v) = st"
    using set_norm_error by (cases "fst (write_key st s v)"; cases "write_key st s v") (auto simp: write_key_def)
  show "isl (fst (erase_key st s)) \<Longrightarrow> snd (erase_key st s) = st"
    using delete_norm_error by (cases "fst (erase_key st s)"; cases "erase_key st s") (auto simp: erase_key_def)
  show "(maxStateKeys \<circ> st_limits) (snd (write_key st s v)) = (maxStateKeys \<circ> st_limits) st"
    by (simp add: write_key_def set_norm_def split: sum.splits)
  show "(maxStateKeys \<circ> st_limits) (snd (erase_key st s)) = (maxStateKeys \<circ> st_limits) st"
    by (simp add: erase_key_def delete_norm_def split: sum.splits)
qed

subsection \<open>Committing the changes\<close>

text \<open>
  What the indexer does with a result: each delete removes a row, each change writes one. The
  keys of a normalised store are strings.
\<close>

fun key_of :: "jsval \<Rightarrow> string" where
  "key_of (JStr s) = s"
| "key_of _ = []"

definition commit :: "(string \<Rightarrow> jsval option) \<Rightarrow> (jsval \<times> jsval) list \<times> jsval list
    \<Rightarrow> (string \<Rightarrow> jsval option)" where
  "commit m ch = (let (changes, deletes) = ch in
     fold (\<lambda>(k, v) m. m(key_of k \<mapsto> v)) changes (fold (\<lambda>k m. m(key_of k := None)) deletes m))"

lemma fold_deletes: "fold (\<lambda>k m. m(key_of k := None)) ks m s = (if s \<in> key_of ` set ks then None else m s)"
  by (induction ks arbitrary: m) auto

lemma fold_changes:
  assumes "distinct (map fst kvs)" "\<forall>(k, v) \<in> set kvs. \<exists>s. k = JStr s"
  shows "fold (\<lambda>(k, v) m. m(key_of k \<mapsto> v)) kvs m s =
    (case map_of kvs (JStr s) of Some v \<Rightarrow> Some v | None \<Rightarrow> m s)"
  using assms
proof (induction kvs arbitrary: m)
  case (Cons kv kvs)
  then obtain t v where kv: "kv = (JStr t, v)" by (cases kv) auto
  with Cons.prems have "map_of kvs (JStr t) = None" by (auto simp: map_of_eq_None_iff)
  with Cons kv show ?case by (auto split: option.splits)
qed simp

lemma map_of_filter_value:
  assumes "distinct (map fst d)"
  shows "map_of (filter (\<lambda>(k, v). P v) d) k =
    (case map_of d k of Some v \<Rightarrow> if P v then Some v else None | None \<Rightarrow> None)"
  using assms by (induction d) (auto split: option.splits simp: map_of_eq_None_iff image_iff)

lemma deletes_iff:
  assumes "distinct (map fst d)" "\<forall>(k, v) \<in> set d. \<exists>s. k = JStr s"
  shows "s \<in> key_of ` set (map fst (filter (\<lambda>(k, v). v = JNull) d)) \<longleftrightarrow> map_of d (JStr s) = Some JNull"
  using assms by (induction d) (auto simp: image_iff map_of_eq_None_iff split: if_splits)


definition demo_limits :: vm_limits where
  "demo_limits = resolveLimits JUndef"

definition demo_store :: store where
  "demo_store = snd (erase_key (snd (write_key
     (newStateManager (JObj [(''a'', JNum (Num 1)), (''b'', JBool True)]) demo_limits True True)
     ''c'' (JStr ''x''))) ''a'')"

lemma demo_store_inv: "store_inv demo_store"
  unfolding demo_store_def
  by (intro manager.write_ok manager.erase_ok newStateManager_inv) simp




subsection \<open>What can be committed\<close>

text \<open>Every pending write respects the key and value bounds in force.\<close>

definition dirty_bounded :: "store \<Rightarrow> bool" where
  "dirty_bounded st \<longleftrightarrow> (\<forall>(k, v) \<in> set (st_dirty st). check_key st k = Inr () \<and>
     (v \<noteq> JNull \<longrightarrow> check_value st v = Inr ()))"

lemma check_cong: "check_key (st\<lparr>st_dirty := d, keyCount := n\<rparr>) k = check_key st k"
  "check_value (st\<lparr>st_dirty := d, keyCount := n\<rparr>) v = check_value st v"
  by (simp_all add: check_key_def check_value_def split: jsval.splits option.splits)

lemma set_norm_bounded: "dirty_bounded st \<Longrightarrow> dirty_bounded (snd (set_norm st k v))"
  using set_map_set [of "st_dirty st" k v]
  by (auto simp: dirty_bounded_def set_norm_def check_cong split: sum.splits
      dest!: rbind_Inr_iff [THEN iffD1])

lemma delete_norm_bounded: "dirty_bounded st \<Longrightarrow> dirty_bounded (snd (delete_norm st k))"
  using set_map_set [of "st_dirty st" k JNull]
  by (auto simp: dirty_bounded_def delete_norm_def check_cong split: sum.splits
      dest!: rbind_Inr_iff [THEN iffD1])

lemma stateSet_bounded [inv_intros]: "dirty_bounded st \<Longrightarrow> dirty_bounded (snd (stateSet st k v))"
  by (auto simp: stateSet_def set_norm_bounded split: sum.splits)

lemma stateDelete_bounded [inv_intros]: "dirty_bounded st \<Longrightarrow> dirty_bounded (snd (stateDelete st k))"
  by (auto simp: stateDelete_def delete_norm_bounded split: sum.splits)

lemma stateSet_inv [inv_intros]:
  assumes "store_inv st" shows "store_inv (snd (stateSet st key v))"
proof (cases "normKey st key")
  case (Inr k)
  with normKey_JStr [OF assms] obtain s where "k = JStr s" by blast
  with manager.write_ok [OF assms, of s v] Inr show ?thesis
    by (simp add: stateSet_def write_key_def)
qed (use assms in \<open>simp add: stateSet_def\<close>)

lemma stateDelete_inv [inv_intros]:
  assumes "store_inv st" shows "store_inv (snd (stateDelete st key))"
proof (cases "normKey st key")
  case (Inr k)
  with normKey_JStr [OF assms] obtain s where "k = JStr s" by blast
  with manager.erase_ok [OF assms, of s] Inr show ?thesis
    by (simp add: stateDelete_def erase_key_def)
qed (use assms in \<open>simp add: stateDelete_def\<close>)

lemma stateSet_frame [simp, frame_simps]:
  "st_limits (snd (stateSet st k v)) = st_limits st" "st_base (snd (stateSet st k v)) = st_base st"
  "rejectNulKeys (snd (stateSet st k v)) = rejectNulKeys st"
  "normalizeKeys (snd (stateSet st k v)) = normalizeKeys st"
  by (simp_all add: stateSet_def set_norm_def split: sum.splits)

lemma stateDelete_frame [simp, frame_simps]:
  "st_limits (snd (stateDelete st k)) = st_limits st" "st_base (snd (stateDelete st k)) = st_base st"
  "rejectNulKeys (snd (stateDelete st k)) = rejectNulKeys st"
  "normalizeKeys (snd (stateDelete st k)) = normalizeKeys st"
  by (simp_all add: stateDelete_def delete_norm_def split: sum.splits)

lemma stateSet_error: "fst (stateSet st k v) = Inl e \<Longrightarrow> snd (stateSet st k v) = st"
  by (auto simp: stateSet_def set_norm_def split: sum.splits if_splits)

lemma stateSet_count: "store_inv st \<Longrightarrow>
   keyCount (snd (stateSet st k v)) \<le> max (keyCount st) (maxStateKeys (st_limits st))"
  by (auto simp: stateSet_def set_norm_def split: sum.splits)

lemma stateDelete_count: "keyCount (snd (stateDelete st k)) \<le> keyCount st"
  by (auto simp: stateDelete_def delete_norm_def split: sum.splits)

end
