(* ===== verification/Collector.thy ===== *)
theory Collector
  imports VmLimits
begin

text \<open>
  The emission collector (src/collector.js): the queue of emitted actions with its cap, the
  parameter strip that keeps prototype-polluting keys out of an emission, and the capped log.
  \<open>deepStripParams\<close> walks its argument with an explicit stack of (source, destination) pairs and
  fills the destinations in place; \<open>deepStrip_loop\<close> is that loop over a heap of containers, and
  \<open>strip\<close> is the recursive reading it is proved equal to.
\<close>

definition polluting :: "string \<Rightarrow> bool" where
  "polluting k \<longleftrightarrow> k = ''__proto__'' \<or> k = ''constructor''"

subsection \<open>The strip as a function of the value\<close>

fun strip :: "jsval \<Rightarrow> jsval" and strip_elems :: "jsval list \<Rightarrow> jsval list"
and strip_members :: "(string \<times> jsval) list \<Rightarrow> (string \<times> jsval) list" where
  "strip (JArr xs) = JArr (strip_elems xs)"
| "strip (JObj kvs) = JObj (strip_members kvs)"
| "strip v = v"
| "strip_elems [] = []"
| "strip_elems (x # xs) = strip x # strip_elems xs"
| "strip_members [] = []"
| "strip_members ((k, v) # kvs) =
     (if polluting k then strip_members kvs else (k, strip v) # strip_members kvs)"

text \<open>No polluting own key at any level.\<close>

fun clean :: "jsval \<Rightarrow> bool" and clean_elems :: "jsval list \<Rightarrow> bool"
and clean_members :: "(string \<times> jsval) list \<Rightarrow> bool" where
  "clean (JArr xs) = clean_elems xs"
| "clean (JObj kvs) = clean_members kvs"
| "clean v = True"
| "clean_elems [] = True"
| "clean_elems (x # xs) = (clean x \<and> clean_elems xs)"
| "clean_members [] = True"
| "clean_members ((k, v) # kvs) = (\<not> polluting k \<and> clean v \<and> clean_members kvs)"

lemma clean_strip: "clean (strip v)" "clean_elems (strip_elems xs)" "clean_members (strip_members kvs)"
  by (induction v and xs and kvs rule: strip_strip_elems_strip_members.induct) auto

lemma strip_clean: "clean v \<Longrightarrow> strip v = v" "clean_elems xs \<Longrightarrow> strip_elems xs = xs"
  "clean_members kvs \<Longrightarrow> strip_members kvs = kvs"
  by (induction v and xs and kvs rule: strip_strip_elems_strip_members.induct) auto

lemma strip_elems_map: "strip_elems xs = map strip xs"
  by (induction xs) auto

lemma strip_members_map: "strip_members kvs = map (\<lambda>(k, v). (k, strip v)) (filter (\<lambda>(k, v). \<not> polluting k) kvs)"
  by (induction kvs) auto

subsection \<open>The iterative walk\<close>

text \<open>
  A container in the heap: an array or an object whose slots hold either a finished value or the
  address of a child container still being filled. \<open>walk\<close> pops one pair, copies the source's
  slots into the destination (allocating a child for each nested container) and pushes the
  children, as the body of the \<open>while\<close> loop does.
\<close>

datatype slot = Done jsval | Ref nat

datatype container = CArr "slot list" | CObj "(string \<times> slot) list"

type_synonym heap = "container list"

definition is_container :: "jsval \<Rightarrow> bool" where
  "is_container v \<longleftrightarrow> (case v of JArr _ \<Rightarrow> True | JObj _ \<Rightarrow> True | _ \<Rightarrow> False)"

definition makeContainer :: "jsval \<Rightarrow> container" where
  "makeContainer v = (if isArray v then CArr [] else CObj [])"

fun put_elem :: "nat \<Rightarrow> slot \<Rightarrow> heap \<Rightarrow> heap" where
  "put_elem a sl h = (case h ! a of CArr ss \<Rightarrow> h[a := CArr (ss @ [sl])] | CObj _ \<Rightarrow> h)"

fun put_member :: "nat \<Rightarrow> string \<Rightarrow> slot \<Rightarrow> heap \<Rightarrow> heap" where
  "put_member a k sl h = (case h ! a of CObj ss \<Rightarrow> h[a := CObj (ss @ [(k, sl)])] | CArr _ \<Rightarrow> h)"

text \<open>The two \<open>for\<close> loops over one source; the stack grows at its top end.\<close>

fun copy_elems :: "jsval list \<Rightarrow> nat \<Rightarrow> heap \<Rightarrow> (jsval \<times> nat) list \<Rightarrow> heap \<times> (jsval \<times> nat) list" where
  "copy_elems [] a h stk = (h, stk)"
| "copy_elems (v # vs) a h stk =
     (if is_container v
      then copy_elems vs a (put_elem a (Ref (length h)) (h @ [makeContainer v])) ((v, length h) # stk)
      else copy_elems vs a (put_elem a (Done v) h) stk)"

fun copy_members :: "(string \<times> jsval) list \<Rightarrow> nat \<Rightarrow> heap \<Rightarrow> (jsval \<times> nat) list
    \<Rightarrow> heap \<times> (jsval \<times> nat) list" where
  "copy_members [] a h stk = (h, stk)"
| "copy_members ((k, v) # kvs) a h stk =
     (if polluting k then copy_members kvs a h stk
      else if is_container v
      then copy_members kvs a (put_member a k (Ref (length h)) (h @ [makeContainer v]))
             ((v, length h) # stk)
      else copy_members kvs a (put_member a k (Done v) h) stk)"

fun copy_slots :: "jsval \<Rightarrow> nat \<Rightarrow> heap \<Rightarrow> (jsval \<times> nat) list \<Rightarrow> heap \<times> (jsval \<times> nat) list" where
  "copy_slots (JArr xs) a h stk = copy_elems xs a h stk"
| "copy_slots (JObj kvs) a h stk = copy_members kvs a h stk"
| "copy_slots _ a h stk = (h, stk)"

definition stack_size :: "(jsval \<times> nat) list \<Rightarrow> nat" where
  "stack_size stk = sum_list (map (\<lambda>(v, a). Suc (size v)) stk)"

lemma copy_elems_size: "stack_size (snd (copy_elems vs a h stk)) \<le> size_list size vs + stack_size stk"
  by (induction vs a h stk rule: copy_elems.induct) (auto simp: stack_size_def)

lemma copy_members_size:
  "stack_size (snd (copy_members kvs a h stk)) \<le> size_list (size_prod (\<lambda>_. 0) size) kvs + stack_size stk"
  by (induction kvs a h stk rule: copy_members.induct) (auto simp: stack_size_def)

lemma copy_slots_size: "stack_size (snd (copy_slots v a h stk)) < Suc (size v) + stack_size stk"
  using copy_elems_size [of _ a h stk] copy_members_size [of _ a h stk]
  by (cases v) (auto simp: less_Suc_eq_le intro: le_SucI)

function deepStrip_loop :: "(jsval \<times> nat) list \<Rightarrow> heap \<Rightarrow> heap" where
  "deepStrip_loop [] h = h"
| "deepStrip_loop ((v, a) # stk) h =
     (case copy_slots v a h stk of (h', stk') \<Rightarrow> deepStrip_loop stk' h')"
  by pat_completeness auto
termination
proof (relation "measure (\<lambda>(stk, h). stack_size stk)", goal_cases)
  case (2 v a stk h x h')
  then show ?case using copy_slots_size [of v a h stk] by (auto simp: stack_size_def dest: sym)
qed simp

text \<open>
  Reading the finished object graph back as a value. Every child comes from a smaller part of
  the source, so the source's size bounds the levels to read.
\<close>

fun read_slot :: "nat \<Rightarrow> heap \<Rightarrow> slot \<Rightarrow> jsval" where
  "read_slot n h (Done v) = v"
| "read_slot 0 h (Ref a) = JUndef"
| "read_slot (Suc n) h (Ref a) =
     (case h ! a of
        CArr ss \<Rightarrow> JArr (map (read_slot n h) ss)
      | CObj ss \<Rightarrow> JObj (map (\<lambda>(k, s). (k, read_slot n h s)) ss))"

definition deepStripParams :: "jsval \<Rightarrow> jsval" where
  "deepStripParams params =
     (if is_container params
      then read_slot (Suc (size params)) (deepStrip_loop [(params, 0)] [makeContainer params]) (Ref 0)
      else params)"

subsection \<open>The walk computes the strip\<close>

text \<open>
  What a slot will hold once the pending pairs \<open>P\<close> (destination address to source) are copied:
  a pending destination stands for the strip of its source.
\<close>

inductive reads :: "(nat \<Rightarrow> jsval option) \<Rightarrow> heap \<Rightarrow> slot \<Rightarrow> jsval \<Rightarrow> bool" for P h where
  reads_Done: "reads P h (Done v) v"
| reads_Pending: "P a = Some v \<Longrightarrow> a < length h \<Longrightarrow> reads P h (Ref a) (strip v)"
| reads_Arr: "P a = None \<Longrightarrow> a < length h \<Longrightarrow> h ! a = CArr ss \<Longrightarrow> list_all2 (reads P h) ss vs
     \<Longrightarrow> reads P h (Ref a) (JArr vs)"
| reads_Obj: "P a = None \<Longrightarrow> a < length h \<Longrightarrow> h ! a = CObj ss
     \<Longrightarrow> list_all2 (rel_prod (=) (reads P h)) ss kvs \<Longrightarrow> reads P h (Ref a) (JObj kvs)"

inductive_cases reads_RefE: "reads P h (Ref a) v"

definition pending :: "(jsval \<times> nat) list \<Rightarrow> nat \<Rightarrow> jsval option" where
  "pending stk = map_of (map (\<lambda>(v, a). (a, v)) stk)"

lemma pending_simps [simp]: "pending [] = Map.empty"
  "pending ((v, a) # stk) = (pending stk)(a \<mapsto> v)"
  by (simp_all add: pending_def)

text \<open>The destinations on the stack are distinct, allocated and still empty.\<close>

definition walk_inv :: "(jsval \<times> nat) list \<Rightarrow> heap \<Rightarrow> bool" where
  "walk_inv stk h \<longleftrightarrow> distinct (map snd stk)
     \<and> (\<forall>(v, a) \<in> set stk. is_container v \<and> a < length h \<and> h ! a = makeContainer v)"

lemma pending_None_iff: "pending stk a = None \<longleftrightarrow> a \<notin> snd ` set stk"
  by (force simp: pending_def map_of_eq_None_iff)

lemma is_containerE:
  assumes "is_container v"
  obtains xs where "v = JArr xs" "makeContainer v = CArr []"
  | kvs where "v = JObj kvs" "makeContainer v = CObj []"
  using assms by (cases v) (auto simp: is_container_def makeContainer_def)

lemma strip_not_container: "\<not> is_container v \<Longrightarrow> strip v = v"
  by (cases v) (auto simp: is_container_def)

text \<open>What filling the slots of destination \<open>a\<close> leaves alone.\<close>

definition copied :: "nat \<Rightarrow> heap \<Rightarrow> (jsval \<times> nat) list \<Rightarrow> heap \<Rightarrow> (jsval \<times> nat) list \<Rightarrow> bool" where
  "copied a h stk h' stk' \<longleftrightarrow> walk_inv stk' h' \<and> a \<notin> snd ` set stk' \<and> length h \<le> length h'
     \<and> (\<forall>b < length h. b \<noteq> a \<longrightarrow> h' ! b = h ! b)
     \<and> (\<forall>b < length h. pending stk' b = pending stk b)"

lemma copied_trans:
  "copied a h stk h1 stk1 \<Longrightarrow> copied a h1 stk1 h' stk' \<Longrightarrow> copied a h stk h' stk'"
  unfolding copied_def by (elim conjE, intro conjI) (auto dest: order.strict_trans2)

lemma copied_refl: "walk_inv stk h \<Longrightarrow> a \<notin> snd ` set stk \<Longrightarrow> copied a h stk h stk"
  by (simp add: copied_def)

lemma walk_inv_upd:
  assumes "walk_inv stk h" "a \<notin> snd ` set stk"
  shows "walk_inv stk (h[a := c])"
proof -
  have "h[a := c] ! b = h ! b" if "(v, b) \<in> set stk" for v b
  proof -
    from that assms(2) have "a \<noteq> b" by force
    then show ?thesis by simp
  qed
  with assms(1) show ?thesis unfolding walk_inv_def by auto
qed

lemma copied_upd: "walk_inv stk h \<Longrightarrow> a \<notin> snd ` set stk \<Longrightarrow> copied a h stk (h[a := c]) stk"
  by (simp add: copied_def walk_inv_upd)

lemma walk_inv_fresh:
  "walk_inv stk h \<Longrightarrow> is_container v \<Longrightarrow> walk_inv ((v, length h) # stk) (h @ [makeContainer v])"
  unfolding walk_inv_def by (auto simp: nth_append)

lemma copied_fresh:
  assumes "walk_inv stk h" "a \<notin> snd ` set stk" "a < length h" "is_container v"
  shows "copied a h stk ((h @ [makeContainer v])[a := c]) ((v, length h) # stk)"
proof -
  have "walk_inv ((v, length h) # stk) ((h @ [makeContainer v])[a := c])"
    using assms by (intro walk_inv_upd walk_inv_fresh) auto
  then show ?thesis using assms by (simp add: copied_def nth_append)
qed

lemma copy_elems_spec:
  assumes "copy_elems vs a h stk = (h', stk')" "h ! a = CArr ss" "a < length h"
    "walk_inv stk h" "a \<notin> snd ` set stk"
  shows "copied a h stk h' stk' \<and> (\<exists>sls. h' ! a = CArr (ss @ sls)
           \<and> list_all2 (reads (pending stk') h') sls (map strip vs))"
  using assms
proof (induction vs a h stk arbitrary: ss h' stk' rule: copy_elems.induct)
  case (1 a h stk)
  then show ?case by (auto intro!: copied_refl)
next
  case (2 v vs a h stk)
  show ?case
  proof (cases "is_container v")
    case True
    let ?h = "(h @ [makeContainer v])[a := CArr (ss @ [Ref (length h)])]"
    let ?s = "(v, length h) # stk"
    have c: "copied a h stk ?h ?s"
      using 2 True by (intro copied_fresh)
    have e: "put_elem a (Ref (length h)) (h @ [makeContainer v]) = ?h"
      using 2 by (simp add: nth_append)
    from c have "copied a ?h ?s h' stk' \<and> (\<exists>sls. h' ! a = CArr ((ss @ [Ref (length h)]) @ sls)
           \<and> list_all2 (reads (pending stk') h') sls (map strip vs))"
      using 2 True e by (intro 2(1) [OF True, unfolded e]) (auto simp: nth_append copied_def)
    then obtain sls where c': "copied a ?h ?s h' stk'"
      and sls: "h' ! a = CArr (ss @ Ref (length h) # sls)"
        "list_all2 (reads (pending stk') h') sls (map strip vs)" by auto
    from c' have "pending stk' (length h) = Some v" "length h < length h'"
      by (auto simp: copied_def)
    then have "reads (pending stk') h' (Ref (length h)) (strip v)" by (rule reads_Pending)
    with sls copied_trans [OF c c'] show ?thesis by auto
  next
    case False
    let ?h = "h[a := CArr (ss @ [Done v])]"
    have c: "copied a h stk ?h stk" using 2 by (intro copied_upd)
    have e: "put_elem a (Done v) h = ?h" using 2 by simp
    from c have "copied a ?h stk h' stk' \<and> (\<exists>sls. h' ! a = CArr ((ss @ [Done v]) @ sls)
           \<and> list_all2 (reads (pending stk') h') sls (map strip vs))"
      using 2 False e by (intro 2(2) [OF False, unfolded e]) (auto simp: copied_def)
    with copied_trans [OF c] show ?thesis
      using strip_not_container [OF False] by (auto intro: reads_Done)
  qed
qed

lemma copy_members_spec:
  assumes "copy_members kvs a h stk = (h', stk')" "h ! a = CObj ss" "a < length h"
    "walk_inv stk h" "a \<notin> snd ` set stk"
  shows "copied a h stk h' stk' \<and> (\<exists>sls. h' ! a = CObj (ss @ sls)
           \<and> list_all2 (rel_prod (=) (reads (pending stk') h')) sls (strip_members kvs))"
  using assms
proof (induction kvs a h stk arbitrary: ss h' stk' rule: copy_members.induct)
  case (1 a h stk)
  then show ?case by (auto intro!: copied_refl)
next
  case (2 k v kvs a h stk)
  consider "polluting k" | "\<not> polluting k" "is_container v" | "\<not> polluting k" "\<not> is_container v"
    by blast
  then show ?case
  proof cases
    case 1
    with 2 show ?thesis by simp
  next
    case c: 2
    let ?h = "(h @ [makeContainer v])[a := CObj (ss @ [(k, Ref (length h))])]"
    let ?s = "(v, length h) # stk"
    have c1: "copied a h stk ?h ?s"
      using 2 c by (intro copied_fresh)
    have e: "put_member a k (Ref (length h)) (h @ [makeContainer v]) = ?h"
      using 2 by (simp add: nth_append)
    from c1 have "copied a ?h ?s h' stk' \<and> (\<exists>sls. h' ! a = CObj ((ss @ [(k, Ref (length h))]) @ sls)
           \<and> list_all2 (rel_prod (=) (reads (pending stk') h')) sls (strip_members kvs))"
      using 2 c e by (intro 2(2) [OF c, unfolded e]) (auto simp: nth_append copied_def)
    then obtain sls where c': "copied a ?h ?s h' stk'"
      and sls: "h' ! a = CObj (ss @ (k, Ref (length h)) # sls)"
        "list_all2 (rel_prod (=) (reads (pending stk') h')) sls (strip_members kvs)" by auto
    from c' have "pending stk' (length h) = Some v" "length h < length h'"
      by (auto simp: copied_def)
    then have "reads (pending stk') h' (Ref (length h)) (strip v)" by (rule reads_Pending)
    with sls copied_trans [OF c1 c'] c show ?thesis by auto
  next
    case c: 3
    let ?h = "h[a := CObj (ss @ [(k, Done v)])]"
    have c1: "copied a h stk ?h stk" using 2 by (intro copied_upd)
    have e: "put_member a k (Done v) h = ?h" using 2 by simp
    from c1 have "copied a ?h stk h' stk' \<and> (\<exists>sls. h' ! a = CObj ((ss @ [(k, Done v)]) @ sls)
           \<and> list_all2 (rel_prod (=) (reads (pending stk') h')) sls (strip_members kvs))"
      using 2 c e by (intro 2(3) [OF c, unfolded e]) (auto simp: copied_def)
    with copied_trans [OF c1] c show ?thesis
      using strip_not_container [OF c(2)] by (auto intro: reads_Done)
  qed
qed

text \<open>One iteration of the loop keeps what every slot will hold.\<close>

lemma copy_slots_spec:
  assumes "copy_slots v a h stk = (h', stk')" "walk_inv ((v, a) # stk) h"
  shows "copied a h stk h' stk' \<and> reads (pending stk') h' (Ref a) (strip v)"
proof -
  from assms(2) have v: "is_container v" "a < length h" "h ! a = makeContainer v"
    and inv: "walk_inv stk h" "a \<notin> snd ` set stk" by (auto simp: walk_inv_def)
  from v(1) show ?thesis
  proof (cases rule: is_containerE)
    case (1 xs)
    with assms(1) v inv copy_elems_spec [of xs a h stk h' stk' "[]"]
    have c: "copied a h stk h' stk'"
      and "\<exists>sls. h' ! a = CArr sls \<and> list_all2 (reads (pending stk') h') sls (strip_elems xs)"
      by (auto simp: strip_elems_map)
    then show ?thesis using 1 v(2)
      by (auto simp: copied_def pending_None_iff intro!: reads_Arr)
  next
    case (2 kvs)
    with assms(1) v inv copy_members_spec [of kvs a h stk h' stk' "[]"]
    have c: "copied a h stk h' stk'"
      and "\<exists>sls. h' ! a = CObj sls
             \<and> list_all2 (rel_prod (=) (reads (pending stk') h')) sls (strip_members kvs)" by auto
    then show ?thesis using 2 v(2)
      by (auto simp: copied_def pending_None_iff intro!: reads_Obj)
  qed
qed

lemma reads_step:
  assumes c: "copied a h stk h' stk'" and a: "a \<notin> snd ` set stk"
    and r: "reads (pending stk') h' (Ref a) (strip v)"
  shows "reads (pending ((v, a) # stk)) h s w \<Longrightarrow> reads (pending stk') h' s w"
proof (induction s w rule: reads.induct)
  case (reads_Done v)
  then show ?case by (rule reads.reads_Done)
next
  case (reads_Pending b u)
  with c r show ?case
    by (cases "b = a") (auto simp: copied_def intro!: reads.reads_Pending)
next
  case (reads_Arr b ss vs)
  then have "b \<noteq> a" by auto
  with reads_Arr c show ?case
    by (intro reads.reads_Arr [of _ _ _ ss]) (auto simp: copied_def elim: list_all2_mono)
next
  case (reads_Obj b ss kvs)
  then have "b \<noteq> a" by auto
  with reads_Obj c show ?case
    by (intro reads.reads_Obj [of _ _ _ ss])
      (auto simp: copied_def elim!: list_all2_mono)
qed

lemma reads_loop:
  "walk_inv stk h \<Longrightarrow> reads (pending stk) h s w \<Longrightarrow> reads Map.empty (deepStrip_loop stk h) s w"
proof (induction stk h rule: deepStrip_loop.induct)
  case (2 v a stk h)
  obtain h' stk' where eq: "copy_slots v a h stk = (h', stk')" by fastforce
  from copy_slots_spec [OF eq 2(2)] have c: "copied a h stk h' stk'"
    and r: "reads (pending stk') h' (Ref a) (strip v)" by auto
  from 2(2) have "a \<notin> snd ` set stk" by (simp add: walk_inv_def)
  from reads_step [OF c this r 2(3)] c 2(1) [OF eq [symmetric]] eq show ?case
    by (simp add: copied_def)
qed simp

lemma size_strip: "size (strip v) \<le> size v" "size_list size (strip_elems xs) \<le> size_list size xs"
  "size_list (size_prod (\<lambda>_. 0) size) (strip_members kvs) \<le> size_list (size_prod (\<lambda>_. 0) size) kvs"
  by (induction v and xs and kvs rule: strip_strip_elems_strip_members.induct) auto

lemma size_elem: "i < length vs \<Longrightarrow> size (vs ! i) < size (JArr vs)"
  using size_list_estimation [of "vs ! i" vs "size (vs ! i) - 1" size]
    size_list_estimation' [of "vs ! i" vs "size (vs ! i)" size] by auto

lemma size_member: "i < length kvs \<Longrightarrow> size (snd (kvs ! i)) < size (JObj kvs)"
  using size_list_estimation' [of "kvs ! i" kvs "size (snd (kvs ! i))" "size_prod (\<lambda>_. 0) size"]
  by (cases "kvs ! i") (auto dest: nth_mem)

lemma read_slot_reads:
  "reads Map.empty h s v \<Longrightarrow> size v < n \<Longrightarrow> read_slot n h s = v"
proof (induction s v arbitrary: n rule: reads.induct)
  case (reads_Arr a ss vs)
  then obtain m where n: "n = Suc m" by (cases n) auto
  have len: "length ss = length vs" using reads_Arr(4) by (rule list_all2_lengthD)
  have "map (read_slot m h) ss = vs"
  proof (rule nth_equalityI)
    fix i assume "i < length (map (read_slot m h) ss)"
    then have i: "i < length ss" "i < length vs" using len by auto
    with size_elem [of i vs] reads_Arr n have "size (vs ! i) < m" by simp
    with list_all2_nthD [OF reads_Arr(4) i(1)] i show "map (read_slot m h) ss ! i = vs ! i" by simp
  qed (simp add: len)
  with reads_Arr n show ?case by simp
next
  case (reads_Obj a ss kvs)
  then obtain m where n: "n = Suc m" by (cases n) auto
  have len: "length ss = length kvs" using reads_Obj(4) by (rule list_all2_lengthD)
  have "map (\<lambda>(k, s). (k, read_slot m h s)) ss = kvs"
  proof (rule nth_equalityI)
    fix i assume "i < length (map (\<lambda>(k, s). (k, read_slot m h s)) ss)"
    then have i: "i < length ss" "i < length kvs" using len by auto
    with size_member [of i kvs] reads_Obj n have "size (snd (kvs ! i)) < m" by simp
    with list_all2_nthD [OF reads_Obj(4) i(1)] i
    show "map (\<lambda>(k, s). (k, read_slot m h s)) ss ! i = kvs ! i"
      by (cases "ss ! i"; cases "kvs ! i") auto
  qed (simp add: len)
  with reads_Obj n show ?case by simp
qed auto

lemma deepStripParams_strip: "deepStripParams params = strip params"
proof (cases "is_container params")
  case True
  let ?h = "[makeContainer params]"
  have "walk_inv [(params, 0)] ?h" using True by (simp add: walk_inv_def)
  moreover have "reads (pending [(params, 0)]) ?h (Ref 0) (strip params)"
    by (rule reads_Pending) simp_all
  ultimately have "reads Map.empty (deepStrip_loop [(params, 0)] ?h) (Ref 0) (strip params)"
    by (rule reads_loop)
  then have "read_slot (Suc (size params)) (deepStrip_loop [(params, 0)] ?h) (Ref 0) = strip params"
    by (rule read_slot_reads) (use size_strip(1) [of params] in simp)
  with True show ?thesis by (simp add: deepStripParams_def)
next
  case False
  then show ?thesis by (simp add: deepStripParams_def strip_not_container)
qed

lemma deepStripParams_clean: "clean (deepStripParams params)"
  by (simp add: deepStripParams_strip clean_strip)

text \<open>C26. The iterative strip is the recursive one: the explicit stack, which keeps the host's own
  call stack flat whatever the depth of the emitted parameters, returns the parameters with every
  \<open>__proto__\<close> and \<open>constructor\<close> key dropped at every level and nothing else changed; so the result
  has no such key anywhere, and parameters without one come back as they are.\<close>

theorem deepStripParams_strips:
  "deepStripParams params = strip params \<and> clean (deepStripParams params)
   \<and> (clean params \<longrightarrow> deepStripParams params = params)"
  by (simp add: deepStripParams_strip clean_strip strip_clean)

theorem deepStripParams_strips_witness:
  "deepStripParams (JObj [(''memo'', JArr [JNull])]) = JObj [(''memo'', JArr [JNull])]"
  using deepStripParams_strips [of "JObj [(''memo'', JArr [JNull])]"] by (simp add: polluting_def)

subsection \<open>The collector\<close>

record collector =
  actions :: "(string \<times> jsval) list"
  logs :: "string list"
  max_emissions :: int
  deepStrip :: bool

definition newCollector :: "int \<Rightarrow> jsval \<Rightarrow> collector" where
  "newCollector m d = \<lparr>actions = [], logs = [], max_emissions = m, deepStrip = truthy d\<rparr>"

definition ensureRoom :: "collector \<Rightarrow> unit res" where
  "ensureRoom c = guard (max_emissions c \<le> int (length (actions c)))
     (''emission limit exceeded ('' @ int_text (max_emissions c) @ '')'')"

text \<open>The legacy strip: the top level only, its values shared as they are.\<close>

definition shallow_strip :: "jsval \<Rightarrow> jsval res" where
  "shallow_strip params =
     (if nullish params then Inl (TypeError ''Cannot convert undefined or null to object'')
      else Inr (JObj (filter (\<lambda>(k, v). \<not> polluting k) (own_entries params))))"

definition add_action :: "collector \<Rightarrow> string \<Rightarrow> jsval \<Rightarrow> unit res \<times> collector" where
  "add_action c act params =
     (case ensureRoom c of
        Inl e \<Rightarrow> (Inl e, c)
      | Inr _ \<Rightarrow>
          (case (if deepStrip c then Inr (deepStripParams params) else shallow_strip params) of
             Inl e \<Rightarrow> (Inl e, c)
           | Inr safe \<Rightarrow> (Inr (), c\<lparr>actions := actions c @ [(act, safe)]\<rparr>)))"

text \<open>
  \<open>Buffer.from(s, 'utf8').subarray(0, n).toString('utf8')\<close>: a code point the cut went through is
  decoded as one replacement character.
\<close>

definition utf8_cut :: "nat \<Rightarrow> string \<Rightarrow> string" where
  "utf8_cut n s =
     (if n < length s \<and> is_cont (s ! n)
      then rev (tl (dropWhile is_cont (rev (take n s)))) @ map (char_of :: nat \<Rightarrow> char) [239, 191, 189]
      else take n s)"

definition addLog :: "collector \<Rightarrow> string \<Rightarrow> collector" where
  "addLog c message =
     (if length (logs c) < 100
      then c\<lparr>logs := logs c @ [if 1024 < length message
                               then utf8_cut 1024 message @ ''...(truncated)'' else message]\<rparr>
      else c)"

definition isLogFull :: "collector \<Rightarrow> bool" where
  "isLogFull c \<longleftrightarrow> 100 \<le> length (logs c)"

definition getLogCount :: "collector \<Rightarrow> nat" where
  "getLogCount c = length (logs c)"

text \<open>
  The collector's invariant: both caps hold, no log entry is longer than a truncated one, and
  under the gated strip no queued action carries a polluting key at any level.
\<close>

definition collector_inv :: "collector \<Rightarrow> bool" where
  "collector_inv c \<longleftrightarrow> int (length (actions c)) \<le> max 0 (max_emissions c)
     \<and> length (logs c) \<le> 100 \<and> (\<forall>m \<in> set (logs c). length m \<le> 1041)
     \<and> (deepStrip c \<longrightarrow> (\<forall>(a, p) \<in> set (actions c). clean p))"

lemma newCollector_inv: "collector_inv (newCollector m d)"
  by (simp add: collector_inv_def newCollector_def)

lemma utf8_cut_length: "length (utf8_cut n s) \<le> n + 3"
proof (cases "n < length s \<and> is_cont (s ! n)")
  case True
  let ?d = "dropWhile is_cont (rev (take n s))"
  have "length ?d \<le> length (rev (take n s))" by (rule length_dropWhile_le)
  then have "length ?d \<le> n" by simp
  with True show ?thesis by (cases "?d = []"; cases n) (simp_all add: utf8_cut_def)
next
  case False
  then have "utf8_cut n s = take n s" by (auto simp: utf8_cut_def)
  then show ?thesis by simp
qed

lemma addLog_inv [inv_intros]: "collector_inv c \<Longrightarrow> collector_inv (addLog c m)"
  using utf8_cut_length [of 1024 m] by (auto simp: collector_inv_def addLog_def)

lemma add_action_ok:
  "add_action c act p = (Inr (), c') \<Longrightarrow>
   int (length (actions c)) < max_emissions c \<and> (\<exists>q. c' = c\<lparr>actions := actions c @ [(act, q)]\<rparr>
     \<and> (deepStrip c \<longrightarrow> clean q))"
  by (auto simp: add_action_def ensureRoom_def deepStripParams_clean split: sum.splits if_splits)

lemma add_action_error: "fst (add_action c act p) = Inl e \<Longrightarrow> snd (add_action c act p) = c"
  by (auto simp: add_action_def split: sum.splits)

lemma add_action_inv [inv_intros]: "collector_inv c \<Longrightarrow> collector_inv (snd (add_action c act p))"
proof (cases "add_action c act p")
  case (Pair r c')
  assume inv: "collector_inv c"
  show ?thesis
  proof (cases r)
    case (Inl e)
    with Pair inv add_action_error [of c act p e] show ?thesis by simp
  next
    case (Inr u)
    with Pair inv add_action_ok [of c act p c'] show ?thesis
      by (auto simp: collector_inv_def)
  qed
qed

lemma add_action_frame [simp, frame_simps]:
  "max_emissions (snd (add_action c act p)) = max_emissions c"
  "deepStrip (snd (add_action c act p)) = deepStrip c"
  "logs (snd (add_action c act p)) = logs c"
  by (auto simp: add_action_def split: sum.splits)

lemma addLog_frame [simp, frame_simps]:
  "max_emissions (addLog c m) = max_emissions c" "deepStrip (addLog c m) = deepStrip c"
  "actions (addLog c m) = actions c"
  by (auto simp: addLog_def)

text \<open>The queue only ever grows at its end.\<close>

definition extends :: "collector \<Rightarrow> collector \<Rightarrow> bool" where
  "extends c c' \<longleftrightarrow> (\<exists>xs. actions c' = actions c @ xs) \<and> (\<exists>ys. logs c' = logs c @ ys)
     \<and> max_emissions c' = max_emissions c \<and> deepStrip c' = deepStrip c"

lemma extends_refl [simp]: "extends c c"
  by (simp add: extends_def)

lemma extends_trans: "extends a b \<Longrightarrow> extends b c \<Longrightarrow> extends a c"
  by (force simp: extends_def)

lemma addLog_extends: "extends c (addLog c m)"
  by (simp add: extends_def addLog_def)

lemma add_action_extends: "extends c (snd (add_action c act p))"
  by (auto simp: extends_def add_action_def split: sum.splits)

end
