(* ===== verification/Accessors.thy ===== *)
theory Accessors
  imports JsValue
begin

text \<open>
  Read-only data accessors (src/readonly-accessors.js) and the worker's resolution of a
  cross-chain snapshot reference (src/process_executor/snapshot_channel.js). The host passes plain
  JSON snapshots; each builder fixes how one is read. A snapshot that is already an accessor
  object (functions, in-process callers only) has no representation here.
\<close>

definition MAX_SAFE_value :: jsval where
  "MAX_SAFE_value = JNum (Num MAX_SAFE)"

text \<open>\<open>lookup(map, key, ownKeys)\<close>. Computing the property key may throw.\<close>

definition lookup :: "jsval \<Rightarrow> jsval \<Rightarrow> bool \<Rightarrow> jsval res" where
  "lookup m key ownKeys =
     rbind (to_str key) (\<lambda>k.
       Inr (if \<not> ownKeys then js_get m k
            else case own_prop m k of Some v \<Rightarrow> v | None \<Rightarrow> JUndef))"

definition null_if_nullish :: "jsval \<Rightarrow> jsval" where
  "null_if_nullish v = (if nullish v then JNull else v)"

subsection \<open>Oracle\<close>

record oracle_accessor =
  prices :: jsval
  rounds :: jsval
  snapshot_age :: jsval
  round_floor :: jsnum
  oracle_own :: bool

definition positive :: "jsnum \<Rightarrow> bool" where
  "positive n \<longleftrightarrow> num_less (Num 0) n"

definition buildOracleAccessor :: "jsval \<Rightarrow> bool \<Rightarrow> oracle_accessor option res" where
  "buildOracleAccessor snap ownKeys =
     (if nullish snap then Inr None
      else rbind (to_num (js_get snap ''roundFloor'')) (\<lambda>fl.
        Inr (Some \<lparr>prices = js_or (js_get snap ''prices'') (JObj []),
                   rounds = js_or (js_get snap ''rounds'') (JObj []),
                   snapshot_age = (if nullish (js_get snap ''snapshotAge'') then MAX_SAFE_value
                                   else js_get snap ''snapshotAge''),
                   round_floor = (if positive fl then fl else Num 0),
                   oracle_own = ownKeys\<rparr>)))"

definition acc_getPrice :: "oracle_accessor \<Rightarrow> jsval \<Rightarrow> jsval res" where
  "acc_getPrice a coinPair = rbind (lookup (prices a) coinPair (oracle_own a)) (\<lambda>p. Inr (null_if_nullish p))"

definition outside_window :: "jsnum \<Rightarrow> jsval" where
  "outside_window n = JObj [(''price'', JNull), (''roundNumber'', JNum n),
     (''timestamp'', JNum (Num 0)), (''outsideWindow'', JBool True)]"

definition acc_getPriceAtRound :: "oracle_accessor \<Rightarrow> jsval \<Rightarrow> jsval \<Rightarrow> jsval res" where
  "acc_getPriceAtRound a coinPair roundNumber =
     rbind (lookup (rounds a) coinPair (oracle_own a)) (\<lambda>byRound.
     rbind (if truthy byRound
            then rbind (to_str roundNumber) (\<lambda>s. lookup byRound (JStr s) (oracle_own a))
            else Inr JUndef) (\<lambda>r.
     if \<not> nullish r then Inr r
     else rbind (to_num roundNumber) (\<lambda>n.
       if positive (round_floor a) \<and> isFinite (JNum n) \<and> num_less n (round_floor a)
       then Inr (outside_window n)
       else Inr JNull)))"

definition acc_getSnapshotAge :: "oracle_accessor \<Rightarrow> jsval" where
  "acc_getSnapshotAge a = snapshot_age a"

subsection \<open>Contract stakes\<close>

record stake_accessor =
  stakeByPubkeyTick :: jsval
  totalByTick :: jsval
  stakersByTick :: jsval
  stake_own :: bool

definition buildContractStakeAccessor :: "jsval \<Rightarrow> bool \<Rightarrow> stake_accessor option" where
  "buildContractStakeAccessor snap ownKeys =
     (if nullish snap then None
      else Some \<lparr>stakeByPubkeyTick = js_or (js_get snap ''stakeByPubkeyTick'') (JObj []),
                 totalByTick = js_or (js_get snap ''totalByTick'') (JObj []),
                 stakersByTick = js_or (js_get snap ''stakersByTick'') (JObj []),
                 stake_own = ownKeys\<rparr>)"

definition str_or_empty :: "jsval \<Rightarrow> string res" where
  "str_or_empty v = to_str (js_or v (JStr []))"

definition acc_getStake :: "stake_accessor \<Rightarrow> jsval \<Rightarrow> jsval \<Rightarrow> jsval res" where
  "acc_getStake a pubkey token =
     rbind (str_or_empty pubkey) (\<lambda>p.
     rbind (str_or_empty token) (\<lambda>t.
     rbind (lookup (stakeByPubkeyTick a) (JStr (map to_lower p @ ''|'' @ t)) (stake_own a)) (\<lambda>v.
     Inr (js_or v (JStr ''0'')))))"

definition acc_getTotalStaked :: "stake_accessor \<Rightarrow> jsval \<Rightarrow> jsval res" where
  "acc_getTotalStaked a token =
     rbind (str_or_empty token) (\<lambda>t.
     rbind (lookup (totalByTick a) (JStr t) (stake_own a)) (\<lambda>v. Inr (js_or v (JStr ''0''))))"

definition acc_getStakers :: "stake_accessor \<Rightarrow> jsval \<Rightarrow> jsval res" where
  "acc_getStakers a token =
     rbind (str_or_empty token) (\<lambda>t.
     rbind (lookup (stakersByTick a) (JStr t) (stake_own a)) (\<lambda>v.
     Inr (if isArray v then v else JArr [])))"

subsection \<open>Cross-chain\<close>

text \<open>The worker process's copy of the block's snapshot and the token that names it.\<close>

record worker_snapshot =
  ws_data :: jsval
  ws_token :: jsval

definition resolveWorkerCrossChainSnapshot :: "worker_snapshot \<Rightarrow> jsval \<Rightarrow> jsval res" where
  "resolveWorkerCrossChainSnapshot ws snap =
     (if \<not> truthy snap \<or> typeof snap \<noteq> ''object'' \<or> \<not> has_own snap ''__xchainWorkerSnapshot''
      then Inr snap
      else if js_get snap ''__xchainWorkerSnapshot'' \<noteq> ws_token ws
      then Inl (HostFaultError ''worker cross-chain snapshot reference is unavailable'')
      else Inr (ws_data ws))"

record cross_accessor =
  attestations :: jsval
  settled :: jsval
  calls :: jsval
  cross_own :: bool

definition buildCrossChainAccessor ::
  "worker_snapshot \<Rightarrow> jsval \<Rightarrow> bool \<Rightarrow> cross_accessor option res" where
  "buildCrossChainAccessor ws snap ownKeys =
     (if nullish snap then Inr None
      else rbind (resolveWorkerCrossChainSnapshot ws snap) (\<lambda>s.
        if nullish s then Inl (TypeError ''Cannot read properties of null'')
        else Inr (Some \<lparr>attestations = js_or (js_get s ''attestations'') (JObj []),
                        settled = js_or (js_get s ''settled'') (JObj []),
                        calls = js_or (js_get s ''calls'') (JObj []),
                        cross_own = ownKeys\<rparr>)))"

definition chain_key :: "jsval \<Rightarrow> jsval \<Rightarrow> string res" where
  "chain_key chain actionIndex =
     rbind (to_str chain) (\<lambda>c. rbind (to_str actionIndex) (\<lambda>i. Inr (c @ '':'' @ i)))"

definition acc_getAttestation :: "cross_accessor \<Rightarrow> jsval \<Rightarrow> jsval \<Rightarrow> jsval res" where
  "acc_getAttestation a chain actionIndex =
     rbind (chain_key chain actionIndex) (\<lambda>k.
     rbind (lookup (attestations a) (JStr k) (cross_own a)) (\<lambda>v. Inr (null_if_nullish v)))"

definition acc_isSettled :: "cross_accessor \<Rightarrow> jsval \<Rightarrow> jsval \<Rightarrow> jsval res" where
  "acc_isSettled a chain actionIndex =
     rbind (chain_key chain actionIndex) (\<lambda>k.
     rbind (lookup (settled a) (JStr k) (cross_own a)) (\<lambda>v. Inr (JBool (v = JBool True))))"

definition acc_getCallResult :: "cross_accessor \<Rightarrow> jsval \<Rightarrow> jsval res" where
  "acc_getCallResult a callId =
     rbind (to_str callId) (\<lambda>c.
     rbind (lookup (calls a) (JStr (map to_lower c)) (cross_own a)) (\<lambda>r.
     if nullish r then Inr JNull
     else rbind (to_str (js_get r ''status'')) (\<lambda>s.
          rbind (to_str (js_get r ''payload'')) (\<lambda>p.
          Inr (JObj [(''status'', JStr s), (''payload'', JStr p)])))))"

subsection \<open>Attestation and poll results\<close>

record keyed_accessor =
  entries :: jsval
  entries_own :: bool

definition buildAttestationAccessor :: "jsval \<Rightarrow> bool \<Rightarrow> keyed_accessor option" where
  "buildAttestationAccessor snap ownKeys =
     (if nullish snap then None
      else Some \<lparr>entries = js_or (js_get snap ''responses'') (JObj []), entries_own = ownKeys\<rparr>)"

definition acc_getResponse :: "keyed_accessor \<Rightarrow> jsval \<Rightarrow> jsval res" where
  "acc_getResponse a requestId =
     (if typeof requestId \<noteq> ''string'' then Inr JNull
      else rbind (lookup (entries a) requestId (entries_own a)) (\<lambda>v. Inr (null_if_nullish v)))"

definition buildPollAccessor :: "jsval \<Rightarrow> bool \<Rightarrow> keyed_accessor option" where
  "buildPollAccessor snap ownKeys =
     (if nullish snap then None
      else Some \<lparr>entries = js_or (js_get snap ''polls'') (JObj []), entries_own = ownKeys\<rparr>)"

definition acc_getPollResult :: "keyed_accessor \<Rightarrow> jsval \<Rightarrow> jsval res" where
  "acc_getPollResult a pollIndex =
     rbind (to_str pollIndex) (\<lambda>s.
     rbind (lookup (entries a) (JStr s) (entries_own a)) (\<lambda>p. Inr (null_if_nullish p)))"

subsection \<open>All five\<close>

record accessors =
  oracleData :: "oracle_accessor option"
  crossChainData :: "cross_accessor option"
  attestationData :: "keyed_accessor option"
  contractStakeData :: "stake_accessor option"
  pollData :: "keyed_accessor option"

definition resolveAccessors :: "worker_snapshot \<Rightarrow> jsval \<Rightarrow> bool \<Rightarrow> accessors res" where
  "resolveAccessors ws opts ownKeys =
     rbind (buildOracleAccessor (js_get opts ''oracleData'') ownKeys) (\<lambda>orc.
     rbind (buildCrossChainAccessor ws (js_get opts ''crossChainData'') ownKeys) (\<lambda>crs.
     Inr \<lparr>oracleData = orc, crossChainData = crs,
          attestationData = buildAttestationAccessor (js_get opts ''attestationData'') ownKeys,
          contractStakeData = buildContractStakeAccessor (js_get opts ''contractStakeData'') ownKeys,
          pollData = buildPollAccessor (js_get opts ''pollData'') ownKeys\<rparr>))"

subsection \<open>No built-in is ever read through an own-key accessor\<close>

fun plain :: "jsval \<Rightarrow> bool" and plain_elems :: "jsval list \<Rightarrow> bool"
and plain_members :: "(string \<times> jsval) list \<Rightarrow> bool" where
  "plain (JArr xs) = plain_elems xs"
| "plain (JObj kvs) = plain_members kvs"
| "plain (JNative s) = False"
| "plain v = True"
| "plain_elems [] = True"
| "plain_elems (x # xs) = (plain x \<and> plain_elems xs)"
| "plain_members [] = True"
| "plain_members ((k, v) # kvs) = (plain v \<and> plain_members kvs)"

lemma plain_elems_nth: "plain_elems xs \<Longrightarrow> i < length xs \<Longrightarrow> plain (xs ! i)"
  by (induction xs arbitrary: i) (auto simp: nth_Cons split: nat.splits)

lemma plain_members_lookup: "plain_members kvs \<Longrightarrow> map_of kvs k = Some v \<Longrightarrow> plain v"
  by (induction kvs) (auto split: if_splits)

lemma plain_own_prop: "plain m \<Longrightarrow> own_prop m k = Some v \<Longrightarrow> plain v"
  by (cases m) (auto dest: plain_members_lookup plain_elems_nth split: if_splits option.splits)

lemma lookup_plain: "plain m \<Longrightarrow> lookup m key True = Inr v \<Longrightarrow> plain v"
  by (auto simp: lookup_def rbind_Inr_iff dest: plain_own_prop split: option.splits)

lemma plain_or: "plain v \<Longrightarrow> plain d \<Longrightarrow> plain (js_or v d)"
  by (simp add: js_or_def)

lemma plain_null_if_nullish: "plain v \<Longrightarrow> plain (null_if_nullish v)"
  by (simp add: null_if_nullish_def)


definition demo_oracle :: "bool \<Rightarrow> oracle_accessor" where
  "demo_oracle own = \<lparr>prices = JObj [(''BTC-USD'', JNum (Num 5))],
     rounds = JObj [(''BTC-USD'', JObj [(''7'', JNum (Num 4))])], snapshot_age = JNum (Num 3),
     round_floor = Num 5, oracle_own = own\<rparr>"


text \<open>A round the preload window no longer covers is never mistaken for a round that was never
  published: for a numeric round, \<open>null\<close> is answered only at or above the window's floor, and the
  outside-window row only below it.\<close>

theorem priceAtRound_window:
  assumes "acc_getPriceAtRound a pair (JNum (Num n)) = Inr v" "round_floor a = Num fl" "0 < fl"
  shows "(v = JNull \<longrightarrow> fl \<le> n)
     \<and> (\<forall>byRound. lookup (rounds a) pair (oracle_own a) = Inr byRound \<longrightarrow>
          lookup byRound (JStr (num_text (Num n))) (oracle_own a) = Inr JUndef \<longrightarrow>
          truthy byRound \<longrightarrow> v = (if n < fl then outside_window (Num n) else JNull))"
  using assms
  by (auto simp: acc_getPriceAtRound_def rbind_Inr_iff positive_def outside_window_def
      not_less split: if_splits)

theorem priceAtRound_window_witness:
  "acc_getPriceAtRound (demo_oracle True) (JStr ''BTC-USD'') (JNum (Num 4)) = Inr (outside_window (Num 4))
   \<and> \<not> (5::rat) \<le> 4 \<and> outside_window (Num 4) \<noteq> JNull"
proof -
  have eq: "acc_getPriceAtRound (demo_oracle True) (JStr ''BTC-USD'') (JNum (Num 4))
      = Inr (outside_window (Num 4))"
    using num_text_of_int [of 4]
    by (simp add: acc_getPriceAtRound_def demo_oracle_def lookup_def positive_def int_text_def
        nat_text.simps digit_char_def char_of_def)
  then have "outside_window (Num 4) = JNull \<longrightarrow> 5 \<le> (4::rat)"
    using priceAtRound_window [OF eq, of 5] by (simp add: demo_oracle_def)
  with eq show ?thesis by simp
qed

end
