(* ===== verification/Host.thy ===== *)
theory Host
  imports Gas StateStore Collector Accessors
begin

text \<open>
  The host side of one execution: the gas tracker, the state manager, the emission collector and
  the execution context that records a genuine revert, and the way host routines compose. A
  routine is a function of the host state that returns or throws and keeps the state it reached:
  gas charged before a throw stays charged.

  \<open>steady\<close> says what every host routine leaves true whatever it is given (nothing paid is refunded,
  nothing queued is dropped, no limit moves, every invariant is kept); \<open>acct\<close> is the bookkeeping of
  emissions against gas. Both are closed under composition, so each gateway operation is
  discharged by its structure.
\<close>

record host =
  gas :: gas_tracker
  kv :: store
  coll :: collector
  reverted :: bool
  revertReason :: jsval

type_synonym 'a op = "host \<Rightarrow> 'a res \<times> host"

definition lift :: "'a res \<Rightarrow> 'a op" where
  "lift r = (\<lambda>h. (r, h))"

definition ret :: "'a \<Rightarrow> 'a op" where
  "ret x = lift (Inr x)"

definition bind_op :: "'a op \<Rightarrow> ('a \<Rightarrow> 'b op) \<Rightarrow> 'b op" where
  "bind_op m f = (\<lambda>h. case m h of (Inl e, h') \<Rightarrow> (Inl e, h') | (Inr x, h') \<Rightarrow> f x h')"

definition charge_op :: "jsval \<Rightarrow> unit op" where
  "charge_op amount = (\<lambda>h. case charge (gas h) amount of (r, g) \<Rightarrow> (r, h\<lparr>gas := g\<rparr>))"

text \<open>\<open>gasTracker.charge(gasSchedule.KEY)\<close>.\<close>

definition charge_key :: "string \<Rightarrow> unit op" where
  "charge_key k = (\<lambda>h. charge_op (gas_cost (gas h) k) h)"

text \<open>A schedule entry in arithmetic. The tracker's constructor has refused a schedule whose
  entries are not integers, so the other case is not reached.\<close>

definition cost_num :: "host \<Rightarrow> string \<Rightarrow> jsnum" where
  "cost_num h k = (case gas_cost (gas h) k of JNum n \<Rightarrow> n | _ \<Rightarrow> NaN)"

definition remaining_gas :: "host \<Rightarrow> rat" where
  "remaining_gas h = ceiling (gas h) - used (gas h)"

definition queue_action :: "string \<Rightarrow> jsval \<Rightarrow> unit op" where
  "queue_action act params =
     (\<lambda>h. case add_action (coll h) act params of (r, c) \<Rightarrow> (r, h\<lparr>coll := c\<rparr>))"

definition room_check :: "unit op" where
  "room_check = (\<lambda>h. (ensureRoom (coll h), h))"

definition add_log :: "string \<Rightarrow> unit op" where
  "add_log m = (\<lambda>h. (Inr (), h\<lparr>coll := addLog (coll h) m\<rparr>))"

definition store_op :: "(store \<Rightarrow> 'a res \<times> store) \<Rightarrow> 'a op" where
  "store_op f = (\<lambda>h. case f (kv h) of (r, s) \<Rightarrow> (r, h\<lparr>kv := s\<rparr>))"

definition mark_revert :: "jsval \<Rightarrow> unit op" where
  "mark_revert reason = (\<lambda>h. (Inr (), h\<lparr>reverted := True, revertReason := reason\<rparr>))"

subsection \<open>What every routine leaves true\<close>

definition grows :: "host \<Rightarrow> host \<Rightarrow> bool" where
  "grows h h' \<longleftrightarrow>
     used (gas h) \<le> used (gas h') \<and> ceiling (gas h') = ceiling (gas h)
     \<and> schedule (gas h') = schedule (gas h) \<and> (gas_inv (gas h) \<longrightarrow> gas_inv (gas h'))
     \<and> (exhausted (gas h) \<longrightarrow> exhausted (gas h'))
     \<and> extends (coll h) (coll h') \<and> (collector_inv (coll h) \<longrightarrow> collector_inv (coll h'))
     \<and> st_limits (kv h') = st_limits (kv h)
     \<and> (dirty_bounded (kv h) \<longrightarrow> dirty_bounded (kv h')) \<and> (store_inv (kv h) \<longrightarrow> store_inv (kv h'))
     \<and> (reverted h \<longrightarrow> reverted h')"

definition steady :: "'a op \<Rightarrow> bool" where
  "steady m \<longleftrightarrow> (\<forall>h. grows h (snd (m h)))"

named_theorems steady_intros \<open>operations that are steady\<close>

lemma grows_refl [simp]: "grows h h"
  by (simp add: grows_def)

lemma grows_trans: "grows a b \<Longrightarrow> grows b c \<Longrightarrow> grows a c"
  unfolding grows_def by (elim conjE, intro conjI) (auto intro: extends_trans order_trans)

lemma steady_lift [steady_intros]: "steady (lift r)"
  by (simp add: steady_def lift_def)

lemma steady_ret [steady_intros]: "steady (ret x)"
  by (simp add: ret_def steady_lift)

lemma steady_bind [steady_intros]:
  assumes "steady m" "\<And>x. steady (f x)"
  shows "steady (bind_op m f)"
  unfolding steady_def
proof
  fix h :: host
  obtain r h' where m: "m h = (r, h')" by fastforce
  with assms(1) have g: "grows h h'" by (metis steady_def snd_conv)
  show "grows h (snd (bind_op m f h))"
  proof (cases r)
    case (Inl e)
    with m g show ?thesis by (simp add: bind_op_def)
  next
    case (Inr x)
    with assms(2) [of x] have "grows h' (snd (f x h'))" by (simp add: steady_def)
    with g m Inr show ?thesis by (auto simp: bind_op_def intro: grows_trans)
  qed
qed

lemma steady_charge [steady_intros]: "steady (charge_op amount)"
  unfolding steady_def
proof
  fix h :: host
  obtain r g where c: "charge (gas h) amount = (r, g)" by fastforce
  with charge_used_mono [of "gas h" amount] charge_inv [of "gas h" amount]
    charge_sticky [of "gas h" amount] charge_frame [of "gas h" amount]
  show "grows h (snd (charge_op amount h))" by (simp add: charge_op_def grows_def)
qed

lemma steady_charge_key [steady_intros]: "steady (charge_key k)"
  using steady_charge by (auto simp: steady_def charge_key_def)

lemma steady_queue [steady_intros]: "steady (queue_action act params)"
  unfolding steady_def
proof
  fix h :: host
  obtain r c where a: "add_action (coll h) act params = (r, c)" by fastforce
  with add_action_extends [of "coll h" act params] add_action_inv [of "coll h" act params]
  show "grows h (snd (queue_action act params h))"
    by (simp add: queue_action_def grows_def)
qed

lemma steady_room [steady_intros]: "steady room_check"
  by (simp add: steady_def room_check_def)

lemma steady_log [steady_intros]: "steady (add_log m)"
  by (simp add: steady_def add_log_def grows_def addLog_extends addLog_inv)

lemma steady_mark [steady_intros]: "steady (mark_revert r)"
  by (simp add: steady_def mark_revert_def grows_def)

lemma steady_store:
  assumes "\<And>s. st_limits (snd (f s)) = st_limits s" "\<And>s. dirty_bounded s \<Longrightarrow> dirty_bounded (snd (f s))"
    and "\<And>s. store_inv s \<Longrightarrow> store_inv (snd (f s))"
  shows "steady (store_op f)"
  unfolding steady_def
proof
  fix h :: host
  obtain r s where f: "f (kv h) = (r, s)" by fastforce
  with assms(1-3) [of "kv h"] show "grows h (snd (store_op f h))"
    by (simp add: store_op_def grows_def)
qed

lemma steady_state_set [steady_intros]: "steady (store_op (\<lambda>s. stateSet s k v))"
  by (rule steady_store) (simp_all add: stateSet_bounded stateSet_inv)

lemma steady_state_delete [steady_intros]: "steady (store_op (\<lambda>s. stateDelete s k))"
  by (rule steady_store) (simp_all add: stateDelete_bounded stateDelete_inv)

lemma steady_state_read [steady_intros]: "steady (store_op (\<lambda>s. (f s, s)))"
  by (rule steady_store) simp_all

lemma steady_if [steady_intros]: "steady a \<Longrightarrow> steady b \<Longrightarrow> steady (if c then a else b)"
  by simp

lemma steady_reader [steady_intros]: "steady (\<lambda>h. lift (g h) h)" "steady (\<lambda>h. ret (x h) h)"
  by (simp_all add: steady_def lift_def ret_def)

lemma steady_charge_reader [steady_intros]: "steady (\<lambda>h. charge_op (g h) h)"
  using steady_charge by (simp add: steady_def)

lemma steady_option [steady_intros]:
  "steady a \<Longrightarrow> (\<And>x. steady (f x)) \<Longrightarrow> steady (case v of None \<Rightarrow> a | Some x \<Rightarrow> f x)"
  by (cases v) auto

subsection \<open>Emissions are paid for\<close>

text \<open>
  \<open>priced c h\<close>: the schedule is one the tracker's constructor accepts, and an emission costs \<open>c\<close>.
  Then \<open>acct c k m\<close>: whatever \<open>m\<close> queues beyond the credit
  \<open>k\<close> it was entered with, it has paid \<open>c\<close> for each action.
\<close>

definition n_actions :: "host \<Rightarrow> rat" where
  "n_actions h = of_nat (length (actions (coll h)))"

definition priced :: "rat \<Rightarrow> host \<Rightarrow> bool" where
  "priced c h \<longleftrightarrow> gas_cost (gas h) ''VM_EMISSION'' = JNum (Num c)
     \<and> (\<forall>k \<in> set CANONICAL_GAS_KEYS. valid_cost (gas_cost (gas h) k))"

lemma priced_cong: "schedule (gas h') = schedule (gas h) \<Longrightarrow> priced c h' = priced c h"
  by (simp add: priced_def gas_cost_def)

definition acct :: "rat \<Rightarrow> rat \<Rightarrow> 'a op \<Rightarrow> bool" where
  "acct c k m \<longleftrightarrow> (\<forall>h. priced c h \<longrightarrow>
     c * (n_actions (snd (m h)) - n_actions h) \<le> used (gas (snd (m h))) - used (gas h) + k
     \<and> schedule (gas (snd (m h))) = schedule (gas h))"

named_theorems acct_intros \<open>operations that pay for what they queue\<close>

lemma acctD:
  "acct c k m \<Longrightarrow> priced c h \<Longrightarrow>
   c * (n_actions (snd (m h)) - n_actions h) \<le> used (gas (snd (m h))) - used (gas h) + k
   \<and> schedule (gas (snd (m h))) = schedule (gas h)"
  by (simp add: acct_def)

lemma acct_lift [acct_intros]: "0 \<le> k \<Longrightarrow> acct c k (lift r)"
  by (simp add: acct_def lift_def)

lemma acct_ret [acct_intros]: "0 \<le> k \<Longrightarrow> acct c k (ret r)"
  by (simp add: ret_def acct_lift)

lemma acct_bind_post:
  assumes "acct c 0 m" "\<And>x. P x \<Longrightarrow> acct c k (f x)" "0 \<le> k"
    and post: "\<And>h x h'. priced c h \<Longrightarrow> m h = (Inr x, h') \<Longrightarrow> P x"
  shows "acct c k (bind_op m f)"
  unfolding acct_def
proof (intro allI impI)
  fix h :: host assume c: "priced c h"
  obtain r h' where m: "m h = (r, h')" by fastforce
  with acctD [OF assms(1) c] have a: "c * (n_actions h' - n_actions h) \<le> used (gas h') - used (gas h)"
    and s: "schedule (gas h') = schedule (gas h)" by simp_all
  show "c * (n_actions (snd (bind_op m f h)) - n_actions h)
      \<le> used (gas (snd (bind_op m f h))) - used (gas h) + k
      \<and> schedule (gas (snd (bind_op m f h))) = schedule (gas h)"
  proof (cases r)
    case (Inl e)
    with m a s assms(3) show ?thesis by (simp add: bind_op_def)
  next
    case (Inr x)
    from s c have "priced c h'" using priced_cong by blast
    from acctD [OF assms(2) [OF post [OF c m [unfolded Inr]]] this] m a s Inr show ?thesis
      by (simp add: bind_op_def algebra_simps)
  qed
qed

lemma acct_bind: "acct c 0 m \<Longrightarrow> (\<And>x. acct c k (f x)) \<Longrightarrow> 0 \<le> k \<Longrightarrow> acct c k (bind_op m f)"
  by (rule acct_bind_post [where P = "\<lambda>_. True"]) simp_all

lemma n_actions_charge [simp]: "n_actions (h\<lparr>gas := g\<rparr>) = n_actions h"
  by (simp add: n_actions_def)

lemma acct_charge [acct_intros]: "0 \<le> k \<Longrightarrow> acct c k (charge_op amount)"
  unfolding acct_def
proof (intro allI impI)
  fix h :: host
  assume k: "0 \<le> k"
  obtain r g where ch: "charge (gas h) amount = (r, g)" by fastforce
  with k charge_used_mono [of "gas h" amount] charge_frame(1) [of "gas h" amount]
  show "c * (n_actions (snd (charge_op amount h)) - n_actions h)
      \<le> used (gas (snd (charge_op amount h))) - used (gas h) + k
      \<and> schedule (gas (snd (charge_op amount h))) = schedule (gas h)"
    by (simp add: charge_op_def)
qed

lemma acct_charge_key [acct_intros]: "0 \<le> k \<Longrightarrow> acct c k (charge_key key)"
  using acct_charge [of k c] unfolding acct_def charge_key_def by simp

text \<open>A charge of at least the emission price earns the credit one emission needs.\<close>

lemma acct_charge_then:
  assumes "\<And>u. acct c (k + c) (f u)" "0 \<le> k" "0 \<le> c"
    and "\<And>h. priced c h \<Longrightarrow> \<exists>a. amount h = JNum (Num a) \<and> c \<le> a"
  shows "acct c k (bind_op (\<lambda>h. charge_op (amount h) h) f)"
  unfolding acct_def
proof (intro allI impI)
  fix h :: host
  let ?m = "bind_op (\<lambda>h. charge_op (amount h) h) f"
  assume c: "priced c h"
  from assms(4) [OF c] obtain a where a: "amount h = JNum (Num a)" "c \<le> a" by blast
  obtain r g where ch: "charge (gas h) (JNum (Num a)) = (r, g)" by fastforce
  have u: "used g = used (gas h) + a" "schedule g = schedule (gas h)"
    using ch a(2) assms(3) by (auto simp: Let_def split: if_splits)
  show "c * (n_actions (snd (?m h)) - n_actions h) \<le> used (gas (snd (?m h))) - used (gas h) + k
     \<and> schedule (gas (snd (?m h))) = schedule (gas h)"
  proof (cases r)
    case (Inl e)
    with ch a u assms(2,3) show ?thesis by (simp add: bind_op_def charge_op_def)
  next
    case (Inr x)
    from c u have "priced c (h\<lparr>gas := g\<rparr>)"
      using priced_cong [of "h\<lparr>gas := g\<rparr>" h] by simp
    from acctD [OF assms(1) [of x] this] Inr ch a u show ?thesis
      by (simp add: bind_op_def charge_op_def n_actions_def)
  qed
qed

lemma acct_charge_emission [acct_intros]:
  "(\<And>u. acct c (k + c) (f u)) \<Longrightarrow> 0 \<le> k \<Longrightarrow> 0 \<le> c \<Longrightarrow>
   acct c k (bind_op (charge_key ''VM_EMISSION'') f)"
  unfolding charge_key_def by (rule acct_charge_then) (auto simp: priced_def)

lemma acct_queue [acct_intros]:
  assumes "c \<le> k" "0 \<le> c"
  shows "acct c k (queue_action act p)"
  unfolding acct_def
proof (intro allI impI)
  fix h :: host
  obtain r c' where a: "add_action (coll h) act p = (r, c')" by fastforce
  have "length (actions c') \<le> Suc (length (actions (coll h)))"
    using a by (auto simp: add_action_def split: sum.splits)
  then have "(of_nat (length (actions c')) :: rat) \<le> of_nat (length (actions (coll h))) + 1"
    by (metis of_nat_Suc of_nat_le_iff add.commute)
  then have "c * (of_nat (length (actions c')) - of_nat (length (actions (coll h)))) \<le> c * 1"
    using assms(2) by (intro mult_left_mono) auto
  with a assms(1) show "c * (n_actions (snd (queue_action act p h)) - n_actions h)
      \<le> used (gas (snd (queue_action act p h))) - used (gas h) + k
      \<and> schedule (gas (snd (queue_action act p h))) = schedule (gas h)"
    by (simp add: queue_action_def n_actions_def)
qed

lemma acct_room [acct_intros]: "0 \<le> k \<Longrightarrow> acct c k room_check"
  by (simp add: acct_def room_check_def)

lemma acct_log [acct_intros]: "0 \<le> k \<Longrightarrow> acct c k (add_log m)"
  by (simp add: acct_def add_log_def n_actions_def)

lemma acct_mark [acct_intros]: "0 \<le> k \<Longrightarrow> acct c k (mark_revert r)"
  by (simp add: acct_def mark_revert_def n_actions_def)

lemma acct_store [acct_intros]: "0 \<le> k \<Longrightarrow> acct c k (store_op f)"
  by (auto simp: acct_def store_op_def n_actions_def split: prod.split)

lemma acct_if [acct_intros]: "acct c k a \<Longrightarrow> acct c k b \<Longrightarrow> acct c k (if d then a else b)"
  by simp

lemma acct_reader [acct_intros]:
  "0 \<le> k \<Longrightarrow> acct c k (\<lambda>h. lift (g h) h)" "0 \<le> k \<Longrightarrow> acct c k (\<lambda>h. ret (x h) h)"
  by (simp_all add: acct_def lift_def ret_def)

lemma acct_option [acct_intros]:
  "acct c k a \<Longrightarrow> (\<And>x. acct c k (f x)) \<Longrightarrow> acct c k (case v of None \<Rightarrow> a | Some x \<Rightarrow> f x)"
  by (cases v) auto

end
