(* ===== verification/Gateway.thy ===== *)
theory Gateway
  imports Host VmLimits
begin

text \<open>
  The gateway object a contract calls (src/gateway.js, src/gateway/accessors.js,
  src/gateway/contract_stake.js, src/gateway/slash_limits.js) but for the emissions: context and
  ledger reads, contract state, oracle and cross-chain reads, the staking namespace, control flow
  and logging. Each handler is an operation on the host state, in the order the code charges,
  checks and acts. \<open>read_only\<close> is the option object src/index/runtime/gateway_options.js builds.
\<close>

record read_only =
  caller :: jsval
  contractAddress :: jsval
  contractIndex :: jsval
  txHash :: jsval
  rootActionIndex :: jsval
  callPath :: jsval
  callDepth :: jsval
  maxCallDepth_opt :: jsval
  minCallGas_opt :: jsval
  network :: jsval
  crossHops :: jsval
  isGuard :: bool
  params :: "jsval list"
  blockContext :: jsval
  balances :: jsval
  tokenInfo :: jsval
  acc :: accessors
  providerDeadlines :: jsval
  mathOutputMeterOn :: bool
  slashTokenDelimGuardOn :: bool
  slashAmountPrecisionOn :: bool
  hostCallBoundsOn :: bool

text \<open>\<open>obj.key\<close>, which throws on \<open>undefined\<close> and \<open>null\<close>, and \<open>obj[key]\<close> with a computed key.\<close>

definition member_of :: "jsval \<Rightarrow> string \<Rightarrow> jsval res" where
  "member_of v k = (if nullish v then Inl (TypeError (''Cannot read properties of '' @ typeof v))
                    else Inr (js_get v k))"

definition computed :: "jsval \<Rightarrow> jsval \<Rightarrow> jsval res" where
  "computed v key = rbind (to_str key) (\<lambda>k. member_of v k)"

subsection \<open>Context and ledger\<close>

definition gw_getBlockHeight :: "read_only \<Rightarrow> jsval op" where
  "gw_getBlockHeight ro = lift (member_of (blockContext ro) ''height'')"
definition gw_getBlockTimestamp :: "read_only \<Rightarrow> jsval op" where
  "gw_getBlockTimestamp ro = lift (member_of (blockContext ro) ''timestamp'')"
definition gw_getBlockHash :: "read_only \<Rightarrow> jsval op" where
  "gw_getBlockHash ro = lift (member_of (blockContext ro) ''hash'')"
definition gw_getSourceAddress :: "read_only \<Rightarrow> jsval op" where
  "gw_getSourceAddress ro = ret (caller ro)"
definition gw_getContractAddress :: "read_only \<Rightarrow> jsval op" where
  "gw_getContractAddress ro = ret (contractAddress ro)"
definition gw_getInputParams :: "read_only \<Rightarrow> jsval op" where
  "gw_getInputParams ro = ret (JArr (params ro))"

definition gw_getInputParam :: "read_only \<Rightarrow> jsval \<Rightarrow> jsval op" where
  "gw_getInputParam ro i =
     lift (rbind (computed (JArr (params ro)) i) (\<lambda>v. Inr (if v = JUndef then JNull else v)))"

definition gw_getInputParamCount :: "read_only \<Rightarrow> jsval op" where
  "gw_getInputParamCount ro = ret (JNum (Num (of_nat (length (params ro)))))"

definition int_or_zero :: "jsval \<Rightarrow> jsval" where
  "int_or_zero v = (if isInteger v then v else JNum (Num 0))"

definition gw_getCallDepth :: "read_only \<Rightarrow> jsval op" where
  "gw_getCallDepth ro = ret (int_or_zero (callDepth ro))"
definition gw_getCrossHops :: "read_only \<Rightarrow> jsval op" where
  "gw_getCrossHops ro = ret (int_or_zero (crossHops ro))"

definition gw_getBalance :: "read_only \<Rightarrow> jsval \<Rightarrow> jsval \<Rightarrow> jsval op" where
  "gw_getBalance ro address tick =
     bind_op (charge_key ''VM_STATE_READ'') (\<lambda>_.
     lift (if \<not> truthy (balances ro) then Inr JNull
           else rbind (computed (balances ro) address) (\<lambda>row.
             if nullish row then Inr JNull
             else rbind (computed row tick) (\<lambda>v. Inr (js_or v JNull)))))"

definition gw_getTokenInfo :: "read_only \<Rightarrow> jsval \<Rightarrow> jsval op" where
  "gw_getTokenInfo ro tick =
     bind_op (charge_key ''VM_STATE_READ'') (\<lambda>_.
     lift (if \<not> truthy (tokenInfo ro) then Inr JNull
           else rbind (computed (tokenInfo ro) tick) (\<lambda>v. Inr (js_or v JNull))))"

definition gw_getPollResult :: "read_only \<Rightarrow> jsval \<Rightarrow> jsval op" where
  "gw_getPollResult ro pollIndex =
     bind_op (charge_key ''VM_STATE_READ'') (\<lambda>_.
     lift (case pollData (acc ro) of None \<Rightarrow> Inr JNull | Some p \<Rightarrow> acc_getPollResult p pollIndex))"

subsection \<open>Contract state\<close>

definition gw_state_get :: "jsval \<Rightarrow> jsval op" where
  "gw_state_get key =
     bind_op (charge_key ''VM_STATE_READ'') (\<lambda>_. store_op (\<lambda>s. (stateGet s key, s)))"

definition gw_state_has :: "jsval \<Rightarrow> jsval op" where
  "gw_state_has key =
     bind_op (charge_key ''VM_STATE_READ'') (\<lambda>_.
     bind_op (store_op (\<lambda>s. (stateHas s key, s))) (\<lambda>b. ret (JBool b)))"

definition gw_state_set :: "jsval \<Rightarrow> jsval \<Rightarrow> jsval op" where
  "gw_state_set key v =
     bind_op (charge_key ''VM_STATE_WRITE'') (\<lambda>_.
     bind_op (store_op (\<lambda>s. stateSet s key v)) (\<lambda>_. ret JUndef))"

definition gw_state_delete :: "jsval \<Rightarrow> jsval op" where
  "gw_state_delete key =
     bind_op (charge_key ''VM_STATE_DELETE'') (\<lambda>_.
     bind_op (store_op (\<lambda>s. stateDelete s key)) (\<lambda>b. ret (JBool b)))"

subsection \<open>Oracle and cross-chain\<close>

definition gw_oracle_getPrice :: "read_only \<Rightarrow> jsval \<Rightarrow> jsval op" where
  "gw_oracle_getPrice ro coinPair =
     bind_op (charge_key ''VM_ORACLE_READ'') (\<lambda>_.
     lift (case oracleData (acc ro) of None \<Rightarrow> Inr JNull | Some a \<Rightarrow> acc_getPrice a coinPair))"

definition gw_oracle_getPriceAtRound :: "read_only \<Rightarrow> jsval \<Rightarrow> jsval \<Rightarrow> jsval op" where
  "gw_oracle_getPriceAtRound ro coinPair roundNumber =
     bind_op (charge_key ''VM_ORACLE_READ'') (\<lambda>_.
     lift (case oracleData (acc ro) of
             None \<Rightarrow> Inr JNull | Some a \<Rightarrow> acc_getPriceAtRound a coinPair roundNumber))"

definition gw_oracle_getSnapshotAge :: "read_only \<Rightarrow> jsval op" where
  "gw_oracle_getSnapshotAge ro =
     ret (case oracleData (acc ro) of None \<Rightarrow> MAX_SAFE_value | Some a \<Rightarrow> acc_getSnapshotAge a)"

definition gw_crossChain_getAttestation :: "read_only \<Rightarrow> jsval \<Rightarrow> jsval \<Rightarrow> jsval op" where
  "gw_crossChain_getAttestation ro chain actionIndex =
     bind_op (charge_key ''VM_CROSSCHAIN_READ'') (\<lambda>_.
     lift (case crossChainData (acc ro) of
             None \<Rightarrow> Inr JNull
           | Some a \<Rightarrow> rbind (acc_getAttestation a chain actionIndex) (\<lambda>v. Inr (js_or v JNull))))"

definition gw_crossChain_isSettled :: "read_only \<Rightarrow> jsval \<Rightarrow> jsval \<Rightarrow> jsval op" where
  "gw_crossChain_isSettled ro chain actionIndex =
     bind_op (charge_key ''VM_CROSSCHAIN_READ'') (\<lambda>_.
     lift (case crossChainData (acc ro) of
             None \<Rightarrow> Inr (JBool False)
           | Some a \<Rightarrow> rbind (acc_isSettled a chain actionIndex) (\<lambda>v. Inr (js_or v (JBool False)))))"

definition gw_crossChain_getCallResult :: "read_only \<Rightarrow> jsval \<Rightarrow> jsval op" where
  "gw_crossChain_getCallResult ro callId =
     bind_op (charge_key ''VM_CROSSCHAIN_READ'') (\<lambda>_.
     lift (case crossChainData (acc ro) of
             None \<Rightarrow> Inr JNull
           | Some a \<Rightarrow> rbind (acc_getCallResult a callId) (\<lambda>v. Inr (js_or v JNull))))"

definition gw_attestation_getResponse :: "read_only \<Rightarrow> jsval \<Rightarrow> jsval op" where
  "gw_attestation_getResponse ro requestId =
     bind_op (charge_key ''VM_STATE_READ'') (\<lambda>_.
     lift (if typeof requestId \<noteq> ''string'' then Inr JNull
           else case attestationData (acc ro) of
             None \<Rightarrow> Inr JNull | Some a \<Rightarrow> acc_getResponse a requestId))"

subsection \<open>Contract staking\<close>

text \<open>The amount forms \<open>^[0-9]+(\.[0-9]{1,d})?$\<close> for the two ceilings.\<close>

definition SLASH_AMOUNT_LEGACY_DECIMALS :: nat where "SLASH_AMOUNT_LEGACY_DECIMALS = 8"
definition MAX_SLASH_AMOUNT_DECIMALS :: nat where "MAX_SLASH_AMOUNT_DECIMALS = 18"

definition amountForm :: "nat \<Rightarrow> string \<Rightarrow> bool" where
  "amountForm decimals s \<longleftrightarrow>
     (let whole = takeWhile is_digit s; rest = dropWhile is_digit s
      in whole \<noteq> [] \<and> (rest = [] \<or> (hd rest = CHR ''.'' \<and> 1 \<le> length (tl rest)
                                     \<and> length (tl rest) \<le> decimals \<and> list_all is_digit (tl rest))))"

fun str_ok :: "(string \<Rightarrow> bool) \<Rightarrow> jsval \<Rightarrow> bool" where
  "str_ok p (JStr s) = p s"
| "str_ok p _ = False"

definition has_pipe :: "string \<Rightarrow> bool" where
  "has_pipe s \<longleftrightarrow> CHR ''|'' \<in> set s"

definition validateSlashArgs :: "read_only \<Rightarrow> jsval \<Rightarrow> jsval \<Rightarrow> jsval \<Rightarrow> unit res" where
  "validateSlashArgs ro pubkey token amount =
     rbind (guard (\<not> str_ok (\<lambda>s. length s = 64 \<and> list_all is_hex s) pubkey)
              ''contract.slash: pubkey must be a 64-hex string'') (\<lambda>_.
     rbind (guard (\<not> str_ok (\<lambda>s. s \<noteq> []) token)
              ''contract.slash: token must be a non-empty string'') (\<lambda>_.
     rbind (guard (slashTokenDelimGuardOn ro \<and> str_ok has_pipe token)
              ''contract.slash: token must not contain \"|\"'') (\<lambda>_.
     guard (\<not> str_ok (amountForm (if slashAmountPrecisionOn ro then MAX_SLASH_AMOUNT_DECIMALS
                                  else SLASH_AMOUNT_LEGACY_DECIMALS)) amount)
       ''contract.slash: amount must be a positive decimal string'')))"

text \<open>A JSON snapshot holds no object with a callable \<open>toFixed\<close>, so only the number case converts.\<close>

fun asDecimalString :: "jsval \<Rightarrow> jsval" where
  "asDecimalString (JNum n) = JStr (num_text n)"
| "asDecimalString v = v"

definition gw_contract_getStake :: "read_only \<Rightarrow> jsval \<Rightarrow> jsval \<Rightarrow> jsval op" where
  "gw_contract_getStake ro pubkey token =
     bind_op (charge_key ''VM_STATE_READ'') (\<lambda>_.
     lift (case contractStakeData (acc ro) of
             None \<Rightarrow> Inr (JStr ''0'')
           | Some a \<Rightarrow> if typeof pubkey \<noteq> ''string'' \<or> typeof token \<noteq> ''string'' then Inr (JStr ''0'')
                       else rbind (acc_getStake a pubkey token) (\<lambda>v. Inr (asDecimalString v))))"

definition gw_contract_getTotalStaked :: "read_only \<Rightarrow> jsval \<Rightarrow> jsval op" where
  "gw_contract_getTotalStaked ro token =
     bind_op (charge_key ''VM_STATE_READ'') (\<lambda>_.
     lift (case contractStakeData (acc ro) of
             None \<Rightarrow> Inr (JStr ''0'')
           | Some a \<Rightarrow> if typeof token \<noteq> ''string'' then Inr (JStr ''0'') else acc_getTotalStaked a token))"

definition gw_contract_getStakers :: "read_only \<Rightarrow> jsval \<Rightarrow> jsval op" where
  "gw_contract_getStakers ro token =
     bind_op (charge_key ''VM_STATE_READ'') (\<lambda>_.
     lift (case contractStakeData (acc ro) of
             None \<Rightarrow> Inr (JArr [])
           | Some a \<Rightarrow> if typeof token \<noteq> ''string'' then Inr (JArr []) else acc_getStakers a token))"

definition gw_contract_slash :: "read_only \<Rightarrow> jsval \<Rightarrow> jsval \<Rightarrow> jsval \<Rightarrow> jsval op" where
  "gw_contract_slash ro pubkey token amount =
     bind_op (charge_key ''VM_EMISSION'') (\<lambda>_.
     bind_op (lift (validateSlashArgs ro pubkey token amount)) (\<lambda>_.
     bind_op (queue_action ''SLASH''
       (JObj [(''contractIndex'', contractIndex ro), (''pubkey'', pubkey), (''token'', token),
              (''amount'', amount)])) (\<lambda>_. ret JUndef)))"

subsection \<open>Control flow and logging\<close>

text \<open>The genuine revert: the context records the reason before the error is thrown.\<close>

definition throw_revert :: "jsval \<Rightarrow> jsval op" where
  "throw_revert r =
     bind_op (mark_revert r) (\<lambda>_. lift (rbind (to_str r) (\<lambda>m. Inl (ContractRevertError m))))"

definition gw_revert :: "jsval \<Rightarrow> jsval op" where
  "gw_revert reason = throw_revert (js_or reason (JStr ''reverted''))"

definition gw_require :: "jsval \<Rightarrow> jsval \<Rightarrow> jsval op" where
  "gw_require condition reason =
     (if \<not> truthy condition then throw_revert (js_or reason (JStr ''requirement failed''))
      else ret JUndef)"

definition gw_log :: "jsval list \<Rightarrow> jsval op" where
  "gw_log args = bind_op (lift (rmap to_str args)) (\<lambda>ws.
     bind_op (add_log (join_with '' '' ws)) (\<lambda>_. ret JUndef))"

definition gw_isLogFull :: "jsval op" where
  "gw_isLogFull = (\<lambda>h. ret (JBool (isLogFull (coll h))) h)"

definition gw_getLogCount :: "jsval op" where
  "gw_getLogCount = (\<lambda>h. ret (JNum (Num (of_nat (getLogCount (coll h))))) h)"

lemmas gateway_defs = gw_getBlockHeight_def gw_getBlockTimestamp_def gw_getBlockHash_def
  gw_getSourceAddress_def gw_getContractAddress_def gw_getInputParams_def gw_getInputParam_def
  gw_getInputParamCount_def gw_getCallDepth_def gw_getCrossHops_def gw_getBalance_def
  gw_getTokenInfo_def gw_getPollResult_def gw_state_get_def gw_state_has_def gw_state_set_def
  gw_state_delete_def gw_oracle_getPrice_def gw_oracle_getPriceAtRound_def
  gw_oracle_getSnapshotAge_def gw_crossChain_getAttestation_def gw_crossChain_isSettled_def
  gw_crossChain_getCallResult_def gw_attestation_getResponse_def gw_contract_getStake_def
  gw_contract_getTotalStaked_def gw_contract_getStakers_def gw_contract_slash_def
  throw_revert_def gw_revert_def gw_require_def gw_log_def gw_isLogFull_def gw_getLogCount_def

text \<open>
  Slash amounts: the widened form accepts whatever the legacy one did, so the gate only adds calls.
\<close>

lemma amountForm_mono: "d \<le> e \<Longrightarrow> amountForm d s \<Longrightarrow> amountForm e s"
  by (auto simp: amountForm_def Let_def)

end
