(* ===== verification/Emit.thy ===== *)
theory Emit
  imports Gateway
begin

text \<open>
  The emission API (src/gateway-emit.js, src/gateway_emit/): the shared parameter checks, the
  same-chain emits, the deferred call \<open>emit.execute\<close>, the cross-chain call \<open>emit.crossExecute\<close>, and
  the preimages the request and call ids hash. The hash itself (Node's crypto) is the parameter
  \<open>sha256_hex\<close> of the routines that derive an id.
\<close>

subsection \<open>Parameter shape\<close>

definition is_object :: "jsval \<Rightarrow> bool" where
  "is_object v \<longleftrightarrow> typeof v = ''object'' \<and> v \<noteq> JNull"

definition validateRequired :: "jsval \<Rightarrow> string list \<Rightarrow> unit res" where
  "validateRequired p required =
     rbind (guard (\<not> is_object p) ''emit params must be an object'') (\<lambda>_.
     check_all (\<lambda>f. guard (nullish (js_get p f)) (''emit: missing required field: '' @ f)) required)"

definition validateTypes :: "jsval \<Rightarrow> (string \<times> string) list \<Rightarrow> unit res" where
  "validateTypes p spec =
     check_all (\<lambda>(f, ty). guard (\<not> nullish (js_get p f) \<and> typeof (js_get p f) \<noteq> ty)
       (''emit: field '' @ f @ '' must be a '' @ ty @ '', got '' @ typeof (js_get p f))) spec"

lemma validateRequired_ok:
  "validateRequired p fs = Inr u \<longleftrightarrow> is_object p \<and> (\<forall>f \<in> set fs. \<not> nullish (js_get p f))"
  by (auto simp: validateRequired_def rbind_Inr_iff check_all_ok_iff)

lemma validateTypes_ok:
  "validateTypes p sp = Inr u \<longleftrightarrow>
     (\<forall>(f, ty) \<in> set sp. nullish (js_get p f) \<or> typeof (js_get p f) = ty)"
  by (fastforce simp: validateTypes_def check_all_ok_iff split: if_splits)

subsection \<open>Same-chain emits\<close>

text \<open>Charge, check, queue: the body the typed emits share, and the one of the emits that take any
  object.\<close>

definition checked_emit :: "string \<Rightarrow> string list \<Rightarrow> (string \<times> string) list \<Rightarrow> jsval \<Rightarrow> jsval op" where
  "checked_emit act required spec p =
     bind_op (charge_key ''VM_EMISSION'') (\<lambda>_.
     bind_op (lift (validateRequired p required)) (\<lambda>_.
     bind_op (lift (validateTypes p spec)) (\<lambda>_.
     bind_op (queue_action act p) (\<lambda>_. ret JUndef))))"

definition object_or_empty :: "jsval \<Rightarrow> jsval" where
  "object_or_empty p = (if is_object p then p else JObj [])"

definition loose_emit :: "string \<Rightarrow> jsval \<Rightarrow> jsval op" where
  "loose_emit act p =
     bind_op (charge_key ''VM_EMISSION'') (\<lambda>_.
     bind_op (queue_action act (object_or_empty p)) (\<lambda>_. ret JUndef))"

abbreviation strings :: "string list \<Rightarrow> (string \<times> string) list" where
  "strings fs \<equiv> map (\<lambda>f. (f, ''string'')) fs"

definition emit_send :: "jsval \<Rightarrow> jsval op" where
  "emit_send = checked_emit ''SEND'' [''destination'', ''tick'', ''quantity'']
     (strings [''destination'', ''tick'', ''quantity''])"
definition emit_destroy :: "jsval \<Rightarrow> jsval op" where
  "emit_destroy = checked_emit ''DESTROY'' [''tick'', ''quantity''] (strings [''tick'', ''quantity''])"
definition emit_issue :: "jsval \<Rightarrow> jsval op" where
  "emit_issue = checked_emit ''ISSUE'' [''tick''] (strings [''tick''])"
definition emit_mint :: "jsval \<Rightarrow> jsval op" where
  "emit_mint = checked_emit ''MINT'' [''tick'', ''quantity''] (strings [''tick'', ''quantity''])"
definition emit_order :: "jsval \<Rightarrow> jsval op" where
  "emit_order = checked_emit ''ORDER'' [''giveAmount'', ''getAmount'']
     (strings [''giveAmount'', ''getAmount''])"
definition emit_dispenser :: "jsval \<Rightarrow> jsval op" where "emit_dispenser = loose_emit ''DISPENSER''"
definition emit_dividend :: "jsval \<Rightarrow> jsval op" where
  "emit_dividend = checked_emit ''DIVIDEND'' [''tick'', ''dividendTick'', ''quantity'']
     (strings [''tick'', ''dividendTick'', ''quantity''])"
definition emit_airdrop :: "jsval \<Rightarrow> jsval op" where
  "emit_airdrop = checked_emit ''AIRDROP'' [''tick'', ''quantity'', ''listActionIndex'']
     (strings [''tick'', ''quantity''])"
definition emit_callback :: "jsval \<Rightarrow> jsval op" where
  "emit_callback = checked_emit ''CALLBACK'' [''tick''] (strings [''tick''])"
definition emit_file :: "jsval \<Rightarrow> jsval op" where "emit_file = loose_emit ''FILE''"
definition emit_list :: "jsval \<Rightarrow> jsval op" where "emit_list = loose_emit ''LIST''"
definition emit_coinpay :: "jsval \<Rightarrow> jsval op" where
  "emit_coinpay = checked_emit ''COINPAY'' [''orderMatchActionIndex''] []"
definition emit_sweep :: "jsval \<Rightarrow> jsval op" where
  "emit_sweep = checked_emit ''SWEEP'' [''destination''] (strings [''destination''])"
definition emit_link :: "jsval \<Rightarrow> jsval op" where
  "emit_link = checked_emit ''LINK'' [''coin1'', ''coin1ActionIndex'', ''coin2'', ''coin2ActionIndex'']
     (strings [''coin1'', ''coin2''])"
definition emit_broadcast :: "jsval \<Rightarrow> jsval op" where "emit_broadcast = loose_emit ''BROADCAST''"
definition emit_message :: "jsval \<Rightarrow> jsval op" where
  "emit_message = checked_emit ''MESSAGE'' [''destination''] (strings [''destination''])"

definition check_vote :: "jsval \<Rightarrow> unit res" where
  "check_vote p =
     rbind (to_num (js_get p ''version'')) (\<lambda>version.
       if version = Num 1
       then rbind (validateRequired p [''pollRef'', ''ballot'']) (\<lambda>_. validateTypes p (strings [''ballot'']))
       else if version = Num 0
       then rbind (validateRequired p [''tick'', ''endBlock'', ''options''])
              (\<lambda>_. validateTypes p (strings [''tick'', ''options'']))
       else throw ''emit.vote: version must be 0 (create) or 1 (ballot)'')"

definition emit_vote :: "jsval \<Rightarrow> jsval op" where
  "emit_vote p =
     bind_op (charge_key ''VM_EMISSION'') (\<lambda>_.
     bind_op (lift (check_vote (object_or_empty p))) (\<lambda>_.
     bind_op (queue_action ''VOTE'' (object_or_empty p)) (\<lambda>_. ret JUndef)))"

subsection \<open>The deferred call\<close>

definition positive_index :: "jsnum \<Rightarrow> bool" where
  "positive_index n \<longleftrightarrow> (case n of Num r \<Rightarrow> rat_integral r \<and> 0 < r \<and> r \<le> MAX_SAFE | _ \<Rightarrow> False)"

definition method_ok :: "jsval \<Rightarrow> bool" where
  "method_ok v \<longleftrightarrow> str_ok (\<lambda>s. s \<noteq> [] \<and> length s \<le> 64) v"

definition array_or_empty :: "jsval \<Rightarrow> jsval" where
  "array_or_empty v = (if nullish v then JArr [] else v)"

fun elems :: "jsval \<Rightarrow> jsval list" where
  "elems (JArr xs) = xs"
| "elems _ = []"

text \<open>The emission cost and a reservation on top, as \<open>gasSchedule.VM_EMISSION + gasLimit\<close> adds them.\<close>

definition int_at_least :: "jsval \<Rightarrow> rat \<Rightarrow> bool" where
  "int_at_least v m \<longleftrightarrow> (case v of JNum (Num r) \<Rightarrow> rat_integral r \<and> m \<le> r | _ \<Rightarrow> False)"

fun num_val :: "jsval \<Rightarrow> jsnum" where
  "num_val (JNum n) = n"
| "num_val _ = NaN"

definition check_execute_param :: "jsval \<Rightarrow> unit res" where
  "check_execute_param a =
     rbind (guard (typeof a \<noteq> ''string'') ''emit.execute: params entries must be strings'') (\<lambda>_.
     rbind (guard (str_ok (\<lambda>s. 1024 < length s) a) ''emit.execute: params entry exceeds 1024 bytes'') (\<lambda>_.
     guard (str_ok has_pipe a) ''emit.execute: params entries must not contain \"|\"''))"

record call_request =
  cr_index :: jsnum
  cr_method :: jsval
  cr_args :: jsval
  cr_gasLimit :: jsval

definition validateExecute :: "read_only \<Rightarrow> host \<Rightarrow> jsval \<Rightarrow> call_request res" where
  "validateExecute ro h p =
     (let depth = int_or (callDepth ro) 0; max_depth = int_or (maxCallDepth_opt ro) VM_MAX_CALL_DEPTH;
          min_gas = int_or (minCallGas_opt ro) VM_MIN_CALL_GAS;
          args = array_or_empty (js_get p ''params''); limit = js_get p ''gasLimit'';
          mth = js_get p ''method''
      in
      rbind (validateRequired p [''contractIndex'', ''method'', ''gasLimit'']) (\<lambda>_.
      rbind (guard (max_depth < depth + 1)
               (''emit.execute: max call depth '' @ int_text max_depth @ '' reached'')) (\<lambda>_.
      rbind (to_num (js_get p ''contractIndex'')) (\<lambda>idx.
      rbind (guard (\<not> positive_index idx) ''emit.execute: contractIndex must be a positive integer'') (\<lambda>_.
      rbind (guard (\<not> method_ok mth)
               ''emit.execute: method must be a non-empty string (max 64 bytes)'') (\<lambda>_.
      rbind (guard (str_ok has_pipe mth) ''emit.execute: method must not contain \"|\"'') (\<lambda>_.
      rbind (guard (\<not> isArray args) ''emit.execute: params must be an array of strings'') (\<lambda>_.
      rbind (guard (32 < length (elems args)) ''emit.execute: params exceeds 32 entries'') (\<lambda>_.
      rbind (check_all check_execute_param (elems args)) (\<lambda>_.
      rbind (guard (\<not> int_at_least limit (of_int min_gas))
               (''emit.execute: gasLimit must be an integer >= '' @ int_text min_gas)) (\<lambda>_.
      rbind (guard (num_less (Num (remaining_gas h)) (num_add (num_val limit) (cost_num h ''VM_EMISSION'')))
               (''emit.execute: gasLimit '' @ num_text (num_val limit) @ '' exceeds remaining gas ''
                 @ num_text (Num (remaining_gas h)))) (\<lambda>_.
      Inr \<lparr>cr_index = idx, cr_method = mth, cr_args = args, cr_gasLimit = limit\<rparr>))))))))))))"

definition emit_execute :: "read_only \<Rightarrow> jsval \<Rightarrow> jsval op" where
  "emit_execute ro p =
     bind_op (\<lambda>h. lift (validateExecute ro h p) h) (\<lambda>q.
     bind_op (if hostCallBoundsOn ro then room_check else ret ()) (\<lambda>_.
     bind_op (\<lambda>h. charge_op (JNum (num_add (cost_num h ''VM_EMISSION'') (num_val (cr_gasLimit q)))) h) (\<lambda>_.
     bind_op (queue_action ''EXECUTE''
       (JObj [(''contractIndex'', JNum (cr_index q)), (''method'', cr_method q), (''params'', cr_args q),
              (''gasLimit'', cr_gasLimit q)])) (\<lambda>_. ret JUndef))))"

subsection \<open>Preimages of the request and call ids\<close>

text \<open>The composite discriminator \<open>^[0-9]+\.[0-9]+$\<close> keeps its text; any other value is folded
  through \<open>Number\<close>.\<close>

definition composite_root :: "string \<Rightarrow> bool" where
  "composite_root s \<longleftrightarrow>
     (let whole = takeWhile is_digit s; rest = dropWhile is_digit s
      in whole \<noteq> [] \<and> rest \<noteq> [] \<and> hd rest = CHR ''.'' \<and> tl rest \<noteq> [] \<and> list_all is_digit (tl rest))"

definition normalizeRootDiscriminator :: "jsval \<Rightarrow> jsval res" where
  "normalizeRootDiscriminator v =
     (if nullish v then Inr (JStr [])
      else rbind (to_str v) (\<lambda>s.
        if composite_root s then Inr (JStr s) else rbind (to_num v) (\<lambda>n. Inr (JNum n))))"

text \<open>\<open>v != null ? Number(v) : ''\<close>, and \<open>typeof v === 'string' ? v : ''\<close>.\<close>

definition number_or_empty :: "jsval \<Rightarrow> jsval res" where
  "number_or_empty v = (if nullish v then Inr (JStr []) else rbind (to_num v) (\<lambda>n. Inr (JNum n)))"

fun string_or_empty :: "jsval \<Rightarrow> string" where
  "string_or_empty (JStr s) = s"
| "string_or_empty _ = []"

definition buildRequestIdPreimage ::
  "jsval \<Rightarrow> jsval \<Rightarrow> jsval \<Rightarrow> jsval \<Rightarrow> nat \<Rightarrow> string res" where
  "buildRequestIdPreimage tx vout path idx emissionIndex =
     rbind (normalizeRootDiscriminator vout) (\<lambda>rootIndex.
     rbind (number_or_empty idx) (\<lambda>index.
     rbind (to_str (js_or tx (JStr []))) (\<lambda>t.
     rbind (to_str rootIndex) (\<lambda>r.
     rbind (to_str index) (\<lambda>i.
     Inr (t @ '':'' @ r @ '':'' @ string_or_empty path @ '':'' @ i @ '':'' @ nat_text emissionIndex))))))"

definition buildCallIdPreimage ::
  "jsval \<Rightarrow> string \<Rightarrow> jsval \<Rightarrow> jsval \<Rightarrow> jsval \<Rightarrow> jsval \<Rightarrow> nat \<Rightarrow> string \<Rightarrow> string res" where
  "buildCallIdPreimage net sourceChain tx vout idx path emissionIndex targetChain =
     rbind (normalizeRootDiscriminator vout) (\<lambda>rootIndex.
     rbind (number_or_empty idx) (\<lambda>index.
     rbind (to_str (js_or net (JStr []))) (\<lambda>n.
     rbind (to_str (js_or tx (JStr []))) (\<lambda>t.
     rbind (to_str rootIndex) (\<lambda>r.
     rbind (to_str index) (\<lambda>i.
     Inr (n @ '':'' @ sourceChain @ '':'' @ t @ '':'' @ r @ '':'' @ i @ '':'' @ string_or_empty path
          @ '':'' @ nat_text emissionIndex @ '':'' @ targetChain)))))))"

subsection \<open>The cross-chain call\<close>

definition ALLOWED_TARGET_CHAINS :: "string list" where
  "ALLOWED_TARGET_CHAINS = [''BTC'', ''LTC'', ''DOGE'']"

definition XCALL_DEFAULT_DEADLINE :: rat where "XCALL_DEFAULT_DEADLINE = 400"

definition check_xcall_param :: "jsval \<Rightarrow> unit res" where
  "check_xcall_param a =
     rbind (guard (\<not> str_ok (\<lambda>s. length s \<le> 1024) a)
              ''emit.crossExecute: params entries must be strings (max 1024 bytes)'') (\<lambda>_.
     guard (str_ok has_pipe a) ''emit.crossExecute: params entries must not contain \"|\"'')"

definition validateXcallCallee :: "jsval \<Rightarrow> (jsnum \<times> jsval \<times> jsval) res" where
  "validateXcallCallee p =
     (let mth = js_get p ''method''; args = array_or_empty (js_get p ''params'') in
      rbind (to_num (js_get p ''contractIndex'')) (\<lambda>idx.
      rbind (guard (\<not> positive_index idx)
               ''emit.crossExecute: contractIndex must be a positive integer'') (\<lambda>_.
      rbind (guard (\<not> method_ok mth)
               ''emit.crossExecute: method must be a non-empty string (max 64 bytes)'') (\<lambda>_.
      rbind (guard (str_ok has_pipe mth) ''emit.crossExecute: method must not contain \"|\"'') (\<lambda>_.
      rbind (guard (\<not> isArray args \<or> 32 < length (elems args))
               ''emit.crossExecute: params must be an array of <= 32 strings'') (\<lambda>_.
      rbind (check_all check_xcall_param (elems args)) (\<lambda>_.
      Inr (idx, mth, args))))))))"

definition validateXcallCallback :: "jsval \<Rightarrow> (jsval \<times> string list) res" where
  "validateXcallCallback p =
     (let cb = js_get p ''callbackMethod''; ps = array_or_empty (js_get p ''callbackParams'') in
      rbind (guard (\<not> method_ok cb)
               ''emit.crossExecute: callbackMethod must be a non-empty string (max 64 bytes)'') (\<lambda>_.
      rbind (guard (str_ok has_pipe cb) ''emit.crossExecute: callbackMethod must not contain \"|\"'') (\<lambda>_.
      rbind (guard (\<not> isArray ps) ''emit.crossExecute: callbackParams must be an array'') (\<lambda>_.
      rbind (case rmap to_str (elems ps) of
               Inl _ \<Rightarrow> throw ''emit.crossExecute: callbackParams must be JSON-serializable''
             | Inr ws \<Rightarrow> Inr ws) (\<lambda>ws.
      rbind (guard (1024 < length (case json_text (JArr (map JStr ws)) of Some t \<Rightarrow> t | None \<Rightarrow> []))
               ''emit.crossExecute: callbackParams JSON exceeds 1024 bytes'') (\<lambda>_.
      Inr (cb, ws)))))))"

definition int_between :: "jsval \<Rightarrow> rat \<Rightarrow> rat \<Rightarrow> bool" where
  "int_between v lo hi \<longleftrightarrow> (case v of JNum (Num r) \<Rightarrow> rat_integral r \<and> lo \<le> r \<and> r \<le> hi | _ \<Rightarrow> False)"

definition xcall_total :: "host \<Rightarrow> jsval \<Rightarrow> jsnum" where
  "xcall_total h limit =
     num_add (num_add (num_add (cost_num h ''VM_EMISSION'') (cost_num h ''VM_XCALL_REQUEST''))
                      (num_val limit)) (cost_num h ''VM_XCALL_CALLBACK'')"

definition validateXcallBudget :: "host \<Rightarrow> jsval \<Rightarrow> (jsnum \<times> jsval \<times> jsnum) res" where
  "validateXcallBudget h p =
     (let d = js_get p ''deadlineBlocks''; limit = js_get p ''gasLimit'';
          total = xcall_total h limit; remaining = Num (remaining_gas h) in
      rbind (if d = JUndef then Inr (Num XCALL_DEFAULT_DEADLINE) else to_num d) (\<lambda>deadline.
      rbind (guard (\<not> int_between (JNum deadline) (of_int XCALL_MIN_DEADLINE_BLOCKS)
                                  (of_int XCALL_MAX_DEADLINE_BLOCKS))
               (''emit.crossExecute: deadlineBlocks must be an integer in [''
                 @ int_text XCALL_MIN_DEADLINE_BLOCKS @ '', '' @ int_text XCALL_MAX_DEADLINE_BLOCKS @ '']'')) (\<lambda>_.
      rbind (guard (\<not> int_between limit (of_int XCALL_MIN_GAS) (of_int XCALL_MAX_GAS))
               (''emit.crossExecute: gasLimit must be an integer in [''
                 @ int_text XCALL_MIN_GAS @ '', '' @ int_text XCALL_MAX_GAS @ '']'')) (\<lambda>_.
      rbind (guard (num_less remaining total)
               (''emit.crossExecute: total charge '' @ num_text total @ '' exceeds remaining gas ''
                 @ num_text remaining)) (\<lambda>_.
      Inr (deadline, limit, total))))))"

text \<open>\<open>String(address || '').split(':')[1] || ''\<close>.\<close>

definition source_chain :: "jsval \<Rightarrow> string res" where
  "source_chain address =
     rbind (to_str (js_or address (JStr []))) (\<lambda>a.
       Inr (case split_on (CHR '':'') a of _ # c # _ \<Rightarrow> c | _ \<Rightarrow> []))"

definition deriveXcallCallId ::
  "(string \<Rightarrow> string) \<Rightarrow> read_only \<Rightarrow> string \<Rightarrow> string \<Rightarrow> host \<Rightarrow> string res" where
  "deriveXcallCallId sha256_hex ro sourceChain targetChain h =
     rbind (buildCallIdPreimage (network ro) sourceChain (txHash ro) (rootActionIndex ro)
              (contractIndex ro) (callPath ro) (length (actions (coll h))) targetChain)
       (\<lambda>pre. Inr (sha256_hex pre))"

record xcall_request =
  xr_id :: string
  xr_chain :: string
  xr_index :: jsnum
  xr_method :: jsval
  xr_args :: jsval
  xr_limit :: jsval
  xr_callback :: jsval
  xr_cbParams :: "string list"
  xr_deadline :: jsnum
  xr_total :: jsnum

text \<open>The checks of \<open>crossExecute\<close> up to its charge, in the order they throw.\<close>

definition validateCrossExecute ::
  "(string \<Rightarrow> string) \<Rightarrow> read_only \<Rightarrow> host \<Rightarrow> jsval \<Rightarrow> xcall_request res" where
  "validateCrossExecute sha256_hex ro h p =
     (let chain = js_get p ''targetChain'' in
      rbind (guard (isGuard ro) ''emit.crossExecute: not available to a controller guard'') (\<lambda>_.
      rbind (validateRequired p
               [''targetChain'', ''contractIndex'', ''method'', ''gasLimit'', ''callbackMethod'']) (\<lambda>_.
      rbind (guard (XCALL_MAX_HOPS < int_or (crossHops ro) 0 + 1)
               (''emit.crossExecute: max cross-chain hops '' @ int_text XCALL_MAX_HOPS @ '' reached'')) (\<lambda>_.
      rbind (guard (\<not> str_ok (\<lambda>s. s \<in> set ALLOWED_TARGET_CHAINS) chain)
               (''emit.crossExecute: targetChain must be one of '' @ join_with ''/'' ALLOWED_TARGET_CHAINS)) (\<lambda>_.
      rbind (source_chain (contractAddress ro)) (\<lambda>src.
      rbind (guard (chain = JStr src)
               ''emit.crossExecute: targetChain must differ from this chain (use emit.execute for same-chain calls)'') (\<lambda>_.
      rbind (validateXcallCallee p) (\<lambda>(idx, mth, args).
      rbind (validateXcallCallback p) (\<lambda>(cb, ws).
      rbind (validateXcallBudget h p) (\<lambda>(deadline, limit, total).
      rbind (deriveXcallCallId sha256_hex ro src (string_or_empty chain) h) (\<lambda>callId.
      Inr \<lparr>xr_id = callId, xr_chain = string_or_empty chain, xr_index = idx, xr_method = mth,
           xr_args = args, xr_limit = limit, xr_callback = cb, xr_cbParams = ws,
           xr_deadline = deadline, xr_total = total\<rparr>)))))))))))"

definition emit_crossExecute :: "(string \<Rightarrow> string) \<Rightarrow> read_only \<Rightarrow> jsval \<Rightarrow> jsval op" where
  "emit_crossExecute sha256_hex ro p =
     bind_op (\<lambda>h. lift (validateCrossExecute sha256_hex ro h p) h) (\<lambda>q.
     bind_op (if hostCallBoundsOn ro then room_check else ret ()) (\<lambda>_.
     bind_op (charge_op (JNum (xr_total q))) (\<lambda>_.
     bind_op (queue_action ''XCALL''
       (JObj [(''callId'', JStr (xr_id q)), (''targetChain'', JStr (xr_chain q)),
              (''contractIndex'', JNum (xr_index q)), (''method'', xr_method q), (''params'', xr_args q),
              (''gasLimit'', xr_limit q), (''callbackMethod'', xr_callback q),
              (''callbackParams'', JArr (map JStr (xr_cbParams q))),
              (''deadlineBlocks'', JNum (xr_deadline q))])) (\<lambda>_. ret (JStr (xr_id q))))))"

end
