(* ===== verification/Attest.thy ===== *)
theory Attest
  imports Emit
begin

text \<open>
  External attestation (src/gateway.js): \<open>attestation.request\<close> with its shape checks, the derived
  request id and the queued ATTEST emission.
\<close>

definition validateAttestCallback :: "jsval \<Rightarrow> jsval \<Rightarrow> string res" where
  "validateAttestCallback callbackMethod callbackParams =
     (let json = (case json_text callbackParams of Some t \<Rightarrow> t | None \<Rightarrow> []) in
      rbind (guard (\<not> method_ok callbackMethod)
               ''attestation.request: callbackMethod must be a non-empty string (max 64 bytes)'') (\<lambda>_.
      rbind (guard (\<not> isArray callbackParams)
               ''attestation.request: callbackParams must be an array'') (\<lambda>_.
      rbind (guard (1024 < length json)
               ''attestation.request: callbackParams JSON exceeds 1024 bytes'') (\<lambda>_.
      Inr json))))"

record attest_envelope =
  redundancy :: jsnum
  deadlineBlocks :: jsnum
  feeTick :: string
  feeAmount :: string

definition number_default :: "jsval \<Rightarrow> rat \<Rightarrow> jsnum res" where
  "number_default v d = (if v = JUndef then Inr (Num d) else to_num v)"

definition trimmed_or_empty :: "jsval \<Rightarrow> string res" where
  "trimmed_or_empty v = (if nullish v then Inr [] else rbind (to_str v) (\<lambda>s. Inr (trim s)))"

definition check_provider_window :: "jsval \<Rightarrow> string \<Rightarrow> jsnum \<Rightarrow> unit res" where
  "check_provider_window windows providerId deadline =
     (if truthy windows \<and> has_own windows providerId
      then rbind (to_num (js_get windows providerId)) (\<lambda>window.
             guard (isFinite (JNum window) \<and> num_less window deadline)
               (''attestation.request: deadlineBlocks '' @ num_text deadline @ '' exceeds the \"''
                 @ providerId @ ''\" provider window of '' @ num_text window @ '' blocks''))
      else Inr ())"

definition validateAttestOptions :: "jsval \<Rightarrow> string \<Rightarrow> read_only \<Rightarrow> attest_envelope res" where
  "validateAttestOptions options providerId ro =
     (let opts = js_or options (JObj []) in
      rbind (number_default (js_get opts ''redundancy'') 1) (\<lambda>red.
      rbind (number_default (js_get opts ''deadlineBlocks'') 10) (\<lambda>deadline.
      rbind (guard (red \<notin> {Num 1, Num 3, Num 5}) ''attestation.request: redundancy must be 1, 3, or 5'') (\<lambda>_.
      rbind (guard (\<not> int_between (JNum deadline) 1 100)
               ''attestation.request: deadlineBlocks must be an integer in [1, 100]'') (\<lambda>_.
      rbind (trimmed_or_empty (js_get opts ''feeTick'')) (\<lambda>tick.
      rbind (trimmed_or_empty (js_get opts ''feeAmount'')) (\<lambda>amount.
      rbind (guard (has_pipe tick \<or> has_pipe amount)
               ''attestation.request: feeTick/feeAmount must not contain \"|\"'') (\<lambda>_.
      rbind (guard (amount \<noteq> [] \<and> \<not> amountForm 8 amount)
               ''attestation.request: feeAmount must be a non-negative decimal with at most 8 decimal places'') (\<lambda>_.
      rbind (guard (amount \<noteq> [] \<and> amount \<noteq> ''0'' \<and> tick = [])
               ''attestation.request: feeTick is required when feeAmount > 0'') (\<lambda>_.
      rbind (check_provider_window (providerDeadlines ro) providerId deadline) (\<lambda>_.
      Inr \<lparr>redundancy = red, deadlineBlocks = deadline, feeTick = tick, feeAmount = amount\<rparr>)))))))))))"

definition queueAttestRequest ::
  "(string \<Rightarrow> string) \<Rightarrow> read_only \<Rightarrow> jsval \<Rightarrow> jsval \<Rightarrow> jsval \<Rightarrow> string \<Rightarrow> attest_envelope \<Rightarrow> jsval op" where
  "queueAttestRequest sha256_hex ro providerId payload callbackMethod paramsJson env =
     bind_op (\<lambda>h. lift (buildRequestIdPreimage (txHash ro) (rootActionIndex ro) (callPath ro)
                          (contractIndex ro) (length (actions (coll h)))) h) (\<lambda>preimage.
     bind_op (queue_action ''ATTEST''
       (JObj [(''requestId'', JStr (sha256_hex preimage)), (''providerId'', providerId),
              (''requestPayload'', payload), (''callbackMethod'', callbackMethod),
              (''callbackParams'', JStr paramsJson), (''redundancy'', JNum (redundancy env)),
              (''deadlineBlocks'', JNum (deadlineBlocks env)), (''feeTick'', JStr (feeTick env)),
              (''feeAmount'', JStr (feeAmount env))])) (\<lambda>_.
     ret (JStr (sha256_hex preimage))))"

text \<open>The checks between the charges and the queue.\<close>

definition validateAttestRequest ::
  "read_only \<Rightarrow> jsval \<Rightarrow> jsval \<Rightarrow> jsval \<Rightarrow> jsval \<Rightarrow> jsval \<Rightarrow> (string \<times> attest_envelope) res" where
  "validateAttestRequest ro providerId payload callbackMethod callbackParams options =
     rbind (guard (\<not> str_ok (\<lambda>s. s \<noteq> [] \<and> length s \<le> 32) providerId)
              ''attestation.request: providerId must be a non-empty string (max 32 bytes)'') (\<lambda>_.
     rbind (guard (typeof payload \<noteq> ''string'')
              ''attestation.request: requestPayload must be a string'') (\<lambda>_.
     rbind (guard (str_ok (\<lambda>s. 8192 < length s) payload)
              ''attestation.request: requestPayload exceeds 8192 bytes'') (\<lambda>_.
     rbind (validateAttestCallback callbackMethod callbackParams) (\<lambda>json.
     rbind (validateAttestOptions options (string_or_empty providerId) ro) (\<lambda>env.
     Inr (json, env))))))"

definition attestation_request ::
  "(string \<Rightarrow> string) \<Rightarrow> read_only \<Rightarrow> jsval \<Rightarrow> jsval \<Rightarrow> jsval \<Rightarrow> jsval \<Rightarrow> jsval \<Rightarrow> jsval op" where
  "attestation_request sha256_hex ro providerId payload callbackMethod callbackParams options =
     bind_op (lift (guard (isGuard ro) ''attestation.request: not available to a controller guard'')) (\<lambda>_.
     bind_op (if hostCallBoundsOn ro then room_check else ret ()) (\<lambda>_.
     bind_op (charge_key ''VM_ATTEST_REQUEST'') (\<lambda>_.
     bind_op (charge_key ''VM_EMISSION'') (\<lambda>_.
     bind_op (lift (validateAttestRequest ro providerId payload callbackMethod callbackParams options)) (\<lambda>q.
     queueAttestRequest sha256_hex ro providerId payload callbackMethod (fst q) (snd q))))))"

end
