(* ===== verification/MathApi.thy ===== *)
theory MathApi
  imports Host
begin

text \<open>
  The deterministic math namespace (src/math.js). The bignumber library (mathjs) is not part of
  this repository: the record \<open>mathjs\<close> holds the routines the code calls, any of which may throw a
  plain message. What is modelled is what src/math.js adds: the input length cap, the division
  and finiteness guards, the output meter that charges a result's predicted length before it is
  formatted, and the error wrapping.
\<close>

record 'n mathjs =
  bignumber :: "string \<Rightarrow> string + 'n"
  m_add :: "'n \<Rightarrow> 'n \<Rightarrow> string + 'n"
  m_subtract :: "'n \<Rightarrow> 'n \<Rightarrow> string + 'n"
  m_multiply :: "'n \<Rightarrow> 'n \<Rightarrow> string + 'n"
  m_divide :: "'n \<Rightarrow> 'n \<Rightarrow> string + 'n"
  m_mod :: "'n \<Rightarrow> 'n \<Rightarrow> string + 'n"
  m_compare :: "'n \<Rightarrow> 'n \<Rightarrow> string + int"
  m_abs :: "'n \<Rightarrow> 'n"
  m_isZero :: "'n \<Rightarrow> bool"
  m_sqrt :: "'n \<Rightarrow> string + 'n"
  m_pow :: "'n \<Rightarrow> 'n \<Rightarrow> string + 'n"
  m_log :: "'n \<Rightarrow> string + 'n"
  m_log2 :: "'n \<Rightarrow> string + 'n"
  m_log10 :: "'n \<Rightarrow> string + 'n"
  isComplex :: "'n \<Rightarrow> bool"
  exponent_e :: "'n \<Rightarrow> int option"
  format_fixed :: "'n \<Rightarrow> string"

definition MAX_MATH_INPUT_LENGTH :: nat where "MAX_MATH_INPUT_LENGTH = 256"
definition MATH_OUTPUT_GAS_THRESHOLD :: int where "MATH_OUTPUT_GAS_THRESHOLD = 256"

text \<open>A library throw is an ordinary error.\<close>

definition lib :: "string + 'a \<Rightarrow> 'a res" where
  "lib r = (case r of Inl m \<Rightarrow> throw m | Inr x \<Rightarrow> Inr x)"

definition predictedFixedLength :: "'n mathjs \<Rightarrow> 'n \<Rightarrow> int" where
  "predictedFixedLength mj v = \<bar>case exponent_e mj v of Some e \<Rightarrow> e | None \<Rightarrow> 0\<bar> + 70"

definition validateInput :: "jsval \<Rightarrow> string res" where
  "validateInput v =
     rbind (to_str v) (\<lambda>s.
     rbind (guard (MAX_MATH_INPUT_LENGTH < utf16_len s)
              (''math input exceeds maximum length ('' @ nat_text MAX_MATH_INPUT_LENGTH @ '' chars)''))
       (\<lambda>_. Inr s))"

definition big :: "'n mathjs \<Rightarrow> jsval \<Rightarrow> 'n res" where
  "big mj v = rbind (validateInput v) (\<lambda>s. lib (bignumber mj s))"

definition big2 :: "'n mathjs \<Rightarrow> ('n \<Rightarrow> 'n \<Rightarrow> string + 'b) \<Rightarrow> jsval \<Rightarrow> jsval \<Rightarrow> 'b res" where
  "big2 mj f a b = rbind (big mj a) (\<lambda>x. rbind (big mj b) (\<lambda>y. lib (f x y)))"

definition big1 :: "'n mathjs \<Rightarrow> ('n \<Rightarrow> string + 'b) \<Rightarrow> jsval \<Rightarrow> 'b res" where
  "big1 mj f a = rbind (big mj a) (\<lambda>x. lib (f x))"

definition safeDivide :: "'n mathjs \<Rightarrow> jsval \<Rightarrow> jsval \<Rightarrow> 'n res" where
  "safeDivide mj a b =
     rbind (big mj b) (\<lambda>y.
     rbind (guard (m_isZero mj y) ''Division by zero'') (\<lambda>_.
     rbind (big mj a) (\<lambda>x. lib (m_divide mj x y))))"

definition cmp :: "'n mathjs \<Rightarrow> jsval \<Rightarrow> jsval \<Rightarrow> int res" where
  "cmp mj a b = big2 mj (m_compare mj) a b"

text \<open>The error wrapper: gas exhaustion passes through, anything else becomes a revert.\<close>

fun message_of :: "exn \<Rightarrow> string" where
  "message_of (ContractRevertError m) = m"
| "message_of (GasExhaustedError u c) = ''gas exhausted: used '' @ num_text (Num u) @ '' of '' @ num_text (Num c)"
| "message_of (HostFaultError m) = m"
| "message_of (TypeError m) = m"
| "message_of (PlainError m) = m"

fun wrap_math_error :: "exn \<Rightarrow> exn" where
  "wrap_math_error (GasExhaustedError u c) = GasExhaustedError u c"
| "wrap_math_error e = ContractRevertError (''math error: '' @ message_of e)"

definition safeMath :: "'a op \<Rightarrow> 'a op" where
  "safeMath m = (\<lambda>h. case m h of (Inl e, h') \<Rightarrow> (Inl (wrap_math_error e), h') | (Inr x, h') \<Rightarrow> (Inr x, h'))"

text \<open>The output meter; the flag is off below its flag day.\<close>

definition chargeOutput :: "bool \<Rightarrow> 'n mathjs \<Rightarrow> 'n \<Rightarrow> unit op" where
  "chargeOutput meter_on mj v =
     (if meter_on \<and> exponent_e mj v \<noteq> None \<and> MATH_OUTPUT_GAS_THRESHOLD < predictedFixedLength mj v
      then charge_op (JNum (Num (of_int (predictedFixedLength mj v - MATH_OUTPUT_GAS_THRESHOLD))))
      else ret ())"

definition fmt :: "bool \<Rightarrow> 'n mathjs \<Rightarrow> 'n res \<Rightarrow> jsval op" where
  "fmt meter_on mj r =
     bind_op (lift r) (\<lambda>v. bind_op (chargeOutput meter_on mj v) (\<lambda>_. ret (JStr (format_fixed mj v))))"

definition fmtReal :: "bool \<Rightarrow> 'n mathjs \<Rightarrow> 'n res \<Rightarrow> jsval op" where
  "fmtReal meter_on mj r =
     bind_op (lift r) (\<lambda>v.
     bind_op (lift (guard (isComplex mj v) ''result is not a real number'')) (\<lambda>_.
     bind_op (chargeOutput meter_on mj v) (\<lambda>_.
     let s = format_fixed mj v in
     bind_op (lift (guard (s \<in> {''Infinity'', ''-Infinity'', ''NaN''}) ''result is not a finite number''))
       (\<lambda>_. ret (JStr s)))))"

datatype math_fn =
  Madd | Msubtract | Mmultiply | Mdivide | Mmod | Mcompare | Mgt | Mgte | Mlt | Mlte | Meq | Mmin
| Mmax | Mabs | MisZero | Msqrt | Mpow | Mlog | Mlog2 | Mlog10

definition test_cmp :: "'n mathjs \<Rightarrow> (int \<Rightarrow> bool) \<Rightarrow> jsval \<Rightarrow> jsval \<Rightarrow> jsval op" where
  "test_cmp mj p a b = lift (rbind (cmp mj a b) (\<lambda>c. Inr (JBool (p c))))"

definition pick :: "'n mathjs \<Rightarrow> (int \<Rightarrow> bool) \<Rightarrow> jsval \<Rightarrow> jsval \<Rightarrow> 'n res" where
  "pick mj p a b = rbind (big mj a) (\<lambda>x. rbind (big mj b) (\<lambda>y.
     rbind (cmp mj a b) (\<lambda>c. Inr (if p c then x else y))))"

fun math_body :: "bool \<Rightarrow> 'n mathjs \<Rightarrow> math_fn \<Rightarrow> jsval \<Rightarrow> jsval \<Rightarrow> jsval op" where
  "math_body m mj Madd a b = fmt m mj (big2 mj (m_add mj) a b)"
| "math_body m mj Msubtract a b = fmt m mj (big2 mj (m_subtract mj) a b)"
| "math_body m mj Mmultiply a b = fmt m mj (big2 mj (m_multiply mj) a b)"
| "math_body m mj Mdivide a b = fmt m mj (safeDivide mj a b)"
| "math_body m mj Mmod a b = fmt m mj (big2 mj (m_mod mj) a b)"
| "math_body m mj Mcompare a b = lift (rbind (cmp mj a b) (\<lambda>c. Inr (JNum (Num (of_int c)))))"
| "math_body m mj Mgt a b = test_cmp mj (\<lambda>c. 0 < c) a b"
| "math_body m mj Mgte a b = test_cmp mj (\<lambda>c. 0 \<le> c) a b"
| "math_body m mj Mlt a b = test_cmp mj (\<lambda>c. c < 0) a b"
| "math_body m mj Mlte a b = test_cmp mj (\<lambda>c. c \<le> 0) a b"
| "math_body m mj Meq a b = test_cmp mj (\<lambda>c. c = 0) a b"
| "math_body m mj Mmin a b = fmt m mj (pick mj (\<lambda>c. c \<le> 0) a b)"
| "math_body m mj Mmax a b = fmt m mj (pick mj (\<lambda>c. 0 \<le> c) a b)"
| "math_body m mj Mabs a b = fmt m mj (rbind (big mj a) (\<lambda>x. Inr (m_abs mj x)))"
| "math_body m mj MisZero a b = lift (rbind (big mj a) (\<lambda>x. Inr (JBool (m_isZero mj x))))"
| "math_body m mj Msqrt a b = fmtReal m mj (big1 mj (m_sqrt mj) a)"
| "math_body m mj Mpow a b = fmtReal m mj (big2 mj (m_pow mj) a b)"
| "math_body m mj Mlog a b = fmtReal m mj (big1 mj (m_log mj) a)"
| "math_body m mj Mlog2 a b = fmtReal m mj (big1 mj (m_log2 mj) a)"
| "math_body m mj Mlog10 a b = fmtReal m mj (big1 mj (m_log10 mj) a)"

definition math_call :: "bool \<Rightarrow> 'n mathjs \<Rightarrow> math_fn \<Rightarrow> jsval \<Rightarrow> jsval \<Rightarrow> jsval op" where
  "math_call meter_on mj f a b = safeMath (math_body meter_on mj f a b)"

lemma safeMath_host [simp]: "snd (safeMath m h) = snd (m h)"
proof (cases "m h")
  case (Pair r h')
  then show ?thesis by (cases r) (simp_all add: safeMath_def)
qed

lemma steady_safeMath [steady_intros]: "steady m \<Longrightarrow> steady (safeMath m)"
  by (simp add: steady_def)

lemma acct_safeMath [acct_intros]: "acct c k m \<Longrightarrow> acct c k (safeMath m)"
  by (simp add: acct_def)

lemma steady_chargeOutput [steady_intros]: "steady (chargeOutput m mj v)"
  unfolding chargeOutput_def by (intro steady_intros)

lemma steady_fmt [steady_intros]: "steady (fmt m mj r)" "steady (fmtReal m mj r)"
  unfolding fmt_def fmtReal_def Let_def by (intro steady_intros)+

lemma steady_math [steady_intros]: "steady (math_call m mj f a b)"
  unfolding math_call_def test_cmp_def
  by (cases f) (simp_all add: test_cmp_def steady_intros)

lemma acct_chargeOutput [acct_intros]: "0 \<le> k \<Longrightarrow> acct c k (chargeOutput m mj v)"
  unfolding chargeOutput_def by (simp add: acct_intros)

lemma acct_fmt [acct_intros]: "acct c 0 (fmt m mj r)" "acct c 0 (fmtReal m mj r)"
  unfolding fmt_def fmtReal_def Let_def by (intro acct_bind acct_intros order_refl)+

lemma acct_math [acct_intros]: "acct c 0 (math_call m mj f a b)"
  unfolding math_call_def by (rule acct_safeMath, cases f) (simp_all add: test_cmp_def acct_intros)

text \<open>A math call never ends in a plain error the contract could mistake for its own: it returns,
  reverts with a \<open>math error\<close>, or exhausts the gas.\<close>

lemma math_call_errors:
  "fst (math_call m mj f a b h) = Inl e \<Longrightarrow>
     (\<exists>t. e = ContractRevertError (''math error: '' @ t)) \<or> (\<exists>u c. e = GasExhaustedError u c)"
proof -
  have "(\<exists>t. wrap_math_error e = ContractRevertError (''math error: '' @ t))
      \<or> (\<exists>u c. wrap_math_error e = GasExhaustedError u c)" for e
    by (cases e) auto
  moreover obtain r h' where "math_body m mj f a b h = (r, h')" by fastforce
  moreover assume "fst (math_call m mj f a b h) = Inl e"
  ultimately show ?thesis by (cases r) (auto simp: math_call_def safeMath_def)
qed

end
