(* ===== verification/Calls.thy ===== *)
theory Calls
  imports Attest MathApi
begin

text \<open>
  The calls a contract makes into the host, as one type: the gateway references
  src/index/gateway_injection.js installs and the \<open>__gas\<close> reference of
  src/index/runtime/gas_reference.js. \<open>dispatch\<close> is the bridge: it runs the gateway routine and
  re-tags what it throws. A run of the contract, whatever its code does, is a sequence of such
  calls whose results it sees one at a time, so what holds of every sequence holds of every run.
\<close>

datatype gw_call =
  GetBlockHeight | GetBlockTimestamp | GetBlockHash | GetSourceAddress | GetContractAddress
| GetInputParams | GetInputParam jsval | GetInputParamCount | GetCallDepth | GetCrossHops
| GetBalance jsval jsval | GetTokenInfo jsval | GetPollResult jsval
| StateGet jsval | StateHas jsval | StateSet jsval jsval | StateDelete jsval
| OraclePrice jsval | OraclePriceAtRound jsval jsval | OracleAge
| CrossAttestation jsval jsval | CrossSettled jsval jsval | CrossCallResult jsval
| AttestRequest jsval jsval jsval jsval jsval | AttestResponse jsval
| GetStake jsval jsval | GetTotalStaked jsval | GetStakers jsval | Slash jsval jsval jsval
| EmitSend jsval | EmitDestroy jsval | EmitIssue jsval | EmitMint jsval | EmitOrder jsval
| EmitDispenser jsval | EmitDividend jsval | EmitAirdrop jsval | EmitCallback jsval
| EmitFile jsval | EmitList jsval | EmitCoinpay jsval | EmitSweep jsval | EmitLink jsval
| EmitBroadcast jsval | EmitMessage jsval | EmitVote jsval | EmitExecute jsval | EmitCross jsval
| MathCall math_fn jsval jsval
| Revert jsval | Require jsval jsval | Log "jsval list" | IsLogFull | GetLogCount
| GasUnits jsval

text \<open>What the host was built with: the digest, the math library, the read-only data and whether a
  non-finite unit count fails closed (on past its flag day).\<close>

record 'n env =
  sha256_hex :: "string \<Rightarrow> string"
  mathjs_lib :: "'n mathjs"
  ro :: read_only
  nonFiniteFailClosed :: bool

subsection \<open>The gas reference\<close>

definition gas_units :: "bool \<Rightarrow> jsval \<Rightarrow> rat" where
  "gas_units failClosed units =
     (case units of
        JNum (Num r) \<Rightarrow> if 1 \<le> r then of_int \<lfloor>r\<rfloor> else 1
      | JNum _ \<Rightarrow> if failClosed then MAX_SAFE else 1
      | _ \<Rightarrow> 1)"

definition gas_call :: "bool \<Rightarrow> jsval \<Rightarrow> jsval op" where
  "gas_call failClosed units =
     bind_op (\<lambda>h. charge_op (JNum (case cost_num h ''VM_COMPUTATION'' of
                               Num c \<Rightarrow> Num (c * gas_units failClosed units) | _ \<Rightarrow> NaN)) h)
       (\<lambda>_. ret JUndef)"

subsection \<open>The gateway object\<close>

fun gateway :: "'n env \<Rightarrow> gw_call \<Rightarrow> jsval op" where
  "gateway e GetBlockHeight = gw_getBlockHeight (ro e)"
| "gateway e GetBlockTimestamp = gw_getBlockTimestamp (ro e)"
| "gateway e GetBlockHash = gw_getBlockHash (ro e)"
| "gateway e GetSourceAddress = gw_getSourceAddress (ro e)"
| "gateway e GetContractAddress = gw_getContractAddress (ro e)"
| "gateway e GetInputParams = gw_getInputParams (ro e)"
| "gateway e (GetInputParam i) = gw_getInputParam (ro e) i"
| "gateway e GetInputParamCount = gw_getInputParamCount (ro e)"
| "gateway e GetCallDepth = gw_getCallDepth (ro e)"
| "gateway e GetCrossHops = gw_getCrossHops (ro e)"
| "gateway e (GetBalance a t) = gw_getBalance (ro e) a t"
| "gateway e (GetTokenInfo t) = gw_getTokenInfo (ro e) t"
| "gateway e (GetPollResult p) = gw_getPollResult (ro e) p"
| "gateway e (StateGet k) = gw_state_get k"
| "gateway e (StateHas k) = gw_state_has k"
| "gateway e (StateSet k v) = gw_state_set k v"
| "gateway e (StateDelete k) = gw_state_delete k"
| "gateway e (OraclePrice p) = gw_oracle_getPrice (ro e) p"
| "gateway e (OraclePriceAtRound p r) = gw_oracle_getPriceAtRound (ro e) p r"
| "gateway e OracleAge = gw_oracle_getSnapshotAge (ro e)"
| "gateway e (CrossAttestation c i) = gw_crossChain_getAttestation (ro e) c i"
| "gateway e (CrossSettled c i) = gw_crossChain_isSettled (ro e) c i"
| "gateway e (CrossCallResult c) = gw_crossChain_getCallResult (ro e) c"
| "gateway e (AttestRequest p q m ps opts) = attestation_request (sha256_hex e) (ro e) p q m ps opts"
| "gateway e (AttestResponse r) = gw_attestation_getResponse (ro e) r"
| "gateway e (GetStake p t) = gw_contract_getStake (ro e) p t"
| "gateway e (GetTotalStaked t) = gw_contract_getTotalStaked (ro e) t"
| "gateway e (GetStakers t) = gw_contract_getStakers (ro e) t"
| "gateway e (Slash p t a) = gw_contract_slash (ro e) p t a"
| "gateway e (EmitSend p) = emit_send p"
| "gateway e (EmitDestroy p) = emit_destroy p"
| "gateway e (EmitIssue p) = emit_issue p"
| "gateway e (EmitMint p) = emit_mint p"
| "gateway e (EmitOrder p) = emit_order p"
| "gateway e (EmitDispenser p) = emit_dispenser p"
| "gateway e (EmitDividend p) = emit_dividend p"
| "gateway e (EmitAirdrop p) = emit_airdrop p"
| "gateway e (EmitCallback p) = emit_callback p"
| "gateway e (EmitFile p) = emit_file p"
| "gateway e (EmitList p) = emit_list p"
| "gateway e (EmitCoinpay p) = emit_coinpay p"
| "gateway e (EmitSweep p) = emit_sweep p"
| "gateway e (EmitLink p) = emit_link p"
| "gateway e (EmitBroadcast p) = emit_broadcast p"
| "gateway e (EmitMessage p) = emit_message p"
| "gateway e (EmitVote p) = emit_vote p"
| "gateway e (EmitExecute p) = emit_execute (ro e) p"
| "gateway e (EmitCross p) = emit_crossExecute (sha256_hex e) (ro e) p"
| "gateway e (MathCall f a b) = math_call (mathOutputMeterOn (ro e)) (mathjs_lib e) f a b"
| "gateway e (Revert r) = gw_revert r"
| "gateway e (Require c r) = gw_require c r"
| "gateway e (Log args) = gw_log args"
| "gateway e IsLogFull = gw_isLogFull"
| "gateway e GetLogCount = gw_getLogCount"
| "gateway e (GasUnits u) = gas_call (nonFiniteFailClosed e) u"

subsection \<open>The bridge\<close>

text \<open>What crosses back into the isolate: \<open>null\<close> and \<open>undefined\<close> as they are, any other value as its
  JSON behind the byte 1 (\<open>undefined\<close> text when the value has no JSON form); typed errors under
  the tag byte 3.\<close>

datatype crossing = Nothing jsval | Framed string

definition frame_result :: "jsval \<Rightarrow> crossing" where
  "frame_result v = (if nullish v then Nothing v
     else Framed (CHR 0x01 # (case json_text v of Some t \<Rightarrow> t | None \<Rightarrow> ''undefined'')))"

fun retag :: "exn \<Rightarrow> exn" where
  "retag (ContractRevertError m) = PlainError (CHR 0x03 # ''REVERT:'' @ m)"
| "retag (GasExhaustedError u c) =
     PlainError (CHR 0x03 # ''GAS:'' @ num_text (Num u) @ '':'' @ num_text (Num c))"
| "retag e = e"

definition bridge :: "jsval op \<Rightarrow> crossing op" where
  "bridge m = (\<lambda>h. case m h of (r, h') \<Rightarrow>
     ((case r of Inl e \<Rightarrow> Inl (retag e) | Inr v \<Rightarrow> Inr (frame_result v)), h'))"

definition dispatch :: "'n env \<Rightarrow> gw_call \<Rightarrow> crossing op" where
  "dispatch e c = bridge (gateway e c)"

text \<open>A run of the contract: a program that, after each result, either stops or makes another call
  and reacts to its outcome. A contract that catches an error carries on with the host state the
  failed call left. \<open>fuel\<close> bounds the number of calls.\<close>

type_synonym trace = "(gw_call \<times> crossing res) list"

fun run :: "'n env \<Rightarrow> (trace \<Rightarrow> gw_call option) \<Rightarrow> nat \<Rightarrow> trace \<Rightarrow> host \<Rightarrow> trace \<times> host" where
  "run e prog 0 tr h = (tr, h)"
| "run e prog (Suc n) tr h =
     (case prog tr of
        None \<Rightarrow> (tr, h)
      | Some c \<Rightarrow> (case dispatch e c h of (r, h') \<Rightarrow> run e prog n (tr @ [(c, r)]) h'))"

subsection \<open>Every call is steady and pays for what it queues\<close>

lemmas emit_defs = emit_send_def emit_destroy_def emit_issue_def emit_mint_def emit_order_def
  emit_dispenser_def emit_dividend_def emit_airdrop_def emit_callback_def emit_file_def
  emit_list_def emit_coinpay_def emit_sweep_def emit_link_def emit_broadcast_def emit_message_def
  checked_emit_def loose_emit_def emit_vote_def emit_execute_def emit_crossExecute_def

lemma steady_gateway [steady_intros]: "steady (gateway e c)"
proof (cases c)
  case (MathCall f a b)
  then show ?thesis by (simp add: steady_math)
qed (simp only: gateway.simps gateway_defs emit_defs attestation_request_def
      queueAttestRequest_def gas_call_def; intro steady_intros)+

lemma bridge_host [simp]: "snd (bridge m h) = snd (m h)"
  by (simp add: bridge_def split: prod.split)

lemma steady_dispatch: "steady (dispatch e c)"
  using steady_gateway [of e c] by (simp add: steady_def dispatch_def)

lemma run_grows: "grows h (snd (run e prog n tr h))"
proof (induction n arbitrary: tr h)
  case (Suc n)
  show ?case
  proof (cases "prog tr")
    case (Some c)
    obtain r h' where d: "dispatch e c h = (r, h')" by fastforce
    with steady_dispatch [of e c] have "grows h h'" by (metis steady_def snd_conv)
    with Suc [of h' "tr @ [(c, r)]"] Some d show ?thesis by (auto intro: grows_trans)
  qed simp
qed simp

lemma execute_reserves:
  assumes "validateExecute rd h p = Inr q" "0 \<le> int_or (minCallGas_opt rd) VM_MIN_CALL_GAS"
  shows "\<exists>g. cr_gasLimit q = JNum (Num g) \<and> 0 \<le> g \<and> rat_integral g
     \<and> of_int (int_or (minCallGas_opt rd) VM_MIN_CALL_GAS) \<le> g"
proof -
  from assms(1) have "int_at_least (cr_gasLimit q) (of_int (int_or (minCallGas_opt rd) VM_MIN_CALL_GAS))"
    by (auto simp: validateExecute_def Let_def rbind_Inr_iff split: if_splits)
  moreover have "(0 :: rat) \<le> of_int (int_or (minCallGas_opt rd) VM_MIN_CALL_GAS)"
    using assms(2) by simp
  ultimately show ?thesis
    unfolding int_at_least_def by (auto split: jsval.splits jsnum.splits intro: order_trans)
qed

lemma priced_entry:
  assumes "priced c h" "k \<in> set CANONICAL_GAS_KEYS"
  shows "\<exists>r. cost_num h k = Num r \<and> 0 \<le> r \<and> gas_cost (gas h) k = JNum (Num r)"
proof -
  from assms have "valid_cost (gas_cost (gas h) k)" by (simp add: priced_def)
  with valid_costE obtain r where "gas_cost (gas h) k = JNum (Num r)" "0 \<le> r" by blast
  then show ?thesis by (simp add: cost_num_def)
qed

lemma priced_emission: "priced c h \<Longrightarrow> cost_num h ''VM_EMISSION'' = Num c \<and> 0 \<le> c"
  using priced_entry [of c h "''VM_EMISSION''"]
  by (auto simp: CANONICAL_GAS_KEYS_def priced_def cost_num_def)

lemma acct_queue_then [acct_intros]:
  "c \<le> k \<Longrightarrow> 0 \<le> c \<Longrightarrow> acct c k (bind_op (queue_action act p) (\<lambda>_. ret v))"
proof -
  assume c: "c \<le> k" "0 \<le> c"
  have "snd (bind_op (queue_action act p) (\<lambda>_. ret v) h) = snd (queue_action act p h)" for h
    by (cases "queue_action act p h"; cases "fst (queue_action act p h)")
      (auto simp: bind_op_def ret_def lift_def)
  with acct_queue [OF c, of act p] show ?thesis by (simp add: acct_def)
qed

text \<open>Reserve, then queue: the tail \<open>execute\<close> and \<open>crossExecute\<close> share.\<close>

lemma acct_reserve:
  assumes "\<And>h. priced c h \<Longrightarrow> \<exists>a. amount h = JNum (Num a) \<and> c \<le> a" "0 \<le> c"
  shows "acct c 0 (bind_op (if b then room_check else ret ()) (\<lambda>_.
     bind_op (\<lambda>h. charge_op (amount h) h) (\<lambda>_. bind_op (queue_action act p) (\<lambda>_. ret v))))"
proof (rule acct_bind)
  show "acct c 0 (if b then room_check else ret ())" by (intro acct_intros order_refl)
  show "acct c 0 (bind_op (\<lambda>h. charge_op (amount h) h) (\<lambda>_. bind_op (queue_action act p) (\<lambda>_. ret v)))"
    by (rule acct_charge_then [OF _ _ assms(2,1)]) (simp_all add: acct_queue_then assms(2))
qed simp

lemma acct_execute [acct_intros]:
  assumes "0 \<le> int_or (minCallGas_opt rd) VM_MIN_CALL_GAS" "0 \<le> c"
  shows "acct c 0 (emit_execute rd p)"
  unfolding emit_execute_def
proof (rule acct_bind_post [where P = "\<lambda>q. \<exists>g. cr_gasLimit q = JNum (Num g) \<and> 0 \<le> g"])
  fix q assume "\<exists>g. cr_gasLimit q = JNum (Num g) \<and> 0 \<le> g"
  then show "acct c 0 (bind_op (if hostCallBoundsOn rd then room_check else ret ()) (\<lambda>_.
     bind_op (\<lambda>h. charge_op (JNum (num_add (cost_num h ''VM_EMISSION'') (num_val (cr_gasLimit q)))) h) (\<lambda>_.
     bind_op (queue_action ''EXECUTE''
       (JObj [(''contractIndex'', JNum (cr_index q)), (''method'', cr_method q), (''params'', cr_args q),
              (''gasLimit'', cr_gasLimit q)])) (\<lambda>_. ret JUndef))))"
    by (intro acct_reserve assms(2)) (auto dest: priced_emission)
next
  fix h x h' assume "lift (validateExecute rd h p) h = (Inr x, h')"
  then have "validateExecute rd h p = Inr x" by (auto simp: lift_def)
  from execute_reserves [OF this assms(1)] show "\<exists>g. cr_gasLimit x = JNum (Num g) \<and> 0 \<le> g" by blast
qed (auto intro: acct_intros)

text \<open>The checks of \<open>crossExecute\<close> fix the amount it will charge.\<close>

lemma crossExecute_total:
  assumes "validateCrossExecute sha rd h p = Inr q"
  shows "\<exists>g. xr_limit q = JNum (Num g) \<and> rat_integral g \<and> 5000 \<le> g \<and> g \<le> 200000
     \<and> xr_total q = xcall_total h (xr_limit q)
     \<and> \<not> num_less (Num (remaining_gas h)) (xr_total q)"
proof -
  from assms obtain deadline limit total where b: "validateXcallBudget h p = Inr (deadline, limit, total)"
    and q: "xr_limit q = limit" "xr_total q = total"
    by (auto simp: validateCrossExecute_def Let_def rbind_Inr_iff split: if_splits)
  from b have "int_between limit (of_int XCALL_MIN_GAS) (of_int XCALL_MAX_GAS)"
    and t: "total = xcall_total h limit" "\<not> num_less (Num (remaining_gas h)) total"
    by (auto simp: validateXcallBudget_def Let_def rbind_Inr_iff split: if_splits)
  then show ?thesis using q
    by (auto simp: int_between_def XCALL_MIN_GAS_def XCALL_MAX_GAS_def split: jsval.splits jsnum.splits)
qed

lemma xcall_total_priced:
  assumes "priced c h"
  shows "\<exists>r t. cost_num h ''VM_XCALL_REQUEST'' = Num r \<and> cost_num h ''VM_XCALL_CALLBACK'' = Num t
     \<and> 0 \<le> r \<and> 0 \<le> t \<and> xcall_total h (JNum (Num g)) = Num (c + r + g + t)"
  using priced_entry [OF assms, of "''VM_XCALL_REQUEST''"] priced_entry [OF assms, of "''VM_XCALL_CALLBACK''"]
    priced_emission [OF assms]
  by (auto simp: xcall_total_def CANONICAL_GAS_KEYS_def)

lemma acct_crossExecute [acct_intros]:
  assumes "0 \<le> c"
  shows "acct c 0 (emit_crossExecute sha rd p)"
  unfolding emit_crossExecute_def
proof (rule acct_bind_post [where P = "\<lambda>q. \<exists>a. xr_total q = Num a \<and> c \<le> a"])
  fix q assume "\<exists>a. xr_total q = Num a \<and> c \<le> a"
  then have am: "priced c h \<Longrightarrow> \<exists>a. JNum (xr_total q) = JNum (Num a) \<and> c \<le> a" for h :: host by simp
  show "acct c 0 (bind_op (if hostCallBoundsOn rd then room_check else ret ()) (\<lambda>_.
     bind_op (charge_op (JNum (xr_total q))) (\<lambda>_.
     bind_op (queue_action ''XCALL''
       (JObj [(''callId'', JStr (xr_id q)), (''targetChain'', JStr (xr_chain q)),
              (''contractIndex'', JNum (xr_index q)), (''method'', xr_method q), (''params'', xr_args q),
              (''gasLimit'', xr_limit q), (''callbackMethod'', xr_callback q),
              (''callbackParams'', JArr (map JStr (xr_cbParams q))),
              (''deadlineBlocks'', JNum (xr_deadline q))])) (\<lambda>_. ret (JStr (xr_id q))))))"
    by (rule acct_reserve [where amount = "\<lambda>_. JNum (xr_total q)", OF am assms])
next
  fix h x h' assume c: "priced c h"
    and v: "lift (validateCrossExecute sha rd h p) h = (Inr x, h')"
  from v have "validateCrossExecute sha rd h p = Inr x" by (auto simp: lift_def)
  from crossExecute_total [OF this] obtain g where g: "xr_limit x = JNum (Num g)" "5000 \<le> g"
    "xr_total x = xcall_total h (xr_limit x)" by blast
  with xcall_total_priced [OF c, of g] priced_emission [OF c]
  show "\<exists>a. xr_total x = Num a \<and> c \<le> a" by force
qed (auto intro: acct_intros)

lemma acct_gateway:
  assumes "0 \<le> int_or (minCallGas_opt (ro e)) VM_MIN_CALL_GAS" "0 \<le> c"
  shows "acct c 0 (gateway e call)"
proof (cases call)
  case (MathCall f a b)
  then show ?thesis by (simp add: acct_math)
next
  case (EmitExecute p)
  then show ?thesis using assms by (simp add: acct_execute)
next
  case (EmitCross p)
  then show ?thesis using assms by (simp add: acct_crossExecute)
next
  case (GasUnits u)
  have "acct c 0 (\<lambda>h. charge_op (g h) h)" for g
    using acct_charge [of 0 c] by (simp add: acct_def)
  with GasUnits show ?thesis by (auto simp: gas_call_def intro!: acct_bind acct_intros)
next
  case (AttestRequest p q m ps opts)
  have "acct c c (queueAttestRequest sha rd p q m js env)" for sha rd js env
    unfolding queueAttestRequest_def
    using assms(2) by (intro acct_bind acct_reader(1) acct_queue_then) simp_all
  then have F: "acct c 0 (bind_op (charge_key ''VM_EMISSION'') (\<lambda>_.
      bind_op (lift (validateAttestRequest (ro e) p q m ps opts)) (\<lambda>r.
      queueAttestRequest (sha256_hex e) (ro e) p q m (fst r) (snd r))))"
    using assms(2) by (intro acct_charge_emission acct_bind acct_lift) simp_all
  show ?thesis
    unfolding AttestRequest gateway.simps attestation_request_def
    by (rule acct_bind [OF acct_lift [OF order_refl] acct_bind [OF _ acct_bind
          [OF acct_charge_key [OF order_refl] F order_refl] order_refl] order_refl])
      (intro acct_intros order_refl)
qed (simp only: gateway.simps gateway_defs emit_defs; use assms in \<open>intro acct_intros acct_bind; simp\<close>)+

end
