(* ===== verification/CallProps.thy ===== *)
theory CallProps
  imports Calls
begin

text \<open>
  What holds of every run of a contract against the gateway: the caps and invariants of the host,
  emissions against gas, the freeze after exhaustion, and the reservation arithmetic of the two
  deferred calls.
\<close>

subsection \<open>Nothing happens after exhaustion\<close>

definition spent_out :: "host \<Rightarrow> bool" where
  "spent_out h \<longleftrightarrow> exhausted (gas h) \<and> gas_inv (gas h)"

definition frozen :: "'a op \<Rightarrow> bool" where
  "frozen m \<longleftrightarrow> (\<forall>h. spent_out h \<longrightarrow> actions (coll (snd (m h))) = actions (coll h) \<and> kv (snd (m h)) = kv h
     \<and> spent_out (snd (m h)))"

named_theorems frozen_intros \<open>operations without effect once the gas is spent\<close>

lemma frozen_lift [frozen_intros]: "frozen (lift r)" "frozen (ret x)"
  "frozen (\<lambda>h. lift (g h) h)" "frozen (\<lambda>h. ret (y h) h)"
  by (simp_all add: frozen_def lift_def ret_def)

lemma frozen_bind [frozen_intros]:
  assumes "frozen m" "\<And>x. frozen (f x)"
  shows "frozen (bind_op m f)"
  unfolding frozen_def
proof (intro allI impI)
  fix h assume s: "spent_out h"
  obtain r h' where m: "m h = (r, h')" by fastforce
  with assms(1) s have h': "actions (coll h') = actions (coll h)" "kv h' = kv h" "spent_out h'"
    unfolding frozen_def by (metis snd_conv)+
  show "actions (coll (snd (bind_op m f h))) = actions (coll h) \<and> kv (snd (bind_op m f h)) = kv h
     \<and> spent_out (snd (bind_op m f h))"
  proof (cases r)
    case (Inr x)
    with assms(2) [of x] m h' show ?thesis by (simp add: bind_op_def frozen_def)
  qed (use m h' in \<open>simp add: bind_op_def\<close>)
qed

lemma frozen_charge_then:
  "frozen (bind_op (\<lambda>h. charge_op (amount h) h) f)"
  unfolding frozen_def
proof (intro allI impI)
  fix h assume s: "spent_out h"
  obtain r g where c: "charge (gas h) (amount h) = (r, g)" by fastforce
  from s charge_exhausted_throws [of "gas h" "amount h"] c obtain e where r: "r = Inl e"
    by (auto simp: spent_out_def dest: isl_def [THEN iffD1])
  from s c charge_sticky [of "gas h" "amount h"] charge_inv [of "gas h" "amount h"]
  have "spent_out (h\<lparr>gas := g\<rparr>)" by (simp add: spent_out_def)
  with c r show "actions (coll (snd (bind_op (\<lambda>h. charge_op (amount h) h) f h))) = actions (coll h)
      \<and> kv (snd (bind_op (\<lambda>h. charge_op (amount h) h) f h)) = kv h
      \<and> spent_out (snd (bind_op (\<lambda>h. charge_op (amount h) h) f h))"
    by (simp add: bind_op_def charge_op_def)
qed

lemma frozen_charge_key_then: "frozen (bind_op (charge_key k) f)"
  unfolding charge_key_def by (rule frozen_charge_then)

lemma frozen_charge_const_then: "frozen (bind_op (charge_op a) f)"
  by (rule frozen_charge_then [of "\<lambda>_. a"])

lemma frozen_charge [frozen_intros]: "frozen (charge_op a)"
proof -
  have "snd (bind_op (charge_op a) ret h) = snd (charge_op a h)" for h
    by (cases "charge_op a h"; cases "fst (charge_op a h)") (auto simp: bind_op_def ret_def lift_def)
  with frozen_charge_const_then [of a ret] show ?thesis by (simp add: frozen_def)
qed

lemma frozen_room [frozen_intros]: "frozen room_check"
  by (simp add: frozen_def room_check_def)

lemma frozen_log [frozen_intros]: "frozen (add_log m)"
  by (simp add: frozen_def add_log_def spent_out_def)

lemma frozen_mark [frozen_intros]: "frozen (mark_revert r)"
  by (simp add: frozen_def mark_revert_def spent_out_def)

lemma frozen_if [frozen_intros]: "frozen a \<Longrightarrow> frozen b \<Longrightarrow> frozen (if c then a else b)"
  by simp

lemma frozen_safeMath [frozen_intros]: "frozen m \<Longrightarrow> frozen (safeMath m)"
  by (simp add: frozen_def)

lemma frozen_chargeOutput [frozen_intros]: "frozen (chargeOutput m mj v)"
  unfolding chargeOutput_def by (intro frozen_intros)

lemma frozen_fmt [frozen_intros]: "frozen (fmt m mj r)" "frozen (fmtReal m mj r)"
  unfolding fmt_def fmtReal_def Let_def by (intro frozen_intros)+

lemma frozen_gateway: "frozen (gateway e c)"
proof (cases c)
  case (MathCall f a b)
  show ?thesis
    unfolding MathCall gateway.simps math_call_def
    by (rule frozen_safeMath, cases f) (simp_all add: test_cmp_def frozen_intros)
qed (simp only: gateway.simps gateway_defs emit_defs attestation_request_def gas_call_def;
     intro frozen_charge_key_then frozen_charge_then frozen_charge_const_then frozen_intros)+

lemma run_frozen:
  "spent_out h \<Longrightarrow> actions (coll (snd (run e prog n tr h))) = actions (coll h)
     \<and> kv (snd (run e prog n tr h)) = kv h"
proof (induction n arbitrary: tr h)
  case (Suc n)
  show ?case
  proof (cases "prog tr")
    case (Some c)
    obtain r h' where d: "dispatch e c h = (r, h')" by fastforce
    then have "h' = snd (gateway e c h)" by (metis bridge_host dispatch_def snd_conv)
    with frozen_gateway [of e c] Suc.prems
    have "actions (coll h') = actions (coll h)" "kv h' = kv h" "spent_out h'"
      by (simp_all add: frozen_def)
    with Suc.IH [of h' "tr @ [(c, r)]"] Some d show ?thesis by simp
  qed simp
qed simp

text \<open>C1. Swallowing a gas exhaustion gains a contract nothing: from the moment a charge has crossed
  the ceiling, whatever calls its code still makes, it queues no further action and changes no
  state, for every run, fuel and program.\<close>

theorem exhaustion_freezes_effects:
  assumes "exhausted (gas h)" "gas_inv (gas h)"
  shows "actions (coll (snd (run e prog n tr h))) = actions (coll h)
     \<and> kv (snd (run e prog n tr h)) = kv h"
  by (rule run_frozen) (simp add: spent_out_def assms)

text \<open>A host to run on: the schedule charges 1 a computation, 10 an emission; ceiling 25.\<close>

definition demo_schedule :: jsval where
  "demo_schedule = JObj (map (\<lambda>k. (k, JNum (Num (if k = ''VM_EMISSION'' then 10 else 1)))) CANONICAL_GAS_KEYS)"

definition demo_host :: "rat \<Rightarrow> host" where
  "demo_host u = \<lparr>gas = \<lparr>schedule = demo_schedule, ceiling = 25, used = u, exhausted = 25 < u\<rparr>,
     kv = demo_store, coll = newCollector 50 (JBool True), reverted = False, revertReason = JUndef\<rparr>"

definition demo_accessors :: accessors where
  "demo_accessors = \<lparr>oracleData = None, crossChainData = None, attestationData = None,
     contractStakeData = None, pollData = None\<rparr>"

definition demo_ro :: "bool \<Rightarrow> read_only" where
  "demo_ro bounds = \<lparr>caller = JStr ''a'', contractAddress = JStr ''C:BTC:7'',
     contractIndex = JNum (Num 7), txHash = JStr ''ab'', rootActionIndex = JNum (Num 0),
     callPath = JStr [], callDepth = JNum (Num 0), maxCallDepth_opt = JNum (Num 4),
     minCallGas_opt = JNum (Num 5), network = JStr ''regtest'', crossHops = JNum (Num 0),
     isGuard = False, params = [], blockContext = JUndef, balances = JObj [], tokenInfo = JObj [],
     acc = demo_accessors, providerDeadlines = JNull, mathOutputMeterOn = True,
     slashTokenDelimGuardOn = True, slashAmountPrecisionOn = True, hostCallBoundsOn = bounds\<rparr>"

definition demo_math :: "rat mathjs" where
  "demo_math = \<lparr>bignumber = (\<lambda>s. Inr 0), m_add = (\<lambda>a b. Inr (a + b)), m_subtract = (\<lambda>a b. Inr (a - b)),
     m_multiply = (\<lambda>a b. Inr (a * b)), m_divide = (\<lambda>a b. Inr (a / b)), m_mod = (\<lambda>a b. Inr 0),
     m_compare = (\<lambda>a b. Inr 0), m_abs = abs, m_isZero = (\<lambda>a. a = 0), m_sqrt = Inr,
     m_pow = (\<lambda>a b. Inr a), m_log = Inr, m_log2 = Inr, m_log10 = Inr, isComplex = (\<lambda>a. False),
     exponent_e = (\<lambda>a. Some 0), format_fixed = (\<lambda>a. ''0'')\<rparr>"

definition demo_env :: "bool \<Rightarrow> rat env" where
  "demo_env bounds = \<lparr>sha256_hex = id, mathjs_lib = demo_math, ro = demo_ro bounds, nonFiniteFailClosed = True\<rparr>"

theorem exhaustion_freezes_effects_witness:
  "kv (snd (run (demo_env True) (\<lambda>tr. Some (StateSet (JStr ''k'') (JNum (Num 1)))) 9 [] (demo_host 26)))
     = demo_store"
  using exhaustion_freezes_effects [of "demo_host 26" "demo_env True"
      "\<lambda>tr. Some (StateSet (JStr ''k'') (JNum (Num 1)))" 9 "[]"]
  by (simp add: demo_host_def gas_inv_def)

subsection \<open>Invariants of every run\<close>

definition host_inv :: "host \<Rightarrow> bool" where
  "host_inv h \<longleftrightarrow> gas_inv (gas h) \<and> collector_inv (coll h) \<and> dirty_bounded (kv h)"

definition new_host :: "gas_tracker \<Rightarrow> store \<Rightarrow> collector \<Rightarrow> host" where
  "new_host g s c = \<lparr>gas = g, kv = s, coll = c, reverted = False, revertReason = JUndef\<rparr>"

lemma newGasTracker_inv: "newGasTracker sched c = Inr g \<Longrightarrow> 0 \<le> c \<Longrightarrow> gas_inv g"
  using newGasTracker_ok(1) [of sched c g] by (simp add: gas_inv_def)

lemma newStateManager_bounded: "dirty_bounded (newStateManager s l nul nrm)"
  by (simp add: dirty_bounded_def newStateManager_def Let_def)

text \<open>C2. Every run of every contract, from a freshly built host, ends in a host that keeps its
  bounds: the actions queued never exceed the emission limit, the logs never exceed 100 entries of
  1041 bytes, no queued action carries a prototype-polluting key when the deep strip is on, every
  pending write is within the key and value limits, gas used never went down and the exhaustion
  flag records exactly an overdrawn tracker.\<close>

theorem run_keeps_bounds:
  assumes "newGasTracker sched limit = Inr g" "0 \<le> limit"
    and "h = new_host g (newStateManager base lims nul nrm) (newCollector (maxEmissions lims) strip_on)"
    and "h' = snd (run e prog n [] h)"
  shows "int (length (actions (coll h'))) \<le> max 0 (maxEmissions lims)
     \<and> length (logs (coll h')) \<le> 100 \<and> (\<forall>m \<in> set (logs (coll h')). length m \<le> 1041)
     \<and> (truthy strip_on \<longrightarrow> (\<forall>(a, p) \<in> set (actions (coll h')). clean p))
     \<and> (\<forall>(k, v) \<in> set (st_dirty (kv h')). check_key (kv h') k = Inr ()
          \<and> (v \<noteq> JNull \<longrightarrow> check_value (kv h') v = Inr ()))
     \<and> st_limits (kv h') = lims
     \<and> 0 \<le> used (gas h') \<and> ceiling (gas h') = limit
     \<and> (exhausted (gas h') \<longleftrightarrow> limit < used (gas h'))"
proof -
  from assms(3) have h: "gas h = g" "kv h = newStateManager base lims nul nrm"
    "coll h = newCollector (maxEmissions lims) strip_on" by (simp_all add: new_host_def)
  from run_grows [of h e prog n "[]"] assms(4) have g: "grows h h'" by simp
  have start: "gas_inv (gas h)" "collector_inv (coll h)" "dirty_bounded (kv h)"
    unfolding h by (rule newGasTracker_inv [OF assms(1,2)], rule newCollector_inv,
      rule newStateManager_bounded)
  from g start have inv: "gas_inv (gas h')" "collector_inv (coll h')" "dirty_bounded (kv h')"
    unfolding grows_def by blast+
  from g have "ceiling (gas h') = ceiling (gas h)" "st_limits (kv h') = st_limits (kv h)"
    "max_emissions (coll h') = max_emissions (coll h)" "deepStrip (coll h') = deepStrip (coll h)"
    unfolding grows_def extends_def by blast+
  then have "ceiling (gas h') = limit" "st_limits (kv h') = lims"
    "max_emissions (coll h') = maxEmissions lims" "deepStrip (coll h') = truthy strip_on"
    unfolding h newGasTracker_ok(1) [OF assms(1)]
    by (simp_all add: newStateManager_def newCollector_def Let_def)
  with inv show ?thesis
    unfolding gas_inv_def collector_inv_def dirty_bounded_def by simp
qed

lemma demo_schedule_ok:
  "newGasTracker demo_schedule 25 = Inr \<lparr>schedule = demo_schedule, ceiling = 25, used = 0, exhausted = False\<rparr>"
  by (simp add: newGasTracker_def demo_schedule_def CANONICAL_GAS_KEYS_def check_schedule_value_def
      valid_cost_def check_schedule_key_def has_own_def)

lemma demo_max: "maxEmissions demo_limits = 50"
  by (simp add: demo_limits_def resolveLimits_def Let_def DEFAULT_LIMITS_def js_get_def int_or_def)

theorem run_keeps_bounds_witness:
  "length (actions (coll (snd (run (demo_env True) (\<lambda>tr. Some (EmitList JNull)) 1000 []
     (new_host \<lparr>schedule = demo_schedule, ceiling = 25, used = 0, exhausted = False\<rparr>
        (newStateManager (JObj []) demo_limits True True) (newCollector (maxEmissions demo_limits) (JBool True))))))) \<le> 50"
  using run_keeps_bounds [OF demo_schedule_ok _ refl refl, where base = "JObj []" and lims = demo_limits
      and nul = True and nrm = True and strip_on = "JBool True" and e = "demo_env True"
      and prog = "\<lambda>tr. Some (EmitList JNull)" and n = 1000]
  by (simp add: demo_max)

subsection \<open>Emissions against gas\<close>

lemma run_acct:
  assumes "0 \<le> int_or (minCallGas_opt (ro e)) VM_MIN_CALL_GAS" "0 \<le> c"
  shows "priced c h \<Longrightarrow> c * (n_actions (snd (run e prog n tr h)) - n_actions h)
     \<le> used (gas (snd (run e prog n tr h))) - used (gas h)"
proof (induction n arbitrary: tr h)
  case (Suc n)
  show ?case
  proof (cases "prog tr")
    case (Some call)
    obtain r h' where d: "dispatch e call h = (r, h')" by fastforce
    then have h': "h' = snd (gateway e call h)" by (metis bridge_host dispatch_def snd_conv)
    from acctD [OF acct_gateway [OF assms, of call] Suc.prems] h'
    have a: "c * (n_actions h' - n_actions h) \<le> used (gas h') - used (gas h)"
      and "schedule (gas h') = schedule (gas h)" by simp_all
    with Suc.prems have "priced c h'" using priced_cong by blast
    from Suc.IH [OF this, of "tr @ [(call, r)]"] a Some d show ?thesis by (simp add: algebra_simps)
  qed simp
qed simp

text \<open>C22. Emissions are paid for: over any run the gas used grows by at least the schedule's emission
  price for every action queued, so with a positive price the number of actions of an execution is
  bounded by its gas, whichever emissions they are and however the contract handles the errors.\<close>

theorem emissions_are_paid:
  assumes "newGasTracker sched limit = Inr g" "gas_cost g ''VM_EMISSION'' = JNum (Num c)"
    and "h = new_host g s (newCollector m d)"
    and "0 \<le> int_or (minCallGas_opt (ro e)) VM_MIN_CALL_GAS"
    and "h' = snd (run e prog n [] h)"
  shows "c * of_nat (length (actions (coll h'))) \<le> used (gas h')"
proof -
  have p: "priced c h"
    using newGasTracker_ok(2) [OF assms(1)] assms(2,3) by (simp add: priced_def new_host_def)
  then have "0 \<le> c" using priced_emission by blast
  from run_acct [OF assms(4) this p, of prog n "[]"] show ?thesis
    using assms(3,5) newGasTracker_ok(1) [OF assms(1)]
    by (simp add: n_actions_def new_host_def newCollector_def)
qed

theorem emissions_are_paid_witness:
  "10 * of_nat (length (actions (coll (snd (run (demo_env True) (\<lambda>tr. Some (EmitList JNull)) 7 []
     (new_host \<lparr>schedule = demo_schedule, ceiling = 25, used = 0, exhausted = False\<rparr>
        demo_store (newCollector 50 (JBool True)))))))) \<le>
   used (gas (snd (run (demo_env True) (\<lambda>tr. Some (EmitList JNull)) 7 []
     (new_host \<lparr>schedule = demo_schedule, ceiling = 25, used = 0, exhausted = False\<rparr>
        demo_store (newCollector 50 (JBool True))))))"
proof (rule emissions_are_paid [OF demo_schedule_ok _ refl _ refl])
  show "gas_cost \<lparr>schedule = demo_schedule, ceiling = 25, used = 0, exhausted = False\<rparr> ''VM_EMISSION''
      = JNum (Num 10)"
    by (simp add: gas_cost_def demo_schedule_def js_get_def CANONICAL_GAS_KEYS_def)
  show "0 \<le> int_or (minCallGas_opt (ro (demo_env True))) VM_MIN_CALL_GAS"
    by (simp add: demo_env_def demo_ro_def int_or_def)
qed

subsection \<open>Reservations\<close>

lemma charge_fits:
  "0 \<le> a \<Longrightarrow> used tr + a \<le> ceiling tr \<Longrightarrow> charge tr (JNum (Num a)) = (Inr (), tr\<lparr>used := used tr + a\<rparr>)"
  by simp

lemma validateExecute_fits:
  assumes "validateExecute rd h p = Inr q" "priced c h" "0 \<le> int_or (minCallGas_opt rd) VM_MIN_CALL_GAS"
  obtains g where "cr_gasLimit q = JNum (Num g)" "rat_integral g"
    "of_int (int_or (minCallGas_opt rd) VM_MIN_CALL_GAS) \<le> g" "0 \<le> g"
    "used (gas h) + (c + g) \<le> ceiling (gas h)"
proof -
  from execute_reserves [OF assms(1,3)] obtain g where g: "cr_gasLimit q = JNum (Num g)" "0 \<le> g"
    "rat_integral g" "of_int (int_or (minCallGas_opt rd) VM_MIN_CALL_GAS) \<le> g" by blast
  from assms(1) have "\<not> num_less (Num (remaining_gas h))
      (num_add (num_val (cr_gasLimit q)) (cost_num h ''VM_EMISSION''))"
    by (auto simp: validateExecute_def Let_def rbind_Inr_iff split: if_splits)
  with g priced_emission [OF assms(2)] have "used (gas h) + (c + g) \<le> ceiling (gas h)"
    by (simp add: remaining_gas_def not_less algebra_simps)
  with g that show thesis by blast
qed

lemma queue_has_room:
  assumes "ensureRoom (coll h) = Inr u" "deepStrip (coll h) \<or> is_object p"
  shows "\<exists>safe. add_action (coll h) act p = (Inr (), (coll h)\<lparr>actions := actions (coll h) @ [(act, safe)]\<rparr>)"
  using assms
  by (auto simp: add_action_def shallow_strip_def is_object_def split: if_splits)
    (cases p; simp)

text \<open>Reserve, then queue, when the reservation fits: either a slot is left and both happen, or none
  is and the check before the charge, when its gate is on, refuses for free.\<close>

lemma reserve_spec:
  fixes h :: host and a :: rat
  defines "full \<equiv> isl (ensureRoom (coll h))"
    and "g' \<equiv> (gas h)\<lparr>used := used (gas h) + a\<rparr>"
  assumes a: "amount h = JNum (Num a)" "0 \<le> a" "used (gas h) + a \<le> ceiling (gas h)"
  shows "\<exists>e safe. bind_op (if b then room_check else ret ()) (\<lambda>_.
     bind_op (\<lambda>h. charge_op (amount h) h) (\<lambda>_. bind_op (queue_action act (JObj kvs)) (\<lambda>_. ret v))) h
   = (if full then (Inl e, if b then h else h\<lparr>gas := g'\<rparr>)
      else (Inr v, h\<lparr>gas := g', coll := (coll h)\<lparr>actions := actions (coll h) @ [(act, safe)]\<rparr>\<rparr>))"
proof (cases "ensureRoom (coll h)")
  case (Inl e)
  have "add_action (coll h) act (JObj kvs) = (Inl e, coll h)"
    using Inl by (simp add: add_action_def)
  with Inl a charge_fits [OF a(2,3)] show ?thesis
    by (auto simp: full_def g'_def bind_op_def room_check_def ret_def lift_def charge_op_def
        queue_action_def simp del: charge.simps)
next
  case (Inr u)
  from queue_has_room [OF Inr, of "JObj kvs" act] obtain safe where
    q: "add_action (coll h) act (JObj kvs)
        = (Inr (), (coll h)\<lparr>actions := actions (coll h) @ [(act, safe)]\<rparr>)"
    by (auto simp: is_object_def)
  with Inr a charge_fits [OF a(2,3)] show ?thesis
    by (auto simp: full_def g'_def bind_op_def room_check_def ret_def lift_def charge_op_def
        queue_action_def simp del: charge.simps)
qed

text \<open>What one deferred call does to the host: it succeeds with its reservation charged in full
  within the ceiling and one action appended, or it fails, queues nothing and, with the host-call
  bounds gate on, charges nothing.\<close>

definition reserves :: "string \<Rightarrow> bool \<Rightarrow> rat \<Rightarrow> (rat \<Rightarrow> bool) \<Rightarrow> host \<Rightarrow> jsval res \<times> host \<Rightarrow> bool" where
  "reserves act gated base ok h out \<longleftrightarrow> (case out of
     (Inr v, h') \<Rightarrow> (\<exists>g safe. ok g \<and> rat_integral g \<and> used (gas h') = used (gas h) + base + g
        \<and> used (gas h') \<le> ceiling (gas h) \<and> actions (coll h') = actions (coll h) @ [(act, safe)]
        \<and> kv h' = kv h)
   | (Inl e, h') \<Rightarrow> actions (coll h') = actions (coll h) \<and> kv h' = kv h \<and> (gated \<longrightarrow> h' = h))"

lemma reserves_reserve:
  assumes "amount h = JNum (Num (base + g))" "0 \<le> base + g" "used (gas h) + (base + g) \<le> ceiling (gas h)"
    and "ok g" "rat_integral g"
  shows "reserves act b base ok h (bind_op (if b then room_check else ret ()) (\<lambda>_.
     bind_op (\<lambda>h. charge_op (amount h) h) (\<lambda>_. bind_op (queue_action act (JObj kvs)) (\<lambda>_. ret v))) h)"
proof -
  from reserve_spec [where amount = amount and h = h, OF assms(1-3), of b act kvs v]
  obtain e safe where r: "bind_op (if b then room_check else ret ()) (\<lambda>_.
     bind_op (\<lambda>h. charge_op (amount h) h) (\<lambda>_. bind_op (queue_action act (JObj kvs)) (\<lambda>_. ret v))) h
   = (if isl (ensureRoom (coll h))
      then (Inl e, if b then h else h\<lparr>gas := (gas h)\<lparr>used := used (gas h) + (base + g)\<rparr>\<rparr>)
      else (Inr v, h\<lparr>gas := (gas h)\<lparr>used := used (gas h) + (base + g)\<rparr>,
                     coll := (coll h)\<lparr>actions := actions (coll h) @ [(act, safe)]\<rparr>\<rparr>))" by blast
  show ?thesis
  proof (cases "isl (ensureRoom (coll h))")
    case True
    then show ?thesis unfolding r by (simp add: reserves_def)
  next
    case False
    moreover have "used (gas h) + base + g \<le> ceiling (gas h)" using assms(3) by (simp add: add.assoc)
    ultimately show ?thesis unfolding r using assms(4,5)
      by (auto simp: reserves_def add.assoc intro!: exI [of _ g])
  qed
qed

lemma reader_bind:
  "bind_op (\<lambda>h. lift (f h) h) k h = (case f h of Inl e \<Rightarrow> (Inl e, h) | Inr x \<Rightarrow> k x h)"
  by (auto simp: bind_op_def lift_def split: sum.split)


lemma demo_priced: "priced 10 (demo_host u)"
  by (simp add: priced_def demo_host_def gas_cost_def demo_schedule_def js_get_def
      CANONICAL_GAS_KEYS_def valid_cost_def)


text \<open>\<open>emit.crossExecute\<close> prepays exactly: a call that returns has charged the emission price, the
  request and callback buckets and the remote gas limit, an integer in the protocol's window,
  within the caller's ceiling, and queued one XCALL; a call that throws queues nothing, and with
  the host-call bounds gate on it leaves the host as it was.\<close>

theorem crossExecute_prepays_exactly:
  assumes "priced c h" "cost_num h ''VM_XCALL_REQUEST'' = Num r" "cost_num h ''VM_XCALL_CALLBACK'' = Num t"
  shows "reserves ''XCALL'' (hostCallBoundsOn rd) (c + r + t) (\<lambda>g. 5000 \<le> g \<and> g \<le> 200000) h
     (emit_crossExecute sha rd p h)"
proof (cases "validateCrossExecute sha rd h p")
  case (Inl e)
  then show ?thesis by (simp add: emit_crossExecute_def reader_bind reserves_def)
next
  case (Inr q)
  from crossExecute_total [OF Inr] obtain g where g: "xr_limit q = JNum (Num g)" "rat_integral g"
    "5000 \<le> g" "g \<le> 200000" "xr_total q = xcall_total h (xr_limit q)"
    "\<not> num_less (Num (remaining_gas h)) (xr_total q)" by blast
  from xcall_total_priced [OF assms(1), of g] g(1,5) assms(2,3) priced_emission [OF assms(1)]
  have tot: "JNum (xr_total q) = JNum (Num (c + r + t + g))" and nn: "0 \<le> c + r + t + g"
    using g(3) by (auto simp: add.commute add.left_commute)
  then have "used (gas h) + (c + r + t + g) \<le> ceiling (gas h)"
    using g(6) by (simp add: remaining_gas_def not_less algebra_simps)
  from reserves_reserve [where amount = "\<lambda>_. JNum (xr_total q)", OF tot nn this] g(2-4) Inr
  show ?thesis by (simp add: emit_crossExecute_def reader_bind)
qed

theorem crossExecute_prepays_exactly_witness:
  "reserves ''XCALL'' True 12 (\<lambda>g. 5000 \<le> g \<and> g \<le> 200000) (demo_host 0)
     (emit_crossExecute id (demo_ro True) (JObj []) (demo_host 0))"
proof -
  have "cost_num (demo_host 0) ''VM_XCALL_REQUEST'' = Num 1" "cost_num (demo_host 0) ''VM_XCALL_CALLBACK'' = Num 1"
    by (simp_all add: cost_num_def demo_host_def gas_cost_def demo_schedule_def js_get_def
        CANONICAL_GAS_KEYS_def)
  from crossExecute_prepays_exactly [OF demo_priced this, of "demo_ro True" id "JObj []"]
  show ?thesis by (simp add: demo_ro_def)
qed

end
