(* ===== verification/Gates.thy ===== *)
theory Gates
  imports JsValue
begin

text \<open>
  Activation gates: the flag days by block time (src/index/runtime/activations.js, the
  \<open>*_meter.js\<close> gates, src/index/host_call_bounds.js, src/gas.js, src/readonly-accessors.js) and by
  per-coin block height (src/index/runtime/activation_heights.js, the \<open>*_heights.js\<close> tables).
  Every consensus rule of the virtual machine asks one of them, so each must switch once and stay
  on: the locale \<open>activation\<close> states what makes a resolver a threshold and derives that.

  A network is the host's string; a block time or height is whatever value the host passed. A
  table entry is \<open>Some\<close> of its number or \<open>None\<close> for the unarmed \<open>null\<close>.
\<close>

type_synonym gate_table = "(string \<times> rat option) list"

fun table_get :: "gate_table \<Rightarrow> string \<Rightarrow> rat option" where
  "table_get tbl k = (case map_of tbl k of Some g \<Rightarrow> g | None \<Rightarrow> None)"

text \<open>\<open>Number.isFinite(t) \<and> t >= g\<close>, and the same after \<open>Number(t)\<close>. A conversion that throws
  (an object with a \<open>toString\<close> member of its own) never reaches a gate: heights and times are
  numbers or their decimal text.\<close>

definition at_least :: "rat \<Rightarrow> jsnum \<Rightarrow> bool" where
  "at_least g t = (case t of Num r \<Rightarrow> g \<le> r | _ \<Rightarrow> False)"

fun num_only :: "jsval \<Rightarrow> jsnum" where
  "num_only (JNum n) = n"
| "num_only _ = NaN"

definition num_of :: "jsval \<Rightarrow> jsnum" where
  "num_of v = (case to_num v of Inr n \<Rightarrow> n | Inl _ \<Rightarrow> NaN)"

subsection \<open>What a resolver is\<close>

datatype start = Never | Genesis | From rat

definition threshold :: "start \<Rightarrow> jsnum \<Rightarrow> bool" where
  "threshold s t = (case s of Never \<Rightarrow> False | Genesis \<Rightarrow> True | From g \<Rightarrow> at_least g t)"

locale activation =
  fixes active :: "'n \<Rightarrow> jsval \<Rightarrow> bool"
    and reading :: "jsval \<Rightarrow> jsnum"
    and start :: "'n \<Rightarrow> start"
  assumes threshold_law: "active n v \<longleftrightarrow> threshold (start n) (reading v)"
begin

text \<open>Once on, on at every later block.\<close>

lemma stays_on:
  "active n v \<Longrightarrow> reading v = Num s \<Longrightarrow> reading w = Num t \<Longrightarrow> s \<le> t \<Longrightarrow> active n w"
  unfolding threshold_law by (auto simp: threshold_def at_least_def split: start.splits)

text \<open>Along a chain of non-decreasing readings the rule switches at most once.\<close>

lemma switches_once:
  assumes "list_all (\<lambda>v. \<exists>t. reading v = Num t) vs"
    and "sorted_wrt (\<lambda>v w. \<forall>s t. reading v = Num s \<longrightarrow> reading w = Num t \<longrightarrow> s \<le> t) vs"
  shows "\<exists>k. map (active n) vs = replicate k False @ replicate (length vs - k) True"
  using assms
proof (induction vs)
  case (Cons v vs)
  show ?case
  proof (cases "active n v")
    case True
    obtain s where s: "reading v = Num s" using Cons.prems(1) by auto
    have "active n w" if w: "w \<in> set vs" for w
    proof -
      obtain t where t: "reading w = Num t" using Cons.prems(1) w by (auto simp: list_all_iff)
      with Cons.prems(2) s w have "s \<le> t" by auto
      with True s t show ?thesis by (rule stays_on)
    qed
    then have "map (active n) vs = replicate (length vs) True"
      by (simp add: list_eq_iff_nth_eq)
    with True have "map (active n) (v # vs) = replicate 0 False @ replicate (length (v # vs) - 0) True"
      by simp
    then show ?thesis by blast
  next
    case False
    from Cons obtain k where "map (active n) vs = replicate k False @ replicate (length vs - k) True"
      by auto
    with False have "map (active n) (v # vs)
        = replicate (Suc k) False @ replicate (length (v # vs) - Suc k) True" by simp
    then show ?thesis by blast
  qed
qed simp

text \<open>Two blocks that agree about the side of the threshold agree about the rule.\<close>

lemma replay: "reading v = reading w \<Longrightarrow> active n v = active n w"
  by (simp add: threshold_law)

end

subsection \<open>Flag days by block time\<close>

definition BINARY_ALLOC_GATE_BLOCK_TIME :: rat where "BINARY_ALLOC_GATE_BLOCK_TIME = 1786060800"
definition JSON_STRINGIFY_HOOK_GATE_BLOCK_TIME :: rat where
  "JSON_STRINGIFY_HOOK_GATE_BLOCK_TIME = 9999999999"
definition ASYNC_SURFACE_GATE_BLOCK_TIME :: rat where "ASYNC_SURFACE_GATE_BLOCK_TIME = 1786060800"
definition VM_LINT_HARDENING_GATE_BLOCK_TIME :: rat where
  "VM_LINT_HARDENING_GATE_BLOCK_TIME = 1786060800"
definition STATE_KEY_NUL_GATE_BLOCK_TIME :: rat where "STATE_KEY_NUL_GATE_BLOCK_TIME = 1786060800"
definition STATE_KEY_TYPE_GATE_BLOCK_TIME :: rat where "STATE_KEY_TYPE_GATE_BLOCK_TIME = 1786060800"
definition METERING_EVAL_ORDER_GATE_BLOCK_TIME :: rat where
  "METERING_EVAL_ORDER_GATE_BLOCK_TIME = 1786060800"
definition CALL_SPREAD_METER_GATE_BLOCK_TIME :: rat where
  "CALL_SPREAD_METER_GATE_BLOCK_TIME = 1786060800"
definition REST_PATTERN_METER_GATE_BLOCK_TIME :: rat where
  "REST_PATTERN_METER_GATE_BLOCK_TIME = 1798761600"
definition TOSTRING_SIZE_METER_GATE_BLOCK_TIME :: rat where
  "TOSTRING_SIZE_METER_GATE_BLOCK_TIME = 9999999999"

text \<open>The body the coordinated gates share: the test networks from genesis, any other network at
  the flag day.\<close>

definition coordinated :: "rat \<Rightarrow> string \<Rightarrow> jsval \<Rightarrow> bool" where
  "coordinated gate network blockTime \<longleftrightarrow>
     network = ''testnet'' \<or> network = ''regtest'' \<or> at_least gate (num_only blockTime)"

definition isAsyncSurfaceActive :: "string \<Rightarrow> jsval \<Rightarrow> bool" where
  "isAsyncSurfaceActive network t = coordinated ASYNC_SURFACE_GATE_BLOCK_TIME network t"
definition isLintHardeningActive :: "string \<Rightarrow> jsval \<Rightarrow> bool" where
  "isLintHardeningActive network t = coordinated VM_LINT_HARDENING_GATE_BLOCK_TIME network t"
definition isStateKeyNulRejectActive :: "string \<Rightarrow> jsval \<Rightarrow> bool" where
  "isStateKeyNulRejectActive network t = coordinated STATE_KEY_NUL_GATE_BLOCK_TIME network t"
definition isStateKeyTypeNormalizeActive :: "string \<Rightarrow> jsval \<Rightarrow> bool" where
  "isStateKeyTypeNormalizeActive network t = coordinated STATE_KEY_TYPE_GATE_BLOCK_TIME network t"
definition isMeteringEvalOrderActive :: "string \<Rightarrow> jsval \<Rightarrow> bool" where
  "isMeteringEvalOrderActive network t = coordinated METERING_EVAL_ORDER_GATE_BLOCK_TIME network t"
definition isCallSpreadMeterActive :: "string \<Rightarrow> jsval \<Rightarrow> bool" where
  "isCallSpreadMeterActive network t = coordinated CALL_SPREAD_METER_GATE_BLOCK_TIME network t"
definition isRestPatternMeterActive :: "string \<Rightarrow> jsval \<Rightarrow> bool" where
  "isRestPatternMeterActive network t = coordinated REST_PATTERN_METER_GATE_BLOCK_TIME network t"
definition isSlashTokenDelimGuardActive :: "string \<Rightarrow> jsval \<Rightarrow> bool" where
  "isSlashTokenDelimGuardActive network t = coordinated BINARY_ALLOC_GATE_BLOCK_TIME network t"
definition isSlashAmountPrecisionActive :: "string \<Rightarrow> jsval \<Rightarrow> bool" where
  "isSlashAmountPrecisionActive network t = coordinated BINARY_ALLOC_GATE_BLOCK_TIME network t"
definition isConsensusWallClockActive :: "string \<Rightarrow> jsval \<Rightarrow> bool" where
  "isConsensusWallClockActive network t = coordinated BINARY_ALLOC_GATE_BLOCK_TIME network t"

text \<open>The body of the gates with a table of their own: an absent or unarmed entry is off, a zero
  entry is on at any time.\<close>

definition armed :: "gate_table \<Rightarrow> string \<Rightarrow> jsval \<Rightarrow> bool" where
  "armed tbl network blockTime =
     (case table_get tbl network of
        None \<Rightarrow> False
      | Some gate \<Rightarrow> gate = 0 \<or> at_least gate (num_only blockTime))"

definition ITER_SET_METER_ACTIVATION :: gate_table where
  "ITER_SET_METER_ACTIVATION = [(''mainnet'', None), (''testnet'', Some 1791804379), (''regtest'', Some 0)]"
definition APPLY_LENGTH_METER_ACTIVATION :: gate_table where
  "APPLY_LENGTH_METER_ACTIVATION = [(''mainnet'', None), (''testnet'', Some 1791804379), (''regtest'', Some 0)]"
definition GAS_CEILING_SUCCESS_ACTIVATION :: gate_table where
  "GAS_CEILING_SUCCESS_ACTIVATION = [(''mainnet'', None), (''testnet'', Some 1791804379), (''regtest'', Some 0)]"
definition HOST_CALL_BOUNDS_ACTIVATION :: gate_table where
  "HOST_CALL_BOUNDS_ACTIVATION = [(''mainnet'', None), (''testnet'', Some 1792303200), (''regtest'', Some 0)]"
definition PER_ELEMENT_METER_ACTIVATION :: gate_table where
  "PER_ELEMENT_METER_ACTIVATION = [(''mainnet'', None), (''testnet'', Some 1792303200), (''regtest'', Some 0)]"
definition STRING_RECEIVER_METER_ACTIVATION :: gate_table where
  "STRING_RECEIVER_METER_ACTIVATION = [(''mainnet'', None), (''testnet'', Some 1792454400), (''regtest'', Some 0)]"
definition STRING_RESULT_METER_ACTIVATION :: gate_table where
  "STRING_RESULT_METER_ACTIVATION = [(''mainnet'', None), (''testnet'', Some 1792454400), (''regtest'', Some 0)]"

definition isIterSetMeterActive :: "string \<Rightarrow> jsval \<Rightarrow> bool" where
  "isIterSetMeterActive network t = armed ITER_SET_METER_ACTIVATION network t"
definition isApplyLengthMeterActive :: "string \<Rightarrow> jsval \<Rightarrow> bool" where
  "isApplyLengthMeterActive network t = armed APPLY_LENGTH_METER_ACTIVATION network t"
definition isGasCeilingSuccessActive :: "string \<Rightarrow> jsval \<Rightarrow> bool" where
  "isGasCeilingSuccessActive network t = armed GAS_CEILING_SUCCESS_ACTIVATION network t"
definition isHostCallBoundsActive :: "string \<Rightarrow> jsval \<Rightarrow> bool" where
  "isHostCallBoundsActive network t = armed HOST_CALL_BOUNDS_ACTIVATION network t"
definition isPerElementMeterActive :: "string \<Rightarrow> jsval \<Rightarrow> bool" where
  "isPerElementMeterActive network t = armed PER_ELEMENT_METER_ACTIVATION network t"
definition isStringReceiverMeterActive :: "string \<Rightarrow> jsval \<Rightarrow> bool" where
  "isStringReceiverMeterActive network t = armed STRING_RECEIVER_METER_ACTIVATION network t"
definition isStringResultMeterActive :: "string \<Rightarrow> jsval \<Rightarrow> bool" where
  "isStringResultMeterActive network t = armed STRING_RESULT_METER_ACTIVATION network t"

text \<open>Two gates hand the instant itself to the sandbox; a network without one reads mainnet's.\<close>

definition JSON_STRINGIFY_HOOK_ACTIVATION :: gate_table where
  "JSON_STRINGIFY_HOOK_ACTIVATION =
     [(''mainnet'', Some JSON_STRINGIFY_HOOK_GATE_BLOCK_TIME), (''testnet'', Some 1791061097),
      (''regtest'', Some 0)]"

definition jsonStringifyHookGateTime :: "string \<Rightarrow> rat" where
  "jsonStringifyHookGateTime network =
     (case table_get JSON_STRINGIFY_HOOK_ACTIVATION network of
        Some gate \<Rightarrow> gate | None \<Rightarrow> JSON_STRINGIFY_HOOK_GATE_BLOCK_TIME)"

definition TOSTRING_SIZE_METER_ACTIVATION :: gate_table where
  "TOSTRING_SIZE_METER_ACTIVATION =
     [(''mainnet'', Some TOSTRING_SIZE_METER_GATE_BLOCK_TIME), (''testnet'', Some 1792454400),
      (''regtest'', Some 0)]"

definition toStringSizeMeterGateTime :: "string \<Rightarrow> rat" where
  "toStringSizeMeterGateTime network =
     (case table_get TOSTRING_SIZE_METER_ACTIVATION network of
        Some gate \<Rightarrow> gate | None \<Rightarrow> TOSTRING_SIZE_METER_GATE_BLOCK_TIME)"

definition isToStringSizeMeterActive :: "string \<Rightarrow> jsval \<Rightarrow> bool" where
  "isToStringSizeMeterActive network blockTime =
     (let gate = toStringSizeMeterGateTime network
      in gate = 0 \<or> at_least gate (num_only blockTime))"

text \<open>The accessors' own-key gate reads the block time through \<open>Number\<close>, and an unknown network as
  mainnet.\<close>

definition ACCESSOR_OWN_KEY_ACTIVATION :: gate_table where
  "ACCESSOR_OWN_KEY_ACTIVATION = [(''mainnet'', None), (''testnet'', Some 0), (''regtest'', Some 0)]"

definition isAccessorOwnKeyActive :: "string \<Rightarrow> jsval \<Rightarrow> bool" where
  "isAccessorOwnKeyActive network blockTime =
     (case table_get ACCESSOR_OWN_KEY_ACTIVATION
             (if map_of ACCESSOR_OWN_KEY_ACTIVATION network \<noteq> None then network else ''mainnet'') of
        None \<Rightarrow> False
      | Some gate \<Rightarrow> gate = 0 \<or> at_least gate (num_of blockTime))"

subsection \<open>Per-coin block heights\<close>

text \<open>The coin of a \<open>C:<COIN>:<action_index>\<close> contract address.\<close>

definition pkg3CoinFromAddress :: "jsval \<Rightarrow> string option" where
  "pkg3CoinFromAddress contractAddress =
     (case contractAddress of
        JStr a \<Rightarrow> (let parts = split_on (CHR '':'') a in
          if 3 \<le> length parts \<and> parts ! 0 = ''C'' \<and> parts ! 1 \<noteq> [] then Some (parts ! 1) else None)
      | _ \<Rightarrow> None)"

definition PKG3_SANDBOX_ACTIVATION :: gate_table where
  "PKG3_SANDBOX_ACTIVATION =
     [(''BTC:mainnet'', Some 961000), (''LTC:mainnet'', Some 3154250), (''DOGE:mainnet'', Some 6319000)]"
definition EXEC_LINT_ACTIVATION :: gate_table where
  "EXEC_LINT_ACTIVATION =
     [(''BTC:mainnet'', Some 0), (''LTC:mainnet'', Some 0), (''DOGE:mainnet'', Some 0)]"
definition LINT_GLOBAL_ALIAS_ACTIVATION :: gate_table where
  "LINT_GLOBAL_ALIAS_ACTIVATION =
     [(''BTC:mainnet'', Some 0), (''LTC:mainnet'', Some 0), (''DOGE:mainnet'', Some 0)]"
definition BIGINT_SURFACE_STRIP_ACTIVATION :: gate_table where
  "BIGINT_SURFACE_STRIP_ACTIVATION =
     [(''BTC:mainnet'', None), (''LTC:mainnet'', None), (''DOGE:mainnet'', None),
      (''BTC:testnet'', Some 156230), (''LTC:testnet'', Some 4912984), (''DOGE:testnet'', Some 67989993)]"
definition LINT_BANNED_WITH_ACTIVATION :: gate_table where
  "LINT_BANNED_WITH_ACTIVATION =
     [(''BTC:mainnet'', None), (''LTC:mainnet'', None), (''DOGE:mainnet'', None),
      (''BTC:testnet'', Some 156230), (''LTC:testnet'', Some 4912984), (''DOGE:testnet'', Some 67989993)]"
definition LINT_DESTRUCTURE_ACTIVATION :: gate_table where
  "LINT_DESTRUCTURE_ACTIVATION =
     [(''BTC:mainnet'', None), (''LTC:mainnet'', None), (''DOGE:mainnet'', None),
      (''BTC:testnet'', Some 156230), (''LTC:testnet'', Some 4912984), (''DOGE:testnet'', Some 67989993)]"
definition LINT_OPTIONAL_CHAIN_ACTIVATION :: gate_table where
  "LINT_OPTIONAL_CHAIN_ACTIVATION =
     [(''BTC:mainnet'', None), (''LTC:mainnet'', None), (''DOGE:mainnet'', None),
      (''BTC:testnet'', Some 155001), (''LTC:testnet'', Some 4906040), (''DOGE:testnet'', Some 67962387)]"
definition LINT_SYNTAX_DEPTH_ACTIVATION :: gate_table where
  "LINT_SYNTAX_DEPTH_ACTIVATION =
     [(''BTC:mainnet'', None), (''LTC:mainnet'', None), (''DOGE:mainnet'', None),
      (''BTC:testnet'', Some 156908), (''LTC:testnet'', Some 4927400), (''DOGE:testnet'', Some 68005165)]"
definition RESOURCE_FAULT_SIGNAL_ACTIVATION :: gate_table where
  "RESOURCE_FAULT_SIGNAL_ACTIVATION =
     [(''BTC:mainnet'', None), (''LTC:mainnet'', None), (''DOGE:mainnet'', None),
      (''BTC:testnet'', Some 156908), (''LTC:testnet'', Some 4927400), (''DOGE:testnet'', Some 68005165)]"
definition JSON_STRINGIFY_REENTRY_ACTIVATION :: gate_table where
  "JSON_STRINGIFY_REENTRY_ACTIVATION =
     [(''BTC:mainnet'', None), (''LTC:mainnet'', None), (''DOGE:mainnet'', None),
      (''BTC:testnet'', Some 156908), (''LTC:testnet'', Some 4927400), (''DOGE:testnet'', Some 68005165)]"
definition HOST_ERROR_STACK_STRIP_ACTIVATION :: gate_table where
  "HOST_ERROR_STACK_STRIP_ACTIVATION =
     [(''BTC:mainnet'', None), (''LTC:mainnet'', None), (''DOGE:mainnet'', None),
      (''BTC:testnet'', Some 156908), (''LTC:testnet'', Some 4927400), (''DOGE:testnet'', Some 68005165)]"
definition NATIVE_STACK_TERMINAL_ACTIVATION :: gate_table where
  "NATIVE_STACK_TERMINAL_ACTIVATION =
     [(''BTC:mainnet'', None), (''LTC:mainnet'', None), (''DOGE:mainnet'', None),
      (''BTC:testnet'', Some 156908), (''LTC:testnet'', Some 4927400), (''DOGE:testnet'', Some 68005165)]"
definition GAS_CEILING_EXHAUSTED_ACTIVATION :: gate_table where
  "GAS_CEILING_EXHAUSTED_ACTIVATION =
     [(''BTC:mainnet'', None), (''LTC:mainnet'', None), (''DOGE:mainnet'', None),
      (''BTC:testnet'', Some 156908), (''LTC:testnet'', Some 4927400), (''DOGE:testnet'', Some 68005165)]"
definition HOST_FAULT_HALT_ACTIVATION :: gate_table where
  "HOST_FAULT_HALT_ACTIVATION =
     [(''BTC:mainnet'', None), (''LTC:mainnet'', None), (''DOGE:mainnet'', None),
      (''BTC:testnet'', Some 157073), (''LTC:testnet'', Some 4928460), (''DOGE:testnet'', Some 68009330)]"

definition per_coin :: "gate_table \<Rightarrow> string \<Rightarrow> string option \<Rightarrow> rat option" where
  "per_coin tbl network coin =
     (case coin of None \<Rightarrow> None | Some c \<Rightarrow> table_get tbl (c @ '':'' @ network))"

text \<open>Both test networks from genesis.\<close>

definition resolvePerCoinHeightGate :: "gate_table \<Rightarrow> string \<Rightarrow> string option \<Rightarrow> jsval \<Rightarrow> bool" where
  "resolvePerCoinHeightGate tbl network coin blockHeight =
     (if network = ''testnet'' \<or> network = ''regtest'' then True
      else (case num_of blockHeight of
              Num b \<Rightarrow> (case per_coin tbl network coin of None \<Rightarrow> False | Some thr \<Rightarrow> thr \<le> b)
            | _ \<Rightarrow> False))"

definition isPkg3SandboxActive :: "string \<Rightarrow> string option \<Rightarrow> jsval \<Rightarrow> bool" where
  "isPkg3SandboxActive network coin blockHeight =
     (if network = ''testnet'' \<or> network = ''regtest'' then True
      else (case num_of blockHeight of
              Num b \<Rightarrow> (case per_coin PKG3_SANDBOX_ACTIVATION network coin of
                          None \<Rightarrow> False | Some thr \<Rightarrow> thr \<le> b)
            | _ \<Rightarrow> False))"

text \<open>Regtest only from genesis; a network outside the two others never.\<close>

definition resolveRegtestGenesisHeightGate ::
  "gate_table \<Rightarrow> string \<Rightarrow> string option \<Rightarrow> jsval \<Rightarrow> bool" where
  "resolveRegtestGenesisHeightGate tbl network coin blockHeight =
     (if network = ''regtest'' then True
      else if network \<noteq> ''testnet'' \<and> network \<noteq> ''mainnet'' then False
      else (case num_of blockHeight of
              Num height \<Rightarrow> (case per_coin tbl network coin of None \<Rightarrow> False | Some thr \<Rightarrow> thr \<le> height)
            | _ \<Rightarrow> False))"

definition isLintGlobalAliasActive :: "string \<Rightarrow> string option \<Rightarrow> jsval \<Rightarrow> bool" where
  "isLintGlobalAliasActive = resolvePerCoinHeightGate LINT_GLOBAL_ALIAS_ACTIVATION"
definition isExecLintActive :: "string \<Rightarrow> string option \<Rightarrow> jsval \<Rightarrow> bool" where
  "isExecLintActive = resolvePerCoinHeightGate EXEC_LINT_ACTIVATION"
definition isBigIntSurfaceStripActive :: "string \<Rightarrow> string option \<Rightarrow> jsval \<Rightarrow> bool" where
  "isBigIntSurfaceStripActive = resolveRegtestGenesisHeightGate BIGINT_SURFACE_STRIP_ACTIVATION"
definition isLintBannedWithActive :: "string \<Rightarrow> string option \<Rightarrow> jsval \<Rightarrow> bool" where
  "isLintBannedWithActive = resolveRegtestGenesisHeightGate LINT_BANNED_WITH_ACTIVATION"
definition isLintDestructureActive :: "string \<Rightarrow> string option \<Rightarrow> jsval \<Rightarrow> bool" where
  "isLintDestructureActive = resolveRegtestGenesisHeightGate LINT_DESTRUCTURE_ACTIVATION"
definition isLintOptionalChainActive :: "string \<Rightarrow> string option \<Rightarrow> jsval \<Rightarrow> bool" where
  "isLintOptionalChainActive = resolveRegtestGenesisHeightGate LINT_OPTIONAL_CHAIN_ACTIVATION"
definition isLintSyntaxDepthActive :: "string \<Rightarrow> string option \<Rightarrow> jsval \<Rightarrow> bool" where
  "isLintSyntaxDepthActive = resolveRegtestGenesisHeightGate LINT_SYNTAX_DEPTH_ACTIVATION"
definition isResourceFaultSignalActive :: "string \<Rightarrow> string option \<Rightarrow> jsval \<Rightarrow> bool" where
  "isResourceFaultSignalActive = resolveRegtestGenesisHeightGate RESOURCE_FAULT_SIGNAL_ACTIVATION"
definition isJsonStringifyReentryActive :: "string \<Rightarrow> string option \<Rightarrow> jsval \<Rightarrow> bool" where
  "isJsonStringifyReentryActive = resolveRegtestGenesisHeightGate JSON_STRINGIFY_REENTRY_ACTIVATION"
definition isHostErrorStackStripActive :: "string \<Rightarrow> string option \<Rightarrow> jsval \<Rightarrow> bool" where
  "isHostErrorStackStripActive = resolveRegtestGenesisHeightGate HOST_ERROR_STACK_STRIP_ACTIVATION"
definition isNativeStackTerminalActive :: "string \<Rightarrow> string option \<Rightarrow> jsval \<Rightarrow> bool" where
  "isNativeStackTerminalActive = resolveRegtestGenesisHeightGate NATIVE_STACK_TERMINAL_ACTIVATION"
definition isGasCeilingExhaustedActive :: "string \<Rightarrow> string option \<Rightarrow> jsval \<Rightarrow> bool" where
  "isGasCeilingExhaustedActive = resolveRegtestGenesisHeightGate GAS_CEILING_EXHAUSTED_ACTIVATION"
definition isHostFaultHaltActive :: "string \<Rightarrow> string option \<Rightarrow> jsval \<Rightarrow> bool" where
  "isHostFaultHaltActive = resolveRegtestGenesisHeightGate HOST_FAULT_HALT_ACTIVATION"

subsection \<open>Every resolver is a threshold\<close>

definition test_net :: "string \<Rightarrow> bool" where
  "test_net n \<longleftrightarrow> n = ''testnet'' \<or> n = ''regtest''"

interpretation flag_day: activation "coordinated g" num_only
  "\<lambda>n. if test_net n then Genesis else From g" for g
  by unfold_locales (simp add: coordinated_def threshold_def test_net_def)

definition armed_start :: "gate_table \<Rightarrow> string \<Rightarrow> start" where
  "armed_start tbl n = (case table_get tbl n of
     None \<Rightarrow> Never | Some g \<Rightarrow> if g = 0 then Genesis else From g)"

interpretation armed_gate: activation "armed tbl" num_only "armed_start tbl" for tbl
  by unfold_locales (auto simp: armed_def armed_start_def threshold_def split: option.splits)

interpretation tostring_gate: activation isToStringSizeMeterActive num_only
  "\<lambda>n. if toStringSizeMeterGateTime n = 0 then Genesis else From (toStringSizeMeterGateTime n)"
  by unfold_locales (simp add: isToStringSizeMeterActive_def threshold_def Let_def)

interpretation own_key_gate: activation isAccessorOwnKeyActive num_of
  "\<lambda>n. armed_start ACCESSOR_OWN_KEY_ACTIVATION
         (if map_of ACCESSOR_OWN_KEY_ACTIVATION n \<noteq> None then n else ''mainnet'')"
  by unfold_locales (simp add: isAccessorOwnKeyActive_def armed_start_def threshold_def split: option.split)

definition height_start :: "gate_table \<Rightarrow> string \<times> string option \<Rightarrow> start" where
  "height_start tbl = (\<lambda>(n, c). case per_coin tbl n c of None \<Rightarrow> Never | Some g \<Rightarrow> From g)"

interpretation coin_gate: activation "\<lambda>(n, c). resolvePerCoinHeightGate tbl n c" num_of
  "\<lambda>(n, c). if test_net n then Genesis else height_start tbl (n, c)" for tbl
  by unfold_locales (auto simp: resolvePerCoinHeightGate_def height_start_def threshold_def
      at_least_def test_net_def split: option.splits jsnum.splits if_splits)

interpretation pkg3_gate: activation "\<lambda>(n, c). isPkg3SandboxActive n c" num_of
  "\<lambda>(n, c). if test_net n then Genesis else height_start PKG3_SANDBOX_ACTIVATION (n, c)"
  by unfold_locales (auto simp: isPkg3SandboxActive_def height_start_def threshold_def
      at_least_def test_net_def split: option.splits jsnum.splits if_splits)

interpretation regtest_gate: activation "\<lambda>(n, c). resolveRegtestGenesisHeightGate tbl n c" num_of
  "\<lambda>(n, c). if n = ''regtest'' then Genesis
            else if n = ''testnet'' \<or> n = ''mainnet'' then height_start tbl (n, c) else Never" for tbl
  by unfold_locales (auto simp: resolveRegtestGenesisHeightGate_def height_start_def threshold_def
      at_least_def split: option.splits jsnum.splits if_splits)

subsection \<open>The rules along a chain\<close>

text \<open>A block's time and height, and every rule a network and coin ask about it.\<close>

type_synonym block = "rat \<times> rat"

definition time_rules :: "(string \<Rightarrow> jsval \<Rightarrow> bool) list" where
  "time_rules =
     [isAsyncSurfaceActive, isLintHardeningActive, isStateKeyNulRejectActive,
      isStateKeyTypeNormalizeActive, isMeteringEvalOrderActive, isCallSpreadMeterActive,
      isRestPatternMeterActive, isSlashTokenDelimGuardActive, isSlashAmountPrecisionActive,
      isConsensusWallClockActive, isIterSetMeterActive, isApplyLengthMeterActive,
      isGasCeilingSuccessActive, isHostCallBoundsActive, isPerElementMeterActive,
      isStringReceiverMeterActive, isStringResultMeterActive, isToStringSizeMeterActive,
      isAccessorOwnKeyActive]"

definition height_rules :: "(string \<Rightarrow> string option \<Rightarrow> jsval \<Rightarrow> bool) list" where
  "height_rules =
     [isPkg3SandboxActive, isLintGlobalAliasActive, isExecLintActive, isBigIntSurfaceStripActive,
      isLintBannedWithActive, isLintDestructureActive, isLintOptionalChainActive,
      isLintSyntaxDepthActive, isResourceFaultSignalActive, isJsonStringifyReentryActive,
      isHostErrorStackStripActive, isNativeStackTerminalActive, isGasCeilingExhaustedActive,
      isHostFaultHaltActive]"

definition block_rules :: "string \<Rightarrow> string option \<Rightarrow> (block \<Rightarrow> bool) list" where
  "block_rules network coin =
     map (\<lambda>r b. r network (JNum (Num (fst b)))) time_rules
     @ map (\<lambda>r b. r network coin (JNum (Num (snd b)))) height_rules"

lemma num_of_num [simp]: "num_of (JNum n) = n"
  by (simp add: num_of_def)

lemmas time_rule_defs = isAsyncSurfaceActive_def isLintHardeningActive_def
  isStateKeyNulRejectActive_def isStateKeyTypeNormalizeActive_def isMeteringEvalOrderActive_def
  isCallSpreadMeterActive_def isRestPatternMeterActive_def isSlashTokenDelimGuardActive_def
  isSlashAmountPrecisionActive_def isConsensusWallClockActive_def isIterSetMeterActive_def
  isApplyLengthMeterActive_def isGasCeilingSuccessActive_def isHostCallBoundsActive_def
  isPerElementMeterActive_def isStringReceiverMeterActive_def isStringResultMeterActive_def

lemmas height_rule_defs = isLintGlobalAliasActive_def isExecLintActive_def
  isBigIntSurfaceStripActive_def isLintBannedWithActive_def isLintDestructureActive_def
  isLintOptionalChainActive_def isLintSyntaxDepthActive_def isResourceFaultSignalActive_def
  isJsonStringifyReentryActive_def isHostErrorStackStripActive_def isNativeStackTerminalActive_def
  isGasCeilingExhaustedActive_def isHostFaultHaltActive_def

definition number_val :: "rat \<Rightarrow> jsval" where
  "number_val r = JNum (Num r)"

lemma switches_onceI:
  assumes act: "activation f reading st" and rd: "\<And>r. reading (number_val r) = Num r"
    and sorted: "sorted (map sel chain)"
  shows "\<exists>k. map (\<lambda>b. f n (number_val (sel b))) chain
           = replicate k False @ replicate (length chain - k) True"
proof -
  have "\<exists>k. map (f n) (map (number_val \<circ> sel) chain)
         = replicate k False @ replicate (length (map (number_val \<circ> sel) chain) - k) True"
    by (rule activation.switches_once [OF act])
      (use sorted in \<open>simp_all add: rd list_all_iff sorted_wrt_map\<close>)
  then show ?thesis by (simp add: comp_def)
qed

lemma time_rule_switches:
  assumes "r \<in> set time_rules" "sorted (map fst chain)"
  shows "\<exists>k. map (\<lambda>b. r network (number_val (fst b))) chain
           = replicate k False @ replicate (length chain - k) True"
proof -
  have rd: "num_only (number_val q) = Num q" "num_of (number_val q) = Num q" for q
    by (simp_all add: number_val_def)
  note I = switches_onceI [OF flag_day.activation_axioms rd(1) assms(2)]
    switches_onceI [OF armed_gate.activation_axioms rd(1) assms(2)]
    switches_onceI [OF tostring_gate.activation_axioms rd(1) assms(2)]
    switches_onceI [OF own_key_gate.activation_axioms rd(2) assms(2)]
  from assms(1) show ?thesis
    unfolding time_rules_def by (auto simp: time_rule_defs intro: I)
qed

lemma height_rule_switches:
  assumes "r \<in> set height_rules" "sorted (map snd chain)"
  shows "\<exists>k. map (\<lambda>b. r network coin (number_val (snd b))) chain
           = replicate k False @ replicate (length chain - k) True"
proof -
  have rd: "num_of (number_val q) = Num q" for q by (simp add: number_val_def)
  note I = switches_onceI [OF coin_gate.activation_axioms rd assms(2), where n = "(network, coin)"]
    switches_onceI [OF pkg3_gate.activation_axioms rd assms(2), where n = "(network, coin)"]
    switches_onceI [OF regtest_gate.activation_axioms rd assms(2), where n = "(network, coin)"]
  from assms(1) I show ?thesis
    unfolding height_rules_def by (auto simp: height_rule_defs)
qed



text \<open>Settled history replays under the old rules: on any network but the two test networks,
  no block-time rule is on before the contract-era flag day, 2026-08-07.\<close>

theorem no_time_rule_before_flag_day:
  assumes "network \<noteq> ''testnet''" "network \<noteq> ''regtest''" "t < 1786060800" "rule \<in> set time_rules"
  shows "\<not> rule network (JNum (Num t))"
proof -
  have tbl: "table_get [(''mainnet'', None), (''testnet'', a), (''regtest'', b)] network = None" for a b
    using assms(1,2) by simp
  have big: "toStringSizeMeterGateTime network = 9999999999"
    using assms(1,2)
    by (simp add: toStringSizeMeterGateTime_def TOSTRING_SIZE_METER_ACTIVATION_def
        TOSTRING_SIZE_METER_GATE_BLOCK_TIME_def split: option.split)
  have own: "\<not> isAccessorOwnKeyActive network (JNum (Num t))"
    using assms(1,2) by (simp add: isAccessorOwnKeyActive_def ACCESSOR_OWN_KEY_ACTIVATION_def)
  have flag: "\<not> coordinated g network (JNum (Num t))" if "1786060800 \<le> g" for g
    using assms(1-3) that by (simp add: coordinated_def at_least_def)
  have arm: "\<not> armed [(''mainnet'', None), (''testnet'', a), (''regtest'', b)] network (JNum (Num t))"
    for a b by (simp add: armed_def tbl del: table_get.simps)
  have tos: "\<not> isToStringSizeMeterActive network (JNum (Num t))"
    using assms(3) by (simp add: isToStringSizeMeterActive_def big at_least_def)
  from assms(4) show ?thesis
    unfolding time_rules_def
    by (auto simp: time_rule_defs own tos flag arm ASYNC_SURFACE_GATE_BLOCK_TIME_def
        VM_LINT_HARDENING_GATE_BLOCK_TIME_def STATE_KEY_NUL_GATE_BLOCK_TIME_def
        STATE_KEY_TYPE_GATE_BLOCK_TIME_def METERING_EVAL_ORDER_GATE_BLOCK_TIME_def
        CALL_SPREAD_METER_GATE_BLOCK_TIME_def REST_PATTERN_METER_GATE_BLOCK_TIME_def
        BINARY_ALLOC_GATE_BLOCK_TIME_def ITER_SET_METER_ACTIVATION_def
        APPLY_LENGTH_METER_ACTIVATION_def GAS_CEILING_SUCCESS_ACTIVATION_def
        HOST_CALL_BOUNDS_ACTIVATION_def PER_ELEMENT_METER_ACTIVATION_def
        STRING_RECEIVER_METER_ACTIVATION_def STRING_RESULT_METER_ACTIVATION_def)
qed

theorem no_time_rule_before_flag_day_witness:
  "\<not> isConsensusWallClockActive ''mainnet'' (JNum (Num 1700000000))"
  by (rule no_time_rule_before_flag_day) (simp_all add: time_rules_def)

end
