(* ===== verification/Results.thy ===== *)
theory Results
  imports CallProps Gates
begin

text \<open>
  Shaping an outcome: the failure result and its message sanitizer
  (src/index/methods/error_results.js), the wall-clock budget (src/consensus-wall-clock.js,
  src/index.js), the error classifier (src/index/runtime/classify_error.js), the action validator
  (src/validator.js), the decoding of a return value (src/index/runtime/contract_io.js), the
  setup boundary (src/index/runtime/host_setup/host_setup_step.js) and the status vocabulary of
  src/consensus-runtime.js. The options of an execution are the host's JSON object.
\<close>

subsection \<open>Results\<close>

record result =
  success :: bool
  error_msg :: "string option"
  gasUsed :: rat
  returnValue :: "string option"
  stateChanges :: "(jsval \<times> jsval) list"
  stateDeletes :: "jsval list"
  emittedActions :: "(string \<times> jsval) list"
  result_logs :: "string list"

definition errorResult :: "gas_tracker \<Rightarrow> collector \<Rightarrow> string \<Rightarrow> rat option \<Rightarrow> result" where
  "errorResult tr c msg gasOverride =
     \<lparr>success = False, error_msg = Some msg,
      gasUsed = (case gasOverride of Some g \<Rightarrow> g | None \<Rightarrow> getUsed tr),
      returnValue = None, stateChanges = [], stateDeletes = [], emittedActions = [],
      result_logs = logs c\<rparr>"

text \<open>
  \<open>sanitizeError\<close>: the first line, with every \<open>/path:line:col\<close> run and the white space before it
  dropped, cut to 256 units.
\<close>

definition path_char :: "char \<Rightarrow> bool" where
  "path_char c \<longleftrightarrow> is_digit c \<or> (65 \<le> (of_char c :: nat) \<and> (of_char c :: nat) \<le> 90)
     \<or> (97 \<le> (of_char c :: nat) \<and> (of_char c :: nat) \<le> 122)
     \<or> c = CHR ''_'' \<or> c = CHR ''.'' \<or> c = CHR ''/'' \<or> c = CHR ''-''"

fun colon_digits :: "string \<Rightarrow> string option" where
  "colon_digits (c # d # s) =
     (if c = CHR '':'' \<and> is_digit d then Some (dropWhile is_digit s) else None)"
| "colon_digits _ = None"

definition drop_position :: "string \<Rightarrow> string" where
  "drop_position s = (case colon_digits s of None \<Rightarrow> s
     | Some r \<Rightarrow> (case colon_digits r of None \<Rightarrow> r | Some q \<Rightarrow> q))"

text \<open>One match of the pattern at the head of the string: what is left after it.\<close>

definition path_match :: "string \<Rightarrow> string option" where
  "path_match s = (case strip_all_prefixes white_space s of
     c # d # r \<Rightarrow> if c = CHR ''/'' \<and> path_char d then Some (drop_position (dropWhile path_char r)) else None
   | _ \<Rightarrow> None)"

lemma strip_all_prefixes_length: "length (strip_all_prefixes ps s) \<le> length s"
proof (induction ps s rule: strip_all_prefixes.induct)
  case (1 ps s)
  show ?case
  proof (cases "strip_prefix_of ps s")
    case (Some r)
    with 1 [OF Some] strip_prefix_of_shorter [OF Some] show ?thesis
      by (subst strip_all_prefixes.simps) simp
  qed (subst strip_all_prefixes.simps, simp)
qed

lemma colon_digits_length: "colon_digits s = Some r \<Longrightarrow> length r < length s"
  by (cases s rule: colon_digits.cases)
    (auto split: if_splits simp: less_Suc_eq_le intro: le_SucI length_dropWhile_le)

lemma drop_position_length: "length (drop_position s) \<le> length s"
proof (cases "colon_digits s")
  case (Some r)
  then show ?thesis
    using colon_digits_length [of s r] colon_digits_length [of r]
    by (auto simp: drop_position_def split: option.split intro: order.strict_implies_order)
qed (simp add: drop_position_def)

lemma path_match_shorter: "path_match s = Some r \<Longrightarrow> length r < length s"
proof -
  assume m: "path_match s = Some r"
  then obtain c d t where st: "strip_all_prefixes white_space s = c # d # t"
    and r: "r = drop_position (dropWhile path_char t)"
    by (auto simp: path_match_def split: list.splits if_splits)
  have "length r \<le> length t"
    using drop_position_length [of "dropWhile path_char t"] length_dropWhile_le [of path_char t] r
    by (meson order_trans)
  moreover have "length (c # d # t) \<le> length s"
    using strip_all_prefixes_length [of white_space s] st by simp
  ultimately show ?thesis by simp
qed

function strip_paths :: "string \<Rightarrow> string" where
  "strip_paths s = (case path_match s of
     Some r \<Rightarrow> strip_paths r
   | None \<Rightarrow> (case s of [] \<Rightarrow> [] | c # t \<Rightarrow> c # strip_paths t))"
  by pat_completeness auto
termination
  by (relation "measure length") (auto dest: path_match_shorter)

declare strip_paths.simps [simp del]

definition sanitizeError :: "string \<Rightarrow> string" where
  "sanitizeError msg =
     (if msg = [] then ''unknown error''
      else let s = strip_paths (hd (split_on (CHR 0x0A) msg))
           in if 256 < utf16_len s then utf16_take 256 s else s)"

subsection \<open>Options\<close>

definition opt :: "jsval \<Rightarrow> string \<Rightarrow> jsval" where
  "opt opts k = js_get opts k"

text \<open>The network is compared with and looked up as a string; anything else is an unknown network.\<close>

definition net_of :: "jsval \<Rightarrow> string" where
  "net_of opts = string_or_empty (opt opts ''network'')"

text \<open>\<open>opts.blockContext && Number(opts.blockContext.timestamp)\<close>, and its height twin.\<close>

definition block_number :: "jsval \<Rightarrow> string \<Rightarrow> jsval" where
  "block_number opts k =
     (let bc = opt opts ''blockContext''
      in if truthy bc then JNum (num_of (js_get bc k)) else bc)"

definition block_raw :: "jsval \<Rightarrow> string \<Rightarrow> jsval" where
  "block_raw opts k = (let bc = opt opts ''blockContext'' in if truthy bc then js_get bc k else bc)"

definition coin_of :: "jsval \<Rightarrow> string option" where
  "coin_of opts = pkg3CoinFromAddress (opt opts ''contractAddress'')"

definition CONSENSUS_MAX_WALL_MS :: rat where "CONSENSUS_MAX_WALL_MS = 30000"

definition resolveWallClockBudgetMs :: "bool \<Rightarrow> jsval \<Rightarrow> jsval" where
  "resolveWallClockBudgetMs gated nodeLimitMs =
     (if gated then JNum (Num CONSENSUS_MAX_WALL_MS) else nodeLimitMs)"

definition wallClockBudgetMs :: "vm_limits \<Rightarrow> jsval \<Rightarrow> jsval" where
  "wallClockBudgetMs l opts =
     resolveWallClockBudgetMs (isConsensusWallClockActive (net_of opts) (block_number opts ''timestamp''))
       (maxCpuTimeMs l)"

subsection \<open>Classification\<close>

text \<open>
  The error the host catches. \<open>EOther\<close> is any other error, with its message and whether it is a
  \<open>RangeError\<close> by class or name; the message is the contract's to choose.
\<close>

datatype host_error =
  EHostFault string | ERevert string | EGas rat rat | EOther bool string

text \<open>
  What the host observed of the run: whether and for how long it ran (nanoseconds), whether the
  isolate is really disposed, the budget it ran under, and the stack guard's report.
\<close>

record host_signals =
  elapsedNs :: "int option"
  isolateDisposed :: bool
  wallBudgetMs :: jsval
  stackFaultGateOn :: bool
  stackFault :: bool

text \<open>\<open>elapsed >= BigInt(budget) * 1000000n\<close>; \<open>BigInt\<close> of a non-integer throws.\<close>

definition budget_passed :: "int \<Rightarrow> jsval \<Rightarrow> bool res" where
  "budget_passed elapsed budget =
     (case budget of
        JNum (Num r) \<Rightarrow> if rat_integral r then Inr (r * 1000000 \<le> of_int elapsed)
                        else throw ''The number cannot be converted to a BigInt because it is not an integer''
      | _ \<Rightarrow> Inl (TypeError ''Cannot convert to a BigInt''))"

definition signal_budget :: "vm_limits \<Rightarrow> jsval \<Rightarrow> host_signals \<Rightarrow> jsval" where
  "signal_budget l opts sg =
     (if nullish (wallBudgetMs sg) then wallClockBudgetMs l opts else wallBudgetMs sg)"

definition timeout_legit :: "bool \<Rightarrow> bool \<Rightarrow> host_signals option \<Rightarrow> vm_limits \<Rightarrow> jsval \<Rightarrow> bool res" where
  "timeout_legit corroborate disposed signals l opts =
     (if \<not> corroborate \<or> disposed then Inr True
      else case signals of None \<Rightarrow> Inr True
           | Some sg \<Rightarrow> (case elapsedNs sg of None \<Rightarrow> Inr False
               | Some el \<Rightarrow> budget_passed el (signal_budget l opts sg)))"

fun host_message :: "host_error \<Rightarrow> string" where
  "host_message (EOther _ m) = m"
| "host_message (ERevert m) = m"
| "host_message (EHostFault m) = m"
| "host_message (EGas u c) = ''gas exhausted: used '' @ num_text (Num u) @ '' of '' @ num_text (Num c)"

definition gas_result :: "gas_tracker \<Rightarrow> collector \<Rightarrow> rat \<Rightarrow> rat \<Rightarrow> result" where
  "gas_result tr c u climit = errorResult tr c
     (''out_of_gas: used '' @ num_text (Num u) @ '' of '' @ num_text (Num climit)) (Some (ceiling tr))"

text \<open>The tail of the classifier: resource branches by message, then the generic error.\<close>

definition classify_message ::
  "vm_limits \<Rightarrow> jsval \<Rightarrow> host \<Rightarrow> host_signals option \<Rightarrow> bool \<Rightarrow> string \<Rightarrow> result res" where
  "classify_message l opts h signals isRange msg =
     (let tr = gas h; c = coll h; climit = Some (ceiling tr);
          corroborate = isLintHardeningActive (net_of opts) (block_number opts ''timestamp'')
                        \<and> signals \<noteq> None;
          disposed = (case signals of Some sg \<Rightarrow> isolateDisposed sg | None \<Rightarrow> False);
          faultSignalOn = (corroborate \<and> (case signals of Some sg \<Rightarrow> stackFaultGateOn sg | None \<Rightarrow> False));
          faulted = (case signals of Some sg \<Rightarrow> stackFault sg | None \<Rightarrow> False);
          oom = errorResult tr c ''out_of_memory: isolate memory limit exceeded'' climit;
          generic = errorResult tr c (''error: '' @ sanitizeError msg) None
      in
      if faultSignalOn \<and> disposed \<and> includes_str ''memory limit'' msg then Inr oom
      else if includes_str ''Script execution timed out'' msg \<or> includes_str ''disposed'' msg
      then rbind (timeout_legit corroborate disposed signals l opts) (\<lambda>legit.
             Inr (if legit then errorResult tr c ''timeout: wall-clock safety net triggered'' climit
                  else generic))
      else if includes_str ''out of memory'' msg \<or> includes_str ''Array buffer allocation failed'' msg
      then Inr (if \<not> corroborate \<or> disposed then oom else generic)
      else if includes_str ''Maximum call stack size exceeded'' msg \<or> includes_str ''call stack'' msg
      then Inr (if \<not> corroborate \<or> (if faultSignalOn then faulted
                                    else isRange \<or> msg = ''maximum call stack depth exceeded'')
                then errorResult tr c ''out_of_stack: maximum call depth exceeded'' climit
                else generic)
      else Inr generic)"

text \<open>\<open>classifyError\<close>. \<open>Inl\<close> is the host fault, thrown on to the caller.\<close>

definition classifyError ::
  "vm_limits \<Rightarrow> jsval \<Rightarrow> host \<Rightarrow> host_signals option \<Rightarrow> host_error \<Rightarrow> result res" where
  "classifyError l opts h signals err =
     (let tr = gas h; c = coll h; msg = host_message err in
      case err of
        EHostFault m \<Rightarrow> Inl (HostFaultError m)
      | _ \<Rightarrow>
        if exhausted tr \<and> isGasCeilingExhaustedActive (net_of opts) (coin_of opts) (block_raw opts ''height'')
        then Inr (gas_result tr c (used tr) (ceiling tr))
        else (case err of
          ERevert m \<Rightarrow> Inr (errorResult tr c (''revert: '' @ m) None)
        | EGas u cl \<Rightarrow> Inr (gas_result tr c u cl)
        | EOther isRange m \<Rightarrow>
            if starts_with (CHR 0x03 # ''REVERT:'') msg \<and> reverted h
            then rbind (to_str (js_or (revertReason h) (JStr (drop 8 msg)))) (\<lambda>reason.
                   Inr (errorResult tr c (''revert: '' @ reason) None))
            else if starts_with (CHR 0x03 # ''GAS:'') msg \<and> ceiling tr < used tr
            then Inr (gas_result tr c (used tr) (ceiling tr))
            else classify_message l opts h signals isRange msg))"

definition STATUS_ERROR_PREFIXES :: "string list" where
  "STATUS_ERROR_PREFIXES =
     [''revert'', ''out_of_gas'', ''timeout'', ''out_of_memory'', ''out_of_stack'', ''out_of_resource'', ''error'']"

subsection \<open>The action validator and the return value\<close>

definition ALLOWED_ACTIONS :: "string list" where
  "ALLOWED_ACTIONS = [''SEND'', ''DESTROY'', ''ISSUE'', ''MINT'', ''ORDER'', ''DISPENSER'', ''DIVIDEND'',
     ''AIRDROP'', ''CALLBACK'', ''FILE'', ''LIST'', ''COINPAY'', ''SWEEP'', ''LINK'', ''BROADCAST'',
     ''MESSAGE'', ''ATTEST'', ''SLASH'', ''EXECUTE'', ''XCALL'', ''VOTE'']"

definition validate_action :: "string \<times> jsval \<Rightarrow> unit res" where
  "validate_action ap =
     rbind (guard (fst ap \<notin> set ALLOWED_ACTIONS) (''unknown emission action: '' @ fst ap)) (\<lambda>_.
     guard (\<not> is_object (snd ap)) ''emission params must be an object'')"

text \<open>The wrapper hands back \<open>undefined\<close>, \<open>null\<close>, a string behind the byte 2, or, from a contract that
  bypasses it, another primitive.\<close>

definition clip_return :: "string \<Rightarrow> string" where
  "clip_return s = (if 65536 < utf16_len s then utf16_take 65536 s else s)"

definition extractReturnValue :: "jsval \<Rightarrow> string option" where
  "extractReturnValue raw =
     (if nullish raw then None
      else case raw of
        JStr (c # s) \<Rightarrow> if c = CHR 0x02 then Some (clip_return s)
                        else map_option clip_return (json_text raw)
      | _ \<Rightarrow> map_option clip_return (json_text raw))"

subsection \<open>The setup boundary\<close>

fun exn_message :: "exn \<Rightarrow> string" where
  "exn_message (ContractRevertError m) = m"
| "exn_message (GasExhaustedError u c) = host_message (EGas u c)"
| "exn_message (HostFaultError m) = m"
| "exn_message (TypeError m) = m"
| "exn_message (PlainError m) = m"

definition hostSetupStep :: "string \<Rightarrow> 'a res \<Rightarrow> bool \<Rightarrow> 'a res" where
  "hostSetupStep step r haltOnFailure =
     (case r of
        Inr x \<Rightarrow> Inr x
      | Inl e \<Rightarrow> if \<not> haltOnFailure then Inl e
                 else (case e of HostFaultError m \<Rightarrow> Inl e
                       | _ \<Rightarrow> Inl (HostFaultError (''execution setup failed ('' @ step @ ''): '' @ exn_message e))))"

fun host_error_of :: "exn \<Rightarrow> host_error" where
  "host_error_of (ContractRevertError m) = ERevert m"
| "host_error_of (GasExhaustedError u c) = EGas u c"
| "host_error_of (HostFaultError m) = EHostFault m"
| "host_error_of (TypeError m) = EOther False m"
| "host_error_of (PlainError m) = EOther False m"

subsection \<open>What a classification says\<close>

lemma errorResult_simps [simp]:
  "success (errorResult tr c m g) = False" "error_msg (errorResult tr c m g) = Some m"
  "stateChanges (errorResult tr c m g) = []" "stateDeletes (errorResult tr c m g) = []"
  "emittedActions (errorResult tr c m g) = []" "result_logs (errorResult tr c m g) = logs c"
  "returnValue (errorResult tr c m g) = None"
  "gasUsed (errorResult tr c m None) = used tr" "gasUsed (errorResult tr c m (Some v)) = v"
  by (simp_all add: errorResult_def getUsed_def)

text \<open>The shapes a classified result takes, with the host facts each rests on.\<close>

definition hardened :: "jsval \<Rightarrow> bool" where
  "hardened opts \<longleftrightarrow> isLintHardeningActive (net_of opts) (block_number opts ''timestamp'')"

datatype verdict = VRevert string | VOutOfGas rat rat | VTimeout | VOutOfMemory | VOutOfStack | VError string

fun verdict_text :: "verdict \<Rightarrow> string" where
  "verdict_text (VRevert m) = ''revert: '' @ m"
| "verdict_text (VOutOfGas u c) = ''out_of_gas: used '' @ num_text (Num u) @ '' of '' @ num_text (Num c)"
| "verdict_text VTimeout = ''timeout: wall-clock safety net triggered''"
| "verdict_text VOutOfMemory = ''out_of_memory: isolate memory limit exceeded''"
| "verdict_text VOutOfStack = ''out_of_stack: maximum call depth exceeded''"
| "verdict_text (VError m) = ''error: '' @ m"

fun verdict_clamps :: "verdict \<Rightarrow> bool" where
  "verdict_clamps (VRevert m) = False"
| "verdict_clamps (VError m) = False"
| "verdict_clamps _ = True"

definition verdict_result :: "host \<Rightarrow> verdict \<Rightarrow> result" where
  "verdict_result h v = errorResult (gas h) (coll h) (verdict_text v)
     (if verdict_clamps v then Some (ceiling (gas h)) else None)"

text \<open>What the host must have seen for a verdict on an error whose text is the contract's.\<close>

fun corroborated :: "jsval \<Rightarrow> host \<Rightarrow> host_signals \<Rightarrow> bool \<Rightarrow> verdict \<Rightarrow> bool" where
  "corroborated budget h sg isRange (VRevert m) = reverted h"
| "corroborated budget h sg isRange (VOutOfGas u c) = (c = ceiling (gas h) \<and> u = used (gas h) \<and> (c < u \<or> exhausted (gas h)))"
| "corroborated budget h sg isRange VTimeout = (isolateDisposed sg \<or> (\<exists>el. elapsedNs sg = Some el \<and> budget_passed el budget = Inr True))"
| "corroborated budget h sg isRange VOutOfMemory = isolateDisposed sg"
| "corroborated budget h sg isRange VOutOfStack = (if stackFaultGateOn sg then stackFault sg else True)"
| "corroborated budget h sg isRange (VError m) = True"

definition justified :: "vm_limits \<Rightarrow> jsval \<Rightarrow> host \<Rightarrow> host_signals option \<Rightarrow> bool \<Rightarrow> verdict \<Rightarrow> bool" where
  "justified l opts h signals isRange v \<longleftrightarrow>
     (hardened opts \<longrightarrow> (\<forall>sg. signals = Some sg \<longrightarrow> corroborated (signal_budget l opts sg) h sg isRange v))"

lemma timeout_justified:
  "timeout_legit (hardened opts \<and> signals \<noteq> None)
     (case signals of Some sg \<Rightarrow> isolateDisposed sg | None \<Rightarrow> False) signals l opts = Inr True
   \<Longrightarrow> justified l opts h signals isRange VTimeout"
  by (auto simp: timeout_legit_def justified_def split: if_splits option.splits)

lemma memory_justified:
  "\<not> (hardened opts \<and> signals \<noteq> None) \<or> (case signals of Some sg \<Rightarrow> isolateDisposed sg | None \<Rightarrow> False)
   \<Longrightarrow> justified l opts h signals isRange VOutOfMemory"
  by (auto simp: justified_def split: option.splits)

lemma stack_justified:
  "\<not> (hardened opts \<and> signals \<noteq> None) \<or>
     (if (hardened opts \<and> signals \<noteq> None) \<and> (case signals of Some sg \<Rightarrow> stackFaultGateOn sg | None \<Rightarrow> False)
      then (case signals of Some sg \<Rightarrow> stackFault sg | None \<Rightarrow> False) else q)
   \<Longrightarrow> justified l opts h signals isRange VOutOfStack"
  by (auto simp: justified_def split: option.splits if_splits)

lemma error_justified: "justified l opts h signals isRange (VError m)"
  by (simp add: justified_def)

definition resource_verdict :: "verdict \<Rightarrow> bool" where
  "resource_verdict v \<longleftrightarrow> v = VTimeout \<or> v = VOutOfMemory \<or> v = VOutOfStack \<or> (\<exists>m. v = VError m)"

text \<open>The classifier's tail as a choice of verdict.\<close>

lemma branch_choice:
  assumes "Inr r = (if a then Inr oom else if t then rbind q (\<lambda>x. Inr (if x then to else gen))
      else if m then Inr (if c then oom else gen) else if s then Inr (if d then os else gen) else Inr gen)"
    and "a \<Longrightarrow> P oom" "c \<Longrightarrow> P oom" "q = Inr True \<Longrightarrow> P to" "d \<Longrightarrow> P os" "P gen"
  shows "P r"
  using assms by (cases q) (auto split: if_splits)

lemma classify_message_verdict:
  assumes "classify_message l opts h signals isRange msg = Inr r"
  shows "\<exists>v. r = verdict_result h v \<and> resource_verdict v \<and> justified l opts h signals isRange v"
proof -
  let ?P = "\<lambda>r. \<exists>v. r = verdict_result h v \<and> resource_verdict v \<and> justified l opts h signals isRange v"
  let ?co = "hardened opts \<and> signals \<noteq> None"
  let ?dis = "case signals of Some sg \<Rightarrow> isolateDisposed sg | None \<Rightarrow> False"
  let ?fs = "?co \<and> (case signals of Some sg \<Rightarrow> stackFaultGateOn sg | None \<Rightarrow> False)"
  let ?ft = "case signals of Some sg \<Rightarrow> stackFault sg | None \<Rightarrow> False"
  let ?generic = "errorResult (gas h) (coll h) (''error: '' @ sanitizeError msg) None"
  let ?oom = "errorResult (gas h) (coll h) ''out_of_memory: isolate memory limit exceeded'' (Some (ceiling (gas h)))"
  let ?to = "errorResult (gas h) (coll h) ''timeout: wall-clock safety net triggered'' (Some (ceiling (gas h)))"
  let ?os = "errorResult (gas h) (coll h) ''out_of_stack: maximum call depth exceeded'' (Some (ceiling (gas h)))"
  have g: "?P ?generic"
    by (rule exI [of _ "VError (sanitizeError msg)"])
      (simp add: verdict_result_def resource_verdict_def error_justified)
  have m: "?P ?oom" if "\<not> ?co \<or> ?dis"
    by (rule exI [of _ VOutOfMemory])
      (simp add: verdict_result_def resource_verdict_def memory_justified [OF that])
  have t: "?P ?to" if "timeout_legit ?co ?dis signals l opts = Inr True"
    by (rule exI [of _ VTimeout])
      (simp add: verdict_result_def resource_verdict_def timeout_justified [OF that])
  have s: "?P ?os" if "\<not> ?co \<or> (if ?fs then ?ft else isRange \<or> msg = ''maximum call stack depth exceeded'')"
    by (rule exI [of _ VOutOfStack])
      (simp add: verdict_result_def resource_verdict_def stack_justified [OF that])
  have r: "Inr r =
     (if ?fs \<and> ?dis \<and> includes_str ''memory limit'' msg then Inr ?oom
      else if includes_str ''Script execution timed out'' msg \<or> includes_str ''disposed'' msg
      then rbind (timeout_legit ?co ?dis signals l opts) (\<lambda>legit. Inr (if legit then ?to else ?generic))
      else if includes_str ''out of memory'' msg \<or> includes_str ''Array buffer allocation failed'' msg
      then Inr (if \<not> ?co \<or> ?dis then ?oom else ?generic)
      else if includes_str ''Maximum call stack size exceeded'' msg \<or> includes_str ''call stack'' msg
      then Inr (if \<not> ?co \<or> (if ?fs then ?ft else isRange \<or> msg = ''maximum call stack depth exceeded'')
                then ?os else ?generic)
      else Inr ?generic)"
    using assms unfolding classify_message_def Let_def hardened_def by (rule sym)
  show ?thesis
    by (rule branch_choice [where P = ?P, OF r _ m t s g]) (use m in blast)
qed

lemma verdict_result_simps [simp]:
  "success (verdict_result h v) = False" "stateChanges (verdict_result h v) = []"
  "stateDeletes (verdict_result h v) = []" "emittedActions (verdict_result h v) = []"
  "error_msg (verdict_result h v) = Some (verdict_text v)" "result_logs (verdict_result h v) = logs (coll h)"
  "returnValue (verdict_result h v) = None"
  "gasUsed (verdict_result h v) = (if verdict_clamps v then ceiling (gas h) else used (gas h))"
  by (simp_all add: verdict_result_def)

definition exhausted_gate :: "jsval \<Rightarrow> bool" where
  "exhausted_gate opts \<longleftrightarrow>
     isGasCeilingExhaustedActive (net_of opts) (coin_of opts) (block_raw opts ''height'')"

lemma gas_result_verdict: "gas_result (gas h) (coll h) u c = verdict_result h (VOutOfGas u c)"
  by (simp add: gas_result_def verdict_result_def)

lemma classifyError_host_fault:
  "classifyError l opts h signals (EHostFault m) = Inl (HostFaultError m)"
  by (simp only: classifyError_def Let_def host_error.case)

lemma classify_gated:
  assumes "exhausted (gas h)" "exhausted_gate opts" "\<And>m. err \<noteq> EHostFault m"
  shows "classifyError l opts h signals err = Inr (verdict_result h (VOutOfGas (used (gas h)) (ceiling (gas h))))"
proof (cases err)
  case (EHostFault m)
  with assms(3) [of m] show ?thesis by simp
qed (use assms(1,2) in \<open>simp_all add: classifyError_def Let_def exhausted_gate_def gas_result_verdict\<close>)

lemma classify_ungated:
  assumes "\<not> (exhausted (gas h) \<and> exhausted_gate opts)"
  shows "classifyError l opts h signals (ERevert m) = Inr (verdict_result h (VRevert m))"
    "classifyError l opts h signals (EGas u c) = Inr (verdict_result h (VOutOfGas u c))"
    "classifyError l opts h signals (EOther isRange msg) =
      (if starts_with (CHR 0x03 # ''REVERT:'') msg \<and> reverted h
       then rbind (to_str (js_or (revertReason h) (JStr (drop 8 msg)))) (\<lambda>reason.
              Inr (verdict_result h (VRevert reason)))
       else if starts_with (CHR 0x03 # ''GAS:'') msg \<and> ceiling (gas h) < used (gas h)
       then Inr (verdict_result h (VOutOfGas (used (gas h)) (ceiling (gas h))))
       else classify_message l opts h signals isRange msg)"
proof -
  have F: "(exhausted (gas h) \<and> isGasCeilingExhaustedActive (net_of opts) (coin_of opts)
      (block_raw opts ''height'')) = False"
    using assms by (simp add: exhausted_gate_def)
  have v: "errorResult (gas h) (coll h) (''revert: '' @ t) None = verdict_result h (VRevert t)" for t
    by (simp add: verdict_result_def)
  show "classifyError l opts h signals (ERevert m) = Inr (verdict_result h (VRevert m))"
    "classifyError l opts h signals (EGas u c) = Inr (verdict_result h (VOutOfGas u c))"
    by (simp_all only: classifyError_def Let_def F host_error.case if_False gas_result_verdict v)
  show "classifyError l opts h signals (EOther isRange msg) =
      (if starts_with (CHR 0x03 # ''REVERT:'') msg \<and> reverted h
       then rbind (to_str (js_or (revertReason h) (JStr (drop 8 msg)))) (\<lambda>reason.
              Inr (verdict_result h (VRevert reason)))
       else if starts_with (CHR 0x03 # ''GAS:'') msg \<and> ceiling (gas h) < used (gas h)
       then Inr (verdict_result h (VOutOfGas (used (gas h)) (ceiling (gas h))))
       else classify_message l opts h signals isRange msg)"
    by (simp only: classifyError_def Let_def F host_error.case if_False gas_result_verdict v host_message.simps)
qed

lemma three_ways:
  assumes h: "(if a \<and> b then rbind q (\<lambda>t. Inr (f t)) else if c \<and> d then Inr x else y) = Inr r"
    and rev: "\<And>t. b \<Longrightarrow> r = f t \<Longrightarrow> P" and gas: "d \<Longrightarrow> r = x \<Longrightarrow> P" and msg: "y = Inr r \<Longrightarrow> P"
  shows "P"
proof (cases "a \<and> b")
  case True
  with h have "rbind q (\<lambda>t. Inr (f t)) = Inr r" by simp
  then have "\<exists>t. r = f t" by (cases q) auto
  then obtain t where "r = f t" ..
  with True rev show ?thesis by blast
next
  case ab: False
  show ?thesis
  proof (cases "c \<and> d")
    case True
    with h ab have "r = x" by simp
    with True gas show ?thesis by blast
  next
    case False
    with h ab have "y = Inr r" by simp
    with msg show ?thesis .
  qed
qed

text \<open>Every classification is a verdict.\<close>

lemma classify_verdict:
  assumes "classifyError l opts h signals err = Inr r"
  shows "\<exists>v. r = verdict_result h v"
proof (cases "exhausted (gas h) \<and> exhausted_gate opts")
  case True
  show ?thesis
  proof (cases err)
    case (EHostFault m)
    with assms have False by (simp only: classifyError_host_fault sum.distinct)
    then show ?thesis ..
  next
    case (ERevert m)
    with assms classify_gated [of h opts err l signals] True show ?thesis by auto
  next
    case (EGas u c)
    with assms classify_gated [of h opts err l signals] True show ?thesis by auto
  next
    case (EOther i m)
    with assms classify_gated [of h opts err l signals] True show ?thesis by auto
  qed
next
  case False
  note u = classify_ungated [OF False]
  show ?thesis
  proof (cases err)
    case (EHostFault m)
    with assms have False by (simp only: classifyError_host_fault sum.distinct)
    then show ?thesis ..
  next
    case (ERevert m)
    from assms [unfolded ERevert u(1)] show ?thesis by (metis sum.inject(2))
  next
    case (EGas u' c)
    from assms [unfolded EGas u(2)] show ?thesis by (metis sum.inject(2))
  next
    case (EOther isRange msg)
    show ?thesis
    proof (rule three_ways [OF assms [unfolded EOther u(3)]])
      assume "classify_message l opts h signals isRange msg = Inr r"
      then show ?thesis using classify_message_verdict by blast
    qed blast+
  qed
qed

definition failure_shape :: "host \<Rightarrow> result \<Rightarrow> bool" where
  "failure_shape h r \<longleftrightarrow> \<not> success r \<and> stateChanges r = [] \<and> stateDeletes r = [] \<and> emittedActions r = []
     \<and> returnValue r = None \<and> result_logs r = logs (coll h)
     \<and> (\<exists>p \<in> set STATUS_ERROR_PREFIXES. \<exists>t. error_msg r = Some (p @ '':'' @ t))"

lemma verdict_failure: "failure_shape h (verdict_result h v)"
proof -
  have "\<exists>p \<in> set STATUS_ERROR_PREFIXES. \<exists>t. verdict_text v = p @ '':'' @ t"
    by (cases v) (simp_all add: STATUS_ERROR_PREFIXES_def)
  then show ?thesis by (auto simp: failure_shape_def)
qed

lemma classified_failure: "classifyError l opts h signals err = Inr r \<Longrightarrow> failure_shape h r"
  using classify_verdict [of l opts h signals err r] verdict_failure by blast

text \<open>A failed execution is atomic and speaks the frozen vocabulary: whatever error reaches the
  classifier, the result it shapes carries no state change, no deletion, no emission and no return
  value, keeps the logs, and its error text begins with one of the frozen status prefixes and a
  colon, the words the indexer maps to consensus status tokens.\<close>

theorem classified_results_are_atomic:
  assumes "classifyError l opts h signals err = Inr r"
  shows "\<not> success r \<and> stateChanges r = [] \<and> stateDeletes r = [] \<and> emittedActions r = []
     \<and> returnValue r = None \<and> result_logs r = logs (coll h)
     \<and> (\<exists>p \<in> set STATUS_ERROR_PREFIXES. \<exists>t. error_msg r = Some (p @ '':'' @ t))"
  using classified_failure [OF assms] unfolding failure_shape_def .

definition demo_opts :: jsval where
  "demo_opts = JObj [(''network'', JStr ''regtest''), (''contractAddress'', JStr ''C:BTC:7''),
     (''blockContext'', JObj [(''height'', JNum (Num 5)), (''timestamp'', JNum (Num 1800000000))])]"

theorem classified_results_are_atomic_witness:
  "\<exists>r. classifyError demo_limits demo_opts (demo_host 3) None (ERevert ''no'') = Inr r
     \<and> emittedActions r = [] \<and> error_msg r = Some ''revert: no''"
proof -
  have c: "classifyError demo_limits demo_opts (demo_host 3) None (ERevert ''no'')
      = Inr (verdict_result (demo_host 3) (VRevert ''no''))"
    by (rule classify_ungated) (simp add: demo_host_def)
  from classified_results_are_atomic [OF c] c show ?thesis by auto
qed

text \<open>C25. A contract cannot choose its own consensus status. Past the hardening flag day, an error
  whose text is the contract's is filed as a revert only when the host recorded a revert, as out of
  gas only when the tracker really crossed the ceiling, as a timeout only when the isolate is really
  disposed or the wall-clock budget really elapsed, as out of memory only when the isolate is
  disposed, and, past the fault-signal height, as a stack fault only when the host's guard fired.\<close>

theorem classification_is_corroborated:
  assumes "classifyError l opts h (Some sg) (EOther isRange msg) = Inr r" "hardened opts"
  shows "\<exists>v. r = verdict_result h v \<and> corroborated (signal_budget l opts sg) h sg isRange v"
proof (cases "exhausted (gas h) \<and> exhausted_gate opts")
  case True
  with assms(1) classify_gated [of h opts "EOther isRange msg" l "Some sg"] show ?thesis
    by (intro exI [of _ "VOutOfGas (used (gas h)) (ceiling (gas h))"]) simp
next
  case False
  note eq = assms(1) [unfolded classify_ungated(3) [OF False]]
  show ?thesis
  proof (rule three_ways [OF eq], goal_cases rev gas msg)
    case rev
    then show ?case by (metis corroborated.simps(1))
  next
    case gas
    then show ?case by (intro exI [of _ "VOutOfGas (used (gas h)) (ceiling (gas h))"]) simp
  next
    case msg
    from classify_message_verdict [OF this] assms(2) show ?case by (auto simp: justified_def)
  qed
qed

definition demo_signals :: host_signals where
  "demo_signals = \<lparr>elapsedNs = Some 5, isolateDisposed = False, wallBudgetMs = JNum (Num 30000),
     stackFaultGateOn = True, stackFault = False\<rparr>"

lemma hardened_demo: "hardened demo_opts"
  by (simp add: hardened_def demo_opts_def net_of_def opt_def js_get_def isLintHardeningActive_def coordinated_def)

lemma tree_total:
  "q = Inr t \<Longrightarrow>
   \<exists>r. (if a then Inr x else if b then rbind q (\<lambda>l. Inr (f l)) else if c then Inr y else if d then Inr z
        else Inr w) = Inr r"
  by simp

theorem classification_is_corroborated_witness:
  "\<exists>r. classifyError demo_limits demo_opts (demo_host 3) (Some demo_signals) (EOther False ''disposed'') = Inr r
     \<and> error_msg r \<noteq> Some ''timeout: wall-clock safety net triggered'' \<and> gasUsed r = 3"
proof -
  let ?sg = "Some demo_signals" and ?h = "demo_host 3"
  have F: "\<not> (exhausted (gas ?h) \<and> exhausted_gate demo_opts)" by (simp add: demo_host_def)
  have q: "\<not> reverted ?h" "\<not> ceiling (gas ?h) < used (gas ?h)" by (simp_all add: demo_host_def)
  have "timeout_legit (hardened demo_opts \<and> ?sg \<noteq> None) False ?sg demo_limits demo_opts = Inr False"
    by (simp add: timeout_legit_def hardened_demo budget_passed_def signal_budget_def demo_signals_def)
  then have b: "timeout_legit (isLintHardeningActive (net_of demo_opts)
      (block_number demo_opts ''timestamp'') \<and> ?sg \<noteq> None) (isolateDisposed demo_signals) ?sg demo_limits
      demo_opts = Inr False"
    by (simp add: hardened_def demo_signals_def)
  have "\<exists>r. classify_message demo_limits demo_opts ?h ?sg False ''disposed'' = Inr r"
    unfolding classify_message_def Let_def option.case by (rule tree_total [OF b])
  then obtain r where "classify_message demo_limits demo_opts ?h ?sg False ''disposed'' = Inr r" ..
  then have c: "classifyError demo_limits demo_opts ?h ?sg (EOther False ''disposed'') = Inr r"
    unfolding classify_ungated(3) [OF F] by (simp add: q)
  from classification_is_corroborated [OF c hardened_demo] obtain v where r: "r = verdict_result ?h v"
    and "corroborated (signal_budget demo_limits demo_opts demo_signals) ?h demo_signals False v" by blast
  then have "\<not> verdict_clamps v \<and> v \<noteq> VTimeout"
    by (cases v) (auto simp: demo_signals_def demo_host_def signal_budget_def budget_passed_def)
  then have "error_msg r \<noteq> Some ''timeout: wall-clock safety net triggered'' \<and> gasUsed r = 3"
    unfolding r by (cases v) (auto simp: demo_host_def)
  with c show ?thesis by blast
qed

lemma classified_gas:
  assumes "classifyError l opts h signals err = Inr r" "exhausted_gate opts" "gas_inv (gas h)"
  shows "gasUsed r \<le> ceiling (gas h) \<and> (0 \<le> ceiling (gas h) \<longrightarrow> 0 \<le> gasUsed r)"
proof (cases "exhausted (gas h)")
  case True
  with assms(1,2) classify_gated [of h opts err l signals] show ?thesis
    by (cases err) (auto simp: classifyError_def)
next
  case False
  with assms(3) have "used (gas h) \<le> ceiling (gas h)" "0 \<le> used (gas h)" by (simp_all add: gas_inv_def)
  with classify_verdict [OF assms(1)] show ?thesis by auto
qed

text \<open>Gas billed never exceeds the budget: past the exhaustion height no classified result, whatever
  the contract threw, reports more gas than the ceiling the execution ran under.\<close>

theorem classified_gas_within_ceiling:
  assumes "classifyError l opts h signals err = Inr r" "exhausted_gate opts" "gas_inv (gas h)"
  shows "gasUsed r \<le> ceiling (gas h)"
  using classified_gas [OF assms] by simp

theorem classified_gas_within_ceiling_witness:
  "\<exists>r. classifyError demo_limits demo_opts (demo_host 40) None (EOther False ''plain'') = Inr r \<and> gasUsed r \<le> 25"
proof -
  have g: "exhausted_gate demo_opts"
    by (simp add: exhausted_gate_def demo_opts_def net_of_def opt_def js_get_def
        isGasCeilingExhaustedActive_def resolveRegtestGenesisHeightGate_def)
  have "exhausted (gas (demo_host 40))" "gas_inv (gas (demo_host 40))"
    by (simp_all add: demo_host_def gas_inv_def)
  then have c: "classifyError demo_limits demo_opts (demo_host 40) None (EOther False ''plain'')
      = Inr (verdict_result (demo_host 40) (VOutOfGas (used (gas (demo_host 40))) (ceiling (gas (demo_host 40)))))"
    by (intro classify_gated g) simp_all
  have "gas_inv (gas (demo_host 40))" by (simp add: demo_host_def gas_inv_def)
  from classified_gas_within_ceiling [OF c g this] have
    "gasUsed (verdict_result (demo_host 40) (VOutOfGas (used (gas (demo_host 40))) (ceiling (gas (demo_host 40))))) \<le> 25"
    by (simp add: demo_host_def del: verdict_result_simps)
  with c show ?thesis by blast
qed

end
