(* ===== verification/Caches.thy ===== *)
theory Caches
  imports Results
begin

text \<open>
  The virtual machine's two source-keyed caches (src/index/runtime/vm_caches.js,
  src/index/methods/lint_and_metering.js) and the execute-time lint that uses one of them
  (src/index/runtime/exec_lint.js). A JavaScript \<open>Map\<close> is its entries in insertion order. The locale
  \<open>memo_cache\<close> states what a lookup-or-compute routine over such a map is; that it is invisible to
  its callers and stays bounded is derived there once and interpreted on both caches. The digest,
  the metering transform and the syntax check are parameters.
\<close>

type_synonym 'v cache = "(string \<times> 'v) list"

text \<open>\<open>size >= bound\<close>, for a bound that may not be a number.\<close>

definition at_capacity :: "jsval \<Rightarrow> nat \<Rightarrow> bool" where
  "at_capacity bound n =
     (case to_num bound of
        Inr (Num b) \<Rightarrow> b \<le> of_nat n
      | Inr NInf \<Rightarrow> True
      | _ \<Rightarrow> False)"

text \<open>Evict the oldest entry at capacity, then append: the key is absent.\<close>

definition cache_insert :: "jsval \<Rightarrow> 'v cache \<Rightarrow> string \<Rightarrow> 'v \<Rightarrow> 'v cache" where
  "cache_insert bound c k v = (if at_capacity bound (length c) then tl c else c) @ [(k, v)]"

text \<open>The cache bound \<open>initCaches\<close> back-fills.\<close>

definition metered_cache_bound :: "jsval \<Rightarrow> vm_limits \<Rightarrow> jsval" where
  "metered_cache_bound given l =
     (if isInteger given then given else js_or (maxBlockCacheSize l) (JNum (Num 1000)))"

definition code_digest :: "(string \<Rightarrow> string) \<Rightarrow> string \<Rightarrow> string option \<Rightarrow> string" where
  "code_digest sha code codeHash =
     (case codeHash of Some d \<Rightarrow> if d = [] then sha code else d | None \<Rightarrow> sha code)"

definition bit :: "bool \<Rightarrow> char" where
  "bit b = (if b then CHR ''1'' else CHR ''0'')"

subsection \<open>The metered-source cache\<close>

record meter_flags =
  specEvalOrder :: bool
  meterCallSpread :: bool
  meterRestPattern :: bool
  nativeStackTerminal :: bool

definition metered_key :: "(string \<Rightarrow> string) \<Rightarrow> string \<Rightarrow> meter_flags \<Rightarrow> string option \<Rightarrow> string" where
  "metered_key sha code fl codeHash =
     code_digest sha code codeHash @ '':'' @
     [bit (specEvalOrder fl), bit (meterCallSpread fl), bit (meterRestPattern fl), bit (nativeStackTerminal fl)]"

definition getMeteredCode ::
  "(string \<Rightarrow> string) \<Rightarrow> (string \<Rightarrow> meter_flags \<Rightarrow> ('e, 'v) sum) \<Rightarrow> jsval \<Rightarrow>
   string \<Rightarrow> meter_flags \<Rightarrow> string option \<Rightarrow> 'v cache \<Rightarrow> ('e, 'v) sum \<times> 'v cache" where
  "getMeteredCode sha meterCode bound code fl codeHash c =
     (let key = metered_key sha code fl codeHash in
      case map_of c key of
        Some hit \<Rightarrow> (Inr hit, c)
      | None \<Rightarrow> (case meterCode code fl of
            Inl e \<Rightarrow> (Inl e, c)
          | Inr metered \<Rightarrow> (Inr metered, cache_insert bound c key metered)))"

subsection \<open>The lint-verdict cache\<close>

record lint_flags =
  enforceBannedAsync :: bool
  enforceLintHardening :: bool
  enforcePkg3Bans :: bool
  enforceLintGlobalAlias :: bool
  enforceBannedRest :: bool
  enforceLintOptionalChain :: bool
  enforceBannedWith :: bool
  enforceLintDestructure :: bool
  enforceLintSyntaxDepth :: bool

text \<open>The options object \<open>validateSyntax\<close> gets: one flag drives two rules of the bundle.\<close>

record syntax_opts =
  so_bannedAsync :: bool
  so_lintHardening :: bool
  so_bannedGenerator :: bool
  so_bannedWasm :: bool
  so_lintGlobalAlias :: bool
  so_bannedRest :: bool
  so_lintOptionalChain :: bool
  so_bannedWith :: bool
  so_lintDestructure :: bool
  so_lintSyntaxDepth :: bool

definition syntax_opts_of :: "lint_flags \<Rightarrow> syntax_opts" where
  "syntax_opts_of f =
     \<lparr>so_bannedAsync = enforceBannedAsync f, so_lintHardening = enforceLintHardening f,
      so_bannedGenerator = enforcePkg3Bans f, so_bannedWasm = enforcePkg3Bans f,
      so_lintGlobalAlias = enforceLintGlobalAlias f, so_bannedRest = enforceBannedRest f,
      so_lintOptionalChain = enforceLintOptionalChain f, so_bannedWith = enforceBannedWith f,
      so_lintDestructure = enforceLintDestructure f, so_lintSyntaxDepth = enforceLintSyntaxDepth f\<rparr>"

definition lint_key :: "(string \<Rightarrow> string) \<Rightarrow> string \<Rightarrow> lint_flags \<Rightarrow> string option \<Rightarrow> string" where
  "lint_key sha code f codeHash =
     code_digest sha code codeHash @ '':'' @
     [bit (enforceBannedAsync f), bit (enforceLintHardening f), bit (enforcePkg3Bans f),
      bit (enforceLintGlobalAlias f), bit (enforceBannedRest f), bit (enforceLintOptionalChain f),
      bit (enforceBannedWith f), bit (enforceLintDestructure f), bit (enforceLintSyntaxDepth f)]"

text \<open>A verdict is \<open>None\<close> for a valid source and the error text otherwise.\<close>

type_synonym lint_verdict = "string option"

definition getLintVerdict ::
  "(string \<Rightarrow> string) \<Rightarrow> (string \<Rightarrow> syntax_opts \<Rightarrow> ('e, 'v) sum) \<Rightarrow> jsval \<Rightarrow>
   string \<Rightarrow> lint_flags \<Rightarrow> string option \<Rightarrow> 'v cache \<Rightarrow> ('e, 'v) sum \<times> 'v cache" where
  "getLintVerdict sha validate bound code f codeHash c =
     (let key = lint_key sha code f codeHash in
      case map_of c key of
        Some hit \<Rightarrow> (Inr hit, c)
      | None \<Rightarrow> (case validate code (syntax_opts_of f) of
            Inl e \<Rightarrow> (Inl e, c)
          | Inr v \<Rightarrow> (Inr v, cache_insert bound c key v)))"

subsection \<open>The interface: lookup or compute\<close>

fun call_all :: "('a \<Rightarrow> 'c \<Rightarrow> 'r \<times> 'c) \<Rightarrow> 'a list \<Rightarrow> 'c \<Rightarrow> 'r list \<times> 'c" where
  "call_all f [] c = ([], c)"
| "call_all f (a # as) c = (let (r, c') = f a c; (rs, c'') = call_all f as c' in (r # rs, c''))"

lemma call_all_Cons:
  "call_all f (a # as) c =
     (fst (f a c) # fst (call_all f as (snd (f a c))), snd (call_all f as (snd (f a c))))"
  by (simp add: Let_def split: prod.split)

declare call_all.simps(2) [simp del]

text \<open>Every entry answers for the arguments of its key: what a warm cache must satisfy. Arguments
  that share a key must have one answer.\<close>

definition cache_sound :: "('a \<Rightarrow> string) \<Rightarrow> ('a \<Rightarrow> ('e, 'v) sum) \<Rightarrow> 'a set \<Rightarrow> 'v cache \<Rightarrow> bool" where
  "cache_sound key compute A c \<longleftrightarrow> (\<forall>(k, v) \<in> set c. \<forall>a \<in> A. key a = k \<longrightarrow> compute a = Inr v)"

definition keyed :: "('a \<Rightarrow> string) \<Rightarrow> ('a \<Rightarrow> ('e, 'v) sum) \<Rightarrow> 'a set \<Rightarrow> bool" where
  "keyed key compute A \<longleftrightarrow> (\<forall>x \<in> A. \<forall>y \<in> A. key x = key y \<longrightarrow> compute x = compute y)"

locale memo_cache =
  fixes call :: "'a \<Rightarrow> 'v cache \<Rightarrow> ('e, 'v) sum \<times> 'v cache"
    and key :: "'a \<Rightarrow> string"
    and compute :: "'a \<Rightarrow> ('e, 'v) sum"
    and bound :: jsval
  assumes hit: "map_of c (key a) = Some v \<Longrightarrow> call a c = (Inr v, c)"
    and failed: "map_of c (key a) = None \<Longrightarrow> compute a = Inl e \<Longrightarrow> call a c = (Inl e, c)"
    and fresh: "map_of c (key a) = None \<Longrightarrow> compute a = Inr v \<Longrightarrow>
                  call a c = (Inr v, cache_insert bound c (key a) v)"
begin

lemma sound_empty: "cache_sound key compute A []"
  by (simp add: cache_sound_def)

lemma call_sound:
  assumes "cache_sound key compute A c" "a \<in> A" "keyed key compute A"
  shows "fst (call a c) = compute a \<and> cache_sound key compute A (snd (call a c))"
proof (cases "map_of c (key a)")
  case (Some v)
  then have "(key a, v) \<in> set c" by (rule map_of_SomeD)
  with assms(1,2) have "compute a = Inr v" by (auto simp: cache_sound_def)
  with hit [OF Some] assms(1) show ?thesis by simp
next
  case None
  show ?thesis
  proof (cases "compute a")
    case (Inl e)
    with failed [OF None Inl] assms(1) show ?thesis by simp
  next
    case (Inr v)
    have old: "compute x = Inr w" if "(key x, w) \<in> set c" "x \<in> A" for x w
      using assms(1) that by (auto simp: cache_sound_def)
    have new: "compute x = Inr v" if "x \<in> A" "key x = key a" for x
      using assms(2,3) that Inr by (metis keyed_def)
    have "(k, w) \<in> set c \<or> (k, w) = (key a, v)" if "(k, w) \<in> set (cache_insert bound c (key a) v)" for k w
      using that by (cases c) (auto simp: cache_insert_def split: if_splits)
    then have "cache_sound key compute A (cache_insert bound c (key a) v)"
      unfolding cache_sound_def using old new by fastforce
    with fresh [OF None Inr] Inr show ?thesis by simp
  qed
qed

text \<open>Whatever was asked before, the answers are those of computing afresh.\<close>

lemma transparent:
  assumes "set as \<subseteq> A" "keyed key compute A"
    and "cache_sound key compute A c"
  shows "fst (call_all call as c) = map compute as"
  using assms(1,3)
proof (induction as arbitrary: c)
  case (Cons a as)
  from Cons.prems(1) have a: "a \<in> A" by simp
  from call_sound [OF Cons.prems(2) a assms(2)]
  have "fst (call a c) = compute a" "cache_sound key compute A (snd (call a c))" by simp_all
  with Cons.IH [of "snd (call a c)"] Cons.prems(1) show ?case by (simp add: call_all_Cons)
qed simp

lemma call_bounded:
  assumes "length c \<le> n" "to_num bound = Inr (Num b)" "b \<le> of_nat n" "0 < n"
  shows "length (snd (call a c)) \<le> n"
proof (cases "map_of c (key a)")
  case None
  show ?thesis
  proof (cases "compute a")
    case (Inr v)
    have "at_capacity bound (length c)" if "length c = n"
      using assms(2,3) that by (simp add: at_capacity_def)
    with assms(1,4) have "length (cache_insert bound c (key a) v) \<le> n"
      by (cases c; cases "length c = n") (simp_all add: cache_insert_def)
    with fresh [OF None Inr] show ?thesis by simp
  qed (simp add: failed [OF None] assms(1))
qed (simp add: hit assms(1))

lemma bounded:
  assumes "to_num bound = Inr (Num b)" "b \<le> of_nat n" "0 < n"
  shows "length c \<le> n \<Longrightarrow> length (snd (call_all call as c)) \<le> n"
proof (induction as arbitrary: c)
  case (Cons a as)
  from Cons.IH [OF call_bounded [OF Cons.prems assms, of a]] show ?case by (simp add: call_all_Cons)
qed simp

end

type_synonym 'f cache_query = "string \<times> 'f \<times> string option"

interpretation metered: memo_cache
  "\<lambda>(code, fl, d). getMeteredCode sha meterCode bnd code fl d"
  "\<lambda>(code, fl, d). metered_key sha code fl d"
  "\<lambda>(code, fl, d). meterCode code fl" bnd for sha meterCode bnd
  by unfold_locales (auto simp: getMeteredCode_def Let_def)

interpretation linted: memo_cache
  "\<lambda>(code, f, d). getLintVerdict sha validate bnd code f d"
  "\<lambda>(code, f, d). lint_key sha code f d"
  "\<lambda>(code, f, d). validate code (syntax_opts_of f)" bnd for sha validate bnd
  by unfold_locales (auto simp: getLintVerdict_def Let_def)

subsection \<open>No two questions share a key\<close>

definition own_digest :: "(string \<Rightarrow> string) \<Rightarrow> 'f cache_query \<Rightarrow> bool" where
  "own_digest sha q \<longleftrightarrow> snd (snd q) \<in> {None, Some (sha (fst q))}"

definition honest_digests :: "(string \<Rightarrow> string) \<Rightarrow> 'f cache_query list \<Rightarrow> bool" where
  "honest_digests sha qs \<longleftrightarrow> inj_on sha (set (map fst qs)) \<and> list_all (own_digest sha) qs"

lemma code_digest_own: "own_digest sha (code, fl, d) \<Longrightarrow> code_digest sha code d = sha code"
  by (auto simp: own_digest_def code_digest_def)

lemma bit_eq [simp]: "bit a = bit b \<longleftrightarrow> a = b"
  by (simp add: bit_def)

lemma metered_key_eq:
  assumes "metered_key sha a f d = metered_key sha b g e"
    and "own_digest sha (a, f, d)" "own_digest sha (b, g, e)"
  shows "sha a = sha b \<and> f = g"
  using assms(1) unfolding metered_key_def code_digest_own [OF assms(2)] code_digest_own [OF assms(3)]
  by (auto intro: meter_flags.equality)

lemma lint_key_eq:
  assumes "lint_key sha a f d = lint_key sha b g e"
    and "own_digest sha (a, f, d)" "own_digest sha (b, g, e)"
  shows "sha a = sha b \<and> f = g"
  using assms(1) unfolding lint_key_def code_digest_own [OF assms(2)] code_digest_own [OF assms(3)]
  by (auto intro: lint_flags.equality)

lemma honest_code_eq:
  assumes "honest_digests sha qs" "x \<in> set qs" "y \<in> set qs" "sha (fst x) = sha (fst y)"
  shows "fst x = fst y"
proof -
  from assms(1) have "inj_on sha (fst ` set qs)" by (simp add: honest_digests_def)
  from inj_onD [OF this assms(4)] assms(2,3) show ?thesis by blast
qed

lemma honest_own: "honest_digests sha qs \<Longrightarrow> x \<in> set qs \<Longrightarrow> own_digest sha x"
  by (auto simp: honest_digests_def list_all_iff)

lemma metered_keyed:
  assumes "honest_digests sha qs"
  shows "keyed (\<lambda>(code, fl, d). metered_key sha code fl d) (\<lambda>(code, fl, d). meterCode code fl) (set qs)"
  unfolding keyed_def
proof (intro ballI impI)
  fix x y assume x: "x \<in> set qs" and y: "y \<in> set qs"
    and k: "(case x of (code, fl, d) \<Rightarrow> metered_key sha code fl d) = (case y of (code, fl, d) \<Rightarrow> metered_key sha code fl d)"
  obtain a f d b g e where xy: "x = (a, f, d)" "y = (b, g, e)" by (metis prod_cases3)
  from metered_key_eq [of sha a f d b g e] k honest_own [OF assms x] honest_own [OF assms y] xy
  have "sha a = sha b" "f = g" by simp_all
  with honest_code_eq [OF assms x y] xy
  show "(case x of (code, fl, d) \<Rightarrow> meterCode code fl) = (case y of (code, fl, d) \<Rightarrow> meterCode code fl)"
    by simp
qed

lemma linted_keyed:
  assumes "honest_digests sha qs"
  shows "keyed (\<lambda>(code, f, d). lint_key sha code f d) (\<lambda>(code, f, d). validate code (syntax_opts_of f)) (set qs)"
  unfolding keyed_def
proof (intro ballI impI)
  fix x y assume x: "x \<in> set qs" and y: "y \<in> set qs"
    and k: "(case x of (code, f, d) \<Rightarrow> lint_key sha code f d) = (case y of (code, f, d) \<Rightarrow> lint_key sha code f d)"
  obtain a f d b g e where xy: "x = (a, f, d)" "y = (b, g, e)" by (metis prod_cases3)
  from lint_key_eq [of sha a f d b g e] k honest_own [OF assms x] honest_own [OF assms y] xy
  have "sha a = sha b" "f = g" by simp_all
  with honest_code_eq [OF assms x y] xy
  show "(case x of (code, f, d) \<Rightarrow> validate code (syntax_opts_of f))
      = (case y of (code, f, d) \<Rightarrow> validate code (syntax_opts_of f))"
    by simp
qed

text \<open>A warm node and a cold node execute the same metered source: along any history of requests,
  failures and evictions included, the metered-source cache answers every request with what the
  transform answers for that source and those gate flags. The digest is assumed free of collisions
  among the sources requested, and a digest the caller passes to be the source's own.\<close>

theorem metered_cache_is_invisible:
  assumes "honest_digests sha qs"
  shows "fst (call_all (\<lambda>(code, fl, d). getMeteredCode sha meterCode bound code fl d) qs [])
     = map (\<lambda>(code, fl, d). meterCode code fl) qs"
  by (rule metered.transparent [OF order_refl metered_keyed [OF assms] metered.sound_empty])

definition demo_meter :: "string \<Rightarrow> meter_flags \<Rightarrow> string res" where
  "demo_meter code fl = (if code = ''{'' then throw ''Unexpected token''
     else Inr (bit (specEvalOrder fl) # code))"

definition demo_flags :: "bool \<Rightarrow> meter_flags" where
  "demo_flags b = \<lparr>specEvalOrder = b, meterCallSpread = True, meterRestPattern = False, nativeStackTerminal = False\<rparr>"

theorem metered_cache_is_invisible_witness:
  "fst (call_all (\<lambda>(code, fl, d). getMeteredCode id demo_meter (JNum (Num 1)) code fl d)
      [(''a'', demo_flags True, None), (''a'', demo_flags False, Some ''a''), (''{'', demo_flags True, None)] [])
   = [Inr ''1a'', Inr ''0a'', throw ''Unexpected token'']"
proof -
  have "honest_digests id [(''a'', demo_flags True, None), (''a'', demo_flags False, Some ''a''), (''{'', demo_flags True, None)]"
    by (simp add: honest_digests_def own_digest_def)
  from metered_cache_is_invisible [OF this, of demo_meter "JNum (Num 1)"] show ?thesis
    by (simp add: demo_meter_def demo_flags_def bit_def)
qed

text \<open>The lint-verdict cache never answers from a verdict computed under other rules: along any
  history of requests it gives each source, under each combination of the nine ban flags, the
  verdict the syntax check gives for exactly those flags, and with a numeric bound of at least one
  it never holds more entries than the bound.\<close>

theorem lint_cache_is_invisible:
  assumes "honest_digests sha qs" "1 \<le> n"
  shows "fst (call_all (\<lambda>(code, f, d). getLintVerdict sha validate (JNum (Num (of_nat n))) code f d) qs [])
       = map (\<lambda>(code, f, d). validate code (syntax_opts_of f)) qs
     \<and> length (snd (call_all (\<lambda>(code, f, d). getLintVerdict sha validate (JNum (Num (of_nat n))) code f d) qs [])) \<le> n"
proof
  show "fst (call_all (\<lambda>(code, f, d). getLintVerdict sha validate (JNum (Num (of_nat n))) code f d) qs [])
      = map (\<lambda>(code, f, d). validate code (syntax_opts_of f)) qs"
    by (rule linted.transparent [OF order_refl linted_keyed [OF assms(1)] linted.sound_empty])
  show "length (snd (call_all (\<lambda>(code, f, d). getLintVerdict sha validate (JNum (Num (of_nat n))) code f d) qs [])) \<le> n"
    by (rule linted.bounded) (use assms(2) in auto)
qed

definition demo_lint_flags :: "bool \<Rightarrow> lint_flags" where
  "demo_lint_flags b = \<lparr>enforceBannedAsync = b, enforceLintHardening = True, enforcePkg3Bans = False,
     enforceLintGlobalAlias = False, enforceBannedRest = False, enforceLintOptionalChain = False,
     enforceBannedWith = False, enforceLintDestructure = False, enforceLintSyntaxDepth = False\<rparr>"

definition demo_validate :: "string \<Rightarrow> syntax_opts \<Rightarrow> lint_verdict res" where
  "demo_validate code so = Inr (if so_bannedAsync so then Some ''async'' else None)"

theorem lint_cache_is_invisible_witness:
  "fst (call_all (\<lambda>(code, f, d). getLintVerdict id demo_validate (JNum (Num (of_nat 1))) code f d)
      [(''a'', demo_lint_flags True, None), (''a'', demo_lint_flags False, None)] [])
   = [Inr (Some ''async''), Inr None]"
proof -
  have "honest_digests id [(''a'', demo_lint_flags True, None), (''a'', demo_lint_flags False, None)]"
    by (simp add: honest_digests_def own_digest_def)
  from lint_cache_is_invisible [OF this, of 1 demo_validate] show ?thesis
    by (simp add: demo_validate_def demo_lint_flags_def syntax_opts_of_def)
qed

subsection \<open>The lint at execution time\<close>

definition EXEC_LINT_GAS_BYTES_PER_UNIT :: nat where
  "EXEC_LINT_GAS_BYTES_PER_UNIT = 256"

text \<open>\<open>Math.max(1, Math.ceil(bytes / 256))\<close>.\<close>

definition lint_units :: "nat \<Rightarrow> nat" where
  "lint_units codeBytes = max 1 ((codeBytes + (EXEC_LINT_GAS_BYTES_PER_UNIT - 1)) div EXEC_LINT_GAS_BYTES_PER_UNIT)"

definition lint_flags_at :: "jsval \<Rightarrow> string option \<Rightarrow> jsval \<Rightarrow> lint_flags" where
  "lint_flags_at opts coin height =
     (let net = net_of opts; t = block_number opts ''timestamp'' in
      \<lparr>enforceBannedAsync = isAsyncSurfaceActive net t,
       enforceLintHardening = isLintHardeningActive net t,
       enforcePkg3Bans = isPkg3SandboxActive net coin height,
       enforceLintGlobalAlias = isLintGlobalAliasActive net coin height,
       enforceBannedRest = isRestPatternMeterActive net t,
       enforceLintOptionalChain = isLintOptionalChainActive net coin height,
       enforceBannedWith = isLintBannedWithActive net coin height,
       enforceLintDestructure = isLintDestructureActive net coin height,
       enforceLintSyntaxDepth = isLintSyntaxDepthActive net coin height\<rparr>)"

text \<open>
  \<open>checkExecLint\<close>: \<open>Inr None\<close> lets the execution go on, \<open>Inr (Some r)\<close> refuses it with a result,
  \<open>Inl\<close> is a throw. The charge comes before the verdict, whatever the cache holds.
\<close>

definition lint_charge :: "host \<Rightarrow> nat \<Rightarrow> jsval" where
  "lint_charge h codeBytes = JNum (case cost_num h ''VM_COMPUTATION'' of
     Num c \<Rightarrow> Num (c * of_nat (lint_units codeBytes)) | _ \<Rightarrow> NaN)"

definition lint_verdict_result :: "host \<Rightarrow> lint_verdict \<Rightarrow> result option" where
  "lint_verdict_result h v = (case v of None \<Rightarrow> None
     | Some e \<Rightarrow> Some (errorResult (gas h) (coll h) (''error: banned syntax: '' @ e) None))"

definition checkExecLint ::
  "(string \<Rightarrow> string) \<Rightarrow> (string \<Rightarrow> syntax_opts \<Rightarrow> lint_verdict res) \<Rightarrow> jsval \<Rightarrow> jsval \<Rightarrow>
   string \<Rightarrow> nat \<Rightarrow> string option \<Rightarrow> string option \<Rightarrow> jsval \<Rightarrow>
   lint_verdict cache \<Rightarrow> host \<Rightarrow> result option res \<times> lint_verdict cache \<times> host" where
  "checkExecLint sha validate bound opts codeStr codeBytes codeHash coin height c h =
     (if \<not> isExecLintActive (net_of opts) coin height then (Inr None, c, h)
      else case charge_op (lint_charge h codeBytes) h of
        (Inl (GasExhaustedError u cl), h') \<Rightarrow> (Inr (Some (gas_result (gas h') (coll h') u cl)), c, h')
      | (Inl e, h') \<Rightarrow> (Inl e, c, h')
      | (Inr _, h') \<Rightarrow>
          (case getLintVerdict sha validate bound codeStr (lint_flags_at opts coin height) codeHash c of
             (Inl e, c') \<Rightarrow> (Inl e, c', h')
           | (Inr v, c') \<Rightarrow> (Inr (lint_verdict_result h' v), c', h')))"

lemma checkExecLint_grows: "grows h (snd (snd (checkExecLint sha v b opts cs cb ch coin ht c h)))"
proof -
  have "grows h (snd (charge_op (lint_charge h cb) h))"
    using steady_charge by (auto simp: steady_def)
  then show ?thesis
    by (auto simp: checkExecLint_def split: prod.splits sum.splits exn.splits)
qed

text \<open>The bill of the lint does not depend on the cache: only the verdict is looked up.\<close>

lemma checkExecLint_host:
  "snd (snd (checkExecLint sha v b opts cs cb ch coin ht c h)) =
     (if isExecLintActive (net_of opts) coin ht then snd (charge_op (lint_charge h cb) h) else h)"
  by (auto simp: checkExecLint_def split: prod.splits sum.splits exn.splits)

text \<open>The execute-time lint bills a warm node and a cold node alike: whatever two caches hold, the
  gas after the lint is the same. Where it is armed, the bill is one computation unit per started
  256 bytes of source and at least one, taken before any verdict is looked at.\<close>

theorem exec_lint_gas_is_cache_independent:
  assumes "isExecLintActive (net_of opts) coin ht" "cost_num h ''VM_COMPUTATION'' = Num w" "0 \<le> w"
  shows "gas (snd (snd (checkExecLint sha va b opts cs cb ch coin ht c h)))
       = gas (snd (snd (checkExecLint sha va' b' opts cs' cb ch' coin ht c' h)))
     \<and> used (gas (snd (snd (checkExecLint sha va b opts cs cb ch coin ht c h))))
       = used (gas h) + w * of_nat (lint_units cb)
     \<and> 1 \<le> lint_units cb \<and> cb \<le> 256 * lint_units cb \<and> (0 < cb \<longrightarrow> 256 * (lint_units cb - 1) < cb)"
proof -
  have "used (gas (snd (charge_op (lint_charge h cb) h))) = used (gas h) + w * of_nat (lint_units cb)"
  proof -
    have "\<not> w * of_nat (lint_units cb) < 0" using assms(3) by (simp add: not_less)
    with assms(2) show ?thesis by (simp add: lint_charge_def charge_op_def Let_def split: prod.split)
  qed
  moreover have "1 \<le> lint_units cb" by (simp add: lint_units_def)
  moreover have "cb \<le> 256 * lint_units cb" "0 < cb \<longrightarrow> 256 * (lint_units cb - 1) < cb"
    by (auto simp: lint_units_def EXEC_LINT_GAS_BYTES_PER_UNIT_def max_def)
  ultimately show ?thesis using assms(1) by (simp add: checkExecLint_host)
qed

theorem exec_lint_gas_is_cache_independent_witness:
  "used (gas (snd (snd (checkExecLint id demo_validate (JNum (Num 1)) demo_opts ''a'' 300 None (Some ''BTC'')
     (JNum (Num 5)) [] (demo_host 3))))) = 5"
proof -
  have a: "isExecLintActive (net_of demo_opts) (Some ''BTC'') (JNum (Num 5))"
    by (simp add: demo_opts_def net_of_def opt_def js_get_def isExecLintActive_def
        resolvePerCoinHeightGate_def)
  have w: "cost_num (demo_host 3) ''VM_COMPUTATION'' = Num 1"
    by (simp add: cost_num_def gas_cost_def demo_host_def demo_schedule_def CANONICAL_GAS_KEYS_def js_get_def)
  from exec_lint_gas_is_cache_independent [OF a w, of id demo_validate "JNum (Num 1)" "''a''" 300 None "[]"]
  show ?thesis by (simp add: demo_host_def lint_units_def EXEC_LINT_GAS_BYTES_PER_UNIT_def)
qed

end
