(* ===== verification/Vetted.thy ===== *)
theory Vetted
  imports Results
begin

text \<open>
  The actions a run queues against the validator that judges them after it (src/validator.js): no
  gateway routine queues an action the validator would refuse, so its error result is never the
  outcome of a contract's own emissions. \<open>vetted\<close> is closed under composition like \<open>steady\<close>.
\<close>

definition valid_actions :: "collector \<Rightarrow> bool" where
  "valid_actions c \<longleftrightarrow> (\<forall>ap \<in> set (actions c). validate_action ap = Inr ())"

definition vetted :: "'a op \<Rightarrow> bool" where
  "vetted m \<longleftrightarrow> (\<forall>h. valid_actions (coll h) \<longrightarrow> valid_actions (coll (snd (m h))))"

named_theorems vetted_intros \<open>operations that queue only valid actions\<close>

lemma validate_action_iff:
  "validate_action (act, p) = Inr () \<longleftrightarrow> act \<in> set ALLOWED_ACTIONS \<and> is_object p"
  by (simp add: validate_action_def rbind_Inr_iff)

lemma vetted_same: "(\<And>h. actions (coll (snd (m h))) = actions (coll h)) \<Longrightarrow> vetted m"
  by (simp add: vetted_def valid_actions_def)

lemma vetted_lift [vetted_intros]: "vetted (lift r)" "vetted (ret x)"
  by (simp_all add: vetted_def lift_def ret_def)

lemma vetted_bind_post:
  assumes "vetted m" "\<And>h x h'. m h = (Inr x, h') \<Longrightarrow> vetted (f x)"
  shows "vetted (bind_op m f)"
  unfolding vetted_def
proof (intro allI impI)
  fix h :: host assume v: "valid_actions (coll h)"
  obtain r h' where m: "m h = (r, h')" by fastforce
  with assms(1) v have v': "valid_actions (coll h')" by (metis vetted_def snd_conv)
  show "valid_actions (coll (snd (bind_op m f h)))"
  proof (cases r)
    case (Inr x)
    with assms(2) [of h x h'] m v' show ?thesis by (simp add: bind_op_def vetted_def)
  qed (simp add: bind_op_def m v')
qed

lemma vetted_bind [vetted_intros]: "vetted m \<Longrightarrow> (\<And>x. vetted (f x)) \<Longrightarrow> vetted (bind_op m f)"
  by (rule vetted_bind_post)

lemma vetted_lift_then: "(\<And>x. r = Inr x \<Longrightarrow> vetted (f x)) \<Longrightarrow> vetted (bind_op (lift r) f)"
  by (rule vetted_bind_post [OF vetted_lift(1)]) (simp add: lift_def)

lemma vetted_charge [vetted_intros]:
  "vetted (charge_op a)" "vetted (charge_key k)" "vetted (\<lambda>h. charge_op (g h) h)"
  by (auto intro!: vetted_same simp: charge_op_def charge_key_def split: prod.split)

lemma vetted_misc [vetted_intros]:
  "vetted room_check" "vetted (mark_revert r)" "vetted (store_op s)" "vetted (add_log m)"
  "vetted (\<lambda>h. lift (g h) h)" "vetted (\<lambda>h. ret (x h) h)"
  by (auto intro!: vetted_same simp: room_check_def mark_revert_def store_op_def add_log_def addLog_def
      lift_def ret_def Let_def split: prod.split)

lemma vetted_if [vetted_intros]: "vetted a \<Longrightarrow> vetted b \<Longrightarrow> vetted (if c then a else b)"
  by simp

lemma vetted_option [vetted_intros]:
  "vetted a \<Longrightarrow> (\<And>x. vetted (f x)) \<Longrightarrow> vetted (case v of None \<Rightarrow> a | Some x \<Rightarrow> f x)"
  by (cases v) auto

lemma strip_object: "is_object p \<Longrightarrow> is_object (strip p)"
  by (cases p) (auto simp: is_object_def)

lemma stripped_object:
  "is_object p \<Longrightarrow> (if d then Inr (deepStripParams p) else shallow_strip p) = Inr safe \<Longrightarrow> is_object safe"
  using strip_object [of p]
  by (auto simp: deepStripParams_strip shallow_strip_def is_object_def split: if_splits)

lemma vetted_queue:
  assumes "act \<in> set ALLOWED_ACTIONS" "is_object p"
  shows "vetted (queue_action act p)"
  unfolding vetted_def
proof (intro allI impI)
  fix h :: host assume v: "valid_actions (coll h)"
  show "valid_actions (coll (snd (queue_action act p h)))"
    using v assms stripped_object [OF assms(2), of "deepStrip (coll h)"]
    by (auto simp: queue_action_def add_action_def valid_actions_def validate_action_iff
        split: prod.split sum.split)
qed

lemma object_lit [simp]: "is_object (JObj kvs)" "is_object (object_or_empty p)"
  by (simp_all add: is_object_def object_or_empty_def)

lemma vetted_queue_object [vetted_intros]:
  "act \<in> set ALLOWED_ACTIONS \<Longrightarrow> vetted (queue_action act (JObj kvs))"
  "act \<in> set ALLOWED_ACTIONS \<Longrightarrow> vetted (queue_action act (object_or_empty p))"
  by (simp_all add: vetted_queue)

lemma vetted_checked [vetted_intros]:
  assumes "act \<in> set ALLOWED_ACTIONS"
  shows "vetted (checked_emit act fs spec p)"
  unfolding checked_emit_def
proof (rule vetted_bind [OF vetted_charge(2)])
  show "vetted (bind_op (lift (validateRequired p fs)) (\<lambda>_.
      bind_op (lift (validateTypes p spec)) (\<lambda>_. bind_op (queue_action act p) (\<lambda>_. ret JUndef))))"
  proof (rule vetted_lift_then)
    fix x assume "validateRequired p fs = Inr x"
    then have "is_object p" by (simp add: validateRequired_ok)
    from vetted_queue [OF assms this]
    show "vetted (bind_op (lift (validateTypes p spec)) (\<lambda>_. bind_op (queue_action act p) (\<lambda>_. ret JUndef)))"
      by (intro vetted_bind vetted_lift)
  qed
qed

lemma vetted_loose [vetted_intros]: "act \<in> set ALLOWED_ACTIONS \<Longrightarrow> vetted (loose_emit act p)"
  unfolding loose_emit_def by (intro vetted_intros)

lemma allowed [vetted_intros]:
  "''SEND'' \<in> set ALLOWED_ACTIONS" "''DESTROY'' \<in> set ALLOWED_ACTIONS" "''ISSUE'' \<in> set ALLOWED_ACTIONS"
  "''MINT'' \<in> set ALLOWED_ACTIONS" "''ORDER'' \<in> set ALLOWED_ACTIONS" "''DISPENSER'' \<in> set ALLOWED_ACTIONS"
  "''DIVIDEND'' \<in> set ALLOWED_ACTIONS" "''AIRDROP'' \<in> set ALLOWED_ACTIONS" "''CALLBACK'' \<in> set ALLOWED_ACTIONS"
  "''FILE'' \<in> set ALLOWED_ACTIONS" "''LIST'' \<in> set ALLOWED_ACTIONS" "''COINPAY'' \<in> set ALLOWED_ACTIONS"
  "''SWEEP'' \<in> set ALLOWED_ACTIONS" "''LINK'' \<in> set ALLOWED_ACTIONS" "''BROADCAST'' \<in> set ALLOWED_ACTIONS"
  "''MESSAGE'' \<in> set ALLOWED_ACTIONS" "''ATTEST'' \<in> set ALLOWED_ACTIONS" "''SLASH'' \<in> set ALLOWED_ACTIONS"
  "''EXECUTE'' \<in> set ALLOWED_ACTIONS" "''XCALL'' \<in> set ALLOWED_ACTIONS" "''VOTE'' \<in> set ALLOWED_ACTIONS"
  by (simp_all add: ALLOWED_ACTIONS_def)

lemma vetted_math: "vetted (math_call m mj f a b)"
proof -
  have ch: "vetted (chargeOutput m mj v)" for v
    unfolding chargeOutput_def by (intro vetted_intros)
  have fm: "vetted (fmt m mj r)" "vetted (fmtReal m mj r)" for r
    unfolding fmt_def fmtReal_def Let_def by (intro vetted_intros ch)+
  have sm: "vetted m \<Longrightarrow> vetted (safeMath m)" for m :: "jsval op"
    by (simp add: vetted_def)
  show ?thesis
    unfolding math_call_def by (rule sm, cases f) (simp_all add: test_cmp_def vetted_intros fm)
qed

lemmas gateway_unfold = gateway.simps gateway_defs emit_send_def emit_destroy_def emit_issue_def
  emit_mint_def emit_order_def emit_dispenser_def emit_dividend_def emit_airdrop_def
  emit_callback_def emit_file_def emit_list_def emit_coinpay_def emit_sweep_def emit_link_def
  emit_broadcast_def emit_message_def emit_vote_def emit_execute_def emit_crossExecute_def
  attestation_request_def queueAttestRequest_def gas_call_def

lemma vetted_gateway: "vetted (gateway e c)"
proof (cases c)
  case (MathCall f a b)
  then show ?thesis by (simp add: vetted_math)
qed (simp only: gateway_unfold; intro vetted_intros)+

lemma run_vetted: "valid_actions (coll h) \<Longrightarrow> valid_actions (coll (snd (run e prog n tr h)))"
proof (induction n arbitrary: tr h)
  case (Suc n)
  show ?case
  proof (cases "prog tr")
    case (Some c)
    obtain r h' where d: "dispatch e c h = (r, h')" by fastforce
    then have "h' = snd (gateway e c h)" by (metis bridge_host dispatch_def snd_conv)
    with vetted_gateway [of e c] Suc.prems have "valid_actions (coll h')" by (simp add: vetted_def)
    from Suc.IH [OF this, of "tr @ [(c, r)]"] Some d show ?thesis by simp
  qed (simp add: Suc.prems)
qed simp

text \<open>C29. The validator after a run never refuses what the run queued: every action any contract can
  put on the queue through the gateway, whichever emissions it makes and with whatever parameters,
  names an allowed action and carries an object, so no execution ends as an invalid emission.\<close>

theorem own_emissions_are_valid:
  assumes "h = new_host g s (newCollector m d)"
  shows "check_all validate_action (actions (coll (snd (run e prog n [] h)))) = Inr ()"
proof -
  have "valid_actions (coll h)" using assms by (simp add: valid_actions_def new_host_def newCollector_def)
  from run_vetted [OF this, of e prog n "[]"] show ?thesis by (simp only: valid_actions_def check_all_ok_iff)
qed

theorem own_emissions_are_valid_witness:
  "check_all validate_action (actions (coll (snd (run (demo_env True)
     (\<lambda>tr. if length tr < 2 then Some (EmitList JNull) else None) 9 []
     (new_host \<lparr>schedule = demo_schedule, ceiling = 25, used = 0, exhausted = False\<rparr>
        demo_store (newCollector 50 (JBool True))))))) = Inr ()"
  by (rule own_emissions_are_valid [OF refl])

end
