(* ===== verification/Pipeline.thy ===== *)
theory Pipeline
  imports Caches Vetted
begin

text \<open>
  One execution from the options to the result (src/index/runtime/execute.js): the state objects,
  the code-size and lint refusals, the setup of the isolate, metering and compilation, the run, and
  the settlement of its outcome, with the options of the gateway
  (src/index/runtime/gateway_options.js), the harness selection
  (src/index/armed_harness/select.js), the contract source (src/index/runtime/contract_io.js), the
  block cache (src/index/methods/block_lifecycle.js) and the manifest read
  (src/index/methods/manifest.js).

  The isolate is a parameter: whether it can be created, which setup step fails, what compiles,
  what the compiled source asks of the host after the answers so far and how it ends, and what the
  host observes of the run. \<open>wall_calls\<close> is how many host calls the wall-clock net lets through; a
  contract still calling then is stopped by it.
\<close>

unbundle bit_operations_syntax

subsection \<open>Harness selection\<close>

record harness_gates =
  hg_resourceFaultSignal :: bool
  hg_hostErrorStackStrip :: bool
  hg_hostCallBounds :: bool
  hg_stringifyReentry :: bool
  hg_perElementMeter :: bool
  hg_stringReceiverMeter :: bool
  hg_toStringSizeMeter :: bool
  hg_nativeStackTerminal :: bool

definition bit_of :: "nat \<Rightarrow> bool \<Rightarrow> nat" where
  "bit_of i b = (if b then 2 ^ i else 0)"

definition harnessMask :: "harness_gates \<Rightarrow> nat" where
  "harnessMask g =
     bit_of 0 (hg_resourceFaultSignal g) OR bit_of 1 (hg_hostErrorStackStrip g)
     OR bit_of 2 (hg_hostCallBounds g) OR bit_of 3 (hg_stringifyReentry g)
     OR bit_of 4 (hg_perElementMeter g) OR bit_of 5 (hg_stringReceiverMeter g)
     OR bit_of 6 (hg_toStringSizeMeter g) OR bit_of 7 (hg_nativeStackTerminal g)"

definition executionHarnessMask :: "jsval \<Rightarrow> string option \<Rightarrow> jsval \<Rightarrow> bool \<Rightarrow> bool \<Rightarrow> nat" where
  "executionHarnessMask opts coin height resourceFaultSignalOn nativeStackTerminalOn =
     (let net = net_of opts; t = block_number opts ''timestamp'' in
      harnessMask
        \<lparr>hg_resourceFaultSignal = resourceFaultSignalOn,
         hg_hostErrorStackStrip = isHostErrorStackStripActive net coin height,
         hg_hostCallBounds = isHostCallBoundsActive net t,
         hg_stringifyReentry = isJsonStringifyReentryActive net coin height,
         hg_perElementMeter = isPerElementMeterActive net t,
         hg_stringReceiverMeter = isStringReceiverMeterActive net t,
         hg_toStringSizeMeter = isToStringSizeMeterActive net t,
         hg_nativeStackTerminal = nativeStackTerminalOn\<rparr>)"

subsection \<open>The gateway's options\<close>

definition binary_gate :: "jsval \<Rightarrow> bool" where
  "binary_gate t = at_least BINARY_ALLOC_GATE_BLOCK_TIME (num_only t)"

definition number_or_null :: "jsval \<Rightarrow> jsval res" where
  "number_or_null v = (if nullish v then Inr JNull else rbind (to_num v) (\<lambda>n. Inr (JNum n)))"

definition root_or_null :: "jsval \<Rightarrow> jsval res" where
  "root_or_null v = (if nullish v then Inr JNull else normalizeRootDiscriminator v)"

definition int_default :: "jsval \<Rightarrow> jsval" where
  "int_default v = (if isInteger v then v else JNum (Num 0))"

text \<open>The parameters are an array of strings by the host's contract.\<close>

fun param_list :: "jsval \<Rightarrow> jsval list" where
  "param_list (JArr xs) = xs"
| "param_list _ = []"

definition buildGatewayOptions :: "vm_limits \<Rightarrow> jsval \<Rightarrow> accessors \<Rightarrow> read_only res" where
  "buildGatewayOptions l opts a =
     (let net = net_of opts; t = block_number opts ''timestamp'' in
      rbind (number_or_null (opt opts ''contractIndex'')) (\<lambda>idx.
      rbind (number_or_null (opt opts ''actionIndex'')) (\<lambda>_.
      rbind (root_or_null (opt opts ''rootActionIndex'')) (\<lambda>root.
      Inr \<lparr>caller = opt opts ''caller'', contractAddress = opt opts ''contractAddress'',
           contractIndex = idx, txHash = js_or (opt opts ''txHash'') (JStr []), rootActionIndex = root,
           callPath = JStr (string_or_empty (opt opts ''callPath'')),
           callDepth = int_default (opt opts ''callDepth''),
           maxCallDepth_opt = JNum (Num (of_int (maxCallDepth l))),
           minCallGas_opt = JNum (Num (of_int (minCallGas l))),
           network = js_or (opt opts ''network'') (JStr []),
           crossHops = int_default (opt opts ''crossHops''), isGuard = truthy (opt opts ''isGuard''),
           params = param_list (opt opts ''params''), blockContext = opt opts ''blockContext'',
           balances = js_or (opt opts ''balances'') (JObj []),
           tokenInfo = js_or (opt opts ''tokenInfo'') (JObj []), acc = a,
           providerDeadlines = js_or (opt opts ''providerDeadlines'') JNull,
           mathOutputMeterOn = binary_gate t,
           slashTokenDelimGuardOn = isSlashTokenDelimGuardActive net t,
           slashAmountPrecisionOn = isSlashAmountPrecisionActive net t,
           hostCallBoundsOn = isHostCallBoundsActive net t\<rparr>))))"

subsection \<open>The machine\<close>

record vm =
  gasSchedule :: jsval
  gasCeiling :: rat
  limits :: vm_limits
  maxMeteredCacheSize :: jsval
  meteredCache :: "string cache"
  lintVerdictCache :: "lint_verdict cache"
  blockCache :: "string option cache option"

datatype step = Asks gw_call | Returns jsval | Throws bool string

record 'n machine =
  sha :: "string \<Rightarrow> string"
  math_lib :: "'n mathjs"
  wrapper_text :: string
  wrapper_hardened_text :: string
  check_syntax :: "string \<Rightarrow> syntax_opts \<Rightarrow> lint_verdict res"
  meter_code :: "string \<Rightarrow> meter_flags \<Rightarrow> (host_error, string) sum"
  spawn_failure :: "string option"
  setup_failure :: "string \<Rightarrow> exn option"
  compile_failure :: "string \<Rightarrow> host_error option"
  compiled_handle :: "string \<Rightarrow> string option"
  behaviour :: "string \<Rightarrow> trace \<Rightarrow> step"
  wall_calls :: nat
  observed :: "trace \<Rightarrow> int \<times> bool \<times> bool"
  worker_copy :: worker_snapshot

definition beginBlock :: "vm \<Rightarrow> vm" where
  "beginBlock m = m\<lparr>blockCache := Some []\<rparr>"

definition endBlock :: "vm \<Rightarrow> vm" where
  "endBlock m = m\<lparr>blockCache := None\<rparr>"

subsection \<open>The contract source\<close>

definition json_bool :: "jsval \<Rightarrow> string" where
  "json_bool v = (if truthy v then ''true'' else ''false'')"

definition json_or_undefined :: "jsval \<Rightarrow> string" where
  "json_or_undefined v = (case json_text v of Some t \<Rightarrow> t | None \<Rightarrow> ''undefined'')"

definition buildContractSource :: "string \<Rightarrow> string \<Rightarrow> jsval \<Rightarrow> string \<Rightarrow> bool \<Rightarrow> string" where
  "buildContractSource wrapper hardenedWrapper opts meteredCode wrapperHardened =
     (let code = json_string meteredCode;
          meth = json_or_undefined (js_or (opt opts ''method'') (JStr ''default''));
          cross = json_bool (opt opts ''isCrossCall''); manifest = json_bool (opt opts ''readManifest'')
      in if wrapperHardened
         then hardenedWrapper @ ''('' @ code @ '', '' @ meth @ '', '' @ cross @ '', '' @ manifest @ '');'' @ [CHR 0x0A]
         else ''let __contractCode = '' @ code @ '';'' @ [CHR 0x0A]
              @ ''let __methodName = '' @ meth @ '';'' @ [CHR 0x0A]
              @ ''let __isCrossCall = '' @ cross @ '';'' @ [CHR 0x0A]
              @ ''let __readManifest = '' @ manifest @ '';'' @ [CHR 0x0A] @ wrapper)"

text \<open>\<open>isHostStackOverflow\<close>: a range error about the call stack.\<close>

fun isHostStackOverflow :: "host_error \<Rightarrow> bool" where
  "isHostStackOverflow (EOther isRange m) =
     (isRange \<and> (includes_str ''call stack'' (map to_lower m) \<or> includes_str ''too much recursion'' (map to_lower m)))"
| "isHostStackOverflow _ = False"

subsection \<open>State objects and signals\<close>

definition new_execution :: "vm \<Rightarrow> jsval \<Rightarrow> host res" where
  "new_execution m opts =
     (let net = net_of opts; t = block_number opts ''timestamp'' in
      rbind (newGasTracker (gasSchedule m) (effectiveCeiling (opt opts ''gasCeiling'') (gasCeiling m))) (\<lambda>g.
      Inr (new_host g
        (newStateManager (js_or (opt opts ''state'') (JObj [])) (limits m)
           (isStateKeyNulRejectActive net t) (isStateKeyTypeNormalizeActive net t))
        (newCollector (maxEmissions (limits m)) (JBool (binary_gate t))))))"

definition start_signals :: "vm \<Rightarrow> jsval \<Rightarrow> host_signals" where
  "start_signals m opts =
     \<lparr>elapsedNs = None, isolateDisposed = False, wallBudgetMs = wallClockBudgetMs (limits m) opts,
      stackFaultGateOn = isResourceFaultSignalActive (net_of opts) (coin_of opts) (block_number opts ''height''),
      stackFault = False\<rparr>"

definition run_signals :: "host_signals \<Rightarrow> int \<times> bool \<times> bool \<Rightarrow> host_signals" where
  "run_signals sg seen = (case seen of (el, gone, fault) \<Rightarrow>
     sg\<lparr>elapsedNs := Some el, isolateDisposed := gone, stackFault := fault \<and> stackFaultGateOn sg\<rparr>)"

subsection \<open>Execution\<close>

text \<open>A throw inside the guarded part carries what the classifier will look at.\<close>

type_synonym fault = "host_error \<times> host \<times> host_signals"

definition setup_step :: "'n machine \<Rightarrow> string \<Rightarrow> unit res" where
  "setup_step k name = hostSetupStep name
     (case setup_failure k name of None \<Rightarrow> Inr () | Some e \<Rightarrow> Inl e) True"

text \<open>Creating the isolate, and every setup step up to the harness, in order; the accessors and the
  gateway options are built between the first step and the second.\<close>

definition setup_isolate :: "'n machine \<Rightarrow> vm \<Rightarrow> jsval \<Rightarrow> read_only res" where
  "setup_isolate k m opts =
     rbind (case spawn_failure k of
              None \<Rightarrow> Inr ()
            | Some e \<Rightarrow> Inl (HostFaultError (''execution isolate unavailable: '' @ e))) (\<lambda>_.
     rbind (setup_step k ''stripGlobals'') (\<lambda>_.
     rbind (resolveAccessors (worker_copy k) opts
              (isAccessorOwnKeyActive (net_of opts) (block_raw opts ''timestamp''))) (\<lambda>a.
     rbind (buildGatewayOptions (limits m) opts a) (\<lambda>rd.
     rbind (check_all (setup_step k)
              [''injectGateway'', ''setGas'', ''injectExecutionGlobals'', ''compileHarness'', ''runHarness'']) (\<lambda>_.
     Inr rd)))))"

definition meter_flags_at :: "jsval \<Rightarrow> meter_flags" where
  "meter_flags_at opts =
     (let net = net_of opts; t = block_number opts ''timestamp'' in
      \<lparr>specEvalOrder = isMeteringEvalOrderActive net t,
       meterCallSpread = isCallSpreadMeterActive net t \<or> isIterSetMeterActive net t,
       meterRestPattern = isRestPatternMeterActive net t,
       nativeStackTerminal = isNativeStackTerminalActive net (coin_of opts) (block_number opts ''height'')\<rparr>)"

definition code_of :: "jsval \<Rightarrow> string" where
  "code_of opts = string_or_empty (opt opts ''code'')"

definition overflow_is_host_fault :: "jsval \<Rightarrow> bool" where
  "overflow_is_host_fault opts =
     isLintSyntaxDepthActive (net_of opts) (coin_of opts) (block_number opts ''height'')"

text \<open>Metering: the metered source, or a refusal, or the fault of this host.\<close>

definition meter_step :: "'n machine \<Rightarrow> vm \<Rightarrow> jsval \<Rightarrow> host \<Rightarrow> (exn, result + string) sum \<times> vm" where
  "meter_step k m opts h =
     (case getMeteredCode (sha k) (meter_code k) (maxMeteredCacheSize m) (code_of opts) (meter_flags_at opts)
             (Some (sha k (code_of opts))) (meteredCache m) of
        (Inr metered, c) \<Rightarrow> (Inr (Inr metered), m\<lparr>meteredCache := c\<rparr>)
      | (Inl e, c) \<Rightarrow>
          (if overflow_is_host_fault opts \<and> isHostStackOverflow e
           then Inl (HostFaultError (''metering stack overflow: '' @ host_message e))
           else Inr (Inl (errorResult (gas h) (coll h) (''error: metering failed: '' @ host_message e) None)),
           m\<lparr>meteredCache := c\<rparr>))"

text \<open>Compilation of the full source. The cached handle only speeds the parse: the isolate
  recompiles from the source when it does not fit.\<close>

definition compile_key :: "'n machine \<Rightarrow> jsval \<Rightarrow> string \<Rightarrow> string res" where
  "compile_key k opts source =
     rbind (let i = opt opts ''contractIndex'' in if nullish i then Inr ''0'' else to_str i) (\<lambda>i.
     Inr (i @ '':'' @ sha k source))"

text \<open>\<open>size < bound\<close>.\<close>

definition below_capacity :: "jsval \<Rightarrow> nat \<Rightarrow> bool" where
  "below_capacity bound n =
     (case to_num bound of Inr (Num b) \<Rightarrow> of_nat n < b | Inr PInf \<Rightarrow> True | _ \<Rightarrow> False)"

definition store_compiled :: "'n machine \<Rightarrow> string \<Rightarrow> string \<Rightarrow> vm \<Rightarrow> vm" where
  "store_compiled k key source m =
     (case blockCache m of
        None \<Rightarrow> m
      | Some c \<Rightarrow>
          if map_of c key = None
             \<and> below_capacity (js_or (maxBlockCacheSize (limits m)) (JNum (Num 1000))) (length c)
          then m\<lparr>blockCache := Some (c @ [(key, compiled_handle k source)])\<rparr> else m)"

definition compile_step :: "'n machine \<Rightarrow> vm \<Rightarrow> jsval \<Rightarrow> host \<Rightarrow> string \<Rightarrow> (exn, result option) sum \<times> vm" where
  "compile_step k m opts h source =
     (case compile_key k opts source of
        Inl e \<Rightarrow> (Inl e, m)
      | Inr key \<Rightarrow>
          (case compile_failure k source of
             None \<Rightarrow> (Inr None, store_compiled k key source m)
           | Some e \<Rightarrow>
               (if overflow_is_host_fault opts \<and> isHostStackOverflow e
                then Inl (HostFaultError (''compilation stack overflow: '' @ host_message e))
                else if isHostFaultHaltActive (net_of opts) (coin_of opts) (block_number opts ''height'')
                then Inl (HostFaultError (''wrapper compilation failed: '' @ host_message e))
                else Inr (Some (errorResult (gas h) (coll h) (''error: compilation failed: '' @ host_message e) None)),
                m)))"

text \<open>The run: what the compiled source asks for is answered until it ends or the net stops it.\<close>

definition asked :: "step \<Rightarrow> gw_call option" where
  "asked s = (case s of Asks c \<Rightarrow> Some c | _ \<Rightarrow> None)"

definition run_env :: "'n machine \<Rightarrow> jsval \<Rightarrow> read_only \<Rightarrow> 'n env" where
  "run_env k opts rd =
     \<lparr>sha256_hex = sha k, mathjs_lib = math_lib k, ro = rd,
      nonFiniteFailClosed = binary_gate (block_number opts ''timestamp'')\<rparr>"

definition run_contract ::
  "'n machine \<Rightarrow> jsval \<Rightarrow> read_only \<Rightarrow> string \<Rightarrow> host \<Rightarrow> (host_error, jsval) sum \<times> trace \<times> host" where
  "run_contract k opts rd source h =
     (case run (run_env k opts rd) (\<lambda>tr. asked (behaviour k source tr)) (wall_calls k) [] h of
        (tr, h') \<Rightarrow>
          ((case behaviour k source tr of
              Returns v \<Rightarrow> Inr v
            | Throws isRange msg \<Rightarrow> Inl (EOther isRange msg)
            | Asks c \<Rightarrow> Inl (EOther False ''Script execution timed out.'')), tr, h'))"

text \<open>Settlement of a run that returned.\<close>

definition swallowed_exhaustion :: "jsval \<Rightarrow> host \<Rightarrow> bool" where
  "swallowed_exhaustion opts h \<longleftrightarrow> exhausted (gas h)
     \<and> (isGasCeilingSuccessActive (net_of opts) (block_number opts ''timestamp'')
        \<or> isGasCeilingExhaustedActive (net_of opts) (coin_of opts) (block_number opts ''height''))"

definition settle :: "jsval \<Rightarrow> host \<Rightarrow> jsval \<Rightarrow> result" where
  "settle opts h raw =
     (if swallowed_exhaustion opts h
      then gas_result (gas h) (coll h) (used (gas h)) (ceiling (gas h))
      else (case check_all validate_action (actions (coll h)) of
          Inl e \<Rightarrow> errorResult (gas h) (coll h) (''error: invalid emission: '' @ exn_message e) None
        | Inr _ \<Rightarrow>
            \<lparr>success = True, error_msg = None, gasUsed = getUsed (gas h), returnValue = extractReturnValue raw,
             stateChanges = fst (getChanges (kv h)), stateDeletes = snd (getChanges (kv h)),
             emittedActions = actions (coll h), result_logs = logs (coll h)\<rparr>))"

definition run_and_settle ::
  "'n machine \<Rightarrow> vm \<Rightarrow> jsval \<Rightarrow> read_only \<Rightarrow> string \<Rightarrow> host \<Rightarrow> (fault, result) sum" where
  "run_and_settle k m opts rd source h =
     (case run_contract k opts rd source h of
        (Inr raw, _, h') \<Rightarrow> Inr (settle opts h' raw)
      | (Inl err, tr, h') \<Rightarrow>
          (let sg = run_signals (start_signals m opts) (observed k tr) in
           case classifyError (limits m) opts h' (Some sg) err of
             Inr r \<Rightarrow> Inr r
           | Inl e \<Rightarrow> Inl (host_error_of e, h', sg)))"

text \<open>The body of the outer \<open>try\<close>.\<close>

definition guarded :: "'n machine \<Rightarrow> vm \<Rightarrow> jsval \<Rightarrow> host \<Rightarrow> (fault, result) sum \<times> vm" where
  "guarded k m opts h =
     (let thrown = (\<lambda>e. Inl (host_error_of e, h, start_signals m opts)) in
      case setup_isolate k m opts of
        Inl e \<Rightarrow> (thrown e, m)
      | Inr rd \<Rightarrow>
      (case meter_step k m opts h of
         (Inl e, m1) \<Rightarrow> (thrown e, m1)
       | (Inr (Inl refused), m1) \<Rightarrow> (Inr refused, m1)
       | (Inr (Inr metered), m1) \<Rightarrow>
           (let source = buildContractSource (wrapper_text k) (wrapper_hardened_text k) opts metered (hardened opts) in
            case compile_step k m1 opts h source of
              (Inl e, m2) \<Rightarrow> (thrown e, m2)
            | (Inr (Some refused), m2) \<Rightarrow> (Inr refused, m2)
            | (Inr None, m2) \<Rightarrow> (run_and_settle k m2 opts rd source h, m2))))"

definition lint_step :: "'n machine \<Rightarrow> vm \<Rightarrow> jsval \<Rightarrow> host \<Rightarrow> result option res \<times> vm \<times> host" where
  "lint_step k m opts h =
     (let code = code_of opts; coin = coin_of opts; height = block_number opts ''height'' in
      case checkExecLint (sha k) (check_syntax k) (maxMeteredCacheSize m) opts code (length code)
             (Some (sha k code)) coin height (lintVerdictCache m) h of
        (r, c, h') \<Rightarrow>
          (hostSetupStep ''checkExecLint'' r (isHostFaultHaltActive (net_of opts) coin height),
           m\<lparr>lintVerdictCache := c\<rparr>, h'))"

text \<open>\<open>execute\<close>. \<open>Inl\<close> is a rejected promise: the caller halts or retries, no result exists.\<close>

definition execute :: "'n machine \<Rightarrow> jsval \<Rightarrow> vm \<Rightarrow> result res \<times> vm" where
  "execute k opts m =
     (case new_execution m opts of
        Inl e \<Rightarrow> (Inl e, m)
      | Inr h \<Rightarrow>
      (if maxCodeSize (limits m) < int (length (code_of opts))
       then (Inr (errorResult (gas h) (coll h)
               (''error: code size exceeds limit ('' @ int_text (maxCodeSize (limits m)) @ '' bytes)'') None), m)
       else (case lint_step k m opts h of
          (Inl e, m1, h1) \<Rightarrow> (Inl e, m1)
        | (Inr (Some refused), m1, h1) \<Rightarrow> (Inr refused, m1)
        | (Inr None, m1, h1) \<Rightarrow>
            (case guarded k m1 opts h1 of
               (Inr r, m2) \<Rightarrow> (Inr r, m2)
             | (Inl (err, h2, sg), m2) \<Rightarrow> (classifyError (limits m) opts h2 (Some sg) err, m2)))))"

text \<open>The manifest read: an execution that reports the exported policy.\<close>

definition manifest_opts :: "string \<Rightarrow> jsval \<Rightarrow> jsval" where
  "manifest_opts code opts =
     (let o' = js_or opts (JObj []) in
      JObj [(''code'', JStr code), (''method'', JStr ''__manifest__''), (''readManifest'', JBool True),
            (''network'', opt o' ''network''), (''blockContext'', opt o' ''blockContext''),
            (''contractAddress'', opt o' ''contractAddress'')])"

definition readManifest ::
  "(string \<Rightarrow> jsval option) \<Rightarrow> 'n machine \<Rightarrow> string \<Rightarrow> jsval \<Rightarrow> vm \<Rightarrow>
   (bool \<times> jsval \<times> string option) res \<times> vm" where
  "readManifest parse k code opts m =
     (case execute k (manifest_opts code opts) m of
        (Inl e, m') \<Rightarrow> (Inl e, m')
      | (Inr r, m') \<Rightarrow>
          (Inr (if \<not> success r then (False, JNull, error_msg r)
                else (True, (case returnValue r of None \<Rightarrow> JNull
                               | Some t \<Rightarrow> (case parse t of Some v \<Rightarrow> v | None \<Rightarrow> JNull)), None)), m'))"

end
