(* ===== verification/PipelineDemo.thy ===== *)
theory PipelineDemo
  imports Pipeline
begin

text \<open>
  A machine to run on, for the witnesses: a digest and a metering that leave the source as it is, a
  lint that accepts, and a contract that writes a key, emits a list and returns, or a
  metering that refuses the source.
  Its execution is evaluated here in the stages of the pipeline.
\<close>

definition demo_script :: "trace \<Rightarrow> step" where
  "demo_script tr = (case length tr of
     0 \<Rightarrow> Asks (StateSet (JStr ''k'') (JBool True))
   | Suc 0 \<Rightarrow> Asks (EmitList JNull)
   | _ \<Rightarrow> Returns (JBool True))"

definition demo_machine :: "bool \<Rightarrow> rat machine" where
  "demo_machine works = \<lparr>sha = id, math_lib = demo_math, wrapper_text = ''w'', wrapper_hardened_text = ''h'',
     check_syntax = (\<lambda>_ _. Inr None), meter_code = (\<lambda>code _. if works then Inr code else Inl (EOther False ''Unexpected token'')), spawn_failure = None,
     setup_failure = (\<lambda>_. None), compile_failure = (\<lambda>_. None), compiled_handle = (\<lambda>_. None),
     behaviour = (\<lambda>_. demo_script),
     wall_calls = 9, observed = (\<lambda>_. (1, False, False)), worker_copy = \<lparr>ws_data = JUndef, ws_token = JNull\<rparr>\<rparr>"

definition demo_vm :: vm where
  "demo_vm = \<lparr>gasSchedule = demo_schedule, gasCeiling = 25, limits = demo_limits,
     maxMeteredCacheSize = JNum (Num 2), meteredCache = [], lintVerdictCache = [], blockCache = None\<rparr>"

definition demo_start :: "rat \<Rightarrow> host" where
  "demo_start u = new_host \<lparr>schedule = demo_schedule, ceiling = 25, used = u, exhausted = False\<rparr>
     (newStateManager (JObj []) demo_limits True True) (newCollector 50 (JBool True))"

lemma demo_get:
  "k \<noteq> ''network'' \<Longrightarrow> k \<noteq> ''contractAddress'' \<Longrightarrow> k \<noteq> ''blockContext'' \<Longrightarrow> js_get demo_opts k = inherited k"
  by (simp add: demo_opts_def js_get_def)

lemma demo_opt:
  "k \<in> {''code'', ''state'', ''gasCeiling'', ''contractIndex'', ''actionIndex'', ''rootActionIndex'', ''oracleData'',
     ''crossChainData'', ''attestationData'', ''contractStakeData'', ''pollData'', ''method'',
     ''isCrossCall'', ''readManifest'', ''wallClockMs''} \<Longrightarrow> js_get demo_opts k = JUndef"
  by (auto simp: demo_get inherited_def object_proto_def)

lemma demo_fields [simp]:
  "net_of demo_opts = ''regtest''" "coin_of demo_opts = Some ''BTC''" "code_of demo_opts = []"
  "block_number demo_opts ''height'' = JNum (Num 5)" "block_number demo_opts ''timestamp'' = JNum (Num 1800000000)"
proof -
  show "net_of demo_opts = ''regtest''" "block_number demo_opts ''height'' = JNum (Num 5)"
    "block_number demo_opts ''timestamp'' = JNum (Num 1800000000)"
    by (simp_all add: demo_opts_def net_of_def opt_def js_get_def block_number_def block_raw_def)
  have "split_on (CHR '':'') ''C:BTC:7'' = [''C'', ''BTC'', ''7'']" by code_simp
  then show "coin_of demo_opts = Some ''BTC''"
    by (simp add: demo_opts_def opt_def js_get_def coin_of_def pkg3CoinFromAddress_def)
  show "code_of demo_opts = []" by (simp add: code_of_def opt_def demo_opt)
qed

lemma regtest_gate [simp]:
  "resolveRegtestGenesisHeightGate tbl ''regtest'' c t" "resolvePerCoinHeightGate tbl ''regtest'' c t"
  "coordinated g ''regtest'' t"
  by (simp_all add: resolveRegtestGenesisHeightGate_def resolvePerCoinHeightGate_def coordinated_def)

lemma demo_schedule_accepted: "newGasTracker demo_schedule c = Inr \<lparr>schedule = demo_schedule, ceiling = c, used = 0, exhausted = False\<rparr>"
  by (simp add: newGasTracker_def demo_schedule_def CANONICAL_GAS_KEYS_def
      check_schedule_value_def check_schedule_key_def js_get_def valid_cost_def)

lemma demo_limit [simp]: "maxEmissions demo_limits = 50" "maxCodeSize demo_limits = 65536" "maxStateKeys demo_limits = 10000"
  "maxStateValueSize demo_limits = 65536" "maxStateKeySize demo_limits = JUndef" "maxCpuTimeMs demo_limits = JNum (Num 30000)"
  by code_simp+

lemma demo_new: "new_execution demo_vm demo_opts = Inr (demo_start 0)"
proof -
  have "js_or (opt demo_opts ''state'') (JObj []) = JObj []" by (simp add: opt_def demo_opt js_or_def)
  moreover have "effectiveCeiling (opt demo_opts ''gasCeiling'') 25 = 25" by (simp add: opt_def demo_opt)
  moreover have "binary_gate (JNum (Num 1800000000))"
    by (simp add: binary_gate_def at_least_def BINARY_ALLOC_GATE_BLOCK_TIME_def)
  ultimately show ?thesis
    by (simp add: new_execution_def demo_start_def demo_vm_def demo_schedule_accepted
        isStateKeyNulRejectActive_def isStateKeyTypeNormalizeActive_def)
qed

lemma demo_lint:
  "\<exists>c. lint_step (demo_machine b) demo_vm demo_opts (demo_start 0)
     = (Inr None, demo_vm\<lparr>lintVerdictCache := c\<rparr>, demo_start 1)"
proof -
  have w: "lint_charge (demo_start 0) 0 = JNum (Num 1)"
    by (simp add: lint_charge_def cost_num_def gas_cost_def demo_start_def new_host_def demo_schedule_def
        CANONICAL_GAS_KEYS_def js_get_def lint_units_def EXEC_LINT_GAS_BYTES_PER_UNIT_def)
  then show ?thesis
    by (simp add: lint_step_def checkExecLint_def isExecLintActive_def charge_op_def demo_start_def new_host_def
        getLintVerdict_def Let_def hostSetupStep_def lint_verdict_result_def demo_machine_def demo_vm_def)
qed

lemma demo_setup: "\<exists>rd. setup_isolate (demo_machine b) (demo_vm\<lparr>lintVerdictCache := c\<rparr>) demo_opts = Inr rd"
  by (simp add: setup_isolate_def setup_step_def hostSetupStep_def demo_machine_def resolveAccessors_def demo_opt
      buildOracleAccessor_def buildCrossChainAccessor_def resolveWorkerCrossChainSnapshot_def
      buildGatewayOptions_def number_or_null_def root_or_null_def opt_def Let_def)

lemma demo_meter:
  "\<exists>c'. meter_step (demo_machine True) (demo_vm\<lparr>lintVerdictCache := c\<rparr>) demo_opts h
     = (Inr (Inr []), demo_vm\<lparr>lintVerdictCache := c, meteredCache := c'\<rparr>)"
  by (simp add: meter_step_def getMeteredCode_def demo_machine_def demo_vm_def Let_def)

lemma demo_meter_refused:
  "meter_step (demo_machine False) (demo_vm\<lparr>lintVerdictCache := c\<rparr>) demo_opts h
     = (Inr (Inl (errorResult (gas h) (coll h) ''error: metering failed: Unexpected token'' None)), demo_vm\<lparr>lintVerdictCache := c\<rparr>)"
  by (simp add: meter_step_def getMeteredCode_def demo_machine_def demo_vm_def Let_def)

lemma demo_compile:
  "compile_step (demo_machine b) (demo_vm\<lparr>lintVerdictCache := c, meteredCache := c'\<rparr>) demo_opts h src
     = (Inr None, demo_vm\<lparr>lintVerdictCache := c, meteredCache := c'\<rparr>)"
  by (simp add: compile_step_def compile_key_def demo_machine_def demo_vm_def opt_def demo_opt store_compiled_def Let_def)

definition demo_kv :: store where
  "demo_kv = (newStateManager (JObj []) demo_limits True True)\<lparr>st_dirty := [(JStr ''k'', JBool True)], keyCount := 1\<rparr>"

definition demo_end :: "nat \<Rightarrow> rat \<Rightarrow> host" where
  "demo_end n u = (demo_start u)\<lparr>kv := demo_kv,
     coll := (newCollector 50 (JBool True))\<lparr>actions := replicate n (''LIST'', JObj [])\<rparr>\<rparr>"

lemma demo_cost:
  "charge_key ''VM_STATE_WRITE'' (demo_start 1) = (Inr (), demo_start 2)"
  "charge_key ''VM_EMISSION'' (demo_end 0 2) = (Inr (), demo_end 0 12)"
  by (simp_all add: charge_key_def charge_op_def gas_cost_def demo_start_def demo_end_def new_host_def demo_schedule_def
      CANONICAL_GAS_KEYS_def js_get_def Let_def)

lemma demo_set: "stateSet (kv (demo_start u)) (JStr ''k'') (JBool True) = (Inr (), demo_kv)"
  by (simp add: stateSet_def normKey_def demo_start_def new_host_def newStateManager_def set_norm_def check_key_def
      exceeds_def maxKeySize_def js_or_def check_value_def has_norm_def dirty_get_def demo_kv_def)

lemma demo_steps:
  "(demo_start u)\<lparr>kv := demo_kv\<rparr> = demo_end 0 u"
  "(demo_end 0 u)\<lparr>coll := coll (demo_end 1 v)\<rparr> = demo_end 1 u"
  by (simp_all add: demo_end_def demo_start_def new_host_def newCollector_def)

lemma demo_queue: "add_action (coll (demo_end 0 u)) ''LIST'' (JObj []) = (Inr (), coll (demo_end 1 u))"
  by (simp add: add_action_def demo_end_def ensureRoom_def newCollector_def deepStripParams_strip)

lemma demo_first: "dispatch e (StateSet (JStr ''k'') (JBool True)) (demo_start 1) = (Inr (Nothing JUndef), demo_end 0 2)"
  by (simp add: dispatch_def bridge_def gw_state_set_def bind_op_def demo_cost store_op_def demo_set
      ret_def frame_result_def demo_steps lift_def)

lemma demo_second: "dispatch e (EmitList JNull) (demo_end 0 2) = (Inr (Nothing JUndef), demo_end 1 12)"
  by (simp add: dispatch_def bridge_def emit_list_def loose_emit_def bind_op_def demo_cost queue_action_def
      ret_def frame_result_def object_or_empty_def is_object_def demo_queue [simplified] demo_steps [simplified] lift_def)

lemma demo_run:
  "\<exists>tr. run_contract (demo_machine True) opts rd src (demo_start 1) = (Inr (JBool True), tr, demo_end 1 12)"
proof -
  have r: "run e p (Suc (Suc (Suc n))) [] h = (tr, h'')"
    if "p [] = Some a" "dispatch e a h = (x, h')" "p [(a, x)] = Some b" "dispatch e b h' = (y, h'')"
      "tr = [(a, x), (b, y)]" "p tr = None"
    for e :: "rat env" and p n a b x y h h' h'' tr
    using that by simp
  let ?tr = "[(StateSet (JStr ''k'') (JBool True), Inr (Nothing JUndef)), (EmitList JNull, Inr (Nothing JUndef))]"
  have "run (run_env (demo_machine True) opts rd) (\<lambda>tr. asked (demo_script tr)) 9 [] (demo_start 1)
      = (?tr, demo_end 1 12)"
    by (rule r [where n = 6, simplified, OF _ demo_first _ demo_second]) (simp_all add: demo_script_def asked_def)
  then show ?thesis by (simp add: run_contract_def demo_machine_def demo_script_def)
qed

text \<open>The whole execution: it succeeds with one write, one action and 12 units of gas, or fails as an
  error with the lint's unit spent.\<close>

definition demo_result :: result where
  "demo_result = \<lparr>success = True, error_msg = None, gasUsed = 12, returnValue = Some ''true'',
     stateChanges = [(JStr ''k'', JBool True)], stateDeletes = [], emittedActions = [(''LIST'', JObj [])],
     result_logs = []\<rparr>"

lemma demo_settle: "settle demo_opts (demo_end 1 12) (JBool True) = demo_result"
proof -
  have e: "\<not> swallowed_exhaustion demo_opts (demo_end 1 12)" "used (gas (demo_end 1 12)) = 12"
    "actions (coll (demo_end 1 12)) = [(''LIST'', JObj [])]" "kv (demo_end 1 12) = demo_kv" "logs (coll (demo_end 1 12)) = []"
    by (simp_all add: demo_end_def demo_start_def new_host_def newCollector_def swallowed_exhaustion_def)
  have c: "getChanges demo_kv = ([(JStr ''k'', JBool True)], [])"
    by (simp add: getChanges_def demo_kv_def)
  have r: "extractReturnValue (JBool True) = Some ''true''"
    by (simp add: extractReturnValue_def clip_return_def utf16_len_def units_of_def)
  have v: "check_all validate_action [(''LIST'', JObj [])] = Inr ()"
    by code_simp
  show ?thesis
    by (simp only: settle_def e c r v if_False sum.case fst_conv snd_conv getUsed_def demo_result_def)
qed

lemma demo_execution: "\<exists>m'. execute (demo_machine True) demo_opts demo_vm = (Inr demo_result, m')"
proof -
  let ?k = "demo_machine True"
  obtain c where l: "lint_step ?k demo_vm demo_opts (demo_start 0)
      = (Inr None, demo_vm\<lparr>lintVerdictCache := c\<rparr>, demo_start 1)" using demo_lint by blast
  obtain rd where s: "setup_isolate ?k (demo_vm\<lparr>lintVerdictCache := c\<rparr>) demo_opts = Inr rd"
    using demo_setup by blast
  obtain c' where m: "meter_step ?k (demo_vm\<lparr>lintVerdictCache := c\<rparr>) demo_opts (demo_start 1)
      = (Inr (Inr []), demo_vm\<lparr>lintVerdictCache := c, meteredCache := c'\<rparr>)" using demo_meter by blast
  define src where "src = buildContractSource (wrapper_text ?k) (wrapper_hardened_text ?k) demo_opts [] (hardened demo_opts)"
  obtain tr where r: "run_contract ?k demo_opts rd src (demo_start 1) = (Inr (JBool True), tr, demo_end 1 12)"
    using demo_run by blast
  have g: "guarded ?k (demo_vm\<lparr>lintVerdictCache := c\<rparr>) demo_opts (demo_start 1)
      = (Inr demo_result, demo_vm\<lparr>lintVerdictCache := c, meteredCache := c'\<rparr>)"
    by (simp only: guarded_def Let_def s m demo_compile run_and_settle_def demo_settle src_def [symmetric] r
        sum.case prod.case option.case)
  have "limits demo_vm = demo_limits" by (simp add: demo_vm_def)
  then show ?thesis by (simp add: execute_def demo_new l g)
qed

lemma demo_failure: "\<exists>r m'. execute (demo_machine False) demo_opts demo_vm = (Inr r, m') \<and> \<not> success r"
proof -
  let ?k = "demo_machine False"
  obtain c where l: "lint_step ?k demo_vm demo_opts (demo_start 0)
      = (Inr None, demo_vm\<lparr>lintVerdictCache := c\<rparr>, demo_start 1)" using demo_lint by blast
  obtain rd where s: "setup_isolate ?k (demo_vm\<lparr>lintVerdictCache := c\<rparr>) demo_opts = Inr rd"
    using demo_setup by blast
  show ?thesis by (simp add: execute_def demo_new l guarded_def Let_def s demo_meter_refused)
qed

end
