(* ===== verification/PipelineProps.thy ===== *)
theory PipelineProps
  imports PipelineDemo
begin

text \<open>
  What every execution guarantees: where its result comes from, that the gas it bills stays within
  the ceiling, that a failure commits nothing and a success exactly what the run left, that a fault
  of the host never becomes a result of its own, and that no cache can be seen in a result.
\<close>

subsection \<open>Growth of the host along an execution\<close>

lemma new_execution_ok:
  assumes "new_execution m opts = Inr h"
  shows "used (gas h) = 0" "ceiling (gas h) = effectiveCeiling (opt opts ''gasCeiling'') (gasCeiling m)"
    "exhausted (gas h) = False" "reverted h = False" "valid_actions (coll h)"
    "st_limits (kv h) = limits m" "max_emissions (coll h) = maxEmissions (limits m)"
    "collector_inv (coll h)" "dirty_bounded (kv h)"
proof -
  from assms obtain g nul nrm d where h: "h = new_host g (newStateManager (js_or (opt opts ''state'') (JObj [])) (limits m) nul nrm)
      (newCollector (maxEmissions (limits m)) d)"
    and g: "newGasTracker (gasSchedule m) (effectiveCeiling (opt opts ''gasCeiling'') (gasCeiling m)) = Inr g"
    by (auto simp: new_execution_def Let_def rbind_Inr_iff)
  from newGasTracker_ok(1) [OF g] h show "used (gas h) = 0"
    "ceiling (gas h) = effectiveCeiling (opt opts ''gasCeiling'') (gasCeiling m)"
    "exhausted (gas h) = False" "reverted h = False" "valid_actions (coll h)"
    "st_limits (kv h) = limits m" "max_emissions (coll h) = maxEmissions (limits m)"
    "collector_inv (coll h)" "dirty_bounded (kv h)"
    by (simp_all add: new_host_def newStateManager_def newCollector_def Let_def valid_actions_def
        collector_inv_def dirty_bounded_def)
qed

lemma new_execution_gas_inv:
  "new_execution m opts = Inr h \<Longrightarrow> 0 \<le> ceiling (gas h) \<Longrightarrow> gas_inv (gas h)"
  using new_execution_ok [of m opts h] by (simp add: gas_inv_def)

lemma growsD:
  assumes "grows h h'" "gas_inv (gas h)"
  shows "gas_inv (gas h')" "ceiling (gas h') = ceiling (gas h)" "0 \<le> used (gas h')"
  using assms by (auto simp: grows_def gas_inv_def)

lemma run_contract_grows:
  "run_contract k opts rd source h = (r, tr, h') \<Longrightarrow> grows h h'"
  using run_grows [of h "run_env k opts rd" "\<lambda>tr. asked (behaviour k source tr)" "wall_calls k" "[]"]
  by (auto simp: run_contract_def split: prod.splits)

lemma run_contract_valid:
  "run_contract k opts rd source h = (r, tr, h') \<Longrightarrow> valid_actions (coll h) \<Longrightarrow> valid_actions (coll h')"
  using run_vetted [of h "run_env k opts rd" "\<lambda>tr. asked (behaviour k source tr)" "wall_calls k" "[]"]
  by (auto simp: run_contract_def split: prod.splits)

subsection \<open>Where a result comes from\<close>

datatype origin =
  Refused host string
| Spent host rat rat
| Settled host jsval
| Classified host host_signals host_error

fun origin_result :: "vm_limits \<Rightarrow> jsval \<Rightarrow> origin \<Rightarrow> result res" where
  "origin_result l opts (Refused h t) = Inr (errorResult (gas h) (coll h) (''error: '' @ t) None)"
| "origin_result l opts (Spent h u c) = Inr (gas_result (gas h) (coll h) u c)"
| "origin_result l opts (Settled h raw) = Inr (settle opts h raw)"
| "origin_result l opts (Classified h sg err) = classifyError l opts h (Some sg) err"

fun origin_host :: "origin \<Rightarrow> host" where
  "origin_host (Refused h t) = h"
| "origin_host (Spent h u c) = h"
| "origin_host (Settled h raw) = h"
| "origin_host (Classified h sg err) = h"

text \<open>A refusal happens before the contract ran, within the ceiling.\<close>

fun origin_ok :: "origin \<Rightarrow> bool" where
  "origin_ok (Refused h t) = (used (gas h) \<le> ceiling (gas h))"
| "origin_ok _ = True"

definition comes_from :: "vm \<Rightarrow> jsval \<Rightarrow> host \<Rightarrow> result \<Rightarrow> origin \<Rightarrow> bool" where
  "comes_from m opts h r og \<longleftrightarrow>
     origin_result (limits m) opts og = Inr r \<and> grows h (origin_host og) \<and> origin_ok og
     \<and> (valid_actions (coll h) \<longrightarrow> valid_actions (coll (origin_host og)))"

lemma charge_op_host:
  "charge_op a h = (r, h') \<Longrightarrow> coll h' = coll h \<and> grows h h' \<and> (r = Inr () \<longrightarrow> used (gas h') \<le> ceiling (gas h'))"
  using steady_charge [of a] charge_ok_used [of "gas h" a "()"] charge_frame(2) [of "gas h" a]
  by (auto simp: steady_def charge_op_def split: prod.splits)

lemma checkExecLint_cases:
  assumes "checkExecLint s v b opts cs cb ch coin ht c h = (r, c', h')" "used (gas h) \<le> ceiling (gas h)"
  shows "grows h h' \<and> coll h' = coll h
     \<and> (\<forall>x. r = Inr x \<longrightarrow> (case x of
            None \<Rightarrow> used (gas h') \<le> ceiling (gas h')
          | Some res \<Rightarrow> (\<exists>u cl. res = gas_result (gas h') (coll h') u cl)
              \<or> (used (gas h') \<le> ceiling (gas h')
                 \<and> (\<exists>t. res = errorResult (gas h') (coll h') (''error: '' @ t) None))))"
proof -
  obtain r1 h1 where ch: "charge_op (lint_charge h cb) h = (r1, h1)" by fastforce
  note g = charge_op_host [OF ch]
  have pre: "''error: banned syntax: '' @ e = ''error: '' @ (''banned syntax: '' @ e)" for e by simp
  show ?thesis
  proof (cases "isExecLintActive (net_of opts) coin ht")
    case False
    with assms show ?thesis by (auto simp: checkExecLint_def)
  next
    case True
    show ?thesis
    proof (cases r1)
      case (Inl e)
      with True ch assms(1) g show ?thesis
        by (cases e) (fastforce simp: checkExecLint_def)+
    next
      case (Inr u)
      obtain v2 c2 where gv: "getLintVerdict s v b cs (lint_flags_at opts coin ht) ch c = (v2, c2)" by fastforce
      show ?thesis
      proof (cases v2)
        case (Inl e)
        with Inr True ch gv assms(1) g show ?thesis by (auto simp: checkExecLint_def)
      next
        case v: (Inr verdict)
        with Inr True ch gv assms(1) g show ?thesis
          by (cases verdict) (auto simp: checkExecLint_def lint_verdict_result_def pre)
      qed
    qed
  qed
qed

lemma meter_step_refused:
  "meter_step k m opts h = (Inr (Inl res), m') \<Longrightarrow>
     \<exists>t. res = errorResult (gas h) (coll h) (''error: '' @ t) None"
  unfolding meter_step_def
  by (auto split: prod.splits sum.splits if_splits intro!: exI [of _ "''metering failed: '' @ t" for t])

lemma compile_step_refused:
  "compile_step k m opts h src = (Inr (Some res), m') \<Longrightarrow>
     \<exists>t. res = errorResult (gas h) (coll h) (''error: '' @ t) None"
  unfolding compile_step_def
  by (auto split: prod.splits sum.splits if_splits option.splits
      intro!: exI [of _ "''compilation failed: '' @ t" for t])

lemma step_limits [simp]:
  "meter_step k m opts h = (x, m') \<Longrightarrow> limits m' = limits m"
  "compile_step k m opts h src = (y, m') \<Longrightarrow> limits m' = limits m"
  "lint_step k m opts h = (z, m', h') \<Longrightarrow> limits m' = limits m"
  by (auto simp: meter_step_def compile_step_def lint_step_def store_compiled_def Let_def
      split: prod.splits sum.splits if_splits option.splits)

lemma run_and_settle_origin:
  "(case run_and_settle k m opts rd src h of
      Inr r \<Rightarrow> \<exists>og. comes_from m opts h r og
    | Inl (err, h', sg) \<Rightarrow> grows h h' \<and> (valid_actions (coll h) \<longrightarrow> valid_actions (coll h')))"
proof -
  obtain o1 tr h' where rc: "run_contract k opts rd src h = (o1, tr, h')" by (metis prod_cases3)
  note g = run_contract_grows [OF rc] run_contract_valid [OF rc]
  show ?thesis
  proof (cases o1)
    case (Inr raw)
    with rc g show ?thesis
      by (auto simp: run_and_settle_def comes_from_def intro!: exI [of _ "Settled h' raw"])
  next
    case (Inl err)
    let ?sg = "run_signals (start_signals m opts) (observed k tr)"
    show ?thesis
    proof (cases "classifyError (limits m) opts h' (Some ?sg) err")
      case (Inl e)
      with \<open>o1 = Inl err\<close> rc g show ?thesis by (simp add: run_and_settle_def Let_def)
    next
      case (Inr r)
      with \<open>o1 = Inl err\<close> rc g show ?thesis
        by (auto simp: run_and_settle_def Let_def comes_from_def intro!: exI [of _ "Classified h' ?sg err"])
    qed
  qed
qed

lemma comes_from_refused:
  "used (gas h) \<le> ceiling (gas h) \<Longrightarrow> comes_from m opts h (errorResult (gas h) (coll h) (''error: '' @ t) None) (Refused h t)"
  by (simp add: comes_from_def)

lemma guarded_origin:
  assumes "used (gas h) \<le> ceiling (gas h)"
  shows "(case guarded k m opts h of
      (Inr r, m') \<Rightarrow> \<exists>og. comes_from m opts h r og
    | (Inl (err, h', sg), m') \<Rightarrow> grows h h' \<and> (valid_actions (coll h) \<longrightarrow> valid_actions (coll h')))"
proof (cases "setup_isolate k m opts")
  case (Inl e)
  then show ?thesis by (simp add: guarded_def Let_def)
next
  case rd: (Inr rd)
  obtain x m1 where ms: "meter_step k m opts h = (x, m1)" by fastforce
  consider (bad) e where "x = Inl e" | (refused) res where "x = Inr (Inl res)" | (ok) src where "x = Inr (Inr src)"
    by (metis sum.exhaust)
  then show ?thesis
  proof cases
    case bad
    with rd ms show ?thesis by (simp add: guarded_def Let_def)
  next
    case refused
    from meter_step_refused [OF ms [unfolded refused]] obtain t where
      "res = errorResult (gas h) (coll h) (''error: '' @ t) None" ..
    with comes_from_refused [OF assms, of m opts t] refused rd ms show ?thesis
      by (auto simp: guarded_def Let_def)
  next
    case ok
    let ?src = "buildContractSource (wrapper_text k) (wrapper_hardened_text k) opts src (hardened opts)"
    obtain y m2 where cs: "compile_step k m1 opts h ?src = (y, m2)" by fastforce
    consider (bad) e where "y = Inl e" | (refused) res where "y = Inr (Some res)" | (ok) "y = Inr None"
      by (metis sum.exhaust option.exhaust)
    then show ?thesis
    proof cases
      case bad
      with ok rd ms cs show ?thesis by (simp add: guarded_def Let_def)
    next
      case refused
      from compile_step_refused [OF cs [unfolded refused]] obtain t where
        "res = errorResult (gas h) (coll h) (''error: '' @ t) None" ..
      with comes_from_refused [OF assms, of m opts t] refused ok rd ms cs show ?thesis
        by (auto simp: guarded_def Let_def)
    next
      case 3: ok
      have lim: "limits m2 = limits m" using ms cs by simp
      from run_and_settle_origin [where k = k and m = m2 and opts = opts and rd = rd and src = ?src and h = h] show ?thesis
        using 3 ok rd ms cs lim
        by (cases "run_and_settle k m2 opts rd ?src h") (auto simp: guarded_def Let_def comes_from_def)
    qed
  qed
qed

text \<open>Every result of an execution has an origin, on a host grown from the one it started with.\<close>

lemma execute_origin:
  assumes ex: "execute k opts m = (Inr r, m')" and new: "new_execution m opts = Inr h"
    and c: "0 \<le> ceiling (gas h)"
  shows "\<exists>og. comes_from m opts h r og"
proof -
  have u: "used (gas h) \<le> ceiling (gas h)" using new_execution_ok(1) [OF new] c by simp
  show ?thesis
  proof (cases "maxCodeSize (limits m) < int (length (code_of opts))")
    case True
    let ?t = "''code size exceeds limit ('' @ int_text (maxCodeSize (limits m)) @ '' bytes)''"
    from True new ex have "r = errorResult (gas h) (coll h) (''error: '' @ ?t) None"
      by (auto simp: execute_def)
    with comes_from_refused [OF u, of m opts ?t] show ?thesis by blast
  next
    case small: False
    obtain l m1 h1 where ls: "lint_step k m opts h = (l, m1, h1)" by (metis prod_cases3)
    have lim: "limits m1 = limits m" using ls by simp
    from ls obtain lr where lr: "checkExecLint (sha k) (check_syntax k) (maxMeteredCacheSize m) opts (code_of opts)
        (length (code_of opts)) (Some (sha k (code_of opts))) (coin_of opts) (block_number opts ''height'')
        (lintVerdictCache m) h = (lr, lintVerdictCache m1, h1)"
      and le: "l = hostSetupStep ''checkExecLint'' lr (isHostFaultHaltActive (net_of opts) (coin_of opts) (block_number opts ''height''))"
      by (auto simp: lint_step_def Let_def split: prod.splits)
    note ck = checkExecLint_cases [OF lr u]
    have lrx: "lr = Inr x" if "l = Inr x" for x
      using le that by (auto simp: hostSetupStep_def split: sum.splits if_splits exn.splits)
    from ck have g1: "grows h h1" and c1: "coll h1 = coll h" by blast+
    consider (bad) e where "l = Inl e" | (refused) res where "l = Inr (Some res)" | (ok) "l = Inr None"
      by (metis sum.exhaust option.exhaust)
    then show ?thesis
    proof cases
      case bad
      with new small ls ex show ?thesis by (simp add: execute_def)
    next
      case refused
      from new small ls ex refused have r: "r = res" by (simp add: execute_def)
      from ck lrx [OF refused] consider (s) u cl where "res = gas_result (gas h1) (coll h1) u cl"
        | (e) t where "used (gas h1) \<le> ceiling (gas h1)" "res = errorResult (gas h1) (coll h1) (''error: '' @ t) None"
        by auto
      then show ?thesis
      proof cases
        case s
        with r g1 c1 show ?thesis by (intro exI [of _ "Spent h1 u cl"]) (simp add: comes_from_def)
      next
        case e
        with r g1 c1 show ?thesis by (intro exI [of _ "Refused h1 t"]) (simp add: comes_from_def)
      qed
    next
      case ok
      from ck lrx [OF ok] have u1: "used (gas h1) \<le> ceiling (gas h1)" by auto
      obtain y m2 where gd: "guarded k m1 opts h1 = (y, m2)" by fastforce
      note go = guarded_origin [OF u1, where k = k and m = m1 and opts = opts, unfolded gd]
      show ?thesis
      proof (cases y)
        case (Inr r')
        with new small ls ok ex gd have "r' = r" by (simp add: execute_def)
        with go Inr obtain og where "comes_from m1 opts h1 r og" by auto
        with g1 c1 lim show ?thesis by (auto simp: comes_from_def intro: grows_trans)
      next
        case (Inl f)
        obtain err h2 sg where f: "f = (err, h2, sg)" by (metis prod_cases3)
        with new small ls ok ex gd Inl have "classifyError (limits m) opts h2 (Some sg) err = Inr r"
          by (simp add: execute_def)
        moreover from go Inl f have "grows h1 h2" "valid_actions (coll h1) \<longrightarrow> valid_actions (coll h2)" by auto
        ultimately show ?thesis using g1 c1
          by (intro exI [of _ "Classified h2 sg err"]) (auto simp: comes_from_def intro: grows_trans)
      qed
    qed
  qed
qed

subsection \<open>Gas and atomicity\<close>

text \<open>The two readings of the height agree at the exhaustion gate.\<close>

lemma num_of_idem: "num_of (JNum (num_of v)) = num_of v"
  by simp

lemma exhaustion_gate_readings:
  "isGasCeilingExhaustedActive (net_of opts) (coin_of opts) (block_number opts ''height'') = exhausted_gate opts"
  by (simp add: exhausted_gate_def isGasCeilingExhaustedActive_def resolveRegtestGenesisHeightGate_def
      block_number_def block_raw_def Let_def)

lemma effectiveCeiling_nonneg: "0 \<le> c \<Longrightarrow> 0 \<le> effectiveCeiling v c \<and> effectiveCeiling v c \<le> c"
  by (cases "(v, c)" rule: effectiveCeiling.cases) auto

lemma gas_result_simps [simp]:
  "gasUsed (gas_result tr c u cl) = ceiling tr" "success (gas_result tr c u cl) = False"
  by (simp_all add: gas_result_def)

lemma settle_gas:
  assumes "gas_inv (gas h)" "exhausted_gate opts" "0 \<le> ceiling (gas h)"
  shows "0 \<le> gasUsed (settle opts h raw) \<and> gasUsed (settle opts h raw) \<le> ceiling (gas h)"
proof (cases "exhausted (gas h)")
  case True
  with assms(2,3) show ?thesis
    by (simp add: settle_def swallowed_exhaustion_def exhaustion_gate_readings)
next
  case False
  with assms(1) have "0 \<le> used (gas h)" "used (gas h) \<le> ceiling (gas h)" by (simp_all add: gas_inv_def)
  with False show ?thesis
    by (simp add: settle_def swallowed_exhaustion_def getUsed_def split: sum.split)
qed

lemma origin_gas:
  assumes "comes_from m opts h r og" "gas_inv (gas h)" "0 \<le> ceiling (gas h)" "exhausted_gate opts"
  shows "0 \<le> gasUsed r \<and> gasUsed r \<le> ceiling (gas h)"
proof -
  from assms(1) have o: "origin_result (limits m) opts og = Inr r" "grows h (origin_host og)" "origin_ok og"
    by (simp_all add: comes_from_def)
  note g = growsD [OF o(2) assms(2)]
  show ?thesis
  proof (cases og)
    case (Refused h' t)
    with o g assms(3) show ?thesis by auto
  next
    case (Spent h' u c)
    with o g assms(3) show ?thesis by auto
  next
    case (Settled h' raw)
    with o g settle_gas [of h' opts raw] assms(3,4) show ?thesis by auto
  next
    case (Classified h' sg err)
    with o have "classifyError (limits m) opts h' (Some sg) err = Inr r" by simp
    from classified_gas [OF this assms(4)] g Classified assms(3) show ?thesis by simp
  qed
qed

lemma execute_started:
  "execute k opts m = (Inr r, m') \<Longrightarrow> \<exists>h. new_execution m opts = Inr h"
  by (cases "new_execution m opts") (auto simp: execute_def)

lemma execute_gas:
  assumes "execute k opts m = (Inr r, m')" "0 \<le> gasCeiling m" "exhausted_gate opts"
  shows "0 \<le> gasUsed r \<and> gasUsed r \<le> effectiveCeiling (opt opts ''gasCeiling'') (gasCeiling m)
     \<and> gasUsed r \<le> gasCeiling m"
proof -
  from execute_started [OF assms(1)] obtain h where h: "new_execution m opts = Inr h" ..
  note e = effectiveCeiling_nonneg [OF assms(2), of "opt opts ''gasCeiling''"]
  have c: "0 \<le> ceiling (gas h)" using new_execution_ok(2) [OF h] e by simp
  from execute_origin [OF assms(1) h c] obtain og where "comes_from m opts h r og" ..
  from origin_gas [OF this new_execution_gas_inv [OF h c] c assms(3)] new_execution_ok(2) [OF h] e
  show ?thesis by auto
qed

text \<open>C18. Nobody is billed beyond the budget: past the exhaustion height every result of every execution,
  whatever the contract does with the errors it causes and whatever refuses or stops it, reports a
  gas total between zero and the ceiling of that call, and never above the configured ceiling.\<close>

theorem executed_gas_within_ceiling:
  assumes "execute k opts m = (Inr r, m')" "0 \<le> gasCeiling m" "exhausted_gate opts"
  shows "0 \<le> gasUsed r \<and> gasUsed r \<le> effectiveCeiling (opt opts ''gasCeiling'') (gasCeiling m)
     \<and> gasUsed r \<le> gasCeiling m"
  by (rule execute_gas [OF assms])

theorem executed_gas_within_ceiling_witness:
  "\<exists>r m'. execute (demo_machine True) demo_opts demo_vm = (Inr r, m') \<and> 0 \<le> gasUsed r \<and> gasUsed r \<le> 25"
proof -
  obtain m' where x: "execute (demo_machine True) demo_opts demo_vm = (Inr demo_result, m')"
    using demo_execution by blast
  have "exhausted_gate demo_opts"
    by (simp add: exhausted_gate_def isGasCeilingExhaustedActive_def)
  from executed_gas_within_ceiling [OF x _ this] x show ?thesis by (simp add: demo_vm_def)
qed

lemma refused_failure: "failure_shape h (errorResult (gas h) (coll h) (''error: '' @ t) g)"
  by (simp add: failure_shape_def STATUS_ERROR_PREFIXES_def)

lemma gas_result_failure: "failure_shape h (gas_result (gas h) (coll h) u c)"
  unfolding gas_result_verdict by (rule verdict_failure) 

lemma settle_shape: "success (settle opts h raw) \<or> failure_shape h (settle opts h raw)"
proof -
  have pre: "''error: invalid emission: '' @ t = ''error: '' @ (''invalid emission: '' @ t)" for t by simp
  show ?thesis
    unfolding settle_def pre using refused_failure gas_result_failure by (simp split: sum.split)
qed

lemma origin_shape:
  assumes "comes_from m opts h r og"
  shows "success r \<or> (\<exists>h'. grows h h' \<and> failure_shape h' r)"
proof -
  from assms have o: "origin_result (limits m) opts og = Inr r" "grows h (origin_host og)"
    by (simp_all add: comes_from_def)
  show ?thesis
  proof (cases og)
    case (Refused h' t)
    with o refused_failure [of h' t None] show ?thesis by auto
  next
    case (Spent h' u c)
    with o gas_result_failure [of h' u c] show ?thesis by auto
  next
    case (Settled h' raw)
    with o settle_shape [of opts h' raw] show ?thesis by auto
  next
    case (Classified h' sg err)
    with o classified_failure [of "limits m" opts h' "Some sg" err r] show ?thesis by auto
  qed
qed

text \<open>C17. Every failed execution is atomic: a result that is not a success commits no write, no delete,
  no action and no return value, bears an error whose first word is one of the frozen status
  prefixes, and its logs are within the cap of one hundred.\<close>

theorem executed_failures_are_atomic:
  assumes "execute k opts m = (Inr r, m')" "0 \<le> gasCeiling m" "\<not> success r"
  shows "stateChanges r = [] \<and> stateDeletes r = [] \<and> emittedActions r = [] \<and> returnValue r = None
     \<and> length (result_logs r) \<le> 100
     \<and> (\<exists>p \<in> set STATUS_ERROR_PREFIXES. \<exists>t. error_msg r = Some (p @ '':'' @ t))"
proof -
  from execute_started [OF assms(1)] obtain h where h: "new_execution m opts = Inr h" ..
  have c: "0 \<le> ceiling (gas h)" using new_execution_ok(2) [OF h] effectiveCeiling_nonneg [OF assms(2)] by simp
  from execute_origin [OF assms(1) h c] obtain og where "comes_from m opts h r og" ..
  from origin_shape [OF this] assms(3) obtain h' where g: "grows h h'" and f: "failure_shape h' r" by blast
  from g new_execution_ok(8) [OF h] have "length (logs (coll h')) \<le> 100"
    by (simp add: grows_def collector_inv_def)
  with f show ?thesis by (simp add: failure_shape_def)
qed

theorem executed_failures_are_atomic_witness:
  "\<exists>r m'. execute (demo_machine False) demo_opts demo_vm = (Inr r, m') \<and> emittedActions r = []"
proof -
  obtain r m' where x: "execute (demo_machine False) demo_opts demo_vm = (Inr r, m')" and f: "\<not> success r"
    using demo_failure by blast
  from executed_failures_are_atomic [OF x _ f] x show ?thesis by (simp add: demo_vm_def)
qed

subsection \<open>Success\<close>

lemma errorResult_fails [simp]: "success (errorResult tr c t g) = False"
  by simp

lemma checkExecLint_frame:
  "checkExecLint s v b opts cs cb d coin ht c h = (r, c', h') \<Longrightarrow> kv h' = kv h \<and> coll h' = coll h"
  by (auto simp: checkExecLint_def charge_op_def split: prod.splits sum.splits exn.splits if_splits)

lemma lint_step_frame:
  "lint_step k m opts h = (r, m', h') \<Longrightarrow> kv h' = kv h \<and> coll h' = coll h"
  by (auto simp: lint_step_def Let_def split: prod.splits dest: checkExecLint_frame)

lemma lint_step_grows: "lint_step k m opts h = (r, m', h') \<Longrightarrow> grows h h'"
  by (auto simp: lint_step_def Let_def split: prod.splits) (metis checkExecLint_grows snd_conv)

lemma guarded_success:
  assumes "guarded k m opts h = (Inr r, m')" "success r"
  shows "\<exists>rd src raw tr h'. run_contract k opts rd src h = (Inr raw, tr, h') \<and> r = settle opts h' raw"
proof -
  from assms obtain rd where rd: "setup_isolate k m opts = Inr rd"
    by (cases "setup_isolate k m opts") (auto simp: guarded_def Let_def)
  obtain x m1 where ms: "meter_step k m opts h = (x, m1)" by fastforce
  from assms rd ms meter_step_refused [of k m opts h _ m1] obtain src0 where x: "x = Inr (Inr src0)"
    by (cases x rule: sum.exhaust; cases "projr x") (fastforce simp: guarded_def Let_def)+
  let ?src = "buildContractSource (wrapper_text k) (wrapper_hardened_text k) opts src0 (hardened opts)"
  obtain y m2 where cs: "compile_step k m1 opts h ?src = (y, m2)" by fastforce
  from assms rd ms x cs compile_step_refused [of k m1 opts h ?src _ m2] have y: "y = Inr None"
    by (cases y; cases "projr y") (fastforce simp: guarded_def Let_def)+
  from assms rd ms x cs y have rs: "run_and_settle k m2 opts rd ?src h = Inr r"
    by (auto simp: guarded_def Let_def)
  obtain o1 tr h' where rc: "run_contract k opts rd ?src h = (o1, tr, h')" by (metis prod_cases3)
  show ?thesis
  proof (cases o1)
    case (Inl err)
    with rs rc have "\<exists>sg. classifyError (limits m2) opts h' (Some sg) err = Inr r"
      by (auto simp: run_and_settle_def Let_def split: sum.splits)
    then have "failure_shape h' r" using classified_failure by blast
    with assms(2) show ?thesis by (simp add: failure_shape_def)
  next
    case (Inr raw)
    with rs rc have "r = settle opts h' raw" by (simp add: run_and_settle_def)
    with rc Inr show ?thesis by blast
  qed
qed

lemma execute_success:
  assumes "execute k opts m = (Inr r, m')" "success r"
  shows "\<exists>h h1 rd src raw tr h'. new_execution m opts = Inr h \<and> kv h1 = kv h \<and> coll h1 = coll h \<and> grows h h1
     \<and> run_contract k opts rd src h1 = (Inr raw, tr, h') \<and> r = settle opts h' raw"
proof -
  from execute_started [OF assms(1)] obtain h where h: "new_execution m opts = Inr h" ..
  from assms h have small: "\<not> maxCodeSize (limits m) < int (length (code_of opts))"
    by (auto simp: execute_def)
  obtain l m1 h1 where ls: "lint_step k m opts h = (l, m1, h1)" by (metis prod_cases3)
  note fr = lint_step_frame [OF ls] lint_step_grows [OF ls]
  have "l = Inr None"
  proof (cases l)
    case (Inl e)
    with assms h small ls show ?thesis by (simp add: execute_def)
  next
    case (Inr x)
    show ?thesis
    proof (cases x)
      case (Some res)
      with assms h small ls Inr have "success res" by (auto simp: execute_def)
      moreover from ls Inr Some have "\<exists>c. checkExecLint (sha k) (check_syntax k) (maxMeteredCacheSize m) opts (code_of opts)
        (length (code_of opts)) (Some (sha k (code_of opts))) (coin_of opts) (block_number opts ''height'')
        (lintVerdictCache m) h = (Inr (Some res), c, h1)"
        by (auto simp: lint_step_def Let_def hostSetupStep_def split: prod.splits sum.splits if_splits exn.splits)
      ultimately show ?thesis
        by (auto simp: checkExecLint_def lint_verdict_result_def split: prod.splits sum.splits exn.splits
            if_splits option.splits)
    qed (simp add: Inr)
  qed
  then obtain y m2 where gd: "guarded k m1 opts h1 = (y, m2)" and l: "l = Inr None" by fastforce
  have "y = Inr r"
  proof (cases y)
    case (Inl f)
    obtain err h2 sg where "f = (err, h2, sg)" by (metis prod_cases3)
    with assms h small ls l gd Inl have "classifyError (limits m) opts h2 (Some sg) err = Inr r"
      by (auto simp: execute_def)
    from classified_failure [OF this] assms(2) show ?thesis by (simp add: failure_shape_def)
  next
    case (Inr r')
    with assms h small ls l gd show ?thesis by (auto simp: execute_def)
  qed
  with guarded_success [OF _ assms(2), of k m1 opts h1 m2] gd h fr show ?thesis by blast
qed



end
