(* ===== verification/Replicas.thy ===== *)
theory Replicas
  imports PipelineProps
begin

text \<open>
  Two nodes that execute the same call: whatever faults one host has, whatever its caches remember,
  if both commit a result it is the same result.
\<close>

subsection \<open>Faults of one host\<close>

definition faulty :: "(exn, 'a) sum \<Rightarrow> bool" where
  "faulty r \<longleftrightarrow> (\<exists>m. r = Inl (HostFaultError m))"

definition agree :: "(exn, 'a) sum \<Rightarrow> (exn, 'a) sum \<Rightarrow> bool" where
  "agree x y \<longleftrightarrow> x = y \<or> faulty x \<or> faulty y"

lemma agree_refl [intro, simp]: "agree x x"
  by (simp add: agree_def)

lemma agree_bind: "agree x y \<Longrightarrow> (\<And>a. agree (f a) (g a)) \<Longrightarrow> agree (rbind x f) (rbind y g)"
  by (cases x; cases y) (auto simp: agree_def faulty_def)

lemma agree_all: "(\<And>a. agree (f a) (g a)) \<Longrightarrow> agree (check_all f xs) (check_all g xs)"
  by (induction xs) (auto intro: agree_bind)

subsection \<open>An execution, its lookups answered\<close>

text \<open>The result of an execution depends on the caches only through the answers of the two lookups:
  what the lint verdict is and what the metered source is.\<close>

definition meter_out :: "jsval \<Rightarrow> host \<Rightarrow> (host_error, string) sum \<Rightarrow> (exn, result + string) sum" where
  "meter_out opts h r = (case r of
     Inr metered \<Rightarrow> Inr (Inr metered)
   | Inl e \<Rightarrow> (if overflow_is_host_fault opts \<and> isHostStackOverflow e
       then Inl (HostFaultError (''metering stack overflow: '' @ host_message e))
       else Inr (Inl (errorResult (gas h) (coll h) (''error: metering failed: '' @ host_message e) None))))"

definition guarded_out ::
  "'n machine \<Rightarrow> vm \<Rightarrow> jsval \<Rightarrow> host \<Rightarrow> (host_error, string) sum \<Rightarrow> (fault, result) sum" where
  "guarded_out k m opts h metering =
     (let thrown = (\<lambda>e. Inl (host_error_of e, h, start_signals m opts)) in
      case setup_isolate k m opts of
        Inl e \<Rightarrow> thrown e
      | Inr rd \<Rightarrow> (case meter_out opts h metering of
          Inl e \<Rightarrow> thrown e
        | Inr (Inl refused) \<Rightarrow> Inr refused
        | Inr (Inr metered) \<Rightarrow>
            (let source = buildContractSource (wrapper_text k) (wrapper_hardened_text k) opts metered (hardened opts) in
             case fst (compile_step k m opts h source) of
               Inl e \<Rightarrow> thrown e
             | Inr (Some refused) \<Rightarrow> Inr refused
             | Inr None \<Rightarrow> run_and_settle k m opts rd source h)))"

definition metered_answer :: "'n machine \<Rightarrow> vm \<Rightarrow> jsval \<Rightarrow> (host_error, string) sum" where
  "metered_answer k m opts = fst (getMeteredCode (sha k) (meter_code k) (maxMeteredCacheSize m) (code_of opts)
     (meter_flags_at opts) (Some (sha k (code_of opts))) (meteredCache m))"

lemma start_signals_limits: "limits m = limits m' \<Longrightarrow> start_signals m opts = start_signals m' opts"
  by (simp add: start_signals_def)

lemma setup_isolate_limits: "limits m = limits m' \<Longrightarrow> setup_isolate k m opts = setup_isolate k m' opts"
  by (simp add: setup_isolate_def)

lemma run_and_settle_limits: "limits m = limits m' \<Longrightarrow> run_and_settle k m opts rd src h = run_and_settle k m' opts rd src h"
  using start_signals_limits [of m m' opts] by (auto simp: run_and_settle_def Let_def split: prod.split sum.split)

lemma compile_step_vm: "fst (compile_step k m opts h src) = fst (compile_step k m' opts h src)"
  by (simp add: compile_step_def split: sum.split option.split)

lemma guarded_out_limits: "limits m = limits m' \<Longrightarrow> guarded_out k m opts h r = guarded_out k m' opts h r"
  using start_signals_limits [of m m' opts] setup_isolate_limits [of m m' k opts]
    run_and_settle_limits [of m m' k opts] compile_step_vm [of k m opts h _ m']
  by (auto simp: guarded_out_def Let_def split: sum.split option.split)

lemma meter_step_fst: "fst (meter_step k m opts h) = meter_out opts h (metered_answer k m opts)"
  by (simp add: meter_step_def meter_out_def metered_answer_def split: prod.split sum.split)

lemma guarded_fst: "fst (guarded k m opts h) = guarded_out k m opts h (metered_answer k m opts)"
proof -
  obtain x m1 where ms: "meter_step k m opts h = (x, m1)" by fastforce
  then have x: "meter_out opts h (metered_answer k m opts) = x" using meter_step_fst [of k m opts h] by simp
  have l1: "limits m1 = limits m" using ms by simp
  have fin: "fst (case compile_step k m1 opts h src of (Inl e, m2) \<Rightarrow> (t e, m2) | (Inr (Some r), m2) \<Rightarrow> (Inr r, m2)
        | (Inr None, m2) \<Rightarrow> (run_and_settle k m2 opts rd src h, m2))
      = (case fst (compile_step k m opts h src) of Inl e \<Rightarrow> t e | Inr (Some r) \<Rightarrow> Inr r
        | Inr None \<Rightarrow> run_and_settle k m opts rd src h)" for t rd src
  proof -
    obtain y m2 where cs: "compile_step k m1 opts h src = (y, m2)" by fastforce
    then have "limits m2 = limits m" using l1 by simp
    with cs compile_step_vm [of k m opts h src m1] run_and_settle_limits [of m2 m k opts rd src h]
    show ?thesis by (cases y; cases "projr y") (auto split: option.split)
  qed
  show ?thesis unfolding guarded_def guarded_out_def Let_def ms x prod.case
    by (cases "setup_isolate k m opts"; cases x; cases "projr x") (auto simp: fin)
qed


text \<open>An execution whose two lookups answer \<open>metering\<close> and \<open>verdict\<close>.\<close>

definition lint_answer :: "'n machine \<Rightarrow> vm \<Rightarrow> jsval \<Rightarrow> lint_verdict res" where
  "lint_answer k m opts = fst (getLintVerdict (sha k) (check_syntax k) (maxMeteredCacheSize m) (code_of opts)
     (lint_flags_at opts (coin_of opts) (block_number opts ''height'')) (Some (sha k (code_of opts))) (lintVerdictCache m))"

definition lint_out :: "jsval \<Rightarrow> host \<Rightarrow> lint_verdict res \<Rightarrow> result option res \<times> host" where
  "lint_out opts h verdict =
     (let coin = coin_of opts; height = block_number opts ''height'';
          halt = isHostFaultHaltActive (net_of opts) coin height in
      if \<not> isExecLintActive (net_of opts) coin height then (Inr None, h)
      else (case charge_op (lint_charge h (length (code_of opts))) h of
        (Inl (GasExhaustedError u cl), h') \<Rightarrow> (Inr (Some (gas_result (gas h') (coll h') u cl)), h')
      | (Inl e, h') \<Rightarrow> (hostSetupStep ''checkExecLint'' (Inl e) halt, h')
      | (Inr _, h') \<Rightarrow> (hostSetupStep ''checkExecLint'' (rbind verdict (\<lambda>v. Inr (lint_verdict_result h' v))) halt, h')))"

lemma lint_step_out:
  "(fst (lint_step k m opts h), snd (snd (lint_step k m opts h))) = lint_out opts h (lint_answer k m opts)"
proof -
  obtain r h' where c: "charge_op (lint_charge h (length (code_of opts))) h = (r, h')" by fastforce
  obtain v c' where v: "getLintVerdict (sha k) (check_syntax k) (maxMeteredCacheSize m) (code_of opts)
     (lint_flags_at opts (coin_of opts) (block_number opts ''height'')) (Some (sha k (code_of opts))) (lintVerdictCache m) = (v, c')"
    by fastforce
  show ?thesis
    by (cases r; cases "projl r"; cases v)
      (auto simp: lint_step_def lint_out_def lint_answer_def Let_def checkExecLint_def hostSetupStep_def c v)
qed

definition execute_out ::
  "'n machine \<Rightarrow> jsval \<Rightarrow> vm \<Rightarrow> lint_verdict res \<Rightarrow> (host_error, string) sum \<Rightarrow> result res" where
  "execute_out k opts m verdict metering =
     rbind (new_execution m opts) (\<lambda>h.
      if maxCodeSize (limits m) < int (length (code_of opts))
      then Inr (errorResult (gas h) (coll h)
             (''error: code size exceeds limit ('' @ int_text (maxCodeSize (limits m)) @ '' bytes)'') None)
      else (case lint_out opts h verdict of
          (Inl e, h1) \<Rightarrow> Inl e
        | (Inr (Some refused), h1) \<Rightarrow> Inr refused
        | (Inr None, h1) \<Rightarrow>
            (case guarded_out k m opts h1 metering of
               Inr r \<Rightarrow> Inr r
             | Inl (err, h2, sg) \<Rightarrow> classifyError (limits m) opts h2 (Some sg) err)))"

lemma execute_fst: "fst (execute k opts m) = execute_out k opts m (lint_answer k m opts) (metered_answer k m opts)"
proof (cases "new_execution m opts")
  case (Inr h)
  obtain l m1 h1 where ls: "lint_step k m opts h = (l, m1, h1)" by (metis prod_cases3)
  then have lo: "lint_out opts h (lint_answer k m opts) = (l, h1)" using lint_step_out [of k m opts h] by simp
  have l1: "limits m1 = limits m" using ls by simp
  have "metered_answer k m1 opts = metered_answer k m opts"
    using ls by (auto simp: metered_answer_def lint_step_def Let_def split: prod.splits)
  with guarded_fst [of k m1 opts h1] guarded_out_limits [OF l1, of k opts h1]
  have g: "fst (guarded k m1 opts h1) = guarded_out k m opts h1 (metered_answer k m opts)" by simp
  obtain y m2 where gd: "guarded k m1 opts h1 = (y, m2)" by fastforce
  with g have y: "guarded_out k m opts h1 (metered_answer k m opts) = y" by simp
  show ?thesis
  proof (cases l)
    case l: (Inr x)
    then show ?thesis
      by (cases x; cases y) (auto simp: execute_def execute_out_def Inr ls lo gd y)
  qed (simp add: execute_def execute_out_def Inr ls lo)
qed (simp add: execute_def execute_out_def)


subsection \<open>A warm node and a cold one\<close>

text \<open>What a node is asked along a block: the block's begin and end, and executions.\<close>

datatype node_op = Begin | End | Exec jsval

fun serve :: "'n machine \<Rightarrow> node_op list \<Rightarrow> vm \<Rightarrow> result res list" where
  "serve k [] m = []"
| "serve k (Begin # ops) m = serve k ops (beginBlock m)"
| "serve k (End # ops) m = serve k ops (endBlock m)"
| "serve k (Exec opts # ops) m = (case execute k opts m of (r, m') \<Rightarrow> r # serve k ops m')"

fun asked_execs :: "node_op list \<Rightarrow> jsval list" where
  "asked_execs [] = []"
| "asked_execs (Exec opts # ops) = opts # asked_execs ops"
| "asked_execs (_ # ops) = asked_execs ops"

definition cold :: "vm \<Rightarrow> vm" where
  "cold m = m\<lparr>meteredCache := [], lintVerdictCache := [], blockCache := None\<rparr>"

definition meter_query :: "'n machine \<Rightarrow> jsval \<Rightarrow> meter_flags cache_query" where
  "meter_query k opts = (code_of opts, meter_flags_at opts, Some (sha k (code_of opts)))"

definition lint_query :: "'n machine \<Rightarrow> jsval \<Rightarrow> lint_flags cache_query" where
  "lint_query k opts = (code_of opts, lint_flags_at opts (coin_of opts) (block_number opts ''height''),
     Some (sha k (code_of opts)))"

definition vm_sound :: "'n machine \<Rightarrow> jsval list \<Rightarrow> vm \<Rightarrow> bool" where
  "vm_sound k os m \<longleftrightarrow>
     cache_sound (\<lambda>(code, fl, d). metered_key (sha k) code fl d) (\<lambda>(code, fl, d). meter_code k code fl)
       (set (map (meter_query k) os)) (meteredCache m)
     \<and> cache_sound (\<lambda>(code, f, d). lint_key (sha k) code f d) (\<lambda>(code, f, d). check_syntax k code (syntax_opts_of f))
       (set (map (lint_query k) os)) (lintVerdictCache m)"

lemma cold_cold [simp]: "cold (cold m) = cold m"
  by (simp add: cold_def)

lemma cold_sound: "vm_sound k os (cold m)"
  by (simp add: vm_sound_def cold_def cache_sound_def)

lemma vm_sound_blocks [simp]:
  "vm_sound k os (beginBlock m) = vm_sound k os m" "vm_sound k os (endBlock m) = vm_sound k os m"
  "cold (beginBlock m) = cold m" "cold (endBlock m) = cold m"
  by (simp_all add: vm_sound_def beginBlock_def endBlock_def cold_def)

lemma honest_queries:
  assumes "inj_on (sha k) (code_of ` set os)"
  shows "honest_digests (sha k) (map (meter_query k) os)" "honest_digests (sha k) (map (lint_query k) os)"
proof -
  have "set (map fst (map (meter_query k) os)) = code_of ` set os" "set (map fst (map (lint_query k) os)) = code_of ` set os"
    by (force simp: meter_query_def lint_query_def)+
  with assms show "honest_digests (sha k) (map (meter_query k) os)" "honest_digests (sha k) (map (lint_query k) os)"
    unfolding honest_digests_def by (simp_all add: list_all_iff own_digest_def meter_query_def lint_query_def)
qed

lemma lookups_sound:
  assumes "vm_sound k os m" "opts \<in> set os" "inj_on (sha k) (code_of ` set os)"
  shows "metered_answer k m opts = meter_code k (code_of opts) (meter_flags_at opts)"
    "lint_answer k m opts = check_syntax k (code_of opts)
       (syntax_opts_of (lint_flags_at opts (coin_of opts) (block_number opts ''height'')))"
    "vm_sound k os (m\<lparr>meteredCache := snd (getMeteredCode (sha k) (meter_code k) (maxMeteredCacheSize m) (code_of opts)
       (meter_flags_at opts) (Some (sha k (code_of opts))) (meteredCache m))\<rparr>)"
    "vm_sound k os (m\<lparr>lintVerdictCache := snd (getLintVerdict (sha k) (check_syntax k) (maxMeteredCacheSize m) (code_of opts)
       (lint_flags_at opts (coin_of opts) (block_number opts ''height'')) (Some (sha k (code_of opts))) (lintVerdictCache m))\<rparr>)"
proof -
  note hq = honest_queries [OF assms(3)]
  from assms(2) have q: "meter_query k opts \<in> set (map (meter_query k) os)" "lint_query k opts \<in> set (map (lint_query k) os)"
    by simp_all
  note mc = metered.call_sound [OF conjunct1 [OF assms(1) [unfolded vm_sound_def]] q(1) metered_keyed [OF hq(1)],
      where bnd = "maxMeteredCacheSize m"]
  note lc = linted.call_sound [OF conjunct2 [OF assms(1) [unfolded vm_sound_def]] q(2) linted_keyed [OF hq(2)],
      where bnd = "maxMeteredCacheSize m"]
  from mc show "metered_answer k m opts = meter_code k (code_of opts) (meter_flags_at opts)"
    by (simp add: metered_answer_def meter_query_def)
  from lc show "lint_answer k m opts = check_syntax k (code_of opts)
       (syntax_opts_of (lint_flags_at opts (coin_of opts) (block_number opts ''height'')))"
    by (simp add: lint_answer_def lint_query_def)
  from mc assms(1) show "vm_sound k os (m\<lparr>meteredCache := snd (getMeteredCode (sha k) (meter_code k) (maxMeteredCacheSize m) (code_of opts)
       (meter_flags_at opts) (Some (sha k (code_of opts))) (meteredCache m))\<rparr>)"
    by (simp add: vm_sound_def meter_query_def [of k opts])
  from lc assms(1) show "vm_sound k os (m\<lparr>lintVerdictCache := snd (getLintVerdict (sha k) (check_syntax k) (maxMeteredCacheSize m) (code_of opts)
       (lint_flags_at opts (coin_of opts) (block_number opts ''height'')) (Some (sha k (code_of opts))) (lintVerdictCache m))\<rparr>)"
    by (simp add: vm_sound_def lint_query_def [of k opts])
qed

lemma vm_sound_block_cache [simp]:
  "vm_sound k os (m\<lparr>blockCache := b\<rparr>) = vm_sound k os m" "cold (m\<lparr>blockCache := b\<rparr>) = cold m"
  by (simp_all add: vm_sound_def cold_def)

lemma compile_step_block: "\<exists>b. snd (compile_step k m opts h src) = m\<lparr>blockCache := b\<rparr>"
proof -
  have i: "\<exists>b. m = m\<lparr>blockCache := b\<rparr>" by (rule exI [of _ "blockCache m"]) simp
  have s: "\<exists>b. store_compiled k key src m = m\<lparr>blockCache := b\<rparr>" for key
    unfolding store_compiled_def using i by (auto split: option.split simp del: vm.surjective)
  show ?thesis unfolding compile_step_def
    using i s by (cases "compile_key k opts src"; cases "compile_failure k src") (simp_all only: sum.case option.case snd_conv)
qed

lemma compile_keeps:
  "vm_sound k os (snd (compile_step k m opts h src)) = vm_sound k os m"
  "cold (snd (compile_step k m opts h src)) = cold m"
  using compile_step_block [of k m opts h src] by auto

lemma lint_step_cache:
  assumes "lint_step k m opts h = (l, m1, h1)"
  shows "m1 = m \<or> m1 = m\<lparr>lintVerdictCache := snd (getLintVerdict (sha k) (check_syntax k) (maxMeteredCacheSize m)
       (code_of opts) (lint_flags_at opts (coin_of opts) (block_number opts ''height''))
       (Some (sha k (code_of opts))) (lintVerdictCache m))\<rparr>"
proof -
  have "c' = c \<or> c' = snd (getLintVerdict s v b cs (lint_flags_at opts coin ht) d c)"
    if "checkExecLint s v b opts cs cb d coin ht c h = (r, c', h')" for s v b cs cb d coin ht c r c' h'
    using that unfolding checkExecLint_def
    by (cases "charge_op (lint_charge h cb) h"; cases "fst (charge_op (lint_charge h cb) h)")
      (auto split: if_splits prod.splits sum.splits exn.splits)
  with assms show ?thesis
    unfolding lint_step_def Let_def by (fastforce split: prod.splits)
qed

lemma guarded_keeps:
  assumes "vm_sound k os m" "opts \<in> set os" "inj_on (sha k) (code_of ` set os)"
  shows "vm_sound k os (snd (guarded k m opts h)) \<and> cold (snd (guarded k m opts h)) = cold m"
proof -
  obtain x m1 where ms: "meter_step k m opts h = (x, m1)" by fastforce
  then have "m1 = m\<lparr>meteredCache := snd (getMeteredCode (sha k) (meter_code k) (maxMeteredCacheSize m) (code_of opts)
       (meter_flags_at opts) (Some (sha k (code_of opts))) (meteredCache m))\<rparr>"
    by (auto simp: meter_step_def split: prod.splits sum.splits)
  with lookups_sound(3) [OF assms] have m1: "vm_sound k os m1" "cold m1 = cold m" by (simp_all add: cold_def)
  show ?thesis
  proof (cases "setup_isolate k m opts")
    case (Inr rd)
    show ?thesis
    proof (cases "\<exists>metered. x = Inr (Inr metered)")
      case True
      then obtain metered where x: "x = Inr (Inr metered)" ..
      define src where "src = buildContractSource (wrapper_text k) (wrapper_hardened_text k) opts metered (hardened opts)"
      obtain y m2 where cs: "compile_step k m1 opts h src = (y, m2)" by fastforce
      with compile_keeps [where k = k and m = m1 and opts = opts and h = h and src = src] m1 have "vm_sound k os m2" "cold m2 = cold m" by simp_all
      then show ?thesis
        by (auto simp: guarded_def Let_def Inr ms x src_def [symmetric] cs split: sum.split option.split)
    next
      case False
      then obtain e where "x = Inl e \<or> (\<exists>r. x = Inr (Inl r))" by (metis sum.exhaust)
      then show ?thesis using m1 by (auto simp: guarded_def Let_def Inr ms)
    qed
  qed (simp add: guarded_def Let_def assms(1))
qed

lemma execute_keeps:
  assumes "vm_sound k os m" "opts \<in> set os" "inj_on (sha k) (code_of ` set os)"
  shows "vm_sound k os (snd (execute k opts m)) \<and> cold (snd (execute k opts m)) = cold m"
proof (cases "new_execution m opts")
  case (Inr h)
  obtain l m1 h1 where ls: "lint_step k m opts h = (l, m1, h1)" by (metis prod_cases3)
  note lint_step_cache [OF ls]
  with lookups_sound(4) [OF assms] assms(1) have m1: "vm_sound k os m1" "cold m1 = cold m" by (auto simp: cold_def)
  obtain y m2 where gd: "guarded k m1 opts h1 = (y, m2)" by fastforce
  with guarded_keeps [OF m1(1) assms(2,3), of h1] m1 have "vm_sound k os m2" "cold m2 = cold m" by simp_all
  with m1 assms(1) show ?thesis
    by (auto simp: execute_def Inr ls gd split: sum.split option.split)
qed (simp add: execute_def assms(1))

lemma execute_cold:
  assumes "vm_sound k os m" "opts \<in> set os" "inj_on (sha k) (code_of ` set os)"
  shows "fst (execute k opts m) = fst (execute k opts (cold m))"
proof -
  have c: "limits (cold m) = limits m" "new_execution (cold m) opts = new_execution m opts"
    by (simp_all add: cold_def new_execution_def)
  have "execute_out k opts (cold m) v r = execute_out k opts m v r" for v r
    unfolding execute_out_def c guarded_out_limits [OF c(1)] by (rule refl)
  then show ?thesis
    by (simp only: execute_fst lookups_sound(1,2) [OF assms] lookups_sound(1,2) [OF cold_sound assms(2,3)])
qed




subsection \<open>A faulty node and a healthy one\<close>

definition gives_out :: "host_error option \<Rightarrow> bool" where
  "gives_out x \<longleftrightarrow> (\<exists>e. x = Some e \<and> isHostStackOverflow e)"

definition error_of :: "(host_error, string) sum \<Rightarrow> host_error option" where
  "error_of r = (case r of Inl e \<Rightarrow> Some e | Inr _ \<Rightarrow> None)"

text \<open>Two hosts for the same contracts: they may differ in when they fail to create an isolate or to
  set it up, and in where their native stack gives out.\<close>

definition with_faults ::
  "'n machine \<Rightarrow> string option \<Rightarrow> (string \<Rightarrow> exn option) \<Rightarrow>
   (string \<Rightarrow> meter_flags \<Rightarrow> (host_error, string) sum) \<Rightarrow> (string \<Rightarrow> host_error option) \<Rightarrow> 'n machine" where
  "with_faults k spawn setup meter parse_fails =
     k\<lparr>spawn_failure := spawn, setup_failure := setup, meter_code := meter, compile_failure := parse_fails\<rparr>"

definition stack_variants ::
  "'n machine \<Rightarrow> (string \<Rightarrow> meter_flags \<Rightarrow> (host_error, string) sum) \<Rightarrow> (string \<Rightarrow> host_error option) \<Rightarrow> bool" where
  "stack_variants k meter parse_fails \<longleftrightarrow>
     (\<forall>code fl. meter code fl = meter_code k code fl
        \<or> gives_out (error_of (meter code fl)) \<or> gives_out (error_of (meter_code k code fl)))
     \<and> (\<forall>src. parse_fails src = compile_failure k src \<or> gives_out (parse_fails src) \<or> gives_out (compile_failure k src))"

lemma with_faults_simps [simp]:
  "sha (with_faults k s u me c) = sha k" "check_syntax (with_faults k s u me c) = check_syntax k"
  "wrapper_text (with_faults k s u me c) = wrapper_text k" "worker_copy (with_faults k s u me c) = worker_copy k"
  "wrapper_hardened_text (with_faults k s u me c) = wrapper_hardened_text k"
  "meter_code (with_faults k s u me c) = me" "compile_failure (with_faults k s u me c) = c"
  "observed (with_faults k s u me c) = observed k" "run_contract (with_faults k s u me c) = run_contract k"
  by (simp_all add: with_faults_def run_contract_def run_env_def fun_eq_iff)

lemma setup_step_faulty: "setup_step k n = Inr () \<or> faulty (setup_step k n)"
  by (auto simp: setup_step_def hostSetupStep_def faulty_def split: option.split exn.split)

lemma setup_steps_faulty: "check_all (setup_step k) ns = Inr () \<or> faulty (check_all (setup_step k) ns)"
proof (induction ns)
  case (Cons n ns)
  with setup_step_faulty [of k n] show ?case by (auto simp: faulty_def)
qed simp

lemma agree_unit: "(x = Inr () \<or> faulty x) \<Longrightarrow> (y = Inr () \<or> faulty y) \<Longrightarrow> agree x y"
  by (auto simp: agree_def)

lemma setup_isolate_agree: "agree (setup_isolate k m opts) (setup_isolate (with_faults k s u me c) m opts)"
  unfolding setup_isolate_def with_faults_simps
  by (intro agree_bind agree_refl agree_unit setup_step_faulty setup_steps_faulty)
    (auto simp: faulty_def split: option.split)

definition gfault :: "(fault, 'a) sum \<Rightarrow> bool" where
  "gfault y \<longleftrightarrow> (\<exists>m h sg. y = Inl (EHostFault m, h, sg))"

lemma faulty_thrown: "faulty (Inl e :: (exn, 'a) sum) \<Longrightarrow> gfault (Inl (host_error_of e, h, sg))"
  by (auto simp: faulty_def gfault_def)

lemma meter_out_agree:
  assumes "overflow_is_host_fault opts" "r' = r \<or> gives_out (error_of r') \<or> gives_out (error_of r)"
  shows "agree (meter_out opts h r) (meter_out opts h r')"
  using assms by (auto simp: agree_def faulty_def meter_out_def gives_out_def error_of_def split: sum.splits)

lemma compile_step_agree:
  assumes "overflow_is_host_fault opts" "stack_variants k me c"
  shows "agree (fst (compile_step k m opts h src)) (fst (compile_step (with_faults k s u me c) m opts h src))"
proof -
  from assms(2) have "c src = compile_failure k src \<or> gives_out (c src) \<or> gives_out (compile_failure k src)"
    by (simp add: stack_variants_def)
  moreover have "compile_key (with_faults k s u me c) opts src = compile_key k opts src"
    by (simp add: compile_key_def)
  ultimately show ?thesis using assms(1)
    by (cases "compile_key k opts src"; cases "c src"; cases "compile_failure k src")
      (auto simp: compile_step_def agree_def faulty_def gives_out_def)
qed

lemma guarded_out_agree:
  assumes "overflow_is_host_fault opts" "stack_variants k me c"
    and "r' = r \<or> gives_out (error_of r') \<or> gives_out (error_of r)"
  shows "guarded_out k m opts h r = guarded_out (with_faults k s u me c) m opts h r'
     \<or> gfault (guarded_out k m opts h r) \<or> gfault (guarded_out (with_faults k s u me c) m opts h r')"
proof -
  let ?k = "with_faults k s u me c"
  have rs: "run_and_settle ?k m opts rd src h = run_and_settle k m opts rd src h" for rd src
    by (simp only: run_and_settle_def with_faults_simps)
  have step: "(case x of Inl e \<Rightarrow> Inl (host_error_of e, h, sg) | Inr a \<Rightarrow> f a)
        = (case x' of Inl e \<Rightarrow> Inl (host_error_of e, h, sg) | Inr a \<Rightarrow> f' a)
      \<or> gfault (case x of Inl e \<Rightarrow> Inl (host_error_of e, h, sg) | Inr a \<Rightarrow> f a)
      \<or> gfault (case x' of Inl e \<Rightarrow> Inl (host_error_of e, h, sg) | Inr a \<Rightarrow> f' a)"
    if "agree x x'" "\<And>a. f a = f' a \<or> gfault (f a) \<or> gfault (f' a)"
    for x x' :: "(exn, 'z) sum" and f f' :: "'z \<Rightarrow> (fault, result) sum" and sg
    using that by (cases x; cases x') (auto simp: agree_def faulty_def gfault_def)
  show ?thesis
    unfolding guarded_out_def Let_def with_faults_simps
  proof (rule step [OF setup_isolate_agree], rule step [OF meter_out_agree [OF assms(1,3)]], goal_cases out)
    case (out rd a)
    show ?case
    proof (cases a)
      case (Inr metered)
      show ?thesis unfolding Inr sum.case
        by (rule step [OF compile_step_agree [OF assms(1,2)]]) (simp add: rs split: option.split)
    qed simp
  qed
qed

lemma metered_answer_agree:
  assumes "stack_variants k me c"
  shows "metered_answer (with_faults k s u me c) m opts = metered_answer k m opts
     \<or> gives_out (error_of (metered_answer (with_faults k s u me c) m opts)) \<or> gives_out (error_of (metered_answer k m opts))"
proof -
  have "me (code_of opts) (meter_flags_at opts) = meter_code k (code_of opts) (meter_flags_at opts)
      \<or> gives_out (error_of (me (code_of opts) (meter_flags_at opts)))
      \<or> gives_out (error_of (meter_code k (code_of opts) (meter_flags_at opts)))"
    using assms by (simp add: stack_variants_def)
  then show ?thesis
    by (auto simp: metered_answer_def getMeteredCode_def Let_def gives_out_def error_of_def split: option.splits sum.splits)
qed



definition deep_stack :: "string \<Rightarrow> meter_flags \<Rightarrow> (host_error, string) sum" where
  "deep_stack code fl = (if code = ''deep'' then Inl (EOther True ''Maximum call stack size exceeded'')
     else meter_code (demo_machine True) code fl)"

lemma meter_only:
  "execute_out (k\<lparr>meter_code := me\<rparr>) opts m v r = execute_out k opts m v r"
proof -
  let ?k = "k\<lparr>meter_code := me\<rparr>"
  have sel: "sha ?k = sha k" "math_lib ?k = math_lib k" "wrapper_text ?k = wrapper_text k"
    "wrapper_hardened_text ?k = wrapper_hardened_text k" "spawn_failure ?k = spawn_failure k"
    "setup_failure ?k = setup_failure k" "compile_failure ?k = compile_failure k" "compiled_handle ?k = compiled_handle k"
    "behaviour ?k = behaviour k" "wall_calls ?k = wall_calls k" "observed ?k = observed k" "worker_copy ?k = worker_copy k"
    by simp_all
  have steps: "store_compiled ?k = store_compiled k" "compile_key ?k = compile_key k"
    "setup_step ?k = setup_step k" "run_env ?k = run_env k"
    unfolding fun_eq_iff store_compiled_def compile_key_def setup_step_def run_env_def sel by (intro allI refl)+
  have stages: "setup_isolate ?k = setup_isolate k" "compile_step ?k = compile_step k" "run_contract ?k = run_contract k"
    unfolding fun_eq_iff setup_isolate_def compile_step_def run_contract_def steps sel by (intro allI refl)+
  have settled: "run_and_settle ?k = run_and_settle k"
    unfolding fun_eq_iff run_and_settle_def stages sel by (intro allI refl)
  show ?thesis
    unfolding execute_out_def guarded_out_def stages settled sel by (rule refl)
qed

lemma demo_variant:
  "with_faults (demo_machine True) None (\<lambda>_. None) me (\<lambda>_. None) = (demo_machine True)\<lparr>meter_code := me\<rparr>"
  by (simp add: with_faults_def demo_machine_def)


end
