(* ===== verification/Executor.thy ===== *)
theory Executor
  imports Results
begin

text \<open>
  The process executor: the parent side of subprocess execution (src/process-executor.js), its
  reply checks (src/process_executor/frames.js), the outcome of a worker's death
  (src/process_executor/termination.js) and the snapshot channel
  (src/process_executor/snapshot_channel.js), with the process-wide cap on live executors
  (src/index.js).

  The executor is a state machine over what its environment does: messages of a child (any value
  at all, a worker may be compromised), deaths and disconnects of children, timers that fire, and
  the host's calls. What the environment answers to a fork or to a send is a \<open>world\<close>, indexed by
  how many forks and sends there have been; random tokens are drawn from it likewise. Promises are
  settled by appending to \<open>settled\<close>, so a second settlement would show.
\<close>

subsection \<open>Replies\<close>

fun is_array :: "jsval \<Rightarrow> bool" where
  "is_array (JArr _) = True"
| "is_array _ = False"

definition isResultShape :: "jsval \<Rightarrow> bool" where
  "isResultShape r \<longleftrightarrow>
     truthy r \<and> typeof r = ''object'' \<and> \<not> is_array r
     \<and> typeof (js_get r ''success'') = ''boolean''
     \<and> (js_get r ''error'' = JNull \<or> typeof (js_get r ''error'') = ''string'')
     \<and> (case js_get r ''gasUsed'' of JNum (Num g) \<Rightarrow> 0 \<le> g | _ \<Rightarrow> False)
     \<and> is_array (js_get r ''stateChanges'') \<and> is_array (js_get r ''stateDeletes'')
     \<and> is_array (js_get r ''emittedActions'') \<and> is_array (js_get r ''logs'')"

definition replyFault :: "jsval \<Rightarrow> string \<Rightarrow> string option" where
  "replyFault msg token =
     (if js_get msg ''token'' \<noteq> JStr token then Some ''reply does not answer the dispatch in flight''
      else if js_get msg ''type'' = JStr ''result'' \<and> \<not> isResultShape (js_get msg ''result'')
      then Some ''malformed result frame'' else None)"

subsection \<open>Deaths\<close>

definition SELF_INFLICTED_SIGNALS :: "string list" where
  "SELF_INFLICTED_SIGNALS = [''SIGABRT'', ''SIGTRAP'', ''SIGILL'', ''SIGSEGV'', ''SIGBUS'', ''SIGFPE'']"

definition isSelfInflicted :: "int option \<Rightarrow> string option \<Rightarrow> bool" where
  "isSelfInflicted code signal =
     (case signal of
        Some s \<Rightarrow> s \<in> set SELF_INFLICTED_SIGNALS
      | None \<Rightarrow> (case code of Some c \<Rightarrow> c \<noteq> 0 | None \<Rightarrow> False))"

definition hostTerminatedResult :: "rat \<Rightarrow> string \<Rightarrow> result" where
  "hostTerminatedResult ceil kind =
     \<lparr>success = False, error_msg = Some (''out_of_resource: execution host terminated ('' @ kind @ '')''),
      gasUsed = ceil, returnValue = None, stateChanges = [], stateDeletes = [], emittedActions = [],
      result_logs = []\<rparr>"

definition death_kind :: "int option \<Rightarrow> string option \<Rightarrow> string" where
  "death_kind code signal = (case signal of Some s \<Rightarrow> ''signal '' @ s
     | None \<Rightarrow> ''exit '' @ (case code of Some c \<Rightarrow> int_text c | None \<Rightarrow> ''null''))"

subsection \<open>State\<close>

datatype outcome = Answered jsval | Terminated result | Rejected string

datatype frame = FInit | FBeginBlock | FEndBlock | FSnapshot string jsval | FExecute nat string jsval

datatype delivery = Sent | Unserializable string | Broke

record world =
  fork_error :: "nat \<Rightarrow> string option"
  delivery_of :: "nat \<Rightarrow> frame \<Rightarrow> delivery"
  random_token :: "nat \<Rightarrow> string"

record channel =
  ch_set :: bool
  ch_snapshot :: jsval
  ch_token :: "string option"
  ch_sent :: bool
  ch_acked :: bool
  ch_timer :: bool

record request =
  rq_id :: nat
  rq_opts :: jsval
  rq_ceiling :: rat

record dispatched =
  dp_ceiling :: rat
  dp_token :: string

record executor =
  config_ceiling :: rat
  child :: "nat option"
  connected :: bool
  gone :: "nat list"
  pending :: "(nat \<times> dispatched) list"
  queue :: "request list"
  nextId :: nat
  inBlock :: bool
  shuttingDown :: bool
  spawnFailures :: nat
  sawReady :: bool
  everReady :: bool
  lastSpawnError :: "string option"
  broken :: bool
  lastBrokenRetryAt :: int
  readyTimer :: "nat option"
  snapshots :: channel
  forks :: nat
  sends :: nat
  tokens :: nat
  outbox :: "(nat \<times> frame) list"
  killed :: "nat list"
  settled :: "(nat \<times> outcome) list"

definition BROKEN_RESPAWN_BACKOFF_MS :: int where "BROKEN_RESPAWN_BACKOFF_MS = 2000"
definition MAX_CONSECUTIVE_SPAWN_FAILURES :: nat where "MAX_CONSECUTIVE_SPAWN_FAILURES = 3"

text \<open>\<open>reject(new HostFaultError(reason))\<close>.\<close>

definition rejected :: "string \<Rightarrow> outcome" where
  "rejected reason = Rejected (if reason = [] then ''executor unavailable'' else reason)"

definition settle_with :: "(nat \<times> outcome) list \<Rightarrow> executor \<Rightarrow> executor" where
  "settle_with xs s = s\<lparr>settled := settled s @ xs\<rparr>"

definition draw_token :: "world \<Rightarrow> executor \<Rightarrow> string \<times> executor" where
  "draw_token w s = (random_token w (tokens s), s\<lparr>tokens := tokens s + 1\<rparr>)"

text \<open>\<open>child.send\<close>: on a closed channel it throws; otherwise the world says.\<close>

definition child_send :: "world \<Rightarrow> frame \<Rightarrow> executor \<Rightarrow> delivery \<times> executor" where
  "child_send w f s =
     (if \<not> connected s then (Broke, s)
      else (case delivery_of w (sends s) f of
          Sent \<Rightarrow> (Sent, s\<lparr>sends := sends s + 1, outbox := outbox s @ [(the (child s), f)]\<rparr>)
        | Unserializable m \<Rightarrow> (Unserializable m, s\<lparr>sends := sends s + 1\<rparr>)
        | Broke \<Rightarrow> (Broke, s\<lparr>sends := sends s + 1, connected := False\<rparr>)))"

text \<open>The method \<open>send\<close>: false instead of a throw.\<close>

definition send :: "world \<Rightarrow> frame \<Rightarrow> executor \<Rightarrow> bool \<times> executor" where
  "send w f s =
     (if child s = None \<or> \<not> connected s then (False, s)
      else (case child_send w f s of (d, s') \<Rightarrow> (d = Sent, s')))"

definition kill_child :: "executor \<Rightarrow> executor" where
  "kill_child s = s\<lparr>killed := killed s @ (case child s of None \<Rightarrow> [] | Some c \<Rightarrow> [c])\<rparr>"

subsection \<open>The snapshot channel\<close>

definition workerSpawned :: "channel \<Rightarrow> channel" where
  "workerSpawned c = c\<lparr>ch_sent := False, ch_acked := False, ch_timer := False\<rparr>"

definition channel_beginBlock :: "channel \<Rightarrow> channel" where
  "channel_beginBlock c = workerSpawned (c\<lparr>ch_set := False, ch_snapshot := JNull, ch_token := None\<rparr>)"

definition clearTimer :: "channel \<Rightarrow> channel" where
  "clearTimer c = c\<lparr>ch_timer := False\<rparr>"

definition hasSerializableCrossChainSnapshot :: "jsval \<Rightarrow> bool" where
  "hasSerializableCrossChainSnapshot opts \<longleftrightarrow>
     truthy opts \<and> has_own opts ''crossChainData''
     \<and> (let snap = js_get opts ''crossChainData'' in
          truthy snap \<and> typeof snap = ''object'' \<and> typeof (js_get snap ''getAttestation'') \<noteq> ''function'')"

definition snapshot_ack :: "jsval \<Rightarrow> channel \<Rightarrow> bool \<times> channel" where
  "snapshot_ack msg c =
     (if js_get msg ''type'' \<noteq> JStr ''snapshotAck'' then (False, c)
      else (True, if ch_sent c \<and> map_option JStr (ch_token c) = Some (js_get msg ''token'')
                  then clearTimer (c\<lparr>ch_acked := True\<rparr>) else c))"

text \<open>\<open>hold\<close>: whether the head of the queue has to wait for the worker's copy of the snapshot.\<close>

definition take_snapshot :: "world \<Rightarrow> jsval \<Rightarrow> executor \<Rightarrow> executor" where
  "take_snapshot w opts s =
     (if \<not> ch_set (snapshots s) \<and> inBlock s \<and> hasSerializableCrossChainSnapshot opts
      then (case draw_token w s of (t, s') \<Rightarrow>
        s'\<lparr>snapshots := (snapshots s')\<lparr>ch_set := True, ch_snapshot := js_get opts ''crossChainData'',
                                       ch_token := Some t\<rparr>\<rparr>)
      else s)"

definition hold :: "world \<Rightarrow> jsval \<Rightarrow> executor \<Rightarrow> bool \<times> executor" where
  "hold w opts s0 =
     (let s = take_snapshot w opts s0; c = snapshots s in
      if \<not> ch_set c \<or> ch_acked c then (False, s)
      else if ch_sent c then (True, s)
      else (case send w (FSnapshot (case ch_token c of Some t \<Rightarrow> t | None \<Rightarrow> []) (ch_snapshot c)) s of
          (True, s') \<Rightarrow> (True, s'\<lparr>snapshots := c\<lparr>ch_sent := True, ch_timer := True\<rparr>\<rparr>)
        | (False, s') \<Rightarrow>
            (False, s'\<lparr>snapshots := c\<lparr>ch_sent := False, ch_set := False, ch_snapshot := JNull, ch_token := None\<rparr>\<rparr>)))"

text \<open>\<open>Object.assign({}, opts, {crossChainData: ...})\<close>: the own properties, one of them replaced.\<close>

definition assign_own :: "jsval \<Rightarrow> string \<Rightarrow> jsval \<Rightarrow> jsval" where
  "assign_own v k x =
     (if k \<in> set (map fst (own_entries v))
      then JObj (map (\<lambda>(k', y). (k', if k' = k then x else y)) (own_entries v))
      else JObj (own_entries v @ [(k, x)]))"

definition reference :: "channel \<Rightarrow> jsval \<Rightarrow> jsval" where
  "reference c opts =
     (if \<not> ch_set c \<or> \<not> hasSerializableCrossChainSnapshot opts then opts
      else assign_own opts ''crossChainData''
        (JObj [(''__xchainWorkerSnapshot'', (case ch_token c of Some t \<Rightarrow> JStr t | None \<Rightarrow> JNull))]))"

subsection \<open>Dispatch\<close>

definition dispatchable :: "executor \<Rightarrow> bool" where
  "dispatchable s \<longleftrightarrow> pending s = [] \<and> child s \<noteq> None \<and> sawReady s \<and> connected s"

fun flush_queue :: "world \<Rightarrow> request list \<Rightarrow> executor \<Rightarrow> executor" where
  "flush_queue w [] s = s\<lparr>queue := []\<rparr>"
| "flush_queue w (r # rs) s =
     (if \<not> dispatchable s then s\<lparr>queue := r # rs\<rparr>
      else (case hold w (rq_opts r) s of
          (True, s1) \<Rightarrow> s1\<lparr>queue := r # rs\<rparr>
        | (False, s1) \<Rightarrow> (case draw_token w s1 of (t, s2) \<Rightarrow>
            (case child_send w (FExecute (rq_id r) t (reference (snapshots s2) (rq_opts r))) s2 of
               (Sent, s3) \<Rightarrow>
                 s3\<lparr>queue := rs, pending := [(rq_id r, \<lparr>dp_ceiling = rq_ceiling r, dp_token = t\<rparr>)]\<rparr>
             | (Unserializable m, s3) \<Rightarrow>
                 flush_queue w rs (settle_with [(rq_id r, rejected (''executor input not serializable: '' @ m))] s3)
             | (Broke, s3) \<Rightarrow> s3\<lparr>queue := r # rs\<rparr>))))"

definition flush :: "world \<Rightarrow> executor \<Rightarrow> executor" where
  "flush w s = flush_queue w (queue s) s"

subsection \<open>Workers\<close>

definition unavailableReason :: "executor \<Rightarrow> string" where
  "unavailableReason s = (case lastSpawnError s of
     Some e \<Rightarrow> ''executor unavailable (spawn '' @ e @ '')'' | None \<Rightarrow> ''executor unavailable'')"

text \<open>The broken latch: everything queued is rejected.\<close>

definition latch :: "executor \<Rightarrow> executor" where
  "latch s = settle_with (map (\<lambda>r. (rq_id r, rejected (unavailableReason s))) (queue s)) (s\<lparr>broken := True, queue := []\<rparr>)"

definition before_fork :: "executor \<Rightarrow> executor" where
  "before_fork s = s\<lparr>readyTimer := None, sawReady := False, everReady := False,
     snapshots := workerSpawned (snapshots s), forks := forks s + 1\<rparr>"

text \<open>A child is named by the fork that made it.\<close>

definition start_child :: "world \<Rightarrow> executor \<Rightarrow> executor" where
  "start_child w s =
     (let s1 = s\<lparr>child := Some (forks s), connected := True, lastSpawnError := None, readyTimer := Some (forks s)\<rparr>;
          s2 = snd (send w FInit s1)
      in if inBlock s2 then snd (send w FBeginBlock s2) else s2)"

function spawn :: "world \<Rightarrow> executor \<Rightarrow> executor" where
  "spawn w s =
     (if shuttingDown s then s
      else (case fork_error w (forks s) of
          None \<Rightarrow> start_child w (before_fork s)
        | Some e \<Rightarrow>
            (let s1 = (before_fork s)\<lparr>child := None, lastSpawnError := Some (if e = [] then ''spawn error'' else e),
                                      spawnFailures := spawnFailures s + 1\<rparr>
             in if MAX_CONSECUTIVE_SPAWN_FAILURES \<le> spawnFailures s1 then latch s1 else spawn w s1)))"
  by auto
termination
  by (relation "measure (\<lambda>(w, s). MAX_CONSECUTIVE_SPAWN_FAILURES - spawnFailures s)") auto

declare spawn.simps [simp del]

definition afterWorkerLost :: "world \<Rightarrow> bool \<Rightarrow> executor \<Rightarrow> executor" where
  "afterWorkerLost w neverReady s =
     (if shuttingDown s then s
      else (let s1 = (if neverReady then s\<lparr>spawnFailures := spawnFailures s + 1\<rparr> else s) in
        if MAX_CONSECUTIVE_SPAWN_FAILURES \<le> spawnFailures s1 then latch s1 else spawn w s1))"

text \<open>The catch branch of \<open>spawn\<close> is a call of \<open>afterWorkerLost(true)\<close>.\<close>

lemma spawn_code:
  "spawn w s =
     (if shuttingDown s then s
      else (case fork_error w (forks s) of
          None \<Rightarrow> start_child w (before_fork s)
        | Some e \<Rightarrow> afterWorkerLost w True
            ((before_fork s)\<lparr>child := None, lastSpawnError := Some (if e = [] then ''spawn error'' else e)\<rparr>)))"
  by (simp add: spawn.simps [of w s] afterWorkerLost_def before_fork_def Let_def split: option.split)

definition settle_pending :: "bool \<Rightarrow> string \<Rightarrow> nat \<times> dispatched \<Rightarrow> nat \<times> outcome" where
  "settle_pending selfInflicted kind p =
     (fst p, if selfInflicted then Terminated (hostTerminatedResult (dp_ceiling (snd p)) kind)
             else rejected (''executor worker terminated externally ('' @ kind @ '')''))"

definition onExit :: "world \<Rightarrow> nat \<Rightarrow> int option \<Rightarrow> string option \<Rightarrow> executor \<Rightarrow> executor" where
  "onExit w c code signal s =
     (if child s \<noteq> Some c then s
      else (let s1 = s\<lparr>child := None, readyTimer := None, snapshots := clearTimer (snapshots s)\<rparr>;
                s2 = settle_with (map (settle_pending (isSelfInflicted code signal) (death_kind code signal)) (pending s1)) s1
            in afterWorkerLost w (\<not> everReady s2) (s2\<lparr>pending := []\<rparr>)))"

definition onGone :: "world \<Rightarrow> nat \<Rightarrow> int option \<Rightarrow> string option \<Rightarrow> executor \<Rightarrow> executor" where
  "onGone w c code signal s =
     (if c \<in> set (gone s) then s else onExit w c code signal (s\<lparr>gone := c # gone s\<rparr>))"

definition onReadyTimer :: "world \<Rightarrow> nat \<Rightarrow> executor \<Rightarrow> executor" where
  "onReadyTimer w c s =
     (if readyTimer s = Some c \<and> \<not> everReady s \<and> child s = Some c
      then onGone w c None (Some ''SIGKILL'') (kill_child s) else s)"

text \<open>The error event of a child: a failed fork is remembered, \<open>close\<close> counts it.\<close>

definition onError :: "string \<Rightarrow> string \<Rightarrow> executor \<Rightarrow> executor" where
  "onError syscall code s =
     (if starts_with ''spawn'' syscall then s\<lparr>lastSpawnError := Some (if code = [] then ''spawn error'' else code)\<rparr> else s)"

text \<open>A timer fires once, when it is armed.\<close>

definition onSnapshotTimer :: "executor \<Rightarrow> executor" where
  "onSnapshotTimer s =
     (if \<not> ch_timer (snapshots s) then s
      else (let s1 = s\<lparr>snapshots := clearTimer (snapshots s)\<rparr> in
        if ch_sent (snapshots s1) \<and> \<not> ch_acked (snapshots s1) then (kill_child s1)\<lparr>sawReady := False\<rparr> else s1))"

subsection \<open>Messages and the watchdog\<close>

definition onBadReply :: "nat \<Rightarrow> string \<Rightarrow> executor \<Rightarrow> executor" where
  "onBadReply i fault s =
     (kill_child (settle_with [(i, rejected (''executor worker sent a bad reply ('' @ fault @ '')''))]
        (s\<lparr>pending := filter (\<lambda>p. fst p \<noteq> i) (pending s)\<rparr>)))\<lparr>sawReady := False\<rparr>"

text \<open>\<open>Map.get\<close> with a key of any type.\<close>

definition find_pending :: "jsval \<Rightarrow> executor \<Rightarrow> (nat \<times> dispatched) option" where
  "find_pending i s = find (\<lambda>p. JNum (Num (of_nat (fst p))) = i) (pending s)"

fun host_fault_reason :: "jsval \<Rightarrow> string" where
  "host_fault_reason (JStr r) = (if r = [] then ''executor unavailable'' else r)"
| "host_fault_reason _ = ''executor unavailable''"

definition onReady :: "world \<Rightarrow> executor \<Rightarrow> executor" where
  "onReady w s =
     (if everReady s then s
      else flush w (s\<lparr>sawReady := True, everReady := True, spawnFailures := 0, lastSpawnError := None, readyTimer := None\<rparr>))"

definition onReply :: "world \<Rightarrow> jsval \<Rightarrow> executor \<Rightarrow> executor" where
  "onReply w msg s =
     (case find_pending (js_get msg ''id'') s of
        None \<Rightarrow> s
      | Some (i, d) \<Rightarrow>
          (case replyFault msg (dp_token d) of
             Some fault \<Rightarrow> onBadReply i fault s
           | None \<Rightarrow> flush w (settle_with
               [(i, if js_get msg ''type'' = JStr ''result'' then Answered (js_get msg ''result'')
                    else rejected (host_fault_reason (js_get msg ''reason'')))]
               (s\<lparr>pending := filter (\<lambda>p. fst p \<noteq> i) (pending s)\<rparr>))))"

definition onMessage :: "world \<Rightarrow> nat \<Rightarrow> jsval \<Rightarrow> executor \<Rightarrow> executor" where
  "onMessage w c msg s =
     (if child s \<noteq> Some c then s
      else if \<not> truthy msg \<or> typeof msg \<noteq> ''object'' then s
      else (case snapshot_ack msg (snapshots s) of
          (True, ch) \<Rightarrow> flush w (s\<lparr>snapshots := ch\<rparr>)
        | (False, _) \<Rightarrow>
            if js_get msg ''type'' = JStr ''ready'' then onReady w s
            else if js_get msg ''type'' \<noteq> JStr ''result'' \<and> js_get msg ''type'' \<noteq> JStr ''hostfault'' then s
            else onReply w msg s))"

definition onWatchdog :: "nat \<Rightarrow> executor \<Rightarrow> executor" where
  "onWatchdog i s =
     (case map_of (pending s) i of
        None \<Rightarrow> s
      | Some d \<Rightarrow>
          (kill_child (settle_with [(i, Terminated (hostTerminatedResult (dp_ceiling d) ''watchdog timeout''))]
             (s\<lparr>pending := filter (\<lambda>p. fst p \<noteq> i) (pending s)\<rparr>)))\<lparr>sawReady := False\<rparr>)"

subsection \<open>The host's calls\<close>

definition ex_beginBlock :: "world \<Rightarrow> executor \<Rightarrow> executor" where
  "ex_beginBlock w s = snd (send w FBeginBlock (s\<lparr>inBlock := True, snapshots := channel_beginBlock (snapshots s)\<rparr>))"

definition ex_endBlock :: "world \<Rightarrow> executor \<Rightarrow> executor" where
  "ex_endBlock w s =
     (let s1 = snd (send w FEndBlock (s\<lparr>inBlock := False\<rparr>))
      in s1\<lparr>snapshots := channel_beginBlock (snapshots s1)\<rparr>)"

text \<open>\<open>execute\<close>: \<open>Inl\<close> is a promise rejected at once, \<open>Inr\<close> the id of an accepted request.\<close>

definition enqueue :: "world \<Rightarrow> jsval \<Rightarrow> executor \<Rightarrow> (string + nat) \<times> executor" where
  "enqueue w opts s =
     (let i = nextId s;
          r = \<lparr>rq_id = i, rq_opts = opts,
               rq_ceiling = effectiveCeiling (if nullish opts then JUndef else js_get opts ''gasCeiling'') (config_ceiling s)\<rparr>
      in (Inr i, flush w (s\<lparr>nextId := i + 1, queue := queue s @ [r]\<rparr>)))"

definition ex_execute :: "world \<Rightarrow> jsval \<Rightarrow> int \<Rightarrow> executor \<Rightarrow> (string + nat) \<times> executor" where
  "ex_execute w opts now s =
     (if shuttingDown s then (Inl ''executor shutting down'', s)
      else if \<not> broken s then enqueue w opts s
      else if now - lastBrokenRetryAt s < BROKEN_RESPAWN_BACKOFF_MS then (Inl (unavailableReason s), s)
      else (let s1 = spawn w (s\<lparr>lastBrokenRetryAt := now, broken := False\<rparr>)
            in if broken s1 then (Inl (unavailableReason s1), s1) else enqueue w opts s1))"

definition shutdown :: "executor \<Rightarrow> executor" where
  "shutdown s =
     (let s1 = s\<lparr>shuttingDown := True, readyTimer := None, snapshots := clearTimer (snapshots s)\<rparr>;
          s2 = settle_with (map (\<lambda>p. (fst p, rejected ''executor shutting down'')) (pending s1)
                 @ map (\<lambda>r. (rq_id r, rejected ''executor shutting down'')) (queue s1)) s1
      in (kill_child s2)\<lparr>pending := [], queue := [], child := None, connected := False\<rparr>)"

definition new_channel :: channel where
  "new_channel = channel_beginBlock \<lparr>ch_set = False, ch_snapshot = JNull, ch_token = None, ch_sent = False,
     ch_acked = False, ch_timer = False\<rparr>"

definition new_executor :: "world \<Rightarrow> rat \<Rightarrow> executor" where
  "new_executor w c = spawn w
     \<lparr>config_ceiling = c, child = None, connected = False, gone = [], pending = [], queue = [], nextId = 1,
      inBlock = False, shuttingDown = False, spawnFailures = 0, sawReady = False, everReady = False,
      lastSpawnError = None, broken = False, lastBrokenRetryAt = 0, readyTimer = None,
      snapshots = new_channel, forks = 0, sends = 0, tokens = 0, outbox = [], killed = [], settled = []\<rparr>"

subsection \<open>Steps\<close>

text \<open>Only a child that was forked can die.\<close>

datatype event =
  Message nat jsval
| Death nat "int option" "string option"
| ErrorEvent string string
| ReadyTimeout nat
| WatchdogTimeout nat
| SnapshotTimeout
| Disconnect nat
| BeginBlock
| EndBlock
| Execute jsval int
| Shutdown

fun step_event :: "world \<Rightarrow> event \<Rightarrow> executor \<Rightarrow> executor" where
  "step_event w (Message c msg) s = onMessage w c msg s"
| "step_event w (Death c code signal) s = (if c \<le> forks s then onGone w c code signal s else s)"
| "step_event w (ErrorEvent syscall code) s = onError syscall code s"
| "step_event w (ReadyTimeout c) s = onReadyTimer w c s"
| "step_event w (WatchdogTimeout i) s = onWatchdog i s"
| "step_event w SnapshotTimeout s = onSnapshotTimer s"
| "step_event w (Disconnect c) s = (if child s = Some c then s\<lparr>connected := False\<rparr> else s)"
| "step_event w BeginBlock s = ex_beginBlock w s"
| "step_event w EndBlock s = ex_endBlock w s"
| "step_event w (Execute opts now) s = snd (ex_execute w opts now s)"
| "step_event w Shutdown s = shutdown s"

definition events :: "world \<Rightarrow> event list \<Rightarrow> executor \<Rightarrow> executor" where
  "events w es s = fold (step_event w) es s"

end
