(* ===== verification/ExecutorProps.thy ===== *)
theory ExecutorProps
  imports Executor "HOL-Library.Multiset"
begin

text \<open>
  What the executor guarantees for every order of events: each accepted request is settled at most
  once and never lost, at most one is in flight, a request is answered only by the reply to its own
  dispatch, only the contract's own doing terminates it, and a waiting request always has something
  under way.
\<close>

subsection \<open>Accounting\<close>

definition accounted :: "executor \<Rightarrow> nat multiset" where
  "accounted s = mset (map fst (settled s)) + mset (map fst (pending s)) + mset (map rq_id (queue s))"

text \<open>What sending and holding leave alone.\<close>

definition core :: "executor \<Rightarrow> _" where
  "core s = (settled s, pending s, queue s, nextId s, broken s, shuttingDown s, child s, everReady s, sawReady s,
     gone s, forks s, inBlock s, readyTimer s, spawnFailures s, killed s)"

lemma core_iff:
  "core s' = core s \<longleftrightarrow> settled s' = settled s \<and> pending s' = pending s \<and> queue s' = queue s \<and> nextId s' = nextId s
     \<and> broken s' = broken s \<and> shuttingDown s' = shuttingDown s \<and> child s' = child s \<and> everReady s' = everReady s
     \<and> sawReady s' = sawReady s \<and> gone s' = gone s \<and> forks s' = forks s \<and> inBlock s' = inBlock s
     \<and> readyTimer s' = readyTimer s \<and> spawnFailures s' = spawnFailures s \<and> killed s' = killed s"
  by (simp add: core_def)

lemma child_send_core: "child_send w f s = (d, s') \<Longrightarrow> core s' = core s"
  by (auto simp: child_send_def core_def split: if_splits delivery.splits)

lemma send_core: "send w f s = (b, s') \<Longrightarrow> core s' = core s"
  by (auto simp: send_def split: if_splits prod.splits dest: child_send_core)

lemma send_snd_core: "core (snd (send w f s)) = core s"
  using send_core [of w f s] by (cases "send w f s") simp

lemma draw_token_core: "draw_token w s = (t, s') \<Longrightarrow> core s' = core s"
  by (auto simp: draw_token_def core_def)

lemma take_snapshot_core: "core (take_snapshot w opts s) = core s"
  by (simp add: take_snapshot_def draw_token_def core_def)

lemma channel_core [simp]: "core (s\<lparr>snapshots := c\<rparr>) = core s"
  by (simp add: core_def)

lemma hold_core:
  assumes "hold w opts s = (b, s')"
  shows "core s' = core s"
proof -
  obtain d s1 where sd: "send w (FSnapshot (case ch_token (snapshots (take_snapshot w opts s)) of Some t \<Rightarrow> t | None \<Rightarrow> [])
      (ch_snapshot (snapshots (take_snapshot w opts s)))) (take_snapshot w opts s) = (d, s1)"
    by fastforce
  have "core s1 = core s" using send_core [OF sd] by (simp add: take_snapshot_core)
  with assms [unfolded hold_def Let_def sd] show ?thesis
    by (cases d) (auto simp: take_snapshot_core split: if_splits)
qed

text \<open>What a flush does: it rejects the entries that cannot cross, in order, and dispatches at most one.\<close>

definition frame_of :: "executor \<Rightarrow> _" where
  "frame_of s = (nextId s, broken s, shuttingDown s, child s, everReady s, sawReady s, gone s, forks s, inBlock s,
     readyTimer s, spawnFailures s, killed s)"

lemma core_frame: "core s' = core s \<Longrightarrow> frame_of s' = frame_of s"
  by (simp add: core_def frame_of_def)

definition flushed :: "request list \<Rightarrow> executor \<Rightarrow> executor \<Rightarrow> bool" where
  "flushed q s s' \<longleftrightarrow> (\<exists>rs ms rest. length ms = length rs \<and> q = rs @ rest
     \<and> settled s' = settled s @ zip (map rq_id rs) (map rejected ms)
     \<and> (queue s' = rest \<and> pending s' = pending s
        \<or> (\<exists>r t. rest = r # queue s' \<and> pending s = [] \<and> child s \<noteq> None \<and> sawReady s
             \<and> pending s' = [(rq_id r, \<lparr>dp_ceiling = rq_ceiling r, dp_token = t\<rparr>)])))
     \<and> frame_of s' = frame_of s"

lemma flushed_stop: "core s' = core s \<Longrightarrow> flushed q s (s'\<lparr>queue := q\<rparr>)"
  unfolding flushed_def by (rule conjI, rule exI [of _ "[]"], rule exI [of _ "[]"]) (auto simp: core_iff frame_of_def)

lemma flushed_dispatch:
  "core s' = core s \<Longrightarrow> dispatchable s \<Longrightarrow>
   flushed (r # rs) s (s'\<lparr>queue := rs, pending := [(rq_id r, \<lparr>dp_ceiling = rq_ceiling r, dp_token = t\<rparr>)]\<rparr>)"
  unfolding flushed_def
  by (rule conjI, rule exI [of _ "[]"], rule exI [of _ "[]"]) (auto simp: core_iff frame_of_def dispatchable_def)

lemma flushed_reject:
  assumes "core s' = core s" "flushed rs (settle_with [(rq_id r, rejected m)] s') s''"
  shows "flushed (r # rs) s s''"
proof -
  from assms(2) obtain rs1 ms rest where
    r: "length ms = length rs1" "rs = rs1 @ rest"
      "settled s'' = settled (settle_with [(rq_id r, rejected m)] s') @ zip (map rq_id rs1) (map rejected ms)"
      "(queue s'' = rest \<and> pending s'' = pending s'
        \<or> (\<exists>r t. rest = r # queue s'' \<and> pending s' = [] \<and> child s' \<noteq> None \<and> sawReady s'
             \<and> pending s'' = [(rq_id r, \<lparr>dp_ceiling = rq_ceiling r, dp_token = t\<rparr>)]))"
    and f: "frame_of s'' = frame_of s'"
    by (auto simp: flushed_def settle_with_def frame_of_def)
  have "length (m # ms) = length (r # rs1) \<and> r # rs = (r # rs1) @ rest
      \<and> settled s'' = settled s @ zip (map rq_id (r # rs1)) (map rejected (m # ms))"
    using r(1-3) assms(1) by (simp add: settle_with_def core_iff)
  moreover have "queue s'' = rest \<and> pending s'' = pending s
        \<or> (\<exists>r t. rest = r # queue s'' \<and> pending s = [] \<and> child s \<noteq> None \<and> sawReady s
             \<and> pending s'' = [(rq_id r, \<lparr>dp_ceiling = rq_ceiling r, dp_token = t\<rparr>)])"
    using r(4) assms(1) by (simp add: core_iff)
  moreover have "frame_of s'' = frame_of s" using f core_frame [OF assms(1)] by simp
  ultimately show ?thesis unfolding flushed_def by blast
qed

lemma flush_queue_flushed: "flushed q s (flush_queue w q s)"
proof (induction q arbitrary: s)
  case Nil
  show ?case using flushed_stop [of s s "[]"] by simp
next
  case (Cons r rs)
  show ?case
  proof (cases "dispatchable s")
    case False
    then show ?thesis using flushed_stop [of s s "r # rs"] by simp
  next
    case True
    obtain b s1 where h: "hold w (rq_opts r) s = (b, s1)" by fastforce
    obtain t s2 where d: "draw_token w s1 = (t, s2)" by fastforce
    obtain o3 s3 where c: "child_send w (FExecute (rq_id r) t (reference (snapshots s2) (rq_opts r))) s2 = (o3, s3)"
      by fastforce
    have k1: "core s1 = core s" and k3: "core s3 = core s"
      using hold_core [OF h] draw_token_core [OF d] child_send_core [OF c] by simp_all
    show ?thesis
    proof (cases b)
      case b: True
      then show ?thesis using True h flushed_stop [OF k1, of "r # rs"] by simp
    next
      case b: False
      show ?thesis
      proof (cases o3)
        case Sent
        then show ?thesis using True h b d c flushed_dispatch [OF k3 True, of r rs t] by simp
      next
        case (Unserializable m)
        then show ?thesis using True h b d c flushed_reject [OF k3 Cons.IH] by simp
      next
        case Broke
        then show ?thesis using True h b d c flushed_stop [OF k3, of "r # rs"] by simp
      qed
    qed
  qed
qed

lemma flush_flushed: "flushed (queue s) s (flush w s)"
  by (simp add: flush_def flush_queue_flushed)

lemma flushed_frame: "flushed q s s' \<Longrightarrow> frame_of s' = frame_of s"
  by (simp add: flushed_def)

lemma rejected_ids:
  "length ms = length rs \<Longrightarrow> image_mset fst (mset (zip (map rq_id rs) (map rejected ms))) = image_mset rq_id (mset rs)"
  by (simp flip: mset_map)

lemma flushed_accounted: "flushed q s s' \<Longrightarrow> accounted s' = accounted (s\<lparr>queue := q\<rparr>)"
  by (auto simp: flushed_def accounted_def rejected_ids)

lemma flush_accounted: "accounted (flush w s) = accounted s"
  using flushed_accounted [OF flush_flushed [of s w]] by simp

lemma latch_accounted: "accounted (latch s) = accounted s"
  by (simp add: latch_def settle_with_def accounted_def comp_def)


subsection \<open>The invariant\<close>

abbreviation books :: "executor \<Rightarrow> bool" where
  "books s \<equiv> accounted s = mset [1..<nextId s] \<and> 1 \<le> nextId s"

definition ex_inv :: "executor \<Rightarrow> bool" where
  "ex_inv s \<longleftrightarrow>
     books s \<and> length (pending s) \<le> 1
     \<and> (pending s \<noteq> [] \<longrightarrow> child s \<noteq> None \<and> everReady s) \<and> (sawReady s \<longrightarrow> everReady s)
     \<and> (if shuttingDown s then pending s = [] \<and> queue s = [] \<and> child s = None
        else broken s = (child s = None) \<and> (broken s \<longrightarrow> queue s = []))"

lemma flush_inv:
  assumes "ex_inv s"
  shows "ex_inv (flush w s)"
proof -
  note f = flush_flushed [of s w]
  from flushed_frame [OF f] have fr: "nextId (flush w s) = nextId s" "broken (flush w s) = broken s"
    "shuttingDown (flush w s) = shuttingDown s" "child (flush w s) = child s" "everReady (flush w s) = everReady s"
    "sawReady (flush w s) = sawReady s"
    by (simp_all add: frame_of_def)
  from assms have i: "sawReady s \<longrightarrow> everReady s" "length (pending s) \<le> 1"
    "pending s \<noteq> [] \<longrightarrow> child s \<noteq> None \<and> everReady s"
    "if shuttingDown s then pending s = [] \<and> queue s = [] \<and> child s = None
        else broken s = (child s = None) \<and> (broken s \<longrightarrow> queue s = [])"
    by (simp_all add: ex_inv_def)
  from f i have p: "length (pending (flush w s)) \<le> 1" "pending (flush w s) \<noteq> [] \<longrightarrow> child s \<noteq> None \<and> everReady s"
    "queue s = [] \<longrightarrow> queue (flush w s) = [] \<and> pending (flush w s) = pending s"
    by (auto simp: flushed_def)
  show ?thesis
    unfolding ex_inv_def fr flush_accounted using p i assms by (auto simp: ex_inv_def split: if_splits)
qed

lemma same_core_inv: "core s' = core s \<Longrightarrow> ex_inv s' = ex_inv s"
  by (simp add: core_iff ex_inv_def accounted_def)

lemma start_child_core:
  "core (start_child w s) = core (s\<lparr>child := Some (forks s), readyTimer := Some (forks s)\<rparr>)"
proof -
  have c: "core (s\<lparr>child := Some (forks s), connected := True, lastSpawnError := None, readyTimer := Some (forks s)\<rparr>)
      = core (s\<lparr>child := Some (forks s), readyTimer := Some (forks s)\<rparr>)"
    by (simp add: core_def)
  show ?thesis by (simp add: start_child_def Let_def send_snd_core c)
qed

text \<open>What an operation may add to the settled promises: rejections only.\<close>

definition only_rejects :: "executor \<Rightarrow> executor \<Rightarrow> bool" where
  "only_rejects s s' \<longleftrightarrow> (\<exists>xs. settled s' = settled s @ xs \<and> (\<forall>i x. (i, x) \<in> set xs \<longrightarrow> (\<exists>m. x = Rejected m)))"

lemma only_rejects_same: "settled s' = settled s \<Longrightarrow> only_rejects s s'"
  by (simp add: only_rejects_def)

lemma only_rejects_trans [trans]: "only_rejects a b \<Longrightarrow> only_rejects b c \<Longrightarrow> only_rejects a c"
  unfolding only_rejects_def by auto

lemma latch_rejects: "only_rejects s (latch s)"
  by (auto simp: only_rejects_def latch_def settle_with_def rejected_def)

lemma flush_rejects: "only_rejects s (flush w s)"
proof -
  obtain rs :: "request list" and ms where f: "settled (flush w s) = settled s @ zip (map rq_id rs) (map rejected ms)"
    using flush_flushed [of s w] unfolding flushed_def by blast
  have "\<exists>m. x = Rejected m" if "(i, x) \<in> set (zip (map rq_id rs) (map rejected ms))" for i x
  proof -
    have "x \<in> set (map rejected ms)" using that by (rule set_zip_rightD)
    then show ?thesis by (auto simp: rejected_def)
  qed
  with f show ?thesis unfolding only_rejects_def by blast
qed

lemma spawn_inv:
  assumes "\<not> shuttingDown s" "\<not> broken s" "pending s = []" "books s"
  shows "ex_inv (spawn w s) \<and> nextId (spawn w s) = nextId s \<and> \<not> shuttingDown (spawn w s)
     \<and> only_rejects s (spawn w s)"
  using assms
proof (induction w s rule: spawn.induct)
  case (1 w s)
  show ?case
  proof (cases "fork_error w (forks s)")
    case None
    let ?b = "before_fork s"
    have "spawn w s = start_child w ?b" using "1.prems"(1) None by (simp add: spawn.simps [of w s])
    moreover have "core (start_child w ?b) = core (?b\<lparr>child := Some (forks ?b), readyTimer := Some (forks ?b)\<rparr>)"
      by (rule start_child_core)
    ultimately show ?thesis using "1.prems"
      by (simp add: core_iff ex_inv_def accounted_def before_fork_def only_rejects_same)
  next
    case (Some e)
    let ?s1 = "(before_fork s)\<lparr>child := None, lastSpawnError := Some (if e = [] then ''spawn error'' else e),
                 spawnFailures := spawnFailures s + 1\<rparr>"
    have s1: "\<not> shuttingDown ?s1" "\<not> broken ?s1" "pending ?s1 = []" "books ?s1" "nextId ?s1 = nextId s"
      using "1.prems" by (simp_all add: before_fork_def accounted_def)
    show ?thesis
    proof (cases "MAX_CONSECUTIVE_SPAWN_FAILURES \<le> spawnFailures ?s1")
      case True
      then have "spawn w s = latch ?s1" using "1.prems"(1) Some by (simp add: spawn.simps [of w s] Let_def)
      moreover have "ex_inv (latch ?s1)" using s1 latch_accounted [of ?s1]
        by (auto simp: ex_inv_def latch_def settle_with_def before_fork_def)
      moreover have "only_rejects s (latch ?s1)"
        using only_rejects_trans [OF only_rejects_same latch_rejects, of ?s1 s] by (simp add: before_fork_def)
      ultimately show ?thesis using "1.prems"(1) by (simp add: latch_def settle_with_def before_fork_def)
    next
      case False
      then have "spawn w s = spawn w ?s1" using "1.prems"(1) Some by (simp add: spawn.simps [of w s] Let_def)
      moreover have "only_rejects s ?s1" by (rule only_rejects_same) (simp add: before_fork_def)
      ultimately show ?thesis using "1.IH" [OF "1.prems"(1) Some refl False s1(1-4)] s1(5)
        by (auto intro: only_rejects_trans)
    qed
  qed
qed

lemma afterWorkerLost_inv:
  assumes "\<not> shuttingDown s" "\<not> broken s" "pending s = []" "child s = None" "books s"
    and "sawReady s \<longrightarrow> everReady s"
  shows "ex_inv (afterWorkerLost w b s) \<and> nextId (afterWorkerLost w b s) = nextId s \<and> only_rejects s (afterWorkerLost w b s)"
proof -
  let ?s1 = "if b then s\<lparr>spawnFailures := spawnFailures s + 1\<rparr> else s"
  have s1: "\<not> shuttingDown ?s1" "\<not> broken ?s1" "pending ?s1 = []" "books ?s1" "nextId ?s1 = nextId s"
    using assms by (simp_all add: accounted_def)
  show ?thesis
  proof (cases "MAX_CONSECUTIVE_SPAWN_FAILURES \<le> spawnFailures ?s1")
    case True
    moreover have "ex_inv (latch ?s1)" using s1 latch_accounted [of ?s1] assms
      by (auto simp: ex_inv_def latch_def settle_with_def)
    moreover have "only_rejects s (latch ?s1)"
      using only_rejects_trans [OF only_rejects_same latch_rejects, of ?s1 s] by simp
    ultimately show ?thesis using assms(1) by (simp add: afterWorkerLost_def Let_def latch_def settle_with_def)
  next
    case False
    moreover have "only_rejects s ?s1" by (rule only_rejects_same) simp
    ultimately show ?thesis using spawn_inv [OF s1(1-4), of w] s1(5) assms(1)
      by (auto simp: afterWorkerLost_def Let_def intro: only_rejects_trans)
  qed
qed


lemma dropped_pending:
  assumes "pending s = [(i, d)]"
  shows "accounted (settle_with [(i, x)] (s\<lparr>pending := []\<rparr>)) = accounted s"
  using assms by (simp add: accounted_def settle_with_def)

text \<open>The one entry in flight, when there is one.\<close>

lemma one_pending:
  assumes "ex_inv s" "(i, d) \<in> set (pending s)"
  shows "pending s = [(i, d)] \<and> child s \<noteq> None \<and> everReady s \<and> \<not> shuttingDown s \<and> \<not> broken s"
proof -
  from assms have "pending s = [(i, d)]" by (cases "pending s"; cases "tl (pending s)") (auto simp: ex_inv_def)
  with assms(1) show ?thesis by (auto simp: ex_inv_def split: if_splits)
qed

lemma settled_inv:
  assumes "ex_inv s" "pending s = [(i, d)]"
  shows "ex_inv (settle_with [(i, x)] (s\<lparr>pending := []\<rparr>))"
  using assms dropped_pending [OF assms(2), of x] by (auto simp: ex_inv_def settle_with_def split: if_splits)

lemma kill_inv [simp]: "ex_inv (kill_child s) = ex_inv s" "ex_inv (s\<lparr>gone := g\<rparr>) = ex_inv s"
  "ex_inv (s\<lparr>lastSpawnError := e\<rparr>) = ex_inv s" "ex_inv (s\<lparr>connected := b\<rparr>) = ex_inv s"
  "ex_inv (s\<lparr>snapshots := ch\<rparr>) = ex_inv s" "ex_inv (s\<lparr>inBlock := b\<rparr>) = ex_inv s"
  by (simp_all add: kill_child_def ex_inv_def accounted_def)

lemma unready_inv: "ex_inv s \<Longrightarrow> ex_inv (s\<lparr>sawReady := False\<rparr>)"
  by (simp add: ex_inv_def accounted_def)

lemma find_pendingD: "find_pending v s = Some (i, d) \<Longrightarrow> (i, d) \<in> set (pending s)"
  by (auto simp: find_pending_def dest!: find_Some_iff [THEN iffD1])

lemma onExit_inv:
  assumes "ex_inv s"
  shows "ex_inv (onExit w c code signal s)"
proof (cases "child s = Some c")
  case True
  let ?s1 = "s\<lparr>child := None, readyTimer := None, snapshots := clearTimer (snapshots s)\<rparr>"
  let ?s2 = "settle_with (map (settle_pending (isSelfInflicted code signal) (death_kind code signal)) (pending ?s1)) ?s1"
  let ?s3 = "?s2\<lparr>pending := []\<rparr>"
  have "map fst (map (settle_pending b k) ps) = map fst ps" for b k ps by (simp add: settle_pending_def)
  then have "accounted ?s3 = accounted s" by (simp add: accounted_def settle_with_def del: map_map)
  moreover have "books s" "\<not> shuttingDown s" "\<not> broken s" "sawReady s \<longrightarrow> everReady s"
    using assms True by (auto simp: ex_inv_def split: if_splits)
  ultimately show ?thesis
    using afterWorkerLost_inv [of ?s3 w "\<not> everReady ?s2"] True by (simp add: onExit_def Let_def settle_with_def)
qed (use assms in \<open>simp add: onExit_def\<close>)

lemma onGone_inv: "ex_inv s \<Longrightarrow> ex_inv (onGone w c code signal s)"
  by (simp add: onGone_def onExit_inv)

lemma filter_one: "ps = [(i, d)] \<Longrightarrow> filter (\<lambda>p. fst p \<noteq> i) ps = []"
  by simp

lemma onReply_inv:
  assumes "ex_inv s"
  shows "ex_inv (onReply w msg s)"
proof (cases "find_pending (js_get msg ''id'') s")
  case (Some p)
  obtain i d where p: "p = (i, d)" by fastforce
  from one_pending [OF assms find_pendingD] Some p have o: "pending s = [(i, d)]" by blast
  note si = settled_inv [OF assms o]
  show ?thesis
  proof (cases "replyFault msg (dp_token d)")
    case None
    then show ?thesis using Some p o si flush_inv by (simp add: onReply_def)
  next
    case (Some f)
    then show ?thesis using \<open>find_pending (js_get msg ''id'') s = Some p\<close> p o si
      by (simp add: onReply_def onBadReply_def unready_inv)
  qed
qed (simp add: onReply_def assms)

lemma onReady_inv:
  assumes "ex_inv s"
  shows "ex_inv (onReady w s)"
proof -
  have "ex_inv (s\<lparr>sawReady := True, everReady := True, spawnFailures := 0, lastSpawnError := None, readyTimer := None\<rparr>)"
    using assms by (auto simp: ex_inv_def accounted_def)
  with assms show ?thesis by (simp add: onReady_def flush_inv)
qed

lemma onMessage_inv:
  assumes "ex_inv s"
  shows "ex_inv (onMessage w c msg s)"
proof -
  obtain b ch where "snapshot_ack msg (snapshots s) = (b, ch)" by fastforce
  with assms show ?thesis
    by (cases b) (simp_all add: onMessage_def flush_inv onReady_inv onReply_inv)
qed

lemma onWatchdog_inv:
  assumes "ex_inv s"
  shows "ex_inv (onWatchdog i s)"
proof (cases "map_of (pending s) i")
  case (Some d)
  from one_pending [OF assms map_of_SomeD [OF this]] have o: "pending s = [(i, d)]" by blast
  with settled_inv [OF assms o] show ?thesis by (simp add: onWatchdog_def unready_inv)
qed (simp add: onWatchdog_def assms)

lemma enqueue_inv:
  assumes "ex_inv s" "\<not> shuttingDown s" "\<not> broken s"
  shows "ex_inv (snd (enqueue w opts s))"
proof -
  have "ex_inv (s\<lparr>nextId := nextId s + 1, queue := queue s @ [r]\<rparr>)" if "rq_id r = nextId s" for r
    using assms that by (auto simp: ex_inv_def accounted_def)
  then show ?thesis by (simp add: enqueue_def Let_def flush_inv)
qed

lemma send_inv: "ex_inv (snd (send w f s)) = ex_inv s"
  by (rule same_core_inv [OF send_snd_core])

lemma step_inv:
  assumes "ex_inv s"
  shows "ex_inv (step_event w e s)"
proof (cases e)
  case (Execute opts now)
  show ?thesis
  proof (cases "broken s \<and> \<not> shuttingDown s")
    case True
    let ?s0 = "s\<lparr>lastBrokenRetryAt := now, broken := False\<rparr>"
    have "\<not> shuttingDown ?s0" "\<not> broken ?s0" "pending ?s0 = []" "books ?s0"
      using assms True by (auto simp: ex_inv_def accounted_def split: if_splits)
    from spawn_inv [OF this, of w] have "ex_inv (spawn w ?s0)" "\<not> shuttingDown (spawn w ?s0)" by simp_all
    with assms Execute True show ?thesis by (simp add: ex_execute_def Let_def enqueue_inv)
  next
    case False
    with Execute assms show ?thesis by (auto simp: ex_execute_def intro!: enqueue_inv)
  qed
next
  case Shutdown
  have "accounted (shutdown s) = accounted s"
    by (simp add: shutdown_def Let_def settle_with_def accounted_def kill_child_def comp_def)
  with Shutdown assms show ?thesis
    by (simp add: ex_inv_def) (simp add: shutdown_def Let_def settle_with_def kill_child_def)
next
  case SnapshotTimeout
  with assms show ?thesis by (simp add: onSnapshotTimer_def Let_def unready_inv)
qed (use assms in \<open>simp_all add: onMessage_inv onGone_inv onError_def onReadyTimer_def onWatchdog_inv
      ex_beginBlock_def ex_endBlock_def Let_def send_inv\<close>)


lemma events_inv: "ex_inv s \<Longrightarrow> ex_inv (events w es s)"
  unfolding events_def by (induction es arbitrary: s) (simp_all add: step_inv)

lemma new_executor_inv: "ex_inv (new_executor w c)"
  unfolding new_executor_def
  by (rule spawn_inv [THEN conjunct1]) (simp_all add: accounted_def)

text \<open>C11. No request is lost and none is answered twice: whatever the workers, the timers and the host do and
  in whatever order, the ids the executor has given out are exactly those whose promise it settled,
  the at most one in flight and those queued, each exactly once.\<close>

theorem requests_settle_once:
  "let s = events w es (new_executor w c); ids = map fst (settled s) @ map fst (pending s) @ map rq_id (queue s)
   in distinct ids \<and> set ids = {1..<nextId s} \<and> length (pending s) \<le> 1"
proof -
  let ?s = "events w es (new_executor w c)"
  let ?ids = "map fst (settled ?s) @ map fst (pending ?s) @ map rq_id (queue ?s)"
  have i: "ex_inv ?s" by (rule events_inv [OF new_executor_inv])
  then have "mset ?ids = mset [1..<nextId ?s]" by (simp add: ex_inv_def accounted_def add.assoc)
  then have "distinct ?ids \<and> set ?ids = {1..<nextId ?s}"
    by (metis atLeastLessThan_upt distinct_upt mset_eq_imp_distinct_iff set_mset_mset)
  with i show ?thesis by (simp add: Let_def ex_inv_def)
qed


subsection \<open>Where an outcome comes from\<close>

text \<open>An answer is the well-formed reply, by the current child, to the token of the dispatch in flight. A
  termination is the watchdog's, or the current child's own death by the contract's hand, and is
  billed the ceiling of the call it ends.\<close>

definition earned :: "event \<Rightarrow> executor \<Rightarrow> nat \<Rightarrow> outcome \<Rightarrow> bool" where
  "earned e s i x \<longleftrightarrow> (\<exists>d. pending s = [(i, d)] \<and> (case x of
     Answered v \<Rightarrow> (\<exists>c msg. e = Message c msg \<and> child s = Some c \<and> js_get msg ''token'' = JStr (dp_token d)
        \<and> v = js_get msg ''result'' \<and> isResultShape v)
   | Terminated r \<Rightarrow> (\<exists>kind. r = hostTerminatedResult (dp_ceiling d) kind)
        \<and> (e = WatchdogTimeout i
           \<or> (\<exists>c code signal. e = Death c code signal \<and> child s = Some c \<and> isSelfInflicted code signal))
   | Rejected m \<Rightarrow> True))"

definition new_outcome :: "event \<Rightarrow> executor \<Rightarrow> executor \<Rightarrow> bool" where
  "new_outcome e s s' \<longleftrightarrow> (\<forall>(i, x) \<in> set (settled s'). (i, x) \<in> set (settled s) \<or> (\<exists>m. x = Rejected m) \<or> earned e s i x)"

lemma rejects_new: "only_rejects s s' \<Longrightarrow> new_outcome e s s'"
  by (auto simp: only_rejects_def new_outcome_def)

lemma settle_one_new:
  assumes "only_rejects (settle_with [(i, x)] s1) s'" "settled s1 = settled s" "(\<exists>m. x = Rejected m) \<or> earned e s i x"
  shows "new_outcome e s s'"
  using assms by (auto simp: only_rejects_def new_outcome_def settle_with_def)

lemma onExit_new:
  assumes "ex_inv s" "e = Death c code signal \<or> pending s = []"
  shows "new_outcome e s (onExit w c code signal s)"
proof (cases "child s = Some c")
  case True
  let ?s1 = "s\<lparr>child := None, readyTimer := None, snapshots := clearTimer (snapshots s)\<rparr>"
  let ?xs = "map (settle_pending (isSelfInflicted code signal) (death_kind code signal)) (pending s)"
  let ?s3 = "(settle_with ?xs ?s1)\<lparr>pending := []\<rparr>"
  have "map fst ?xs = map fst (pending s)" by (simp add: settle_pending_def)
  then have "accounted ?s3 = accounted s" by (simp add: accounted_def settle_with_def del: map_map)
  moreover have "books s" "\<not> shuttingDown s" "\<not> broken s" "sawReady s \<longrightarrow> everReady s"
    using assms(1) True by (auto simp: ex_inv_def split: if_splits)
  ultimately have r: "only_rejects ?s3 (onExit w c code signal s)"
    using afterWorkerLost_inv [of ?s3 w "\<not> everReady s"] True by (simp add: onExit_def Let_def settle_with_def)
  have j: "(\<exists>m. x = Rejected m) \<or> earned e s i x" if "(i, x) \<in> set ?xs" for i x
  proof -
    from that obtain d where d: "(i, d) \<in> set (pending s)"
      "x = snd (settle_pending (isSelfInflicted code signal) (death_kind code signal) (i, d))"
      by (auto simp: settle_pending_def)
    with one_pending [OF assms(1) d(1)] assms(2) True show ?thesis
      by (auto simp: settle_pending_def earned_def rejected_def)
  qed
  from r have "\<exists>ys. settled (onExit w c code signal s) = settled s @ ?xs @ ys \<and> (\<forall>i y. (i, y) \<in> set ys \<longrightarrow> (\<exists>m. y = Rejected m))"
    by (simp add: only_rejects_def settle_with_def)
  with j show ?thesis unfolding new_outcome_def by fastforce
qed (simp add: onExit_def rejects_new only_rejects_same)

lemma earned_gone: "earned e (s\<lparr>gone := g\<rparr>) i x = earned e s i x"
  by (cases x) (simp_all add: earned_def)

lemma onGone_new:
  assumes "ex_inv s" "e = Death c code signal \<or> pending s = []"
  shows "new_outcome e s (onGone w c code signal s)"
proof -
  have "new_outcome e (s\<lparr>gone := c # gone s\<rparr>) (onExit w c code signal (s\<lparr>gone := c # gone s\<rparr>))"
    using assms by (intro onExit_new) simp_all
  then have "new_outcome e s (onExit w c code signal (s\<lparr>gone := c # gone s\<rparr>))"
    unfolding new_outcome_def earned_gone by simp
  then show ?thesis by (simp add: onGone_def rejects_new only_rejects_same)
qed

lemma onReply_new:
  assumes "ex_inv s" "child s = Some c"
  shows "new_outcome (Message c msg) s (onReply w msg s)"
proof (cases "find_pending (js_get msg ''id'') s")
  case (Some p)
  obtain i d where p: "p = (i, d)" by fastforce
  from one_pending [OF assms(1) find_pendingD] Some p have o: "pending s = [(i, d)]" by blast
  show ?thesis
  proof (cases "replyFault msg (dp_token d)")
    case None
    let ?x = "if js_get msg ''type'' = JStr ''result'' then Answered (js_get msg ''result'')
              else rejected (host_fault_reason (js_get msg ''reason''))"
    have "onReply w msg s = flush w (settle_with [(i, ?x)] (s\<lparr>pending := []\<rparr>))"
      using Some p o None by (simp add: onReply_def)
    moreover have "(\<exists>m. ?x = Rejected m) \<or> earned (Message c msg) s i ?x"
      using None o assms(2) by (auto simp: earned_def rejected_def replyFault_def split: if_splits)
    ultimately show ?thesis
      using settle_one_new [where s = s and x = ?x and i = i and ?s1.0 = "s\<lparr>pending := []\<rparr>" and e = "Message c msg",
          OF flush_rejects] by simp
  next
    case (Some f)
    with \<open>find_pending (js_get msg ''id'') s = Some p\<close> p o show ?thesis
      by (auto simp: onReply_def onBadReply_def rejected_def new_outcome_def kill_child_def settle_with_def)
  qed
qed (simp add: onReply_def rejects_new only_rejects_same)


lemma onMessage_new:
  assumes "ex_inv s"
  shows "new_outcome (Message c msg) s (onMessage w c msg s)"
proof (cases "child s = Some c \<and> truthy msg \<and> typeof msg = ''object''")
  case True
  obtain b ch where a: "snapshot_ack msg (snapshots s) = (b, ch)" by fastforce
  have f: "new_outcome (Message c msg) s (flush w s1)" if "settled s1 = settled s" for s1
    by (rule rejects_new) (use flush_rejects [of s1 w] that in \<open>simp add: only_rejects_def\<close>)
  show ?thesis
  proof (cases b)
    case True
    with \<open>child s = Some c \<and> _\<close> a f show ?thesis by (simp add: onMessage_def)
  next
    case False
    with True a f assms show ?thesis
      by (simp add: onMessage_def onReady_def onReply_new rejects_new only_rejects_same)
  qed
qed (simp add: onMessage_def rejects_new only_rejects_same)

lemma step_new:
  assumes "ex_inv s"
  shows "new_outcome e s (step_event w e s)"
proof -
  have same: "new_outcome e' s s'" if "settled s' = settled s" for e' s'
    by (rule rejects_new [OF only_rejects_same [OF that]])
  have sent: "settled (snd (send w f s')) = settled s'" for f s'
    using send_snd_core [of w f s'] by (simp add: core_iff)
  show ?thesis
  proof (cases e)
    case (Message c msg)
    with onMessage_new [OF assms] show ?thesis by simp
  next
    case (Death c code signal)
    with onGone_new [OF assms] same show ?thesis by simp
  next
    case (ReadyTimeout c)
    have p: "pending (kill_child s) = []" if "\<not> everReady s" using assms that by (auto simp: ex_inv_def kill_child_def)
    have "new_outcome e (kill_child s) (onGone w c None (Some ''SIGKILL'') (kill_child s))" if "\<not> everReady s"
      by (rule onGone_new) (use assms p that in simp_all)
    moreover have "new_outcome e s s'" if "new_outcome e (kill_child s) s'" for s'
      using that ReadyTimeout by (auto simp: new_outcome_def kill_child_def earned_def split: outcome.splits)
    ultimately show ?thesis using ReadyTimeout same by (simp add: onReadyTimer_def)
  next
    case (WatchdogTimeout i)
    show ?thesis
    proof (cases "map_of (pending s) i")
      case (Some d)
      from one_pending [OF assms map_of_SomeD [OF this]] have "pending s = [(i, d)]" by blast
      with Some WatchdogTimeout show ?thesis
        by (auto simp: onWatchdog_def new_outcome_def earned_def settle_with_def kill_child_def)
    qed (simp add: WatchdogTimeout onWatchdog_def rejects_new only_rejects_same)
  next
    case (Execute opts now)
    have en: "only_rejects s' (snd (enqueue w opts s'))" for s'
      using flush_rejects [of "s'\<lparr>nextId := nextId s' + 1, queue := queue s' @ [r]\<rparr>" w for r]
      by (simp add: enqueue_def Let_def only_rejects_def)
    show ?thesis
    proof (cases "broken s \<and> \<not> shuttingDown s")
      case True
      let ?s0 = "s\<lparr>lastBrokenRetryAt := now, broken := False\<rparr>"
      have "\<not> shuttingDown ?s0" "\<not> broken ?s0" "pending ?s0 = []" "books ?s0"
        using assms True by (auto simp: ex_inv_def accounted_def split: if_splits)
      from spawn_inv [OF this, of w] have "only_rejects s (spawn w ?s0)" by (simp add: only_rejects_def)
      with en have "only_rejects s (snd (ex_execute w opts now s))"
        using True by (auto simp: ex_execute_def Let_def only_rejects_same intro: only_rejects_trans)
      with Execute show ?thesis by (simp add: rejects_new)
    next
      case False
      with Execute en same show ?thesis by (simp add: ex_execute_def rejects_new)
    qed
  next
    case Shutdown
    have "only_rejects s (shutdown s)"
      by (auto simp: only_rejects_def shutdown_def Let_def settle_with_def kill_child_def rejected_def)
    with Shutdown show ?thesis by (simp add: rejects_new)
  qed (simp_all add: same onError_def onSnapshotTimer_def Let_def kill_child_def ex_beginBlock_def ex_endBlock_def sent)
qed

text \<open>C12. Only the contract's own doing becomes consensus: in every run of the executor, a promise settled
  with anything but a local rejection was settled for the request in flight, either with the
  well-formed result its worker sent for that very dispatch (the random token), or with the fixed
  out-of-resource result billed at the ceiling of that call, when the watchdog fired on it or its
  worker died by a crash a contract can cause. A host's faults only ever reject.\<close>

theorem outcomes_are_earned:
  assumes "(i, x) \<in> set (settled (events w es (new_executor w c)))" "\<forall>m. x \<noteq> Rejected m"
  shows "\<exists>es1 e es2. es = es1 @ e # es2 \<and> earned e (events w es1 (new_executor w c)) i x"
  using assms(1)
proof (induction es rule: rev_induct)
  case Nil
  have "only_rejects \<lparr>config_ceiling = c, child = None, connected = False, gone = [], pending = [], queue = [], nextId = 1,
      inBlock = False, shuttingDown = False, spawnFailures = 0, sawReady = False, everReady = False,
      lastSpawnError = None, broken = False, lastBrokenRetryAt = 0, readyTimer = None,
      snapshots = new_channel, forks = 0, sends = 0, tokens = 0, outbox = [], killed = [], settled = []\<rparr> (new_executor w c)"
    unfolding new_executor_def by (rule spawn_inv [THEN conjunct2, THEN conjunct2, THEN conjunct2]) (simp_all add: accounted_def)
  with Nil assms(2) show ?case by (auto simp: events_def only_rejects_def)
next
  case (snoc e es)
  let ?s = "events w es (new_executor w c)"
  have "new_outcome e ?s (step_event w e ?s)" by (rule step_new [OF events_inv [OF new_executor_inv]])
  with snoc.prems assms(2) consider "(i, x) \<in> set (settled ?s)" | "earned e ?s i x"
    by (auto simp: new_outcome_def events_def)
  then show ?case
  proof cases
    case 1
    with snoc.IH show ?thesis by (metis append.assoc append_Cons)
  qed blast
qed


definition demo_world :: world where
  "demo_world = \<lparr>fork_error = (\<lambda>_. None), delivery_of = (\<lambda>_ _. Sent), random_token = (\<lambda>_. ''t'')\<rparr>"

definition demo_answer :: jsval where
  "demo_answer = JObj [(''success'', JBool True), (''error'', JNull), (''gasUsed'', JNum (Num 3)), (''stateChanges'', JArr []),
     (''stateDeletes'', JArr []), (''emittedActions'', JArr []), (''logs'', JArr [])]"

definition demo_reply :: jsval where
  "demo_reply = JObj [(''type'', JStr ''result''), (''id'', JNum (Num 1)), (''token'', JStr ''t''), (''result'', demo_answer)]"

definition demo_events :: "event list" where
  "demo_events = [Message 1 (JObj [(''type'', JStr ''ready'')]), Execute (JObj []) 0, Message 1 demo_reply]"

lemma demo_settled: "settled (events demo_world demo_events (new_executor demo_world 9)) = [(1, Answered demo_answer)]"
  by code_simp

theorem outcomes_are_earned_witness:
  "\<exists>es1 e es2. demo_events = es1 @ e # es2
     \<and> earned e (events demo_world es1 (new_executor demo_world 9)) 1 (Answered demo_answer)"
  by (rule outcomes_are_earned) (simp_all add: demo_settled)


subsection \<open>Nothing stalls\<close>

definition chan_ok :: "executor \<Rightarrow> bool" where
  "chan_ok s \<longleftrightarrow> (child s \<noteq> None \<and> ch_sent (snapshots s) \<and> \<not> ch_acked (snapshots s) \<longrightarrow>
     ch_timer (snapshots s) \<or> \<not> sawReady s)
     \<and> (sawReady s \<longrightarrow> everReady s) \<and> (child s \<noteq> None \<and> \<not> everReady s \<longrightarrow> \<not> ch_sent (snapshots s))"

definition awaiting_ack :: "executor \<Rightarrow> bool" where
  "awaiting_ack s \<longleftrightarrow> ch_sent (snapshots s) \<and> \<not> ch_acked (snapshots s)"

definition stopped :: "executor \<Rightarrow> bool" where
  "stopped s \<longleftrightarrow> (queue s \<noteq> [] \<longrightarrow> pending s \<noteq> [] \<or> child s = None \<or> \<not> sawReady s \<or> \<not> connected s \<or> awaiting_ack s)"

lemma send_snapshots: "send w f s = (b, s') \<Longrightarrow> snapshots s' = snapshots s"
  by (auto simp: send_def child_send_def split: if_splits prod.splits delivery.splits)

lemma child_send_snapshots: "child_send w f s = (b, s') \<Longrightarrow> snapshots s' = snapshots s \<and> (b = Broke \<longrightarrow> \<not> connected s')"
  by (auto simp: child_send_def split: if_splits delivery.splits)

lemma take_snapshot_chan:
  "ch_sent (snapshots (take_snapshot w opts s)) = ch_sent (snapshots s)"
  "ch_acked (snapshots (take_snapshot w opts s)) = ch_acked (snapshots s)"
  "ch_timer (snapshots (take_snapshot w opts s)) = ch_timer (snapshots s)"
  by (simp_all add: take_snapshot_def draw_token_def)

lemma hold_chan:
  assumes "hold w opts s = (b, s')" "chan_ok s" "sawReady s"
  shows "chan_ok s' \<and> (b \<longrightarrow> awaiting_ack s')"
proof -
  let ?s = "take_snapshot w opts s"
  obtain d s1 where sd: "send w (FSnapshot (case ch_token (snapshots ?s) of Some t \<Rightarrow> t | None \<Rightarrow> [])
      (ch_snapshot (snapshots ?s))) ?s = (d, s1)"
    by fastforce
  have k: "sawReady s' = sawReady s" "sawReady s1 = sawReady s" "sawReady ?s = sawReady s"
    "child s' = child s" "child s1 = child s" "child ?s = child s"
    "everReady s' = everReady s" "everReady s1 = everReady s" "everReady ?s = everReady s"
    using hold_core [OF assms(1)] send_core [OF sd] take_snapshot_core [of w opts s] by (simp_all add: core_iff)
  with assms(1) [unfolded hold_def Let_def sd] assms(2,3) send_snapshots [OF sd] show ?thesis
    by (cases d) (auto simp: chan_ok_def awaiting_ack_def take_snapshot_chan split: if_splits)
qed

lemma flush_queue_stopped: "chan_ok s \<Longrightarrow> chan_ok (flush_queue w q s) \<and> stopped (flush_queue w q s)"
proof (induction q arbitrary: s)
  case (Cons r rs)
  show ?case
  proof (cases "dispatchable s")
    case False
    then show ?thesis using Cons.prems by (auto simp: stopped_def dispatchable_def chan_ok_def awaiting_ack_def)
  next
    case True
    obtain b s1 where h: "hold w (rq_opts r) s = (b, s1)" by fastforce
    obtain t s2 where d: "draw_token w s1 = (t, s2)" by fastforce
    obtain o3 s3 where c: "child_send w (FExecute (rq_id r) t (reference (snapshots s2) (rq_opts r))) s2 = (o3, s3)"
      by fastforce
    from True have "sawReady s" by (simp add: dispatchable_def)
    note hc = hold_chan [OF h Cons.prems this]
    have s3: "snapshots s3 = snapshots s1" "sawReady s3 = sawReady s1" "child s3 = child s1" "everReady s3 = everReady s1" "o3 = Broke \<longrightarrow> \<not> connected s3"
      using d child_send_snapshots [OF c] child_send_core [OF c] by (auto simp: draw_token_def core_iff)
    show ?thesis
    proof (cases b)
      case b: True
      then show ?thesis using True h hc by (auto simp: stopped_def chan_ok_def awaiting_ack_def)
    next
      case b: False
      have c3: "chan_ok s3" using hc s3 by (simp add: chan_ok_def)
      show ?thesis
      proof (cases o3)
        case (Unserializable m)
        have "chan_ok (settle_with [(rq_id r, rejected (''executor input not serializable: '' @ m))] s3)"
          using c3 by (simp add: settle_with_def chan_ok_def)
        from Cons.IH [OF this] show ?thesis using True h b d c Unserializable by simp
      qed (use True h b d c c3 s3 in \<open>simp_all add: stopped_def chan_ok_def\<close>)
    qed
  qed
qed (simp add: stopped_def chan_ok_def)

lemma flush_stopped: "chan_ok s \<Longrightarrow> chan_ok (flush w s) \<and> stopped (flush w s)"
  by (simp add: flush_def flush_queue_stopped)

text \<open>The current child is known and not gone; until it is ready its timer runs, and once dispatch to it
  is closed it has been killed.\<close>

definition child_ok :: "executor \<Rightarrow> bool" where
  "child_ok s \<longleftrightarrow> (\<forall>g \<in> set (gone s). g \<le> forks s)
     \<and> (\<forall>c. child s = Some c \<longrightarrow> c \<le> forks s \<and> c \<notin> set (gone s)
          \<and> (\<not> sawReady s \<longrightarrow> readyTimer s = Some c \<and> \<not> everReady s \<or> c \<in> set (killed s)))"

definition live_inv :: "executor \<Rightarrow> bool" where
  "live_inv s \<longleftrightarrow> child_ok s \<and> chan_ok s \<and> stopped s"

lemma frame_child_ok: "frame_of s' = frame_of s \<Longrightarrow> child_ok s' = child_ok s"
  by (simp add: frame_of_def child_ok_def)

lemma flush_live: "child_ok s \<Longrightarrow> chan_ok s \<Longrightarrow> live_inv (flush w s)"
  using flush_stopped [of s w] flushed_frame [OF flush_flushed [of s w]] frame_child_ok [of "flush w s" s]
  by (simp add: live_inv_def)

lemma latch_live: "child_ok s \<Longrightarrow> chan_ok s \<Longrightarrow> live_inv (latch s)"
  by (simp add: live_inv_def latch_def settle_with_def child_ok_def chan_ok_def stopped_def)

lemma send_live: "sawReady s = False \<or> queue s = [] \<Longrightarrow> live_inv s \<Longrightarrow> live_inv (snd (send w f s))"
proof -
  assume a: "sawReady s = False \<or> queue s = []" "live_inv s"
  obtain b s' where sd: "send w f s = (b, s')" by fastforce
  from send_core [OF sd] send_snapshots [OF sd] a have "live_inv s'"
    using frame_child_ok [OF core_frame, of s' s]
    by (auto simp: live_inv_def chan_ok_def stopped_def awaiting_ack_def core_iff)
  with sd show ?thesis by simp
qed

lemma spawn_live:
  assumes "\<not> shuttingDown s" "\<forall>g \<in> set (gone s). g \<le> forks s"
  shows "live_inv (spawn w s)"
  using assms
proof (induction w s rule: spawn.induct)
  case (1 w s)
  show ?case
  proof (cases "fork_error w (forks s)")
    case None
    let ?b = "before_fork s"
    let ?s1 = "?b\<lparr>child := Some (forks ?b), connected := True, lastSpawnError := None, readyTimer := Some (forks ?b)\<rparr>"
    have l1: "live_inv ?s1 \<and> sawReady ?s1 = False" using "1.prems"
      by (force simp: live_inv_def child_ok_def chan_ok_def stopped_def before_fork_def workerSpawned_def)
    obtain b2 s2 where s2: "send w FInit ?s1 = (b2, s2)" by fastforce
    have l2: "live_inv s2 \<and> sawReady s2 = False"
      using send_live [of ?s1 w FInit] l1 s2 send_core [OF s2] by (simp add: core_iff)
    then have "live_inv (snd (send w FBeginBlock s2))" by (simp add: send_live)
    with l2 s2 have "live_inv (start_child w ?b)" by (simp add: start_child_def Let_def)
    then show ?thesis using "1.prems"(1) None by (simp add: spawn.simps [of w s])
  next
    case (Some e)
    let ?s1 = "(before_fork s)\<lparr>child := None, lastSpawnError := Some (if e = [] then ''spawn error'' else e),
                 spawnFailures := spawnFailures s + 1\<rparr>"
    have g: "\<not> shuttingDown ?s1" "\<forall>g \<in> set (gone ?s1). g \<le> forks ?s1" using "1.prems"
      by (auto simp: before_fork_def le_Suc_eq)
    show ?thesis
    proof (cases "MAX_CONSECUTIVE_SPAWN_FAILURES \<le> spawnFailures ?s1")
      case True
      have "live_inv (latch ?s1)" using g(2)
        by (intro latch_live) (auto simp: child_ok_def chan_ok_def before_fork_def workerSpawned_def)
      with True show ?thesis using "1.prems"(1) Some by (simp add: spawn.simps [of w s] Let_def)
    next
      case False
      with "1.IH" [OF "1.prems"(1) Some refl False g] "1.prems"(1) Some show ?thesis
        by (simp add: spawn.simps [of w s] Let_def)
    qed
  qed
qed


lemma afterWorkerLost_live:
  assumes "\<not> shuttingDown s" "\<forall>g \<in> set (gone s). g \<le> forks s" "child s = None" "sawReady s \<longrightarrow> everReady s"
  shows "live_inv (afterWorkerLost w b s)"
proof -
  let ?s1 = "if b then s\<lparr>spawnFailures := spawnFailures s + 1\<rparr> else s"
  have "child_ok ?s1" "chan_ok ?s1" using assms by (simp_all add: child_ok_def chan_ok_def)
  from latch_live [OF this] spawn_live [of ?s1 w] assms show ?thesis
    by (auto simp: afterWorkerLost_def Let_def)
qed

lemma onGone_live:
  assumes "ex_inv s" "live_inv s" "c \<le> forks s"
  shows "live_inv (onGone w c code signal s)"
proof (cases "c \<in> set (gone s)")
  case False
  let ?g = "s\<lparr>gone := c # gone s\<rparr>"
  show ?thesis
  proof (cases "child s = Some c")
    case True
    let ?s3 = "(settle_with (map (settle_pending (isSelfInflicted code signal) (death_kind code signal)) (pending s))
        (?g\<lparr>child := None, readyTimer := None, snapshots := clearTimer (snapshots s)\<rparr>))\<lparr>pending := []\<rparr>"
    have "\<not> shuttingDown s" using assms(1) True by (auto simp: ex_inv_def split: if_splits)
    moreover have "\<forall>g \<in> set (gone ?s3). g \<le> forks ?s3" "child ?s3 = None"
      using assms by (auto simp: settle_with_def live_inv_def child_ok_def)
    ultimately have "live_inv (afterWorkerLost w (\<not> everReady ?s3) ?s3)"
      using assms(2) by (intro afterWorkerLost_live) (simp_all add: settle_with_def live_inv_def chan_ok_def)
    with True False show ?thesis by (simp add: onGone_def onExit_def Let_def settle_with_def)
  next
    case other: False
    with False assms show ?thesis
      by (auto simp: onGone_def onExit_def live_inv_def child_ok_def chan_ok_def stopped_def awaiting_ack_def)
  qed
qed (simp add: onGone_def assms)


text \<open>A block begins and ends with nothing waiting: the host awaits its executions.\<close>

fun disciplined :: "world \<Rightarrow> event list \<Rightarrow> executor \<Rightarrow> bool" where
  "disciplined w [] s = True"
| "disciplined w (e # es) s =
     (((e = BeginBlock \<or> e = EndBlock) \<longrightarrow> queue s = []) \<and> disciplined w es (step_event w e s))"

lemma unready_live:
  assumes "live_inv s"
  shows "live_inv ((kill_child (s\<lparr>pending := p, settled := x\<rparr>))\<lparr>sawReady := False\<rparr>)"
  using assms by (auto simp: live_inv_def child_ok_def chan_ok_def stopped_def kill_child_def)

lemma onReply_live:
  assumes "ex_inv s" "live_inv s" "child s \<noteq> None"
  shows "live_inv (onReply w msg s)"
proof (cases "find_pending (js_get msg ''id'') s")
  case (Some p)
  obtain i d where p: "p = (i, d)" by fastforce
  show ?thesis
  proof (cases "replyFault msg (dp_token d)")
    case None
    let ?t = "settle_with [(i, if js_get msg ''type'' = JStr ''result'' then Answered (js_get msg ''result'')
        else rejected (host_fault_reason (js_get msg ''reason'')))] (s\<lparr>pending := filter (\<lambda>p. fst p \<noteq> i) (pending s)\<rparr>)"
    have "child_ok ?t" "chan_ok ?t"
      using assms(2) by (simp_all add: live_inv_def child_ok_def chan_ok_def settle_with_def)
    from flush_live [OF this] show ?thesis using Some p None by (simp add: onReply_def)
  next
    case (Some f)
    then show ?thesis using \<open>find_pending (js_get msg ''id'') s = _\<close> p unready_live [OF assms(2)]
      by (simp add: onReply_def onBadReply_def settle_with_def)
  qed
qed (simp add: onReply_def assms)

lemma onMessage_live:
  assumes "ex_inv s" "live_inv s"
  shows "live_inv (onMessage w c msg s)"
proof (cases "child s = Some c \<and> truthy msg \<and> typeof msg = ''object''")
  case True
  obtain b ch where a: "snapshot_ack msg (snapshots s) = (b, ch)" by fastforce
  show ?thesis
  proof (cases b)
    case t: True
    from a t have "ch_sent ch = ch_sent (snapshots s)" "ch_timer ch = ch_timer (snapshots s) \<or> ch_acked ch"
      "ch_acked (snapshots s) \<longrightarrow> ch_acked ch"
      by (auto simp: snapshot_ack_def clearTimer_def split: if_splits)
    with assms(2) have "child_ok (s\<lparr>snapshots := ch\<rparr>)" "chan_ok (s\<lparr>snapshots := ch\<rparr>)"
      by (auto simp: live_inv_def child_ok_def chan_ok_def)
    from flush_live [OF this] True a t show ?thesis by (simp add: onMessage_def)
  next
    case False
    have "live_inv (onReady w s)"
    proof (cases "everReady s")
      case ev: False
      let ?r = "s\<lparr>sawReady := True, everReady := True, spawnFailures := 0, lastSpawnError := None, readyTimer := None\<rparr>"
      have "child_ok ?r" "chan_ok ?r"
        using assms(2) ev by (auto simp: live_inv_def child_ok_def chan_ok_def)
      from flush_live [OF this] ev show ?thesis by (simp add: onReady_def)
    qed (simp add: onReady_def assms)
    with False True a assms onReply_live [OF assms] show ?thesis by (simp add: onMessage_def)
  qed
qed (auto simp: onMessage_def assms)


lemma unanswered_live:
  assumes "ex_inv s" "live_inv s" "(e = BeginBlock \<or> e = EndBlock) \<longrightarrow> queue s = []"
  shows "live_inv (step_event w e s)"
proof (cases e)
  case (Message c msg)
  with onMessage_live [OF assms(1,2)] show ?thesis by simp
next
  case (Death c code signal)
  with onGone_live [OF assms(1,2)] assms(2) show ?thesis by simp
next
  case (ErrorEvent syscall code)
  with assms(2) show ?thesis by (auto simp: onError_def live_inv_def child_ok_def chan_ok_def stopped_def awaiting_ack_def)
next
  case (ReadyTimeout c)
  show ?thesis
  proof (cases "readyTimer s = Some c \<and> \<not> everReady s \<and> child s = Some c")
    case True
    have "live_inv (kill_child s)" using assms(2)
      by (auto simp: kill_child_def live_inv_def child_ok_def chan_ok_def stopped_def awaiting_ack_def)
    moreover have "c \<le> forks (kill_child s)" using True assms(2) by (simp add: kill_child_def live_inv_def child_ok_def)
    ultimately show ?thesis using True ReadyTimeout onGone_live [of "kill_child s" c w] assms(1)
      by (simp add: onReadyTimer_def)
  next
    case False
    with ReadyTimeout assms(2) show ?thesis by (auto simp: onReadyTimer_def)
  qed
next
  case (WatchdogTimeout i)
  with assms(2) unready_live [OF assms(2)] show ?thesis
    by (auto simp: onWatchdog_def settle_with_def split: option.split)
next
  case SnapshotTimeout
  with assms(2) show ?thesis
    by (auto simp: onSnapshotTimer_def Let_def clearTimer_def kill_child_def live_inv_def child_ok_def chan_ok_def
        stopped_def awaiting_ack_def)
next
  case (Disconnect c)
  with assms(2) show ?thesis by (auto simp: live_inv_def child_ok_def chan_ok_def stopped_def awaiting_ack_def)
next
  case BeginBlock
  have "live_inv (s\<lparr>inBlock := True, snapshots := channel_beginBlock (snapshots s)\<rparr>)" using assms BeginBlock
    by (auto simp: live_inv_def child_ok_def chan_ok_def stopped_def channel_beginBlock_def workerSpawned_def)
  with send_live [OF _ this] assms(3) BeginBlock show ?thesis by (simp add: ex_beginBlock_def)
next
  case EndBlock
  let ?s1 = "snd (send w FEndBlock (s\<lparr>inBlock := False\<rparr>))"
  have "live_inv (s\<lparr>inBlock := False\<rparr>)" using assms(2)
    by (auto simp: live_inv_def child_ok_def chan_ok_def stopped_def awaiting_ack_def)
  with send_live [OF _ this] assms(3) EndBlock have l: "live_inv ?s1" by simp
  have "queue ?s1 = []" using send_snd_core [of w FEndBlock "s\<lparr>inBlock := False\<rparr>"] assms(3) EndBlock by (simp add: core_iff)
  with l EndBlock show ?thesis
    by (auto simp: ex_endBlock_def Let_def live_inv_def child_ok_def chan_ok_def stopped_def channel_beginBlock_def workerSpawned_def)
next
  case (Execute opts now)
  have en: "live_inv (snd (enqueue w opts s'))" if "live_inv s'" for s'
  proof -
    have "child_ok (s'\<lparr>nextId := nextId s' + 1, queue := queue s' @ [r]\<rparr>)" "chan_ok (s'\<lparr>nextId := nextId s' + 1, queue := queue s' @ [r]\<rparr>)" for r
      using that by (simp_all add: live_inv_def child_ok_def chan_ok_def)
    from flush_live [OF this] show ?thesis by (simp add: enqueue_def Let_def)
  qed
  have sp: "live_inv (spawn w (s\<lparr>lastBrokenRetryAt := now, broken := False\<rparr>))" if "\<not> shuttingDown s"
    using that assms(2) by (intro spawn_live) (simp_all add: live_inv_def child_ok_def)
  with Execute assms(2) en show ?thesis by (auto simp: ex_execute_def Let_def)
next
  case Shutdown
  with assms(2) show ?thesis
    by (auto simp: shutdown_def Let_def settle_with_def kill_child_def clearTimer_def live_inv_def child_ok_def chan_ok_def stopped_def)
qed

lemma events_live: "ex_inv s \<Longrightarrow> live_inv s \<Longrightarrow> disciplined w es s \<Longrightarrow> live_inv (events w es s)"
  unfolding events_def by (induction es arbitrary: s) (auto simp: step_inv unanswered_live)


text \<open>C13. No request stalls: as long as blocks begin and end with nothing waiting, whenever a request is queued
  the executor is neither broken nor shut down, and either one is in flight, under its watchdog, or
  there is a live child, whose death will be heard, that is still starting under its ready timer, or
  was killed, or lost its channel, or owes the snapshot's acknowledgement under its timer.\<close>

theorem no_request_stalls:
  assumes "disciplined w es (new_executor w c)" "queue (events w es (new_executor w c)) \<noteq> []"
  shows "let s = events w es (new_executor w c) in \<not> broken s \<and> \<not> shuttingDown s
     \<and> (pending s \<noteq> []
        \<or> (\<exists>k. child s = Some k \<and> k \<notin> set (gone s) \<and> k \<le> forks s
             \<and> (readyTimer s = Some k \<or> k \<in> set (killed s) \<or> \<not> connected s \<or> ch_timer (snapshots s))))"
proof -
  let ?s = "events w es (new_executor w c)"
  have "live_inv (new_executor w c)" unfolding new_executor_def by (rule spawn_live) simp_all
  from events_live [OF new_executor_inv this assms(1)] have l: "live_inv ?s" .
  have i: "ex_inv ?s" by (rule events_inv [OF new_executor_inv])
  with assms(2) have b: "\<not> broken ?s" "\<not> shuttingDown ?s" "child ?s \<noteq> None" by (auto simp: ex_inv_def split: if_splits)
  then obtain k where k: "child ?s = Some k" by blast
  with l have ck: "k \<le> forks ?s" "k \<notin> set (gone ?s)" "\<not> sawReady ?s \<longrightarrow> readyTimer ?s = Some k \<or> k \<in> set (killed ?s)"
    "awaiting_ack ?s \<longrightarrow> ch_timer (snapshots ?s) \<or> \<not> sawReady ?s"
    "pending ?s \<noteq> [] \<or> \<not> sawReady ?s \<or> \<not> connected ?s \<or> awaiting_ack ?s"
    using assms(2) by (auto simp: live_inv_def child_ok_def chan_ok_def awaiting_ack_def stopped_def)
  with b k show ?thesis unfolding Let_def by blast
qed

definition slow_start :: "event list" where
  "slow_start = [BeginBlock, Execute (JObj []) 0, Execute (JObj []) 0]"

theorem no_request_stalls_witness:
  "readyTimer (events demo_world slow_start (new_executor demo_world 9)) = Some 1
   \<and> \<not> broken (events demo_world slow_start (new_executor demo_world 9))"
proof -
  have d: "disciplined demo_world slow_start (new_executor demo_world 9)" by code_simp
  have q: "queue (events demo_world slow_start (new_executor demo_world 9)) \<noteq> []" by code_simp
  have "readyTimer (events demo_world slow_start (new_executor demo_world 9)) = Some 1" by code_simp
  with no_request_stalls [OF d q] show ?thesis by (simp add: Let_def)
qed

end
