(* ===== verification/Worker.thy ===== *)
theory Worker
  imports PipelineProps ExecutorProps
begin

text \<open>
  The child side of subprocess execution (src/vm-worker.js), the object a result is on the wire, and
  the process-wide cap on live executors (src/index.js). A subprocess node refines an in-process
  one: what the executor settles for a dispatched call is the result the same machine would have
  committed in process, and a rejection where it would have committed none.
\<close>

subsection \<open>Results on the wire\<close>

definition or_null :: "string option \<Rightarrow> jsval" where
  "or_null x = (case x of Some t \<Rightarrow> JStr t | None \<Rightarrow> JNull)"

definition result_object :: "result \<Rightarrow> jsval" where
  "result_object r = JObj
     [(''success'', JBool (success r)), (''error'', or_null (error_msg r)), (''gasUsed'', JNum (Num (gasUsed r))),
      (''returnValue'', or_null (returnValue r)),
      (''stateChanges'', JArr (map (\<lambda>(k, v). JObj [(''key'', k), (''value'', v)]) (stateChanges r))),
      (''stateDeletes'', JArr (stateDeletes r)),
      (''emittedActions'', JArr (map (\<lambda>(a, p). JObj [(''action'', JStr a), (''params'', p)]) (emittedActions r))),
      (''logs'', JArr (map JStr (result_logs r)))]"

subsection \<open>The worker\<close>

datatype worker_act = Reply jsval | ExitProcess int

definition fault_reason :: "exn \<Rightarrow> string" where
  "fault_reason e = utf16_take 200 (if exn_message e = [] then ''executor unavailable'' else exn_message e)"

fun is_host_fault :: "exn \<Rightarrow> bool" where
  "is_host_fault (HostFaultError _) = True"
| "is_host_fault _ = False"

definition handleExecuteMessage :: "'n machine \<Rightarrow> nat \<Rightarrow> string \<Rightarrow> jsval \<Rightarrow> vm \<Rightarrow> worker_act \<times> vm" where
  "handleExecuteMessage k i token opts m =
     (case execute k opts m of
        (Inr r, m') \<Rightarrow>
          (Reply (JObj [(''type'', JStr ''result''), (''id'', JNum (Num (of_nat i))), (''token'', JStr token),
                        (''result'', result_object r)]), m')
      | (Inl e, m') \<Rightarrow>
          (if is_host_fault e \<or> isHostFaultHaltActive (net_of opts) (coin_of opts) (block_number opts ''height'')
           then Reply (JObj [(''type'', JStr ''hostfault''), (''id'', JNum (Num (of_nat i))), (''token'', JStr token),
                             (''reason'', JStr (fault_reason e))])
           else ExitProcess 1, m'))"

subsection \<open>Live executors\<close>

definition DEFAULT_MAX_LIVE_EXECUTORS :: nat where "DEFAULT_MAX_LIVE_EXECUTORS = 64"

definition live_cap :: "jsval \<Rightarrow> nat" where
  "live_cap configuredCap = (case configuredCap of
     JNum (Num r) \<Rightarrow> if rat_integral r \<and> 0 < r then nat \<lfloor>r\<rfloor> else DEFAULT_MAX_LIVE_EXECUTORS
   | _ \<Rightarrow> DEFAULT_MAX_LIVE_EXECUTORS)"

definition reserveExecutorSlot :: "jsval \<Rightarrow> nat \<Rightarrow> (string, nat) sum" where
  "reserveExecutorSlot configuredCap liveExecutors =
     (if live_cap configuredCap \<le> liveExecutors
      then Inl (''ProcessExecutor live worker cap reached ('' @ nat_text (live_cap configuredCap)
             @ '' executors not shut down); call shutdown() on VMs you are done with'')
      else Inr (liveExecutors + 1))"

text \<open>The closure that gives the slot back, once.\<close>

definition release_slot :: "bool \<times> nat \<Rightarrow> bool \<times> nat" where
  "release_slot = (\<lambda>(released, taken). if released then (released, taken) else (True, taken - 1))"

text \<open>A process's machines: for each, whether its slot was released.\<close>

datatype slot_op = Reserve jsval | Release nat

fun slot_step :: "slot_op \<Rightarrow> nat \<times> bool list \<Rightarrow> nat \<times> bool list" where
  "slot_step (Reserve cap) (taken, rs) =
     (case reserveExecutorSlot cap taken of Inl _ \<Rightarrow> (taken, rs) | Inr l \<Rightarrow> (l, rs @ [False]))"
| "slot_step (Release i) (taken, rs) =
     (if i < length rs then (case release_slot (rs ! i, taken) of (r, l) \<Rightarrow> (l, rs[i := r])) else (taken, rs))"

definition held :: "bool list \<Rightarrow> nat" where
  "held rs = length (filter Not rs)"

lemma held_release: "i < length rs \<Longrightarrow> \<not> rs ! i \<Longrightarrow> held (rs[i := True]) = held rs - 1 \<and> 0 < held rs"
proof (induction rs arbitrary: i)
  case (Cons r rs)
  then show ?case by (cases i) (auto simp: held_def)
qed simp

lemma slots_counted:
  assumes "fst st = held (snd st)" "fst st \<le> n" "\<forall>op \<in> set ops. \<forall>cap. op = Reserve cap \<longrightarrow> live_cap cap \<le> n"
  shows "fst (fold slot_step ops st) = held (snd (fold slot_step ops st)) \<and> fst (fold slot_step ops st) \<le> n"
  using assms
proof (induction ops arbitrary: st)
  case (Cons op ops)
  obtain taken rs where st: "st = (taken, rs)" by fastforce
  have "fst (slot_step op st) = held (snd (slot_step op st)) \<and> fst (slot_step op st) \<le> n"
  proof (cases op)
    case (Reserve cap)
    with Cons.prems st show ?thesis by (auto simp: reserveExecutorSlot_def held_def)
  next
    case (Release i)
    have "rs ! i \<Longrightarrow> rs[i := True] = rs" by (metis list_update_id)
    with Release Cons.prems st held_release [of i rs] show ?thesis
      by (cases "rs ! i") (auto simp: release_slot_def list_update_same_conv)
  qed
  with Cons.IH [of "slot_step op st"] Cons.prems(3) show ?case by simp
qed simp

subsection \<open>The refinement\<close>

lemma result_object_shape: "0 \<le> gasUsed r \<Longrightarrow> isResultShape (result_object r)"
  by (cases "error_msg r") (simp_all add: isResultShape_def result_object_def js_get_def or_null_def)

lemma reply_get:
  "js_get (JObj [(''type'', a), (''id'', b), (''token'', c), (x, d)]) ''type'' = a"
  "js_get (JObj [(''type'', a), (''id'', b), (''token'', c), (x, d)]) ''id'' = b"
  "js_get (JObj [(''type'', a), (''id'', b), (''token'', c), (x, d)]) ''token'' = c"
  "js_get (JObj [(''type'', a), (''id'', b), (''token'', c), (''result'', d)]) ''result'' = d"
  "js_get (JObj [(''type'', a), (''id'', b), (''token'', c), (''reason'', d)]) ''reason'' = d"
  by (simp_all add: js_get_def)

lemma reply_settles:
  assumes "pending s = [(i, d)]" "child s = Some c"
    and "msg = JObj [(''type'', JStr t), (''id'', JNum (Num (of_nat i))), (''token'', JStr (dp_token d)), (x, v)]"
    and "t = ''result'' \<and> x = ''result'' \<and> isResultShape v \<or> t = ''hostfault'' \<and> x = ''reason''"
  shows "\<exists>y. (i, y) \<in> set (settled (step_event w (Message c msg) s))
     \<and> (if t = ''result'' then y = Answered v else \<exists>why. y = Rejected why)"
proof -
  let ?y = "if js_get msg ''type'' = JStr ''result'' then Answered (js_get msg ''result'')
            else rejected (host_fault_reason (js_get msg ''reason''))"
  have f: "find_pending (js_get msg ''id'') s = Some (i, d)" using assms(1,3) by (simp add: find_pending_def reply_get)
  have rf: "replyFault msg (dp_token d) = None" using assms(3,4) by (auto simp: replyFault_def reply_get)
  have "step_event w (Message c msg) s = onReply w msg s"
    using assms(2-4) by (auto simp: onMessage_def snapshot_ack_def reply_get)
  also have "\<dots> = flush w (settle_with [(i, ?y)] (s\<lparr>pending := []\<rparr>))"
    using f rf assms(1) by (simp add: onReply_def)
  finally have "(i, ?y) \<in> set (settled (step_event w (Message c msg) s))"
    using flush_rejects [of "settle_with [(i, ?y)] (s\<lparr>pending := []\<rparr>)" w] by (auto simp: only_rejects_def settle_with_def)
  moreover have "if t = ''result'' then ?y = Answered v else \<exists>why. ?y = Rejected why"
    using assms(3,4) by (auto simp: reply_get rejected_def)
  ultimately show ?thesis by blast
qed




end
