(* ===== verification/Ids.thy ===== *)
theory Ids
  imports Attest
begin

text \<open>
  Uniqueness of the request and call ids: the preimages of src/gateway-emit.js determine the
  fields they are built from, so two emissions collide only if the digest does.
\<close>

subsection \<open>No separator inside a field\<close>

definition no_colon :: "string \<Rightarrow> bool" where
  "no_colon s \<longleftrightarrow> CHR '':'' \<notin> set s"

lemma no_colon_nat [simp]: "no_colon (nat_text n)"
  using nat_text_no_special(2) by (simp add: no_colon_def)

lemma no_colon_int [simp]: "no_colon (int_text i)"
  using int_text_no_colon by (simp add: no_colon_def)

lemma no_colon_append [simp]: "no_colon (a @ b) \<longleftrightarrow> no_colon a \<and> no_colon b"
  by (auto simp: no_colon_def)

lemma no_colon_Cons [simp]: "no_colon (c # b) \<longleftrightarrow> c \<noteq> CHR '':'' \<and> no_colon b"
  by (auto simp: no_colon_def)

lemma no_colon_Nil [simp]: "no_colon []"
  by (simp add: no_colon_def)

lemma no_colon_parts: "no_colon s \<Longrightarrow> no_colon (take n s)" "no_colon s \<Longrightarrow> no_colon (drop n s)"
  by (auto simp: no_colon_def dest: in_set_takeD in_set_dropD)

lemma no_colon_replicate [simp]: "c \<noteq> CHR '':'' \<Longrightarrow> no_colon (replicate n c)"
  by (simp add: no_colon_def)

lemma no_colon_pos_text: "no_colon (pos_text r)"
  by (auto simp: pos_text_def Let_def sign_text_def no_colon_parts split: prod.split)

lemma no_colon_num_text [simp]: "no_colon (num_text n)"
  by (cases n) (auto simp: no_colon_pos_text)

lemma split_fields:
  "no_colon a \<Longrightarrow> split_on (CHR '':'') (a @ CHR '':'' # b) = a # split_on (CHR '':'') b"
  "no_colon a \<Longrightarrow> split_on (CHR '':'') a = [a]"
  by (simp_all add: no_colon_def split_on_sep split_on_no_sep)

subsection \<open>The fields of a preimage\<close>

definition text_field :: "jsval \<Rightarrow> string res" where
  "text_field v = to_str (js_or v (JStr []))"

definition root_field :: "jsval \<Rightarrow> string res" where
  "root_field v = rbind (normalizeRootDiscriminator v) to_str"

definition index_field :: "jsval \<Rightarrow> string res" where
  "index_field v = rbind (number_or_empty v) to_str"

lemma no_colon_digits: "list_all is_digit s \<Longrightarrow> no_colon s"
  using is_digit_not_special by (auto simp: no_colon_def list_all_iff)

lemma no_colon_composite: "composite_root s \<Longrightarrow> no_colon s"
proof -
  assume c: "composite_root s"
  have "no_colon (takeWhile is_digit s)"
    by (rule no_colon_digits) (auto simp: list_all_iff dest: set_takeWhileD)
  moreover from c obtain r where r: "dropWhile is_digit s = CHR ''.'' # r" "list_all is_digit r"
    by (cases "dropWhile is_digit s") (auto simp: composite_root_def Let_def)
  ultimately have nc: "no_colon (takeWhile is_digit s @ CHR ''.'' # r)"
    by (simp add: no_colon_digits)
  have e: "takeWhile is_digit s @ CHR ''.'' # r = s"
    using r(1) takeWhile_dropWhile_id [of is_digit s] by simp
  from nc show ?thesis unfolding e .
qed

lemma root_field_no_colon: "root_field v = Inr t \<Longrightarrow> no_colon t"
  by (auto simp: root_field_def normalizeRootDiscriminator_def rbind_Inr_iff no_colon_composite
      split: if_splits simp del: num_text.simps)

lemma index_field_no_colon: "index_field v = Inr t \<Longrightarrow> no_colon t"
  by (auto simp: index_field_def number_or_empty_def rbind_Inr_iff split: if_splits simp del: num_text.simps)

lemma request_fields:
  "buildRequestIdPreimage tx vout path idx e = Inr s \<longleftrightarrow>
     (\<exists>t r i. text_field tx = Inr t \<and> root_field vout = Inr r \<and> index_field idx = Inr i
        \<and> s = t @ '':'' @ r @ '':'' @ string_or_empty path @ '':'' @ i @ '':'' @ nat_text e)"
  by (auto simp: buildRequestIdPreimage_def text_field_def root_field_def index_field_def rbind_Inr_iff)

lemma call_fields:
  "buildCallIdPreimage net src tx vout idx path e dst = Inr s \<longleftrightarrow>
     (\<exists>n t r i. text_field net = Inr n \<and> text_field tx = Inr t \<and> root_field vout = Inr r
        \<and> index_field idx = Inr i
        \<and> s = n @ '':'' @ src @ '':'' @ t @ '':'' @ r @ '':'' @ i @ '':'' @ string_or_empty path
              @ '':'' @ nat_text e @ '':'' @ dst)"
  by (auto simp: buildCallIdPreimage_def text_field_def root_field_def index_field_def rbind_Inr_iff)

definition colon_free :: "jsval \<Rightarrow> bool" where
  "colon_free v \<longleftrightarrow> (\<forall>t. text_field v = Inr t \<longrightarrow> no_colon t)"

lemma same_fields:
  assumes "a @ '':'' @ b = a' @ '':'' @ b'" "no_colon a" "no_colon a'"
  shows "a = a' \<and> b = b'"
  using assms
proof (induction a arbitrary: a')
  case Nil
  then show ?case by (cases a') auto
next
  case (Cons c a)
  then show ?case by (cases a') auto
qed



text \<open>The cross-chain call preimage is injective: it determines the network, both chains, the
  transaction, the root discriminator, the contract, the call path and the emission index, so a
  call can neither collide with nor replay as another on a chain that shares transaction hashes.\<close>

theorem call_preimage_injective:
  assumes "buildCallIdPreimage net src tx vout idx path e dst = Inr s"
    and "buildCallIdPreimage net' src' tx' vout' idx' path' e' dst' = Inr s"
    and "colon_free net" "colon_free net'" "colon_free tx" "colon_free tx'" "no_colon src" "no_colon src'"
    and "no_colon (string_or_empty path)" "no_colon (string_or_empty path')"
  shows "text_field net = text_field net' \<and> src = src' \<and> text_field tx = text_field tx'
     \<and> root_field vout = root_field vout' \<and> index_field idx = index_field idx'
     \<and> string_or_empty path = string_or_empty path' \<and> e = e' \<and> dst = dst'"
proof -
  from assms(1) obtain n t r i where f: "text_field net = Inr n" "text_field tx = Inr t"
    "root_field vout = Inr r" "index_field idx = Inr i"
    and s: "s = n @ '':'' @ src @ '':'' @ t @ '':'' @ r @ '':'' @ i @ '':'' @ string_or_empty path
              @ '':'' @ nat_text e @ '':'' @ dst"
    unfolding call_fields by blast
  from assms(2) obtain n' t' r' i' where f': "text_field net' = Inr n'" "text_field tx' = Inr t'"
    "root_field vout' = Inr r'" "index_field idx' = Inr i'"
    and s': "s = n' @ '':'' @ src' @ '':'' @ t' @ '':'' @ r' @ '':'' @ i' @ '':'' @ string_or_empty path'
              @ '':'' @ nat_text e' @ '':'' @ dst'"
    unfolding call_fields by blast
  have c: "no_colon n" "no_colon n'" "no_colon t" "no_colon t'" "no_colon r" "no_colon r'"
    "no_colon i" "no_colon i'"
    using f f' assms(3-6) by (auto simp: colon_free_def dest: root_field_no_colon index_field_no_colon)
  from same_fields [OF trans [OF s [symmetric] s'] c(1,2)] have 1: "n = n'" and a: "src @ '':'' @ t @ '':''
      @ r @ '':'' @ i @ '':'' @ string_or_empty path @ '':'' @ nat_text e @ '':'' @ dst
    = src' @ '':'' @ t' @ '':'' @ r' @ '':'' @ i' @ '':'' @ string_or_empty path' @ '':'' @ nat_text e' @ '':'' @ dst'"
    by auto
  from same_fields [OF a assms(7,8)] have 2: "src = src'" and b: "t @ '':'' @ r @ '':'' @ i @ '':''
      @ string_or_empty path @ '':'' @ nat_text e @ '':'' @ dst
    = t' @ '':'' @ r' @ '':'' @ i' @ '':'' @ string_or_empty path' @ '':'' @ nat_text e' @ '':'' @ dst'" by auto
  from same_fields [OF b c(3,4)] have 3: "t = t'" and d: "r @ '':'' @ i @ '':'' @ string_or_empty path
      @ '':'' @ nat_text e @ '':'' @ dst
    = r' @ '':'' @ i' @ '':'' @ string_or_empty path' @ '':'' @ nat_text e' @ '':'' @ dst'" by auto
  from same_fields [OF d c(5,6)] have 4: "r = r'" and g: "i @ '':'' @ string_or_empty path @ '':'' @ nat_text e @ '':'' @ dst
    = i' @ '':'' @ string_or_empty path' @ '':'' @ nat_text e' @ '':'' @ dst'" by auto
  from same_fields [OF g c(7,8)] have 5: "i = i'" and k: "string_or_empty path @ '':'' @ nat_text e @ '':'' @ dst
    = string_or_empty path' @ '':'' @ nat_text e' @ '':'' @ dst'" by auto
  from same_fields [OF k assms(9,10)] have 6: "string_or_empty path = string_or_empty path'"
    and l: "nat_text e @ '':'' @ dst = nat_text e' @ '':'' @ dst'" by auto
  from same_fields [OF l] have "nat_text e = nat_text e'" "dst = dst'" by simp_all
  with 1 2 3 4 5 6 f f' show ?thesis by simp
qed

theorem call_preimage_injective_witness:
  "buildCallIdPreimage (JStr ''regtest'') ''BTC'' (JStr ''ab'') JNull JNull (JStr []) 0 ''DOGE''
     \<noteq> buildCallIdPreimage (JStr ''regtest'') ''LTC'' (JStr ''ab'') JNull JNull (JStr []) 0 ''DOGE''"
proof
  let ?p = "\<lambda>c. buildCallIdPreimage (JStr ''regtest'') c (JStr ''ab'') JNull JNull (JStr []) 0 ''DOGE''"
  assume eq: "?p ''BTC'' = ?p ''LTC''"
  have "\<exists>s. ?p ''BTC'' = Inr s"
    by (simp add: call_fields text_field_def root_field_def index_field_def js_or_def
        normalizeRootDiscriminator_def number_or_empty_def)
  then obtain s where s: "?p ''BTC'' = Inr s" by blast
  have "colon_free (JStr ''regtest'')" "colon_free (JStr ''ab'')"
    by (simp_all add: colon_free_def text_field_def js_or_def)
  then have "''BTC'' = ''LTC''"
    using call_preimage_injective [OF s s [unfolded eq]] by simp
  then show False by simp
qed

text \<open>The subcommands of a batch get different ids: the composite discriminators of one output at
  two positions are kept as text, where folding them through a number would make 3.1 of 3.10.\<close>

theorem batch_positions_distinct:
  assumes "i \<noteq> j"
    and "buildRequestIdPreimage tx (JStr (nat_text v @ ''.'' @ nat_text i)) path idx e = Inr s"
    and "buildRequestIdPreimage tx (JStr (nat_text v @ ''.'' @ nat_text j)) path idx e = Inr s'"
  shows "s \<noteq> s'"
proof
  assume "s = s'"
  have comp: "root_field (JStr (nat_text v @ ''.'' @ nat_text k)) = Inr (nat_text v @ ''.'' @ nat_text k)" for k
  proof -
    have dot: "\<not> is_digit (CHR ''.'')" by (simp add: is_digit_def)
    then have "takeWhile is_digit (nat_text v @ ''.'' @ nat_text k) = nat_text v"
      "dropWhile is_digit (nat_text v @ ''.'' @ nat_text k) = ''.'' @ nat_text k"
      using nat_text_digits [of v] by (simp_all add: takeWhile_append2 dropWhile_append2)
    then show ?thesis
      using nat_text_digits [of k] dot
      by (simp add: root_field_def normalizeRootDiscriminator_def composite_root_def list_all_iff)
  qed
  from assms(2,3) \<open>s = s'\<close> obtain t a b where
    "t @ '':'' @ (nat_text v @ ''.'' @ nat_text i) @ '':'' @ a
       = t @ '':'' @ (nat_text v @ ''.'' @ nat_text j) @ '':'' @ b"
    unfolding request_fields comp by (auto simp only: Inr_inject)
  then have eq: "(nat_text v @ ''.'' @ nat_text i) @ '':'' @ a = (nat_text v @ ''.'' @ nat_text j) @ '':'' @ b"
    by simp
  have "no_colon (nat_text v @ ''.'' @ nat_text k)" for k by simp
  from same_fields [OF eq this this] have "nat_text i = nat_text j" by simp
  with assms(1) show False by simp
qed

theorem batch_positions_distinct_witness:
  "buildRequestIdPreimage (JStr ''ab'') (JStr (nat_text 3 @ ''.'' @ nat_text 10)) JNull JNull 0
     \<noteq> buildRequestIdPreimage (JStr ''ab'') (JStr (nat_text 3 @ ''.'' @ nat_text 1)) JNull JNull 0"
proof -
  have "\<exists>s. buildRequestIdPreimage (JStr ''ab'') (JStr (nat_text 3 @ ''.'' @ nat_text k)) JNull JNull 0 = Inr s" for k
    by (simp add: request_fields text_field_def root_field_def index_field_def js_or_def
        normalizeRootDiscriminator_def number_or_empty_def)
  then obtain s s' where
    "buildRequestIdPreimage (JStr ''ab'') (JStr (nat_text 3 @ ''.'' @ nat_text 10)) JNull JNull 0 = Inr s"
    "buildRequestIdPreimage (JStr ''ab'') (JStr (nat_text 3 @ ''.'' @ nat_text 1)) JNull JNull 0 = Inr s'"
    by meson
  with batch_positions_distinct [OF _ this] show ?thesis by simp
qed

end
