(* ===== verification/Ast.thy ===== *)
theory Ast
  imports JsValue
begin

text \<open>
  The syntax tree that acorn hands to the metering transform and the lint, and the tree builders
  of metering/ast_builders.js. An ESTree node is an object with a \<open>type\<close>, and properties that
  hold one child node, an array of child nodes (\<open>None\<close> is the null of an array hole), or a plain
  value; the code walks it through \<open>Object.keys\<close>, so the properties are kept in order. The source
  positions, which every walk of the code skips, are left out, but for \<open>loc\<close> where the parser was asked for
  it: a \<open>Scalar\<close> with the line. A literal that overflows to infinity is \<open>Opaque ''Infinity''\<close>.
  Assignment to a property is \<open>put\<close>, in place when the property exists and at the end otherwise.
\<close>

datatype scalar =
    Null
  | Flag bool
  | Number rat
  | Text string
  | Quasi "string option" string
  | Opaque string

datatype node = Node (type_of: string) (props: "attr list")
and attr =
    Child (prop_key: string) node
  | Children (prop_key: string) "node option list"
  | Scalar (prop_key: string) scalar

subsection \<open>Property reads and writes\<close>

fun property :: "attr list \<Rightarrow> string \<Rightarrow> attr option" where
  "property [] k = None"
| "property (p # ps) k = (if prop_key p = k then Some p else property ps k)"

definition child :: "node \<Rightarrow> string \<Rightarrow> node option" where
  "child n k = (case property (props n) k of Some (Child _ c) \<Rightarrow> Some c | _ \<Rightarrow> None)"

definition children :: "node \<Rightarrow> string \<Rightarrow> node option list" where
  "children n k = (case property (props n) k of Some (Children _ cs) \<Rightarrow> cs | _ \<Rightarrow> [])"

definition scalar :: "node \<Rightarrow> string \<Rightarrow> scalar" where
  "scalar n k = (case property (props n) k of Some (Scalar _ v) \<Rightarrow> v | _ \<Rightarrow> Null)"

definition text_of :: "node \<Rightarrow> string \<Rightarrow> string" where
  "text_of n k = (case scalar n k of Text s \<Rightarrow> s | _ \<Rightarrow> [])"

definition flagged :: "node \<Rightarrow> string \<Rightarrow> bool" where
  "flagged n k \<longleftrightarrow> scalar n k = Flag True"

fun put_in :: "attr \<Rightarrow> attr list \<Rightarrow> attr list" where
  "put_in p [] = [p]"
| "put_in p (q # qs) = (if prop_key q = prop_key p then p # qs else q # put_in p qs)"

definition put :: "attr \<Rightarrow> node \<Rightarrow> node" where
  "put p n = Node (type_of n) (put_in p (props n))"

definition delete_props :: "string list \<Rightarrow> attr list \<Rightarrow> attr list" where
  "delete_props ks = filter (\<lambda>p. prop_key p \<notin> set ks)"

lemma property_put_in: "property (put_in p ps) k = (if prop_key p = k then Some p else property ps k)"
  by (induction ps) auto

lemma type_of_put [simp]: "type_of (put p n) = type_of n"
  by (simp add: put_def)

lemma child_put [simp]:
  "child (put p n) k = (if prop_key p = k then (case p of Child _ c \<Rightarrow> Some c | _ \<Rightarrow> None) else child n k)"
  by (simp add: child_def put_def property_put_in split: attr.splits)

lemma children_put [simp]:
  "children (put p n) k
     = (if prop_key p = k then (case p of Children _ cs \<Rightarrow> cs | _ \<Rightarrow> []) else children n k)"
  by (simp add: children_def put_def property_put_in split: attr.splits)

lemma scalar_put [simp]:
  "scalar (put p n) k = (if prop_key p = k then (case p of Scalar _ v \<Rightarrow> v | _ \<Rightarrow> Null) else scalar n k)"
  by (simp add: scalar_def put_def property_put_in split: attr.splits)

lemma property_Some: "property ps k = Some p \<Longrightarrow> p \<in> set ps \<and> prop_key p = k"
  by (induction ps) (auto split: if_splits)

lemma child_in_props: "child n k = Some c \<Longrightarrow> Child k c \<in> set (props n)"
  by (auto simp: child_def split: option.splits attr.splits dest!: property_Some)

lemma children_in_props: "Some c \<in> set (children n k) \<Longrightarrow> Children k (children n k) \<in> set (props n)"
  by (cases "property (props n) k"; cases "the (property (props n) k)")
    (auto simp: children_def dest: property_Some)

lemma size_props: "size_list size (props n) < size n"
  by (cases n) simp

lemma size_child: "child n k = Some c \<Longrightarrow> size c < size n"
proof -
  assume "child n k = Some c"
  then have "size (Child k c) \<le> size_list size (props n)"
    by (intro size_list_estimation' [OF child_in_props]) auto
  with size_props [of n] show ?thesis by simp
qed

lemma size_children: "Some c \<in> set (children n k) \<Longrightarrow> size c < size n"
proof -
  assume c: "Some c \<in> set (children n k)"
  have "size (Children k (children n k)) \<le> size_list size (props n)"
    by (intro size_list_estimation' [OF children_in_props [OF c]]) auto
  moreover have "size_option size (Some c) \<le> size_list (size_option size) (children n k)"
    by (rule size_list_estimation' [OF c]) simp
  ultimately show ?thesis using size_props [of n] by simp
qed

subsection \<open>All the nodes of a tree\<close>

fun nodes :: "node \<Rightarrow> node list"
and prop_nodes :: "attr list \<Rightarrow> node list"
and list_nodes :: "node option list \<Rightarrow> node list" where
  "nodes (Node t ps) = Node t ps # prop_nodes ps"
| "prop_nodes [] = []"
| "prop_nodes (Child k c # ps) = nodes c @ prop_nodes ps"
| "prop_nodes (Children k cs # ps) = list_nodes cs @ prop_nodes ps"
| "prop_nodes (Scalar k v # ps) = prop_nodes ps"
| "list_nodes [] = []"
| "list_nodes (None # cs) = list_nodes cs"
| "list_nodes (Some c # cs) = nodes c @ list_nodes cs"

lemma nodes_self [simp]: "n \<in> set (nodes n)"
  by (cases n) simp

lemma nodes_unfold: "nodes n = n # prop_nodes (props n)"
  by (cases n) simp

lemma prop_nodes_append [simp]: "prop_nodes (ps @ qs) = prop_nodes ps @ prop_nodes qs"
proof (induction ps)
  case (Cons p ps)
  then show ?case by (cases p) auto
qed simp

lemma list_nodes_append [simp]: "list_nodes (cs @ ds) = list_nodes cs @ list_nodes ds"
proof (induction cs)
  case (Cons c cs)
  then show ?case by (cases c) auto
qed simp

lemma list_nodes_iff: "m \<in> set (list_nodes cs) \<longleftrightarrow> (\<exists>c. Some c \<in> set cs \<and> m \<in> set (nodes c))"
proof (induction cs)
  case (Cons c cs)
  then show ?case by (cases c) auto
qed simp

text \<open>What the slot of one property contributes.\<close>

definition slot_nodes :: "attr \<Rightarrow> node set" where
  "slot_nodes p = set (prop_nodes [p])"

lemma slot_nodes_simps [simp]:
  "slot_nodes (Child k c) = set (nodes c)"
  "slot_nodes (Children k cs) = set (list_nodes cs)"
  "slot_nodes (Scalar k v) = {}"
  by (simp_all add: slot_nodes_def)

lemma prop_nodes_iff: "m \<in> set (prop_nodes ps) \<longleftrightarrow> (\<exists>p \<in> set ps. m \<in> slot_nodes p)"
proof (induction ps)
  case (Cons p ps)
  then show ?case by (cases p) auto
qed simp

lemma nodes_child: "child n k = Some c \<Longrightarrow> m \<in> set (nodes c) \<Longrightarrow> m \<in> set (prop_nodes (props n))"
  by (auto simp: prop_nodes_iff dest!: child_in_props intro: bexI [where x = "Child k c"])

lemma nodes_children:
  "Some c \<in> set (children n k) \<Longrightarrow> m \<in> set (nodes c) \<Longrightarrow> m \<in> set (prop_nodes (props n))"
  by (frule children_in_props)
    (auto simp: prop_nodes_iff list_nodes_iff intro!: bexI [where x = "Children k (children n k)"])

lemma put_in_subset: "set (put_in p ps) \<subseteq> insert p (set ps)"
  by (induction ps) auto

lemma nodes_put: "m \<in> set (prop_nodes (props (put p n))) \<Longrightarrow> m \<in> slot_nodes p \<or> m \<in> set (prop_nodes (props n))"
  using put_in_subset [of p "props n"] by (auto simp: prop_nodes_iff put_def)

end
