(* ===== verification/AstBuilders.thy ===== *)
theory AstBuilders
  imports Ast
begin

text \<open>
  metering/ast_builders.js: the nodes the metering transform inserts. \<open>kid\<close> reads a property that
  acorn always fills with a node; the empty node stands for the TypeError of a tree without it.
  A body is the array a \<open>body\<close> property holds. \<open>cloneNode\<close> is the JSON round trip: trees are
  values here, so the copy is the tree (the code clones identifiers only).
\<close>

definition kid :: "node \<Rightarrow> string \<Rightarrow> node" where
  "kid n k = (case child n k of Some c \<Rightarrow> c | None \<Rightarrow> Node [] [])"

definition is_type :: "string \<Rightarrow> node \<Rightarrow> bool" where
  "is_type t n \<longleftrightarrow> type_of n = t"

definition astIdent :: "string \<Rightarrow> node" where
  "astIdent name = Node ''Identifier'' [Scalar ''name'' (Text name)]"

definition astLiteral :: "scalar \<Rightarrow> node" where
  "astLiteral value = Node ''Literal'' [Scalar ''value'' value]"

definition astArray :: "node option list \<Rightarrow> node" where
  "astArray elements = Node ''ArrayExpression'' [Children ''elements'' elements]"

definition astCall :: "string \<Rightarrow> node list \<Rightarrow> node" where
  "astCall name args = Node ''CallExpression''
     [Child ''callee'' (astIdent name), Children ''arguments'' (map Some args),
      Scalar ''optional'' (Flag False)]"

definition cloneNode :: "node \<Rightarrow> node" where
  "cloneNode n = n"

definition astVoid0 :: node where
  "astVoid0 = Node ''UnaryExpression''
     [Scalar ''operator'' (Text ''void''), Scalar ''prefix'' (Flag True),
      Child ''argument'' (astLiteral (Number 0))]"

definition arrowThunk :: "node \<Rightarrow> node" where
  "arrowThunk expr = Node ''ArrowFunctionExpression''
     [Scalar ''id'' Null, Children ''params'' [], Child ''body'' expr,
      Scalar ''async'' (Flag False), Scalar ''generator'' (Flag False),
      Scalar ''expression'' (Flag True)]"

definition memberKeyExpr :: "node \<Rightarrow> node" where
  "memberKeyExpr m =
     (if flagged m ''computed'' then kid m ''property''
      else if is_type ''Identifier'' (kid m ''property'')
      then astLiteral (scalar (kid m ''property'') ''name'')
      else astLiteral (scalar (kid m ''property'') ''value''))"

subsection \<open>Gas charges\<close>

definition gasCallExpr :: node where
  "gasCallExpr = Node ''CallExpression''
     [Child ''callee'' (Node ''Identifier'' [Scalar ''name'' (Text ''__gas'')]),
      Children ''arguments'' [Some (Node ''Literal'' [Scalar ''value'' (Number 1)])],
      Scalar ''optional'' (Flag False)]"

definition gasCallStatement :: node where
  "gasCallStatement = Node ''ExpressionStatement'' [Child ''expression'' gasCallExpr]"

definition wrapWithGas :: "node \<Rightarrow> node" where
  "wrapWithGas expr = Node ''SequenceExpression''
     [Children ''expressions'' [Some gasCallExpr, Some expr]]"

definition callStatement :: "string \<Rightarrow> node" where
  "callStatement name = Node ''ExpressionStatement''
     [Child ''expression'' (Node ''CallExpression''
        [Child ''callee'' (Node ''Identifier'' [Scalar ''name'' (Text name)]),
         Children ''arguments'' [], Scalar ''optional'' (Flag False)])]"

text \<open>\<open>stmt.expression.arguments.push(...)\<close> on a call statement.\<close>

definition push_arguments :: "node \<Rightarrow> node list \<Rightarrow> node" where
  "push_arguments stmt args =
     put (Child ''expression''
            (put (Children ''arguments''
                    (children (kid stmt ''expression'') ''arguments'' @ map Some args))
               (kid stmt ''expression''))) stmt"

definition astBlock :: "node option list \<Rightarrow> node" where
  "astBlock stmts = Node ''BlockStatement'' [Children ''body'' stmts]"

text \<open>The number of directives at the head of a body.\<close>

definition is_directive :: "node \<Rightarrow> bool" where
  "is_directive stmt \<longleftrightarrow> is_type ''ExpressionStatement'' stmt
     \<and> is_type ''Literal'' (kid stmt ''expression'')
     \<and> (case scalar (kid stmt ''expression'') ''value'' of Text _ \<Rightarrow> True | _ \<Rightarrow> False)"

fun directivePrologueLength :: "node option list \<Rightarrow> nat" where
  "directivePrologueLength (Some stmt # body) =
     (if is_directive stmt then Suc (directivePrologueLength body) else 0)"
| "directivePrologueLength _ = 0"

definition insertGasAfterDirectives :: "node option list \<Rightarrow> node option list" where
  "insertGasAfterDirectives body =
     (let offset = directivePrologueLength body
      in take offset body @ Some gasCallStatement # drop offset body)"

text \<open>Wrap a single-statement body in a block.\<close>

definition ensureBlock :: "string \<Rightarrow> node \<Rightarrow> node" where
  "ensureBlock prop n =
     (case child n prop of
        Some c \<Rightarrow> if is_type ''BlockStatement'' c then n else put (Child prop (astBlock [Some c])) n
      | None \<Rightarrow> n)"

text \<open>\<open>node[prop].body.unshift(stmt)\<close>\<close>

definition unshift :: "node \<Rightarrow> node \<Rightarrow> node" where
  "unshift stmt blk = put (Children ''body'' (Some stmt # children blk ''body'')) blk"

definition unshift_in :: "string \<Rightarrow> node \<Rightarrow> node \<Rightarrow> node" where
  "unshift_in prop stmt n =
     (case child n prop of Some b \<Rightarrow> put (Child prop (unshift stmt b)) n | None \<Rightarrow> n)"

text \<open>The depth of a left-leaning chain of binary expressions.\<close>

function binaryDepth :: "node \<Rightarrow> nat" where
  "binaryDepth n =
     (if is_type ''BinaryExpression'' n
      then Suc (case child n ''left'' of Some l \<Rightarrow> binaryDepth l | None \<Rightarrow> 0) else 0)"
  by pat_completeness auto
termination
  by (relation "measure size") (auto dest: size_child)

declare binaryDepth.simps [simp del]

subsection \<open>The call-depth guard\<close>

text \<open>The names and the weight an armed guard carries.\<close>

record armed_frame =
  weight :: nat
  caught :: string
  token :: string

text \<open>\<open>const D = __depth_enter(w)\<close> and \<open>__depth_exit(D, 0)\<close>.\<close>

definition armedDepthPair :: "nat \<Rightarrow> string \<Rightarrow> node \<times> node" where
  "armedDepthPair w tok =
     (Node ''VariableDeclaration''
        [Scalar ''kind'' (Text ''const''),
         Children ''declarations''
           [Some (Node ''VariableDeclarator''
              [Child ''id'' (astIdent tok),
               Child ''init'' (astCall ''__depth_enter'' [astLiteral (Number (of_nat w))])])]],
      push_arguments (callStatement ''__depth_exit'') [astIdent tok, astLiteral (Number 0)])"

definition wrapDepthGuard :: "armed_frame option \<Rightarrow> node \<Rightarrow> node" where
  "wrapDepthGuard a n =
     (case child n ''body'' of
        None \<Rightarrow> n
      | Some b \<Rightarrow>
          if \<not> is_type ''BlockStatement'' b then n
          else let body = children b ''body'';
                   offset = directivePrologueLength body;
                   directives = take offset body;
                   rest = drop offset body;
                   enter = (case a of None \<Rightarrow> callStatement ''__depth_enter''
                            | Some x \<Rightarrow> fst (armedDepthPair (weight x) (token x)));
                   exit = (case a of None \<Rightarrow> callStatement ''__depth_exit''
                           | Some x \<Rightarrow> snd (armedDepthPair (weight x) (token x)));
                   handler = (case a of None \<Rightarrow> Scalar ''handler'' Null
                     | Some x \<Rightarrow> Child ''handler'' (Node ''CatchClause''
                         [Child ''param'' (astIdent (caught x)),
                          Child ''body'' (astBlock
                            [Some (push_arguments (callStatement ''__depth_exit'') [astIdent (caught x)]),
                             Some (Node ''ThrowStatement'' [Child ''argument'' (astIdent (caught x))])])]));
                   try_stmt = Node ''TryStatement''
                     [Child ''block'' (astBlock rest), handler, Child ''finalizer'' (astBlock [Some exit])]
               in put (Child ''body''
                    (put (Children ''body'' (directives @ [Some enter, Some try_stmt])) b)) n)"

end
