(* ===== verification/Reserved.thy ===== *)
theory Reserved
  imports AstBuilders Pipeline
begin

text \<open>
  metering/reserved_identifiers.js: the names of the metering hooks, and the scan that refuses a
  contract which mentions one. The parser and the order in which acorn-walk's \<open>full\<close> visits the
  nodes of a tree are parameters.
\<close>

definition ALLOC_HELPERS :: "string list" where
  "ALLOC_HELPERS = [''__concat'', ''__setconcat'', ''__setconcatL'', ''__tmpl'', ''__tmpltag'',
     ''__tmpltagm'', ''__arrspread'', ''__objspread'', ''__objspreadmeter'']"

definition DEPTH_HELPERS :: "string list" where
  "DEPTH_HELPERS = [''__depth_enter'', ''__depth_exit'']"

definition RESERVED_IDENTIFIERS :: "string list" where
  "RESERVED_IDENTIFIERS = [''__gas''] @ ALLOC_HELPERS @ DEPTH_HELPERS"

text \<open>The first identifier of the visit that is reserved.\<close>

fun first_reserved :: "node list \<Rightarrow> string option" where
  "first_reserved [] = None"
| "first_reserved (n # ns) =
     (if is_type ''Identifier'' n \<and> text_of n ''name'' \<in> set RESERVED_IDENTIFIERS
      then Some (text_of n ''name'') else first_reserved ns)"

text \<open>A host overflow is rethrown when the caller asks for it; any other parse failure reports nothing.\<close>

definition findReservedIdentifier ::
  "(string \<Rightarrow> host_error + node) \<Rightarrow> (node \<Rightarrow> node list) \<Rightarrow> string \<Rightarrow> bool \<Rightarrow> host_error + string option" where
  "findReservedIdentifier acorn_parse full source overflowIsHostFault =
     (case acorn_parse source of
        Inr ast \<Rightarrow> Inr (first_reserved (full ast))
      | Inl e \<Rightarrow> if overflowIsHostFault \<and> isHostStackOverflow e then Inl e else Inr None)"

definition hasGasIdentifier ::
  "(string \<Rightarrow> host_error + node) \<Rightarrow> (node \<Rightarrow> node list) \<Rightarrow> string \<Rightarrow> bool" where
  "hasGasIdentifier acorn_parse full source \<longleftrightarrow>
     findReservedIdentifier acorn_parse full source False \<noteq> Inr None"

lemma first_reserved_None:
  "first_reserved ns = None
     \<longleftrightarrow> (\<forall>n \<in> set ns. is_type ''Identifier'' n \<longrightarrow> text_of n ''name'' \<notin> set RESERVED_IDENTIFIERS)"
  by (induction ns) auto

lemma first_reserved_Some:
  "first_reserved ns = Some x \<Longrightarrow> x \<in> set RESERVED_IDENTIFIERS
     \<and> (\<exists>n \<in> set ns. is_type ''Identifier'' n \<and> text_of n ''name'' = x)"
  by (induction ns) (auto split: if_splits)

end
