(* ===== verification/Allocators.thy ===== *)
theory Allocators
  imports Reserved Caches
begin

text \<open>
  metering/allocator_transform.js: string concatenation, template literals, tagged templates, array,
  object and argument spread and rest destructuring become calls of the metering helpers. The
  rewrite visits the tree bottom-up and numbers the argument-spread sites as it meets them, so the
  counter is threaded through the walk; the depth of optional chains is its argument.

  Which children acorn-walk's \<open>simple\<close> descends into is the parameter \<open>W\<close> (node, property): the
  walk collects the quasi of every tagged template it reaches, and the rewrite leaves those alone.
  The options are the four metering flags; \<open>opts.holdCallSpread\<close> is \<open>nativeStackTerminal\<close>, which
  meterCode passes for it.
\<close>

type_synonym walker = "node \<Rightarrow> string \<Rightarrow> bool"

definition is_some_type :: "string \<Rightarrow> node option \<Rightarrow> bool" where
  "is_some_type t e = (case e of Some n \<Rightarrow> is_type t n | None \<Rightarrow> False)"

definition has_type :: "string \<Rightarrow> node option list \<Rightarrow> bool" where
  "has_type t es = list_ex (is_some_type t) es"

subsection \<open>Rest patterns\<close>

definition restKind :: "node option \<Rightarrow> string option" where
  "restKind pat =
     (case pat of
        None \<Rightarrow> None
      | Some p \<Rightarrow>
          if is_type ''ObjectPattern'' p
          then (if has_type ''RestElement'' (children p ''properties'') then Some ''obj'' else None)
          else if is_type ''ArrayPattern'' p
          then (if has_type ''RestElement'' (children p ''elements'') then Some ''arr'' else None)
          else None)"

definition segment :: "string \<Rightarrow> node list \<Rightarrow> node" where
  "segment tag ns = astArray (Some (astLiteral (Text tag)) # map Some ns)"

definition meterRestSource :: "node option \<Rightarrow> node \<Rightarrow> node" where
  "meterRestSource pat src =
     (if restKind pat = Some ''obj'' then astCall ''__objspreadmeter'' [src]
      else if restKind pat = Some ''arr''
      then astCall ''__arrspread'' [astArray [Some (segment ''s'' [src])]]
      else src)"

subsection \<open>The converters\<close>

definition convertConcat :: "bool \<Rightarrow> node \<Rightarrow> node option" where
  "convertConcat specOrder n =
     (if is_type ''BinaryExpression'' n \<and> scalar n ''operator'' = Text ''+''
      then Some (astCall ''__concat'' [kid n ''left'', kid n ''right''])
      else if \<not> is_type ''AssignmentExpression'' n \<or> scalar n ''operator'' \<noteq> Text ''+='' then None
      else if is_type ''Identifier'' (kid n ''left'')
      then Some (Node ''AssignmentExpression''
             [Scalar ''operator'' (Text ''=''), Child ''left'' (kid n ''left''),
              Child ''right'' (astCall ''__concat'' [cloneNode (kid n ''left''), kid n ''right''])])
      else if is_type ''MemberExpression'' (kid n ''left'')
      then Some (if specOrder
             then astCall ''__setconcatL'' [kid (kid n ''left'') ''object'',
                    memberKeyExpr (kid n ''left''), arrowThunk (kid n ''right'')]
             else astCall ''__setconcat'' [kid (kid n ''left'') ''object'',
                    memberKeyExpr (kid n ''left''), kid n ''right''])
      else None)"

definition cooked_of :: "node option \<Rightarrow> scalar" where
  "cooked_of q = (case q of
     Some e \<Rightarrow> (case scalar e ''value'' of Quasi (Some c) r \<Rightarrow> Text c | _ \<Rightarrow> Null) | None \<Rightarrow> Null)"

definition raw_of :: "node option \<Rightarrow> scalar" where
  "raw_of q = (case q of
     Some e \<Rightarrow> (case scalar e ''value'' of Quasi c r \<Rightarrow> Text r | _ \<Rightarrow> Null) | None \<Rightarrow> Null)"

definition convertTaggedTemplate :: "node \<Rightarrow> node option" where
  "convertTaggedTemplate n =
     (if \<not> is_type ''TaggedTemplateExpression'' n then None
      else let tl = kid n ''quasi'';
               cooked = map (\<lambda>q. Some (if cooked_of q = Null then astVoid0 else astLiteral (cooked_of q)))
                          (children tl ''quasis'');
               raw = map (\<lambda>q. Some (astLiteral (raw_of q))) (children tl ''quasis'');
               exprs = astArray (children tl ''expressions'');
               tag = kid n ''tag''
           in Some (if is_type ''MemberExpression'' tag
              then astCall ''__tmpltagm''
                     [kid tag ''object'', memberKeyExpr tag, astArray cooked, astArray raw, exprs]
              else astCall ''__tmpltag'' [tag, astArray cooked, astArray raw, exprs]))"

text \<open>The quasis and the expressions of a template literal, alternating.\<close>

fun template_parts :: "node option list \<Rightarrow> node option list \<Rightarrow> node option list" where
  "template_parts [] es = []"
| "template_parts (q # qs) [] = Some (astLiteral (cooked_of q)) # template_parts qs []"
| "template_parts (q # qs) (e # es) = Some (astLiteral (cooked_of q)) # e # template_parts qs es"

definition convertTemplateLiteral :: "bool \<Rightarrow> node \<Rightarrow> node option" where
  "convertTemplateLiteral tagged n =
     (if \<not> is_type ''TemplateLiteral'' n \<or> tagged then None
      else Some (astCall ''__tmpl''
             [astArray (template_parts (children n ''quasis'') (children n ''expressions''))]))"

definition array_segment :: "node option \<Rightarrow> node option" where
  "array_segment e = Some (case e of
     None \<Rightarrow> segment ''h'' []
   | Some x \<Rightarrow> if is_type ''SpreadElement'' x then segment ''s'' [kid x ''argument''] else segment ''e'' [x])"

definition convertArraySpread :: "node \<Rightarrow> node option" where
  "convertArraySpread n =
     (if \<not> is_type ''ArrayExpression'' n \<or> \<not> has_type ''SpreadElement'' (children n ''elements'') then None
      else Some (astCall ''__arrspread'' [astArray (map array_segment (children n ''elements''))]))"

definition simple_property :: "node option \<Rightarrow> bool" where
  "simple_property e = (case e of None \<Rightarrow> False | Some p \<Rightarrow>
     is_type ''SpreadElement'' p
     \<or> (is_type ''Property'' p \<and> scalar p ''kind'' = Text ''init'' \<and> \<not> flagged p ''method''))"

definition meter_spread_property :: "node option \<Rightarrow> node option" where
  "meter_spread_property e = map_option (\<lambda>p.
     if is_type ''SpreadElement'' p
     then put (Child ''argument'' (astCall ''__objspreadmeter'' [kid p ''argument''])) p else p) e"

definition property_segment :: "node option \<Rightarrow> node option" where
  "property_segment e = map_option (\<lambda>p.
     if is_type ''SpreadElement'' p then segment ''s'' [kid p ''argument'']
     else let keyExpr = (if flagged p ''computed'' then kid p ''key''
                 else if is_type ''Identifier'' (kid p ''key'')
                 then astLiteral (scalar (kid p ''key'') ''name'')
                 else astLiteral (scalar (kid p ''key'') ''value''))
          in segment ''p'' [astArray [Some keyExpr, Some (kid p ''value'')]]) e"

definition convertObjectSpread :: "node \<Rightarrow> node option" where
  "convertObjectSpread n =
     (let ps = children n ''properties'' in
      if \<not> is_type ''ObjectExpression'' n \<or> \<not> has_type ''SpreadElement'' ps then None
      else if \<not> list_all simple_property ps
      then Some (put (Children ''properties'' (map meter_spread_property ps)) n)
      else Some (astCall ''__objspread'' [astArray (map property_segment ps)]))"

definition argument_segment :: "node option \<Rightarrow> node option" where
  "argument_segment e = map_option (\<lambda>a.
     if is_type ''SpreadElement'' a then segment ''s'' [kid a ''argument''] else segment ''e'' [a]) e"

definition spread_of :: "node list \<Rightarrow> node option list" where
  "spread_of args = [Some (Node ''SpreadElement'' [Child ''argument'' (astCall ''__arrspread'' args)])]"

definition convertCallSpread :: "meter_flags \<Rightarrow> nat \<Rightarrow> node \<Rightarrow> nat \<Rightarrow> (node \<times> nat) option" where
  "convertCallSpread op chainDepth n sites =
     (let segs = astArray (map argument_segment (children n ''arguments'')) in
      if \<not> meterCallSpread op \<or> \<not> (is_type ''CallExpression'' n \<or> is_type ''NewExpression'' n)
         \<or> \<not> has_type ''SpreadElement'' (children n ''arguments'') then None
      else if \<not> nativeStackTerminal op
      then Some (put (Children ''arguments'' (spread_of [segs])) n, sites)
      else let held = put (Children ''arguments''
                        (spread_of [segs, astLiteral (Number 1), astLiteral (Number (of_nat sites))])) n
           in Some (if chainDepth > 0 then held
                    else astCall ''__arrspread''
                           [held, astLiteral (Number 2), astLiteral (Number (of_nat sites))],
                    Suc sites))"

definition convertRestPattern :: "bool \<Rightarrow> node \<Rightarrow> node option" where
  "convertRestPattern on n =
     (if \<not> on then None
      else if is_type ''VariableDeclarator'' n \<and> child n ''init'' \<noteq> None
      then Some (put (Child ''init'' (meterRestSource (child n ''id'') (kid n ''init''))) n)
      else if is_type ''AssignmentExpression'' n \<and> scalar n ''operator'' = Text ''=''
              \<and> (is_type ''ArrayPattern'' (kid n ''left'') \<or> is_type ''ObjectPattern'' (kid n ''left''))
      then Some (put (Child ''right'' (meterRestSource (child n ''left'') (kid n ''right''))) n)
      else None)"

text \<open>The first converter that applies; a node none applies to stays.\<close>

definition or_else :: "'a option \<Rightarrow> 'a option \<Rightarrow> 'a option" where
  "or_else a b = (case a of None \<Rightarrow> b | Some x \<Rightarrow> a)"

definition convert :: "meter_flags \<Rightarrow> bool \<Rightarrow> nat \<Rightarrow> node \<Rightarrow> nat \<Rightarrow> node \<times> nat" where
  "convert op tagged chainDepth n sites =
     (case or_else (convertConcat (specEvalOrder op) n) (or_else (convertTaggedTemplate n)
             (or_else (convertTemplateLiteral tagged n) (or_else (convertArraySpread n)
               (convertObjectSpread n)))) of
        Some n' \<Rightarrow> (n', sites)
      | None \<Rightarrow>
          (case convertCallSpread op chainDepth n sites of
             Some r \<Rightarrow> r
           | None \<Rightarrow> (case convertRestPattern (meterRestPattern op) n of
                        Some n' \<Rightarrow> (n', sites) | None \<Rightarrow> (n, sites))))"

subsection \<open>The walk\<close>

fun recur :: "walker \<Rightarrow> meter_flags \<Rightarrow> bool \<Rightarrow> bool \<Rightarrow> nat \<Rightarrow> node \<Rightarrow> nat \<Rightarrow> node \<times> nat"
and recur_props :: "walker \<Rightarrow> meter_flags \<Rightarrow> bool \<Rightarrow> nat \<Rightarrow> node \<Rightarrow> attr list \<Rightarrow> nat \<Rightarrow> attr list \<times> nat"
and recur_list :: "walker \<Rightarrow> meter_flags \<Rightarrow> bool \<Rightarrow> nat \<Rightarrow> node option list \<Rightarrow> nat \<Rightarrow> node option list \<times> nat"
where
  "recur W op reached tagged chainDepth (Node t ps) sites =
     (let depth = (if t = ''ChainExpression'' then Suc chainDepth else chainDepth);
          (ps', sites') = recur_props W op reached depth (Node t ps) ps sites
      in convert op tagged chainDepth (Node t ps') sites')"
| "recur_props W op reached depth parent [] sites = ([], sites)"
| "recur_props W op reached depth parent (Child k c # ps) sites =
     (let (c', sites') = recur W op (reached \<and> W parent k)
            (reached \<and> type_of parent = ''TaggedTemplateExpression'' \<and> k = ''quasi'') depth c sites;
          (ps', sites'') = recur_props W op reached depth parent ps sites'
      in (Child k c' # ps', sites''))"
| "recur_props W op reached depth parent (Children k cs # ps) sites =
     (let (cs', sites') = recur_list W op (reached \<and> W parent k) depth cs sites;
          (ps', sites'') = recur_props W op reached depth parent ps sites'
      in (Children k cs' # ps', sites''))"
| "recur_props W op reached depth parent (Scalar k v # ps) sites =
     (let (ps', sites') = recur_props W op reached depth parent ps sites in (Scalar k v # ps', sites'))"
| "recur_list W op reached depth [] sites = ([], sites)"
| "recur_list W op reached depth (None # cs) sites =
     (let (cs', sites') = recur_list W op reached depth cs sites in (None # cs', sites'))"
| "recur_list W op reached depth (Some c # cs) sites =
     (let (c', sites') = recur W op reached False depth c sites;
          (cs', sites'') = recur_list W op reached depth cs sites'
      in (Some c' # cs', sites''))"

definition transformAllocators :: "walker \<Rightarrow> meter_flags \<Rightarrow> node \<Rightarrow> node" where
  "transformAllocators W op ast = fst (recur W op True False 0 ast 0)"

end
