(* ===== verification/NativeCatch.thy ===== *)
theory NativeCatch
  imports AstBuilders
begin

text \<open>
  metering/native_stack_catch.js: the rewrite that hands every caught value to the meter, and the
  choice of the local names it binds. \<open>freshName\<close> is the source's loop, which appends underscores
  until no identifier of the program has the name; that it ends is proved below.
\<close>

record armed_names =
  caught_name :: string
  flag_name :: string
  token_name :: string

definition gasCheckStatement :: "string \<Rightarrow> node" where
  "gasCheckStatement name = push_arguments gasCallStatement [astIdent name]"

definition letDeclaration :: "node \<Rightarrow> node option \<Rightarrow> node" where
  "letDeclaration binding init = Node ''VariableDeclaration''
     [Scalar ''kind'' (Text ''let''),
      Children ''declarations'' [Some (Node ''VariableDeclarator''
        [Child ''id'' binding,
         (case init of Some e \<Rightarrow> Child ''init'' e | None \<Rightarrow> Scalar ''init'' Null)])]]"

partial_function (option) freshName :: "string list \<Rightarrow> string \<Rightarrow> string option" where
  "freshName used name =
     (if name \<in> set used then freshName used (name @ ''_'') else Some name)"

definition chooseNames :: "(node \<Rightarrow> node list) \<Rightarrow> node \<Rightarrow> armed_names option" where
  "chooseNames full ast =
     (let used = map (\<lambda>n. text_of n ''name'') (filter (is_type ''Identifier'') (full ast)) in
      case (freshName used ''__gasx'', freshName used ''__gasf'', freshName used ''__gasd'') of
        (Some c, Some f, Some t) \<Rightarrow> Some \<lparr>caught_name = c, flag_name = f, token_name = t\<rparr>
      | _ \<Rightarrow> None)"

text \<open>\<open>handler.body.body.unshift\<close>\<close>

definition armHandler :: "armed_names \<Rightarrow> node \<Rightarrow> node" where
  "armHandler names handler =
     (case child handler ''param'' of
        Some p \<Rightarrow>
          if is_type ''Identifier'' p
          then unshift_in ''body'' (gasCheckStatement (text_of p ''name'')) handler
          else unshift_in ''body'' (gasCheckStatement (caught_name names))
                 (unshift_in ''body'' (letDeclaration p (Some (astIdent (caught_name names))))
                    (put (Child ''param'' (astIdent (caught_name names))) handler))
      | None \<Rightarrow>
          unshift_in ''body'' (gasCheckStatement (caught_name names))
            (put (Child ''param'' (astIdent (caught_name names))) handler))"

definition arm_handler_of :: "armed_names \<Rightarrow> node \<Rightarrow> attr" where
  "arm_handler_of names n =
     (case child n ''handler'' of
        Some h \<Rightarrow> Child ''handler'' (armHandler names h) | None \<Rightarrow> Scalar ''handler'' Null)"

text \<open>The synthetic catch: \<open>catch (X) { F = X; throw X; }\<close>.\<close>

definition record_clause :: "armed_names \<Rightarrow> node" where
  "record_clause names = Node ''CatchClause''
     [Child ''param'' (astIdent (caught_name names)),
      Child ''body'' (astBlock
        [Some (Node ''ExpressionStatement'' [Child ''expression'' (Node ''AssignmentExpression''
           [Scalar ''operator'' (Text ''=''), Child ''left'' (astIdent (flag_name names)),
            Child ''right'' (astIdent (caught_name names))])]),
         Some (Node ''ThrowStatement'' [Child ''argument'' (astIdent (caught_name names))])])]"

definition armTryStatement :: "armed_names \<Rightarrow> node \<Rightarrow> node" where
  "armTryStatement names n =
     (let blk = unshift gasCallStatement (kid n ''block'');
          n' = put (Child ''block'' blk) n;
          n'' = (if child n ''handler'' \<noteq> None then put (arm_handler_of names n) n' else n')
      in case child n ''finalizer'' of
           None \<Rightarrow> n''
         | Some fin \<Rightarrow>
             let guarded = (if child n ''handler'' \<noteq> None
                   then astBlock [Some (Node ''TryStatement''
                          [Child ''block'' blk, arm_handler_of names n, Scalar ''finalizer'' Null])]
                   else blk);
                 outer = Node ''TryStatement''
                   [Child ''block'' guarded, Child ''handler'' (record_clause names),
                    Child ''finalizer'' (unshift (gasCheckStatement (flag_name names)) fin)]
             in Node ''BlockStatement''
                  (put_in (Children ''body''
                     [Some (letDeclaration (astIdent (flag_name names)) None), Some outer])
                   (delete_props [''block'', ''handler'', ''finalizer''] (props n''))))"

subsection \<open>The names\<close>

lemma freshName_runs:
  "(\<And>j. j < k \<Longrightarrow> name @ replicate j (CHR ''_'') \<in> set used)
     \<Longrightarrow> name @ replicate k (CHR ''_'') \<notin> set used
     \<Longrightarrow> freshName used name = Some (name @ replicate k (CHR ''_''))"
proof (induction k arbitrary: name)
  case 0
  then show ?case by (simp add: freshName.simps)
next
  case (Suc k)
  have "name \<in> set used" using Suc.prems(1) [of 0] by simp
  moreover have "freshName used (name @ ''_'') = Some ((name @ ''_'') @ replicate k (CHR ''_''))"
    using Suc.prems(1) [of "Suc _"] Suc.prems(2) by (intro Suc.IH) auto
  ultimately show ?case by (simp add: freshName.simps [of used name])
qed

text \<open>Some name is free after at most as many underscores as there are identifiers.\<close>

lemma underscores_escape: "\<exists>k \<le> length used. name @ replicate k (CHR ''_'') \<notin> set used"
proof (rule ccontr)
  assume "\<not> ?thesis"
  then have "(\<lambda>k. name @ replicate k (CHR ''_'')) ` {..length used} \<subseteq> set used" by auto
  moreover have "inj_on (\<lambda>k. name @ replicate k (CHR ''_'')) {..length used}"
    by (rule inj_onI) (metis append_eq_append_conv length_replicate)
  ultimately have "card {..length used} \<le> card (set used)"
    by (metis card_image card_mono List.finite_set)
  then show False using card_length [of used] by simp
qed

lemma freshName_terminates:
  "\<exists>k \<le> length used. freshName used name = Some (name @ replicate k (CHR ''_''))
     \<and> name @ replicate k (CHR ''_'') \<notin> set used"
proof -
  let ?free = "\<lambda>k. name @ replicate k (CHR ''_'') \<notin> set used"
  obtain k where k: "k \<le> length used" "?free k" using underscores_escape by blast
  define l where "l = (LEAST l. ?free l)"
  have "?free l" "l \<le> k" unfolding l_def using k(2) by (rule LeastI, rule Least_le)
  moreover have "\<And>j. j < l \<Longrightarrow> \<not> ?free j" unfolding l_def by (rule not_less_Least)
  ultimately show ?thesis using k(1) freshName_runs [of l name used] by force
qed

end
