(* ===== verification/FrameWeight.thy ===== *)
theory FrameWeight
  imports AstBuilders
begin

text \<open>
  metering/frame_weight.js: the depth units a call of a function charges, an over-estimate of the
  registers of its frame, and the argument of the file's header that a budget of units bounds the
  native stack.
\<close>

definition SLOTS_PER_UNIT :: nat where
  "SLOTS_PER_UNIT = 32"

definition FIXED_SLOTS :: nat where
  "FIXED_SLOTS = 8"

definition STATEMENT_HOLD :: "string \<Rightarrow> nat option" where
  "STATEMENT_HOLD = map_of
     [(''TryStatement'', 3), (''ForInStatement'', 6), (''ForOfStatement'', 6), (''SwitchStatement'', 2),
      (''ForStatement'', 1), (''WhileStatement'', 1), (''DoWhileStatement'', 1), (''LabeledStatement'', 0)]"

definition SEQUENTIAL :: "string list" where
  "SEQUENTIAL = [''Program'', ''BlockStatement'', ''StaticBlock'', ''VariableDeclaration'',
     ''IfStatement'', ''ExpressionStatement'', ''ReturnStatement'', ''ThrowStatement'', ''SwitchCase'',
     ''CatchClause'', ''EmptyStatement'', ''BreakStatement'', ''ContinueStatement'', ''DebuggerStatement'']"

definition isFunctionNode :: "node \<Rightarrow> bool" where
  "isFunctionNode n \<longleftrightarrow> is_type ''FunctionDeclaration'' n \<or> is_type ''FunctionExpression'' n
     \<or> is_type ''ArrowFunctionExpression'' n"

text \<open>The child nodes, in the order of the properties.\<close>

fun attr_children :: "attr \<Rightarrow> node list" where
  "attr_children (Child k c) = [c]"
| "attr_children (Children k cs) = List.map_filter (\<lambda>c. c) cs"
| "attr_children (Scalar k v) = []"

definition childrenOf :: "node \<Rightarrow> node list" where
  "childrenOf n = concat (map attr_children (props n))"

lemma map_filter_id: "c \<in> set (List.map_filter (\<lambda>c. c) cs) \<longleftrightarrow> Some c \<in> set cs"
  by (force simp: List.map_filter_def)

lemma attr_children_iff:
  "c \<in> set (attr_children p) \<longleftrightarrow> (case p of Child k x \<Rightarrow> c = x | Children k cs \<Rightarrow> Some c \<in> set cs | Scalar k v \<Rightarrow> False)"
  by (cases p) (auto simp: map_filter_id)

lemma size_childrenOf [termination_simp]: "c \<in> set (childrenOf n) \<Longrightarrow> size c < size n"
proof -
  assume "c \<in> set (childrenOf n)"
  then obtain p where p: "p \<in> set (props n)" "c \<in> set (attr_children p)"
    by (auto simp: childrenOf_def)
  have "size c \<le> size p"
  proof (cases p)
    case (Children k cs)
    with p(2) have "size_option size (Some c) \<le> size_list (size_option size) cs"
      by (intro size_list_estimation' [of "Some c"]) (auto simp: map_filter_id)
    with Children show ?thesis by simp
  qed (use p(2) in auto)
  also have "size p \<le> size_list size (props n)" by (rule size_list_estimation' [OF p(1)]) simp
  finally show ?thesis using size_props [of n] by simp
qed

text \<open>\<open>most = max(most, i + demand(kids[i]))\<close> over the operands.\<close>

fun held_operands :: "nat \<Rightarrow> nat list \<Rightarrow> nat" where
  "held_operands i [] = 0"
| "held_operands i (d # ds) = max (i + d) (held_operands (Suc i) ds)"

fun demand :: "node \<Rightarrow> nat" where
  "demand n =
     (if isFunctionNode n then 1
      else let ds = map demand (childrenOf n) in
        if type_of n \<in> set SEQUENTIAL \<or> STATEMENT_HOLD (type_of n) \<noteq> None
        then foldr max ds 0 + (case STATEMENT_HOLD (type_of n) of Some h \<Rightarrow> h | None \<Rightarrow> 0)
        else (if is_type ''CallExpression'' n \<or> is_type ''NewExpression'' n
              then max (held_operands 0 ds) (length (children n ''arguments'') + 2)
              else held_operands 0 ds) + 1)"

declare demand.simps [simp del]

text \<open>The names a pattern binds.\<close>

function patternNames :: "node option \<Rightarrow> nat" where
  "patternNames pat =
     (case pat of
        None \<Rightarrow> 0
      | Some p \<Rightarrow>
          if is_type ''Identifier'' p then 1
          else if is_type ''AssignmentPattern'' p then patternNames (child p ''left'')
          else if is_type ''RestElement'' p then patternNames (child p ''argument'')
          else if is_type ''ArrayPattern'' p then sum_list (map patternNames (children p ''elements''))
          else if is_type ''ObjectPattern'' p
          then sum_list (map (\<lambda>e. case e of None \<Rightarrow> 0
                 | Some q \<Rightarrow> patternNames (if is_type ''RestElement'' q then e else child q ''value''))
               (children p ''properties''))
          else 0)"
  by pat_completeness auto
termination
proof (relation "measure (case_option 0 (\<lambda>p. Suc (size p)))")
  fix pat p x
  assume p: "pat = Some (p :: node)"
  show "(child p ''left'', pat) \<in> measure (case_option 0 (\<lambda>p. Suc (size p)))"
    using p by (auto dest: size_child split: option.splits)
  show "(child p ''argument'', pat) \<in> measure (case_option 0 (\<lambda>p. Suc (size p)))"
    using p by (auto dest: size_child split: option.splits)
  show "x \<in> set (children p ''elements'') \<Longrightarrow> (x, pat) \<in> measure (case_option 0 (\<lambda>p. Suc (size p)))"
    using p by (auto dest: size_children split: option.splits)
next
  fix pat p e q
  assume p: "pat = Some (p :: node)" and e: "e \<in> set (children p ''properties'')" "e = Some q"
  have "size q < size p" using e by (auto dest: size_children)
  then show "(if is_type ''RestElement'' q then e else child q ''value'', pat)
      \<in> measure (case_option 0 (\<lambda>p. Suc (size p)))"
    using p e by (fastforce dest: size_child split: option.splits)
qed simp

declare patternNames.simps [simp del]

text \<open>The locals of a body; a nested function is not entered.\<close>

fun visit :: "node \<Rightarrow> nat" where
  "visit x =
     (if is_type ''VariableDeclarator'' x then patternNames (child x ''id'')
      else if is_type ''CatchClause'' x then patternNames (child x ''param'')
      else if (is_type ''FunctionDeclaration'' x \<or> is_type ''ClassDeclaration'' x) \<and> child x ''id'' \<noteq> None
      then 1 else 0)
     + (if isFunctionNode x then 0 else sum_list (map visit (childrenOf x)))"

declare visit.simps [simp del]

definition localCount :: "node \<Rightarrow> nat" where
  "localCount n = visit (astBlock
     (case property (props n) ''body'' of
        Some (Children _ cs) \<Rightarrow> cs | Some (Child _ c) \<Rightarrow> [Some c] | _ \<Rightarrow> [None]))"

definition frame_slots :: "node \<Rightarrow> nat" where
  "frame_slots f =
     (let params = sum_list (map (\<lambda>p. patternNames p + 1) (children f ''params''));
          bodyNode = (if is_type ''Program'' f then f else kid f ''body'')
      in FIXED_SLOTS + params + localCount bodyNode + demand bodyNode)"

definition frameWeight :: "node \<Rightarrow> nat" where
  "frameWeight f = 1 + frame_slots f div SLOTS_PER_UNIT"

subsection \<open>What a budget of units bounds\<close>

text \<open>The measured size of a native frame, in bytes: about 150 and 9 for every slot.\<close>

definition frame_bytes :: "node \<Rightarrow> nat" where
  "frame_bytes f = 150 + 9 * frame_slots f"

lemma frame_slots_bounded: "frame_slots f < SLOTS_PER_UNIT * frameWeight f"
  unfolding frameWeight_def SLOTS_PER_UNIT_def by presburger

lemma frame_bytes_bounded: "frame_bytes f \<le> 450 * frameWeight f"
  using frame_slots_bounded [of f] by (simp add: frame_bytes_def SLOTS_PER_UNIT_def frameWeight_def)

lemma frame_weight_positive: "1 \<le> frameWeight f"
  by (simp add: frameWeight_def)

lemma stack_bytes_bounded: "sum_list (map frame_bytes fs) \<le> 450 * sum_list (map frameWeight fs)"
proof (induction fs)
  case (Cons f fs)
  then show ?case using frame_bytes_bounded [of f] by (simp add: algebra_simps)
qed simp

text \<open>The number of locals a chain of nested functions has does not reach its outermost frame.\<close>

lemma demand_function: "isFunctionNode n \<Longrightarrow> demand n = 1"
  by (simp add: demand.simps)

end
