(* ===== verification/Instrument.thy ===== *)
theory Instrument
  imports Allocators NativeCatch FrameWeight
begin

text \<open>
  metering/visitor_instrumentation.js: the four walks that insert the gas charges and the depth
  guards. acorn-walk's \<open>simple\<close> calls a visitor on a node after its descendants, so a visitor that
  edits its node in place is a bottom-up rewrite; \<open>ancestor\<close> lets the visitor replace the node in its
  parent, which is the same rewrite. A walk reaches the children the walker \<open>W\<close> descends into, judged
  on the node as it stands when the walk comes to it. A node is visited once, so the \<open>processed\<close> set
  of the code, which guards against a second visit, has nothing to refuse.
\<close>

fun rewrite :: "walker \<Rightarrow> (node \<Rightarrow> node) \<Rightarrow> node \<Rightarrow> node"
and rewrite_props :: "walker \<Rightarrow> (node \<Rightarrow> node) \<Rightarrow> node \<Rightarrow> attr list \<Rightarrow> attr list"
and rewrite_list :: "walker \<Rightarrow> (node \<Rightarrow> node) \<Rightarrow> node option list \<Rightarrow> node option list"
where
  "rewrite W f (Node t ps) = f (Node t (rewrite_props W f (Node t ps) ps))"
| "rewrite_props W f parent [] = []"
| "rewrite_props W f parent (Child k c # ps) =
     Child k (if W parent k then rewrite W f c else c) # rewrite_props W f parent ps"
| "rewrite_props W f parent (Children k cs # ps) =
     Children k (if W parent k then rewrite_list W f cs else cs) # rewrite_props W f parent ps"
| "rewrite_props W f parent (Scalar k v # ps) = Scalar k v # rewrite_props W f parent ps"
| "rewrite_list W f [] = []"
| "rewrite_list W f (None # cs) = None # rewrite_list W f cs"
| "rewrite_list W f (Some c # cs) = Some (rewrite W f c) # rewrite_list W f cs"

subsection \<open>Phase 1: entries, iterations, branches\<close>

definition chargeFunctionEntry :: "node \<Rightarrow> node" where
  "chargeFunctionEntry n =
     (case child n ''body'' of
        Some b \<Rightarrow> if is_type ''BlockStatement'' b
          then put (Child ''body'' (put (Children ''body''
                 (insertGasAfterDirectives (children b ''body''))) b)) n
          else n
      | None \<Rightarrow> n)"

definition chargeArrowEntry :: "node \<Rightarrow> node" where
  "chargeArrowEntry n =
     (if is_type ''BlockStatement'' (kid n ''body'') then chargeFunctionEntry n
      else put (Child ''body'' (wrapWithGas (kid n ''body''))) n)"

definition chargeLoopBody :: "node \<Rightarrow> node" where
  "chargeLoopBody n = unshift_in ''body'' gasCallStatement (ensureBlock ''body'' n)"

definition chargeForUpdate :: "node \<Rightarrow> node" where
  "chargeForUpdate n =
     put (Child ''update'' (case child n ''update'' of
            Some u \<Rightarrow> Node ''SequenceExpression'' [Children ''expressions'' [Some gasCallExpr, Some u]]
          | None \<Rightarrow> gasCallExpr)) n"

definition chargeIf :: "node \<Rightarrow> node" where
  "chargeIf n =
     (let n' = unshift_in ''consequent'' gasCallStatement (ensureBlock ''consequent'' n)
      in case child n' ''alternate'' of
           None \<Rightarrow> n'
         | Some a \<Rightarrow> if is_type ''IfStatement'' a then n'
                     else unshift_in ''alternate'' gasCallStatement (ensureBlock ''alternate'' n'))"

definition chargeSwitchCase :: "node \<Rightarrow> node" where
  "chargeSwitchCase n =
     (if children n ''consequent'' = [] then n
      else put (Children ''consequent'' (Some gasCallStatement # children n ''consequent'')) n)"

definition charge_in_handler :: "node \<Rightarrow> node" where
  "charge_in_handler n =
     (case child n ''handler'' of
        Some h \<Rightarrow> put (Child ''handler'' (unshift_in ''body'' gasCallStatement h)) n | None \<Rightarrow> n)"

definition chargeTry :: "armed_names option \<Rightarrow> node \<Rightarrow> node" where
  "chargeTry armedNames n =
     (case armedNames of
        Some names \<Rightarrow> armTryStatement names n
      | None \<Rightarrow> unshift_in ''finalizer'' gasCallStatement
                  (charge_in_handler (unshift_in ''block'' gasCallStatement n)))"

definition chargeConditional :: "node \<Rightarrow> node" where
  "chargeConditional n = put (Child ''test'' (wrapWithGas (kid n ''test''))) n"

definition block_visitor :: "armed_names option \<Rightarrow> node \<Rightarrow> node" where
  "block_visitor armedNames n =
     (if is_type ''FunctionDeclaration'' n \<or> is_type ''FunctionExpression'' n then chargeFunctionEntry n
      else if is_type ''ArrowFunctionExpression'' n then chargeArrowEntry n
      else if is_type ''ForStatement'' n then chargeForUpdate (chargeLoopBody n)
      else if is_type ''WhileStatement'' n \<or> is_type ''DoWhileStatement'' n
              \<or> is_type ''ForInStatement'' n \<or> is_type ''ForOfStatement'' n then chargeLoopBody n
      else if is_type ''IfStatement'' n then chargeIf n
      else if is_type ''SwitchCase'' n then chargeSwitchCase n
      else if is_type ''TryStatement'' n then chargeTry armedNames n
      else if is_type ''ConditionalExpression'' n then chargeConditional n
      else n)"

definition injectBlockGas :: "walker \<Rightarrow> armed_names option \<Rightarrow> node \<Rightarrow> node" where
  "injectBlockGas W armedNames = rewrite W (block_visitor armedNames)"

subsection \<open>Phase 2: deep binary chains\<close>

text \<open>Wrap the left operand at the tenth step down the chain, or at its end.\<close>

function wrapLeftAt :: "nat \<Rightarrow> node \<Rightarrow> node" where
  "wrapLeftAt steps n =
     (case child n ''left'' of
        None \<Rightarrow> n
      | Some l \<Rightarrow>
          if is_type ''BinaryExpression'' l \<and> 0 < steps
          then put (Child ''left'' (wrapLeftAt (steps - 1) l)) n
          else put (Child ''left'' (wrapWithGas l)) n)"
  by pat_completeness auto
termination
  by (relation "measure fst") auto

declare wrapLeftAt.simps [simp del]

definition binary_visitor :: "node \<Rightarrow> node" where
  "binary_visitor n =
     (if is_type ''BinaryExpression'' n \<and> binaryDepth n > 10 then wrapLeftAt 10 n else n)"

definition injectBinaryDepthGas :: "walker \<Rightarrow> node \<Rightarrow> node" where
  "injectBinaryDepthGas W = rewrite W binary_visitor"

subsection \<open>Phase 3: call sites\<close>

definition is_helper_call :: "node \<Rightarrow> bool" where
  "is_helper_call n \<longleftrightarrow> is_type ''Identifier'' (kid n ''callee'')
     \<and> (text_of (kid n ''callee'') ''name'' = ''__gas''
        \<or> text_of (kid n ''callee'') ''name'' \<in> set ALLOC_HELPERS)"

definition is_gas_member_call :: "node \<Rightarrow> bool" where
  "is_gas_member_call n \<longleftrightarrow> is_type ''MemberExpression'' (kid n ''callee'')
     \<and> is_type ''Identifier'' (kid (kid n ''callee'') ''object'')
     \<and> text_of (kid (kid n ''callee'') ''object'') ''name'' = ''__gas''"

definition call_visitor :: "node \<Rightarrow> node" where
  "call_visitor n =
     (if is_type ''CallExpression'' n \<and> \<not> is_helper_call n \<and> \<not> is_gas_member_call n
      then wrapWithGas n else n)"

definition injectCallGas :: "walker \<Rightarrow> node \<Rightarrow> node" where
  "injectCallGas W = rewrite W call_visitor"

subsection \<open>Phase 4: depth guards\<close>

definition weightOf :: "armed_names option \<Rightarrow> node \<Rightarrow> armed_frame option" where
  "weightOf armedNames n =
     map_option (\<lambda>names. \<lparr>weight = frameWeight n, caught = caught_name names, token = token_name names\<rparr>)
       armedNames"

definition arrow_to_block :: "node \<Rightarrow> node" where
  "arrow_to_block n =
     (if is_type ''BlockStatement'' (kid n ''body'') then n
      else put (Child ''body'' (astBlock [Some (Node ''ReturnStatement'' [Child ''argument'' (kid n ''body'')])])) n)"

definition guard_visitor :: "armed_names option \<Rightarrow> node \<Rightarrow> node" where
  "guard_visitor armedNames n =
     (if is_type ''FunctionDeclaration'' n \<or> is_type ''FunctionExpression'' n
      then wrapDepthGuard (weightOf armedNames n) n
      else if is_type ''ArrowFunctionExpression'' n
      then wrapDepthGuard (weightOf armedNames (arrow_to_block n)) (arrow_to_block n)
      else n)"

definition injectDepthGuards :: "walker \<Rightarrow> armed_names option \<Rightarrow> node \<Rightarrow> node" where
  "injectDepthGuards W armedNames = rewrite W (guard_visitor armedNames)"

end
