(* ===== verification/Metering.thy ===== *)
theory Metering
  imports Instrument
begin

text \<open>
  metering.js: the whole transform, from contract source to metered source. The parser (acorn), the
  printer (astring) and the walkers (acorn-walk) are parameters; \<open>None\<close> is a name choice that does
  not return, which never happens.
\<close>

definition chargeTopLevelFrame :: "string \<Rightarrow> node \<Rightarrow> node" where
  "chargeTopLevelFrame tok ast =
     (let pair = armedDepthPair (frameWeight ast) tok;
          body = children ast ''body'';
          offset = 1 + directivePrologueLength body
      in put (Children ''body'' (take offset body @ Some (fst pair) # drop offset body @ [Some (snd pair)])) ast)"

definition meterTree :: "walker \<Rightarrow> (node \<Rightarrow> node list) \<Rightarrow> meter_flags \<Rightarrow> node \<Rightarrow> node option" where
  "meterTree W full op ast =
     (let metered_with = (\<lambda>armedNames.
            let ast1 = transformAllocators W op ast;
                ast2 = put (Children ''body'' (insertGasAfterDirectives (children ast1 ''body''))) ast1;
                ast3 = injectBlockGas W armedNames ast2;
                ast4 = injectBinaryDepthGas W ast3;
                ast5 = injectCallGas W ast4;
                ast6 = injectDepthGuards W armedNames ast5
            in case armedNames of
                 Some names \<Rightarrow> chargeTopLevelFrame (token_name names) ast6
               | None \<Rightarrow> ast6)
      in if nativeStackTerminal op
         then map_option (\<lambda>names. metered_with (Some names)) (chooseNames full ast)
         else Some (metered_with None))"

definition meterCode ::
  "(string \<Rightarrow> 'e + node) \<Rightarrow> (node \<Rightarrow> string) \<Rightarrow> walker \<Rightarrow> (node \<Rightarrow> node list) \<Rightarrow>
   string \<Rightarrow> meter_flags \<Rightarrow> ('e + string) option" where
  "meterCode acorn_parse generate W full source op =
     (case acorn_parse source of
        Inl e \<Rightarrow> Some (Inl e)
      | Inr ast \<Rightarrow> map_option (\<lambda>ast'. Inr (generate ast')) (meterTree W full op ast))"

end
