(* ===== verification/AllocatorProps.thy ===== *)
theory AllocatorProps
  imports Allocators
begin

text \<open>
  What the allocator rewrite achieves: after it, every construct that lets the engine copy data
  without a size charge is gone, whatever the shape of the program and however deep it is nested.
\<close>

definition calls :: "string \<Rightarrow> node \<Rightarrow> bool" where
  "calls name n \<longleftrightarrow> is_type ''CallExpression'' n \<and> is_type ''Identifier'' (kid n ''callee'')
     \<and> scalar (kid n ''callee'') ''name'' = Text name"

text \<open>A spread whose source is not a call of the helper that charges for it.\<close>

definition bare_spread :: "string \<Rightarrow> node option \<Rightarrow> bool" where
  "bare_spread name e = (case e of None \<Rightarrow> False
     | Some a \<Rightarrow> is_type ''SpreadElement'' a \<and> \<not> calls name (kid a ''argument''))"

definition bare_rest :: "node option \<Rightarrow> node \<Rightarrow> bool" where
  "bare_rest pat src \<longleftrightarrow>
     (restKind pat = Some ''obj'' \<and> \<not> calls ''__objspreadmeter'' src)
     \<or> (restKind pat = Some ''arr'' \<and> \<not> calls ''__arrspread'' src)"

definition allocates :: "meter_flags \<Rightarrow> node \<Rightarrow> bool" where
  "allocates op n \<longleftrightarrow>
     (is_type ''BinaryExpression'' n \<and> scalar n ''operator'' = Text ''+'')
   \<or> (is_type ''AssignmentExpression'' n \<and> scalar n ''operator'' = Text ''+=''
        \<and> (is_type ''Identifier'' (kid n ''left'') \<or> is_type ''MemberExpression'' (kid n ''left'')))
   \<or> is_type ''TaggedTemplateExpression'' n \<or> is_type ''TemplateLiteral'' n
   \<or> (is_type ''ArrayExpression'' n \<and> has_type ''SpreadElement'' (children n ''elements''))
   \<or> (is_type ''ObjectExpression'' n
        \<and> list_ex (bare_spread ''__objspreadmeter'') (children n ''properties''))
   \<or> (meterCallSpread op \<and> (is_type ''CallExpression'' n \<or> is_type ''NewExpression'' n)
        \<and> \<not> list_ex (\<lambda>f. calls f n) ALLOC_HELPERS
        \<and> list_ex (bare_spread ''__arrspread'') (children n ''arguments''))
   \<or> (meterRestPattern op \<and> is_type ''VariableDeclarator'' n \<and> child n ''init'' \<noteq> None
        \<and> bare_rest (child n ''id'') (kid n ''init''))
   \<or> (meterRestPattern op \<and> is_type ''AssignmentExpression'' n \<and> scalar n ''operator'' = Text ''=''
        \<and> bare_rest (child n ''left'') (kid n ''right''))"

text \<open>
  Where a parser puts spread elements: in array elements, arguments and object properties, never as
  an operand.
\<close>

definition slot_spread_free :: "attr \<Rightarrow> bool" where
  "slot_spread_free p = (case p of
     Child k c \<Rightarrow> \<not> is_type ''SpreadElement'' c
   | Children k cs \<Rightarrow> k \<in> {''elements'', ''arguments'', ''properties''} \<or> \<not> has_type ''SpreadElement'' cs
   | Scalar k v \<Rightarrow> True)"

definition spreads_placed :: "node \<Rightarrow> bool" where
  "spreads_placed n \<longleftrightarrow> (\<forall>p \<in> set (props n). slot_spread_free p)"

definition well_spread :: "node \<Rightarrow> bool" where
  "well_spread n \<longleftrightarrow> (\<forall>m \<in> set (nodes n). spreads_placed m)"

text \<open>
  What acorn-walk documents of its walkers: they reach every expression, statement and pattern, so a
  property they pass over holds at most names (labels, keys that are not computed).
\<close>

definition leaf :: "node \<Rightarrow> bool" where
  "leaf n \<longleftrightarrow> type_of n = ''Identifier'' \<or> type_of n = ''Literal''"

definition covers :: "walker \<Rightarrow> bool" where
  "covers W \<longleftrightarrow> (\<forall>n. \<forall>p \<in> set (props n). (\<exists>m \<in> slot_nodes p. \<not> leaf m) \<longrightarrow> W n (prop_key p))"

lemma has_type_iff: "has_type t es \<longleftrightarrow> (\<exists>n. Some n \<in> set es \<and> is_type t n)"
  by (force simp: has_type_def list_ex_iff is_some_type_def split: option.splits)

subsection \<open>Metered trees\<close>

definition fine :: "meter_flags \<Rightarrow> node \<Rightarrow> bool" where
  "fine op n \<longleftrightarrow> \<not> allocates op n \<and> spreads_placed n"

definition metered :: "meter_flags \<Rightarrow> node \<Rightarrow> bool" where
  "metered op n \<longleftrightarrow> (\<forall>m \<in> set (nodes n). fine op m)"

definition metered_below :: "meter_flags \<Rightarrow> node \<Rightarrow> bool" where
  "metered_below op n \<longleftrightarrow> spreads_placed n \<and> (\<forall>m \<in> set (prop_nodes (props n)). fine op m)"

definition operand :: "meter_flags \<Rightarrow> node \<Rightarrow> bool" where
  "operand op n \<longleftrightarrow> metered op n \<and> \<not> is_type ''SpreadElement'' n"

lemma metered_iff: "metered op n \<longleftrightarrow> fine op n \<and> metered_below op n"
  by (auto simp: metered_def metered_below_def nodes_unfold fine_def)

lemma metered_belowI:
  assumes "\<And>p. p \<in> set (props n) \<Longrightarrow> slot_spread_free p"
    and "\<And>k c. Child k c \<in> set (props n) \<Longrightarrow> metered op c"
    and "\<And>k cs c. Children k cs \<in> set (props n) \<Longrightarrow> Some c \<in> set cs \<Longrightarrow> metered op c"
  shows "metered_below op n"
  unfolding metered_below_def spreads_placed_def
proof (intro conjI ballI)
  fix m assume "m \<in> set (prop_nodes (props n))"
  then obtain p where p: "p \<in> set (props n)" "m \<in> slot_nodes p" by (auto simp: prop_nodes_iff)
  show "fine op m"
  proof (cases p)
    case (Child k c)
    with p assms(2) [of k c] show ?thesis by (simp add: metered_def)
  next
    case (Children k cs)
    with p assms(3) [of k cs] show ?thesis by (auto simp: metered_def list_nodes_iff)
  qed (use p in simp)
qed (rule assms(1))

lemma kid_operand: "metered_below op n \<Longrightarrow> operand op (kid n k)"
proof (cases "child n k")
  case None
  then show ?thesis
    by (auto simp: kid_def operand_def is_type_def metered_def fine_def allocates_def spreads_placed_def)
next
  case (Some c)
  assume b: "metered_below op n"
  have "Child k c \<in> set (props n)" using Some by (rule child_in_props)
  then show ?thesis using b Some nodes_child [OF Some]
    by (auto simp: kid_def operand_def metered_def metered_below_def spreads_placed_def
        slot_spread_free_def split: attr.splits)
qed

lemma children_metered: "metered_below op n \<Longrightarrow> Some c \<in> set (children n k) \<Longrightarrow> metered op c"
  by (auto simp: metered_def metered_below_def intro: nodes_children)

lemma children_operand:
  assumes "metered_below op n" "Some c \<in> set (children n k)"
    and "k \<notin> {''elements'', ''arguments'', ''properties''} \<or> \<not> is_type ''SpreadElement'' c"
  shows "operand op c"
  using assms children_metered [OF assms(1,2)] children_in_props [OF assms(2)]
  by (auto simp: operand_def metered_below_def spreads_placed_def slot_spread_free_def has_type_iff
      split: attr.splits)

subsection \<open>The nodes the rewrite inserts\<close>

lemma is_type_Node [simp]: "is_type t (Node u ps) \<longleftrightarrow> u = t"
  by (simp add: is_type_def)

lemma operand_leaf [simp]: "operand op (astIdent s)" "operand op (astLiteral v)"
  by (simp_all add: operand_def metered_def fine_def allocates_def spreads_placed_def
      slot_spread_free_def astIdent_def astLiteral_def)

lemma operand_void0 [simp]: "operand op astVoid0"
  by (simp add: operand_def metered_def fine_def allocates_def spreads_placed_def
      slot_spread_free_def astVoid0_def astLiteral_def)

lemma operand_Node:
  assumes "\<not> allocates op (Node t ps)" "t \<noteq> ''SpreadElement''"
    and "\<And>k c. Child k c \<in> set ps \<Longrightarrow> operand op c"
    and "\<And>k cs c. Children k cs \<in> set ps \<Longrightarrow> Some c \<in> set cs \<Longrightarrow> operand op c"
  shows "operand op (Node t ps)"
proof -
  have "slot_spread_free p" if "p \<in> set ps" for p
  proof (cases p)
    case (Child k c)
    with that assms(3) [of k c] show ?thesis by (simp add: slot_spread_free_def operand_def)
  next
    case (Children k cs)
    with that assms(4) [of k cs] show ?thesis by (auto simp: slot_spread_free_def has_type_iff operand_def)
  qed (simp add: slot_spread_free_def)
  then have "metered_below op (Node t ps)"
    using assms(3,4) by (intro metered_belowI) (auto simp: operand_def)
  then show ?thesis
    using assms(1,2) by (simp add: operand_def metered_iff fine_def metered_below_def)
qed

lemma operand_thunk: "operand op e \<Longrightarrow> operand op (arrowThunk e)"
  by (auto simp: operand_def metered_def fine_def allocates_def spreads_placed_def
      slot_spread_free_def arrowThunk_def has_type_iff)

lemma kid_callee [simp]: "kid (Node t (Child ''callee'' c # ps)) ''callee'' = c"
  by (simp add: kid_def child_def)

lemma helper_calls: "f \<in> set ALLOC_HELPERS \<Longrightarrow> \<not> allocates op (astCall f args)"
  by (auto simp: allocates_def astCall_def calls_def astIdent_def scalar_def list_ex_iff)

lemma operand_call:
  assumes "f \<in> set ALLOC_HELPERS" "\<And>a. a \<in> set args \<Longrightarrow> operand op a"
  shows "operand op (astCall f args)"
proof -
  have "metered_below op (astCall f args)"
    using assms(2) operand_leaf(1) [of op f]
    by (intro metered_belowI) (auto simp: astCall_def operand_def slot_spread_free_def)
  moreover have "spreads_placed (astCall f args)"
    using operand_leaf(1) [of op f] by (simp add: astCall_def spreads_placed_def slot_spread_free_def operand_def)
  ultimately show ?thesis
    using helper_calls [OF assms(1)] by (simp add: operand_def metered_iff fine_def astCall_def)
qed

lemma operand_array:
  assumes "\<And>e. Some e \<in> set es \<Longrightarrow> operand op e"
  shows "operand op (astArray es)"
proof -
  have "metered_below op (astArray es)"
    using assms by (intro metered_belowI) (auto simp: astArray_def operand_def slot_spread_free_def)
  moreover have "\<not> allocates op (astArray es)"
    using assms
    by (auto simp: astArray_def allocates_def children_def has_type_iff operand_def)
  ultimately show ?thesis
    by (simp add: operand_def metered_iff fine_def metered_below_def astArray_def)
qed

lemma operand_segment: "(\<And>n. n \<in> set ns \<Longrightarrow> operand op n) \<Longrightarrow> operand op (segment t ns)"
  unfolding segment_def by (rule operand_array) auto

lemma kid_metered: "metered op m \<Longrightarrow> operand op (kid m k)"
  by (simp add: metered_iff kid_operand)

lemma kid_kid: "operand op m \<Longrightarrow> operand op (kid m k)"
  using kid_metered [of op m k] by (simp add: operand_def)

lemma operand_member_key: "operand op m \<Longrightarrow> operand op (memberKeyExpr m)"
  by (simp add: memberKeyExpr_def kid_kid)

lemma in_helpers [simp]:
  "''__concat'' \<in> set ALLOC_HELPERS" "''__setconcat'' \<in> set ALLOC_HELPERS"
  "''__setconcatL'' \<in> set ALLOC_HELPERS" "''__tmpl'' \<in> set ALLOC_HELPERS"
  "''__tmpltag'' \<in> set ALLOC_HELPERS" "''__tmpltagm'' \<in> set ALLOC_HELPERS"
  "''__arrspread'' \<in> set ALLOC_HELPERS" "''__objspread'' \<in> set ALLOC_HELPERS"
  "''__objspreadmeter'' \<in> set ALLOC_HELPERS"
  by (simp_all add: ALLOC_HELPERS_def)

lemma calls_astCall [simp]: "calls f (astCall g args) \<longleftrightarrow> f = g"
  by (auto simp: calls_def astCall_def astIdent_def scalar_def)

lemma operandD: "operand op n \<Longrightarrow> metered op n" "operand op n \<Longrightarrow> \<not> is_type ''SpreadElement'' n"
  by (simp_all add: operand_def)

lemma metered_belowD: "metered op n \<Longrightarrow> metered_below op n"
  by (simp add: metered_iff)

lemma metered_put:
  assumes "metered_below op n" "\<not> allocates op (put p n)" "slot_spread_free p"
    and "case p of Child k c \<Rightarrow> metered op c | Children k cs \<Rightarrow> \<forall>c. Some c \<in> set cs \<longrightarrow> metered op c
         | Scalar k v \<Rightarrow> True"
  shows "metered op (put p n)"
proof -
  have "spreads_placed (put p n)"
    using assms(1,3) put_in_subset [of p "props n"]
    by (auto simp: metered_below_def spreads_placed_def put_def)
  moreover have "fine op m" if "m \<in> set (prop_nodes (props (put p n)))" for m
    using nodes_put [OF that] assms(1,4)
    by (cases p) (auto simp: metered_below_def metered_def list_nodes_iff)
  ultimately show ?thesis using assms(2) by (simp add: metered_iff metered_below_def fine_def)
qed

lemmas operand_intros = operand_call operand_array operand_segment operand_thunk
  operand_leaf operand_void0 operand_member_key

subsection \<open>Each converter\<close>

lemma convertConcat_metered:
  assumes "metered_below op n" "convertConcat s n = Some n'"
  shows "operand op n'"
proof -
  have assign: "operand op (Node ''AssignmentExpression''
      [Scalar ''operator'' (Text ''=''), Child ''left'' (kid n ''left''), Child ''right'' (astCall ''__concat'' [cloneNode (kid n ''left''), kid n ''right''])])"
    if id: "is_type ''Identifier'' (kid n ''left'')"
  proof -
    have ops: "operand op (kid n ''left'')" "operand op (astCall ''__concat'' [cloneNode (kid n ''left''), kid n ''right''])"
      using assms(1) by (auto simp: cloneNode_def intro!: operand_intros kid_operand)
    have rest: "restKind (Some (kid n ''left'')) = None"
      using id by (simp add: restKind_def is_type_def)
    have "\<not> allocates op (Node ''AssignmentExpression''
      [Scalar ''operator'' (Text ''=''), Child ''left'' (kid n ''left''), Child ''right'' (astCall ''__concat'' [cloneNode (kid n ''left''), kid n ''right''])])"
      using rest by (simp add: allocates_def bare_rest_def scalar_def child_def)
    then show ?thesis
      by (rule operand_Node) (auto simp: ops)
  qed
  have ops: "operand op (kid n k)" for k by (rule kid_operand [OF assms(1)])
  consider "n' = astCall ''__concat'' [kid n ''left'', kid n ''right'']"
    | "n' = astCall ''__setconcatL'' [kid (kid n ''left'') ''object'',
              memberKeyExpr (kid n ''left''), arrowThunk (kid n ''right'')]"
    | "n' = astCall ''__setconcat'' [kid (kid n ''left'') ''object'',
              memberKeyExpr (kid n ''left''), kid n ''right'']"
    | "operand op n'"
    using assms(2) assign by (auto simp: convertConcat_def split: if_splits)
  then show ?thesis
    by cases (auto intro!: operand_intros ops intro: kid_kid)
qed

lemma convertArraySpread_metered:
  assumes "metered_below op n" "convertArraySpread n = Some n'"
  shows "operand op n'"
proof -
  have "operand op e" if "Some e \<in> set (map array_segment (children n ''elements''))" for e
    using that children_operand [OF assms(1), of _ "''elements''"]
      kid_metered [OF children_metered [OF assms(1)], of _ "''elements''"]
    by (auto simp: array_segment_def split: option.splits if_splits intro!: operand_segment)
  then show ?thesis
    using assms(2) by (auto simp: convertArraySpread_def split: if_splits intro!: operand_intros)
qed

lemma convertTemplateLiteral_metered:
  assumes "metered_below op n" "convertTemplateLiteral t n = Some n'"
  shows "operand op n'"
proof -
  have parts: "(\<And>e. Some e \<in> set es \<Longrightarrow> operand op e) \<Longrightarrow> Some e \<in> set (template_parts qs es) \<Longrightarrow> operand op e"
    for qs es e
    by (induction qs es rule: template_parts.induct) auto
  have "operand op e" if "Some e \<in> set (children n ''expressions'')" for e
    using children_operand [OF assms(1) that] by simp
  then have "operand op (astArray (template_parts (children n ''quasis'') (children n ''expressions'')))"
    using parts by (intro operand_array) blast
  then show ?thesis
    using assms(2) by (auto simp: convertTemplateLiteral_def split: if_splits intro!: operand_call)
qed

lemma Some_eq_map_option: "Some e = map_option g x \<longleftrightarrow> (\<exists>p. x = Some p \<and> e = g p)"
  by (cases x) auto

lemma property_segment_operand:
  assumes "metered_below op n" "Some e \<in> set (map property_segment (children n ''properties''))"
  shows "operand op e"
proof -
  from assms(2) obtain p where p: "Some p \<in> set (children n ''properties'')" "Some e = property_segment (Some p)"
    by (force simp: property_segment_def Some_eq_map_option)
  have ops: "operand op (kid p k)" for k
    by (rule kid_metered [OF children_metered [OF assms(1) p(1)]])
  show ?thesis
    using p(2) by (auto simp: property_segment_def Let_def split: if_splits intro!: operand_intros ops)
qed

lemma convertObjectSpread_metered:
  assumes below: "metered_below op n" and conv: "convertObjectSpread n = Some n'"
  shows "operand op n'"
proof (cases "list_all simple_property (children n ''properties'')")
  case True
  then show ?thesis
    using conv property_segment_operand [OF below]
    by (auto simp: convertObjectSpread_def Let_def split: if_splits intro!: operand_call operand_array)
next
  case False
  let ?ps = "map meter_spread_property (children n ''properties'')"
  have n': "n' = put (Children ''properties'' ?ps) n" and obj: "is_type ''ObjectExpression'' n"
    using conv False by (auto simp: convertObjectSpread_def Let_def split: if_splits)
  have kept: "metered op e \<and> \<not> bare_spread ''__objspreadmeter'' (Some e)"
    if e: "Some e = meter_spread_property (Some p)" "Some p \<in> set (children n ''properties'')" for e p
  proof (cases "is_type ''SpreadElement'' p")
    case True
    have p: "metered_below op p" "metered op p"
      using children_metered [OF below e(2)] by (auto simp: metered_iff)
    have arg: "operand op (astCall ''__objspreadmeter'' [kid p ''argument''])"
      using kid_operand [OF p(1)] by (auto intro!: operand_call)
    let ?e = "put (Child ''argument'' (astCall ''__objspreadmeter'' [kid p ''argument''])) p"
    have "\<not> allocates op ?e"
      using True by (simp add: allocates_def is_type_def)
    then have "metered op ?e"
      using p(1) arg by (intro metered_put) (auto simp: operand_def slot_spread_free_def)
    moreover have "e = ?e" using e(1) True by (simp add: meter_spread_property_def)
    ultimately show ?thesis by (simp add: bare_spread_def kid_def)
  next
    case False
    then show ?thesis
      using e children_metered [OF below e(2)] by (simp add: meter_spread_property_def bare_spread_def)
  qed
  have each: "metered op e \<and> \<not> bare_spread ''__objspreadmeter'' (Some e)" if "Some e \<in> set ?ps" for e
  proof -
    from that obtain p where "Some e = meter_spread_property (Some p)" "Some p \<in> set (children n ''properties'')"
      by (force simp: meter_spread_property_def Some_eq_map_option)
    then show ?thesis by (rule kept)
  qed
  have "\<not> bare_spread ''__objspreadmeter'' e" if "e \<in> set ?ps" for e
  proof (cases e)
    case (Some a)
    with that each [of a] show ?thesis by blast
  qed (simp add: bare_spread_def)
  then have "\<not> allocates op n'"
    using obj by (auto simp: n' allocates_def is_type_def list_ex_iff)
  then have "metered op n'"
    unfolding n' using below each by (intro metered_put) (auto simp: slot_spread_free_def)
  then show ?thesis using obj by (simp add: operand_def n' is_type_def)
qed

lemma argument_segments_operand:
  assumes "metered_below op n"
  shows "operand op (astArray (map argument_segment (children n ''arguments'')))"
proof (rule operand_array)
  fix e assume "Some e \<in> set (map argument_segment (children n ''arguments''))"
  then obtain a where a: "Some a \<in> set (children n ''arguments'')" "Some e = argument_segment (Some a)"
    by (force simp: argument_segment_def Some_eq_map_option)
  show "operand op e"
    using a(2) children_operand [OF assms a(1)] kid_metered [OF children_metered [OF assms a(1)]]
    by (auto simp: argument_segment_def split: if_splits intro!: operand_segment)
qed

lemma spread_of_metered:
  assumes "\<And>a. a \<in> set args \<Longrightarrow> operand op a"
  shows "spread_of args = [Some e] \<Longrightarrow> metered op e"
    and "spread_of args = [Some e] \<Longrightarrow> \<not> bare_spread ''__arrspread'' (Some e)"
proof -
  have call: "operand op (astCall ''__arrspread'' args)" using assms by (intro operand_call) auto
  have "\<not> allocates op (Node ''SpreadElement'' [Child ''argument'' (astCall ''__arrspread'' args)])"
    by (simp add: allocates_def)
  moreover have "metered_below op (Node ''SpreadElement'' [Child ''argument'' (astCall ''__arrspread'' args)])"
    using call by (intro metered_belowI) (auto simp: operand_def slot_spread_free_def)
  ultimately show "spread_of args = [Some e] \<Longrightarrow> metered op e"
    by (auto simp: spread_of_def metered_iff fine_def metered_below_def)
  show "spread_of args = [Some e] \<Longrightarrow> \<not> bare_spread ''__arrspread'' (Some e)"
    by (auto simp: spread_of_def bare_spread_def kid_def child_def)
qed

lemma convertCallSpread_metered:
  assumes below: "metered_below op n" and conv: "convertCallSpread op d n s = Some (n', s')"
  shows "operand op n'"
proof -
  let ?segs = "astArray (map argument_segment (children n ''arguments''))"
  have type: "is_type ''CallExpression'' n \<or> is_type ''NewExpression'' n"
    using conv by (auto simp: convertCallSpread_def Let_def split: if_splits)
  have put: "operand op (put (Children ''arguments'' (spread_of args)) n)"
    if "\<And>a. a \<in> set args \<Longrightarrow> operand op a" for args
  proof -
    obtain e where e: "spread_of args = [Some e]" by (simp add: spread_of_def)
    note sp = spread_of_metered [OF that e]
    have "\<not> allocates op (put (Children ''arguments'' (spread_of args)) n)"
      using type sp(2) by (auto simp: allocates_def is_type_def e)
    then have "metered op (put (Children ''arguments'' (spread_of args)) n)"
      using below sp(1) by (intro metered_put) (auto simp: slot_spread_free_def e)
    then show ?thesis using type by (auto simp: operand_def is_type_def)
  qed
  have segs: "operand op ?segs" by (rule argument_segments_operand [OF below])
  show ?thesis
    using conv segs
    by (auto simp: convertCallSpread_def Let_def split: if_splits intro!: put operand_call)
qed

lemma meterRestSource_operand:
  "operand op src \<Longrightarrow> operand op (meterRestSource pat src)"
  by (auto simp: meterRestSource_def intro!: operand_intros)

lemma meterRestSource_charged: "\<not> bare_rest pat (meterRestSource pat src)"
  by (auto simp: bare_rest_def meterRestSource_def)

lemma convertRestPattern_metered:
  assumes below: "metered_below op n" and conv: "convertRestPattern on n = Some n'"
    and left: "convertConcat s n = None"
  shows "operand op n'"
proof -
  have src: "operand op (meterRestSource p (kid n k))" for p k
    by (intro meterRestSource_operand kid_operand below)
  consider
      (decl) "is_type ''VariableDeclarator'' n"
        "n' = put (Child ''init'' (meterRestSource (child n ''id'') (kid n ''init''))) n"
    | (assign) "is_type ''AssignmentExpression'' n" "scalar n ''operator'' = Text ''=''"
        "n' = put (Child ''right'' (meterRestSource (child n ''left'') (kid n ''right''))) n"
    using conv by (auto simp: convertRestPattern_def split: if_splits)
  then show ?thesis
  proof cases
    case decl
    then have "\<not> allocates op n'"
      by (auto simp: allocates_def is_type_def kid_def meterRestSource_charged)
    then have "metered op n'"
      unfolding decl(2) using below src by (intro metered_put) (auto simp: operand_def slot_spread_free_def)
    then show ?thesis using decl by (simp add: operand_def is_type_def)
  next
    case assign
    have "kid n' ''right'' = meterRestSource (child n ''left'') (kid n ''right'')"
      by (simp add: assign(3) kid_def)
    then have "\<not> allocates op n'"
      using assign by (simp add: allocates_def is_type_def meterRestSource_charged)
    then have "metered op n'"
      unfolding assign(3) using below src by (intro metered_put) (auto simp: operand_def slot_spread_free_def)
    then show ?thesis using assign by (simp add: operand_def is_type_def)
  qed
qed

subsection \<open>The tagged template and the walk\<close>

text \<open>
  A node whose children have been visited. The quasi of a tagged template is the one child that may
  still be a template literal; its own parts have been visited.
\<close>

definition slot_done :: "meter_flags \<Rightarrow> string \<Rightarrow> attr \<Rightarrow> bool" where
  "slot_done op t p = (slot_spread_free p \<and> (case p of
     Child k c \<Rightarrow> (if t = ''TaggedTemplateExpression'' \<and> k = ''quasi'' then metered_below op c else metered op c)
   | Children k cs \<Rightarrow> (\<forall>c. Some c \<in> set cs \<longrightarrow> metered op c)
   | Scalar k v \<Rightarrow> True))"

lemma slot_done_Scalar [simp]: "slot_done op t (Scalar k v)"
  by (simp add: slot_done_def slot_spread_free_def)

lemma slots_done_below:
  assumes "\<forall>p \<in> set (props n). slot_done op (type_of n) p" "type_of n \<noteq> ''TaggedTemplateExpression''"
  shows "metered_below op n"
proof (rule metered_belowI)
  show "slot_spread_free p" if "p \<in> set (props n)" for p
    using that assms by (auto simp: slot_done_def)
  show "metered op c" if "Child k c \<in> set (props n)" for k c
    using bspec [OF assms(1) that] assms(2) by (simp add: slot_done_def)
  show "metered op c" if "Children k cs \<in> set (props n)" "Some c \<in> set cs" for k cs c
    using bspec [OF assms(1) that(1)] that(2) by (simp add: slot_done_def)
qed

lemma convertTaggedTemplate_metered:
  assumes visited: "\<forall>p \<in> set (props n). slot_done op (type_of n) p"
    and conv: "convertTaggedTemplate n = Some n'"
  shows "operand op n'"
proof -
  have tagged: "type_of n = ''TaggedTemplateExpression''"
    using conv by (auto simp: convertTaggedTemplate_def is_type_def split: if_splits)
  let ?tl = "kid n ''quasi''" and ?tag = "kid n ''tag''"
  have quasi: "metered_below op ?tl"
  proof (cases "child n ''quasi''")
    case None
    then show ?thesis by (simp add: kid_def metered_below_def spreads_placed_def)
  next
    case (Some c)
    with visited child_in_props [OF Some] tagged show ?thesis by (auto simp: slot_done_def kid_def)
  qed
  have tag: "operand op ?tag"
  proof (cases "child n ''tag''")
    case None
    then show ?thesis
      by (auto simp: kid_def operand_def is_type_def metered_def fine_def allocates_def spreads_placed_def)
  next
    case (Some c)
    with visited child_in_props [OF Some] tagged show ?thesis
      by (auto simp: slot_done_def kid_def operand_def slot_spread_free_def)
  qed
  have exprs: "operand op (astArray (children ?tl ''expressions''))"
    using children_operand [OF quasi] by (intro operand_array) simp
  have member: "operand op (kid ?tag ''object'')" "operand op (memberKeyExpr ?tag)"
    using tag by (auto intro: kid_kid operand_member_key)
  show ?thesis
    using conv tag exprs member
    by (auto simp: convertTaggedTemplate_def Let_def split: if_splits intro!: operand_intros)
qed

definition visited :: "meter_flags \<Rightarrow> bool \<Rightarrow> node \<Rightarrow> node \<Rightarrow> bool" where
  "visited op tagged n n' \<longleftrightarrow>
     (is_type ''SpreadElement'' n' \<longleftrightarrow> is_type ''SpreadElement'' n)
     \<and> (if tagged then metered_below op n' else metered op n')"

lemma convert_visited:
  assumes slots: "\<forall>p \<in> set (props n). slot_done op (type_of n) p"
  shows "visited op tagged n (fst (convert op tagged d n s))"
proof -
  let ?early = "or_else (convertConcat (specEvalOrder op) n) (or_else (convertTaggedTemplate n)
             (or_else (convertTemplateLiteral tagged n) (or_else (convertArraySpread n)
               (convertObjectSpread n))))"
  have ok: "visited op tagged n n'" if "operand op n'" "\<not> is_type ''SpreadElement'' n" for n'
    using that by (auto simp: visited_def operand_def metered_iff)
  show ?thesis
  proof (cases "type_of n = ''TaggedTemplateExpression''")
    case True
    then obtain n' where n': "convertTaggedTemplate n = Some n'"
      by (simp add: convertTaggedTemplate_def is_type_def Let_def)
    with True have "fst (convert op tagged d n s) = n'"
      by (simp add: convert_def or_else_def convertConcat_def is_type_def)
    moreover have "\<not> is_type ''SpreadElement'' n" using True by (simp add: is_type_def)
    ultimately show ?thesis using convertTaggedTemplate_metered [OF slots n'] ok by simp
  next
    case False
    have below: "metered_below op n" by (rule slots_done_below [OF slots False])
    show ?thesis
    proof (cases ?early)
      case (Some n')
      then have "operand op n' \<and> \<not> is_type ''SpreadElement'' n"
        using convertConcat_metered [OF below] convertTemplateLiteral_metered [OF below]
          convertArraySpread_metered [OF below] convertObjectSpread_metered [OF below] False
        by (auto simp: or_else_def convertConcat_def convertTaggedTemplate_def convertTemplateLiteral_def
            convertArraySpread_def convertObjectSpread_def is_type_def Let_def
            split: option.splits if_splits)
      with Some ok show ?thesis by (simp add: convert_def)
    next
      case None
      then have none: "convertConcat (specEvalOrder op) n = None" "convertTemplateLiteral tagged n = None"
        "convertArraySpread n = None" "convertObjectSpread n = None"
        by (auto simp: or_else_def split: option.splits)
      show ?thesis
      proof (cases "convertCallSpread op d n s")
        case (Some r)
        obtain n' s' where r: "r = (n', s')" by (cases r)
        have "\<not> is_type ''SpreadElement'' n"
          using Some by (auto simp: convertCallSpread_def is_type_def Let_def split: if_splits)
        with convertCallSpread_metered [OF below Some [unfolded r]] ok None Some r
        show ?thesis by (simp add: convert_def)
      next
        case call: None
        show ?thesis
        proof (cases "convertRestPattern (meterRestPattern op) n")
          case (Some n')
          have "\<not> is_type ''SpreadElement'' n"
            using Some by (auto simp: convertRestPattern_def is_type_def split: if_splits)
          with convertRestPattern_metered [OF below Some none(1)] ok None Some call
          show ?thesis by (simp add: convert_def)
        next
          case rest: None
          have same: "fst (convert op tagged d n s) = n" using None call rest by (simp add: convert_def)
          have "\<not> allocates op n" if "\<not> tagged"
          proof -
            have "\<not> has_type ''SpreadElement'' cs \<Longrightarrow> \<not> list_ex (bare_spread f) cs" for f cs
              by (auto simp: has_type_iff list_ex_iff bare_spread_def split: option.splits)
            moreover have "\<not> bare_rest p src" if "restKind p = None" for p src
              using that by (simp add: bare_rest_def)
            moreover have "restKind (child n ''left'') = None"
              if "\<not> is_type ''ArrayPattern'' (kid n ''left'')" "\<not> is_type ''ObjectPattern'' (kid n ''left'')"
              using that by (cases "child n ''left''") (auto simp: restKind_def kid_def)
            ultimately show ?thesis
              using none call rest that False
              by (auto simp: allocates_def convertConcat_def convertTemplateLiteral_def convertArraySpread_def
                  convertObjectSpread_def convertCallSpread_def convertRestPattern_def Let_def is_type_def
                  split: if_splits)
          qed
          then show ?thesis
            using below by (auto simp: same visited_def metered_iff fine_def metered_below_def)
        qed
      qed
    qed
  qed
qed

text \<open>A subtree the walker skips holds no tagged template.\<close>

definition untagged :: "node set \<Rightarrow> bool" where
  "untagged S \<longleftrightarrow> (\<forall>m \<in> S. \<not> is_type ''TaggedTemplateExpression'' m)"

lemma untagged_Un [simp]: "untagged (S \<union> T) \<longleftrightarrow> untagged S \<and> untagged T"
  by (auto simp: untagged_def)

lemma untagged_skipped: "covers W \<Longrightarrow> p \<in> set (props n) \<Longrightarrow> \<not> W n (prop_key p) \<Longrightarrow> untagged (slot_nodes p)"
  by (fastforce simp: covers_def untagged_def leaf_def is_type_def)

lemma well_spread_Node:
  "well_spread (Node t ps) \<longleftrightarrow> (\<forall>p \<in> set ps. slot_spread_free p) \<and> (\<forall>m \<in> set (prop_nodes ps). spreads_placed m)"
  by (auto simp: well_spread_def spreads_placed_def)

lemma ssubst_fst: "visited op tagged n (fst r) \<Longrightarrow> q = r \<Longrightarrow> visited op tagged n (fst q)"
  by simp

lemma recur_visited:
  fixes n :: node and ps :: "attr list" and cs :: "node option list"
  shows "covers W \<Longrightarrow> well_spread n \<Longrightarrow> reached \<or> untagged (set (nodes n))
           \<Longrightarrow> visited op tagged n (fst (recur W op reached tagged d n s))"
    and "covers W \<Longrightarrow> set ps \<subseteq> set (props parent) \<Longrightarrow> \<forall>p \<in> set ps. slot_spread_free p
           \<Longrightarrow> \<forall>m \<in> set (prop_nodes ps). spreads_placed m
           \<Longrightarrow> reached \<or> untagged (insert parent (set (prop_nodes ps)))
           \<Longrightarrow> \<forall>p \<in> set (fst (recur_props W op reached d parent ps s)). slot_done op (type_of parent) p"
    and "covers W \<Longrightarrow> \<forall>m \<in> set (list_nodes cs). spreads_placed m
           \<Longrightarrow> reached \<or> untagged (set (list_nodes cs))
           \<Longrightarrow> (has_type ''SpreadElement'' (fst (recur_list W op reached d cs s)) \<longleftrightarrow> has_type ''SpreadElement'' cs)
             \<and> (\<forall>c. Some c \<in> set (fst (recur_list W op reached d cs s)) \<longrightarrow> metered op c)"
proof (induction W op reached tagged d n s and W op reached d parent ps s and W op reached d cs s
    rule: recur_recur_props_recur_list.induct)
  case (1 W op reached tagged d t ps s)
  let ?d = "if t = ''ChainExpression'' then Suc d else d"
  obtain ps' s' where r: "recur_props W op reached ?d (Node t ps) ps s = (ps', s')"
    by (cases "recur_props W op reached ?d (Node t ps) ps s")
  have "\<forall>p \<in> set ps'. slot_done op t p"
    using "1.IH" "1.prems" r by (auto simp: well_spread_Node)
  then have "visited op tagged (Node t ps') (fst (convert op tagged d (Node t ps') s'))"
    by (intro convert_visited) simp
  then have result: "visited op tagged (Node t ps) (fst (convert op tagged d (Node t ps') s'))"
    unfolding visited_def is_type_Node .
  have "recur W op reached tagged d (Node t ps) s = convert op tagged d (Node t ps') s'"
    using r by simp
  with result show ?case by (rule ssubst_fst)
next
  case (3 W op reached depth parent k c ps s)
  let ?r = "reached \<and> W parent k"
  let ?t = "reached \<and> type_of parent = ''TaggedTemplateExpression'' \<and> k = ''quasi''"
  obtain c' s' where c': "recur W op ?r ?t depth c s = (c', s')"
    by (cases "recur W op ?r ?t depth c s")
  obtain ps' s'' where ps': "recur_props W op reached depth parent ps s' = (ps', s'')"
    by (cases "recur_props W op reached depth parent ps s'")
  have "?r \<or> untagged (set (nodes c))"
    using "3.prems" untagged_skipped [of W "Child k c" parent] by (auto simp: untagged_def)
  then have "visited op ?t c c'"
    using "3.IH"(1) "3.prems" c' by (auto simp: well_spread_def)
  then have "slot_done op (type_of parent) (Child k c')"
    using "3.prems" by (auto simp: slot_done_def slot_spread_free_def visited_def untagged_def is_type_def
        split: if_splits)
  moreover have "\<forall>p \<in> set ps'. slot_done op (type_of parent) p"
    using "3.IH"(2) [OF c' [symmetric] refl] "3.prems" ps' by (auto simp: untagged_def)
  ultimately show ?case using c' ps' by simp
next
  case (4 W op reached depth parent k cs ps s)
  let ?r = "reached \<and> W parent k"
  obtain cs' s' where cs': "recur_list W op ?r depth cs s = (cs', s')"
    by (cases "recur_list W op ?r depth cs s")
  obtain ps' s'' where ps': "recur_props W op reached depth parent ps s' = (ps', s'')"
    by (cases "recur_props W op reached depth parent ps s'")
  have "?r \<or> untagged (set (list_nodes cs))"
    using "4.prems" untagged_skipped [of W "Children k cs" parent] by (auto simp: untagged_def)
  then have "(has_type ''SpreadElement'' cs' \<longleftrightarrow> has_type ''SpreadElement'' cs) \<and> (\<forall>c. Some c \<in> set cs' \<longrightarrow> metered op c)"
    using "4.IH"(1) "4.prems" cs' by auto
  then have "slot_done op (type_of parent) (Children k cs')"
    using "4.prems" by (auto simp: slot_done_def slot_spread_free_def)
  moreover have "\<forall>p \<in> set ps'. slot_done op (type_of parent) p"
    using "4.IH"(2) [OF cs' [symmetric] refl] "4.prems" ps' by (auto simp: untagged_def)
  ultimately show ?case using cs' ps' by simp
next
  case (8 W op reached depth c cs s)
  obtain c' s' where c': "recur W op reached False depth c s = (c', s')"
    by (cases "recur W op reached False depth c s")
  obtain cs' s'' where cs': "recur_list W op reached depth cs s' = (cs', s'')"
    by (cases "recur_list W op reached depth cs s'")
  have "visited op False c c'"
    using "8.IH"(1) "8.prems" c' by (auto simp: well_spread_def)
  moreover have "(has_type ''SpreadElement'' cs' \<longleftrightarrow> has_type ''SpreadElement'' cs) \<and> (\<forall>c. Some c \<in> set cs' \<longrightarrow> metered op c)"
    using "8.IH"(2) [OF c' [symmetric] refl] "8.prems" cs' by auto
  ultimately show ?case
    using c' cs' by (auto simp: visited_def has_type_iff)
qed (auto simp: has_type_iff split: prod.splits)

lemma transformAllocators_metered:
  assumes "covers W" "well_spread ast"
  shows "metered op (transformAllocators W op ast)"
  using recur_visited(1) [OF assms, of True op False 0 0] by (simp add: visited_def transformAllocators_def)

end
