(* ===== verification/Rewriting.thy ===== *)
theory Rewriting
  imports Metering AllocatorProps
begin

text \<open>
  Bottom-up rewriting, independent of the walker: over a walker that covers the tree, every phase of
  the transform is the plain bottom-up rewrite of all nodes. Facts about all nodes of a rewritten
  tree come from one induction (\<open>rewritten_all\<close>), so each phase only argues about its visitor.
\<close>

definition map_attr :: "(node \<Rightarrow> node) \<Rightarrow> attr \<Rightarrow> attr" where
  "map_attr g p = (case p of Child k c \<Rightarrow> Child k (g c) | Children k cs \<Rightarrow> Children k (map (map_option g) cs)
     | Scalar k v \<Rightarrow> Scalar k v)"

definition bottom_up :: "(node \<Rightarrow> node) \<Rightarrow> node \<Rightarrow> node" where
  "bottom_up f = rewrite (\<lambda>n k. True) f"

definition rebuild :: "(node \<Rightarrow> node) \<Rightarrow> node \<Rightarrow> node" where
  "rebuild f n = Node (type_of n) (map (map_attr (bottom_up f)) (props n))"

lemma rewrite_list_all: "rewrite_list (\<lambda>n k. True) f cs = map (map_option (bottom_up f)) cs"
proof (induction cs)
  case (Cons c cs)
  then show ?case by (cases c) (simp_all add: bottom_up_def)
qed simp

lemma rewrite_props_all: "rewrite_props (\<lambda>n k. True) f parent ps = map (map_attr (bottom_up f)) ps"
proof (induction ps)
  case (Cons p ps)
  then show ?case by (cases p) (simp_all add: map_attr_def bottom_up_def rewrite_list_all)
qed simp

lemma bottom_up_unfold: "bottom_up f n = f (rebuild f n)"
  by (cases n) (simp add: bottom_up_def rebuild_def rewrite_props_all [unfolded bottom_up_def])

lemma type_of_rebuild [simp]: "type_of (rebuild f n) = type_of n" "is_type t (rebuild f n) = is_type t n"
  by (simp_all add: rebuild_def is_type_def)

lemma prop_key_map_attr [simp]: "prop_key (map_attr g p) = prop_key p"
  by (cases p) (simp_all add: map_attr_def)

lemma property_map_attr: "property (map (map_attr g) ps) k = map_option (map_attr g) (property ps k)"
  by (induction ps) auto

lemma child_rebuild [simp]: "child (rebuild f n) k = map_option (bottom_up f) (child n k)"
  by (auto simp: child_def rebuild_def property_map_attr map_attr_def split: option.splits attr.splits)

lemma children_rebuild [simp]: "children (rebuild f n) k = map (map_option (bottom_up f)) (children n k)"
  by (auto simp: children_def rebuild_def property_map_attr map_attr_def split: option.splits attr.splits)

lemma scalar_rebuild [simp]: "scalar (rebuild f n) k = scalar n k" "text_of (rebuild f n) k = text_of n k"
  by (auto simp: scalar_def text_of_def rebuild_def property_map_attr map_attr_def
      split: option.splits attr.splits)

subsection \<open>Children and subtrees\<close>

lemma nodes_iff: "m \<in> set (nodes n) \<longleftrightarrow> m = n \<or> (\<exists>c \<in> set (childrenOf n). m \<in> set (nodes c))"
proof -
  have "m \<in> slot_nodes p \<longleftrightarrow> (\<exists>c \<in> set (attr_children p). m \<in> set (nodes c))" for p
    by (cases p) (auto simp: list_nodes_iff map_filter_id)
  then have "m \<in> set (prop_nodes (props n)) \<longleftrightarrow> (\<exists>c \<in> set (childrenOf n). m \<in> set (nodes c))"
    unfolding prop_nodes_iff childrenOf_def by simp
  then show ?thesis by (simp only: nodes_unfold [of n] set_simps insert_iff)
qed

lemma child_childrenOf: "child n k = Some c \<Longrightarrow> c \<in> set (childrenOf n)"
  unfolding childrenOf_def using child_in_props [of n k c]
  by (auto intro!: bexI [where x = "Child k c"])

lemma children_childrenOf: "Some c \<in> set (children n k) \<Longrightarrow> c \<in> set (childrenOf n)"
  unfolding childrenOf_def using children_in_props [of c n k]
  by (auto simp: map_filter_id intro!: bexI [where x = "Children k (children n k)"])

lemma attr_children_map: "attr_children (map_attr g p) = map g (attr_children p)"
proof (cases p)
  case (Children k cs)
  have "List.map_filter (\<lambda>c. c) (map (map_option g) cs) = map g (List.map_filter (\<lambda>c. c) cs)"
    by (induction cs) (auto simp: List.map_filter_simps split: option.splits)
  with Children show ?thesis by (simp add: map_attr_def)
qed (simp_all add: map_attr_def)

lemma childrenOf_rebuild [simp]: "childrenOf (rebuild f n) = map (bottom_up f) (childrenOf n)"
  by (simp add: childrenOf_def rebuild_def map_concat comp_def attr_children_map)

lemma node_induct [case_names Node]:
  "(\<And>n. (\<And>c. c \<in> set (childrenOf n) \<Longrightarrow> P c) \<Longrightarrow> P n) \<Longrightarrow> P n"
proof (induction n rule: measure_induct_rule [where f = size])
  case (less n)
  then show ?case using size_childrenOf by blast
qed

text \<open>A predicate of every node of a tree.\<close>

definition all_nodes :: "(node \<Rightarrow> bool) \<Rightarrow> node \<Rightarrow> bool" where
  "all_nodes Q n \<longleftrightarrow> (\<forall>m \<in> set (nodes n). Q m)"

lemma all_nodes_iff: "all_nodes Q n \<longleftrightarrow> Q n \<and> (\<forall>c \<in> set (childrenOf n). all_nodes Q c)"
proof -
  have "set (nodes n) = insert n (\<Union>c \<in> set (childrenOf n). set (nodes c))"
    by (rule set_eqI) (simp only: nodes_iff [of _ n] insert_iff UN_iff)
  then show ?thesis unfolding all_nodes_def by simp
qed

lemma all_nodes_child: "all_nodes Q n \<Longrightarrow> child n k = Some c \<Longrightarrow> all_nodes Q c"
  using all_nodes_iff [of Q n] child_childrenOf by blast

lemma all_nodes_children: "all_nodes Q n \<Longrightarrow> Some c \<in> set (children n k) \<Longrightarrow> all_nodes Q c"
  using all_nodes_iff [of Q n] children_childrenOf by blast

lemma all_nodes_self: "all_nodes Q n \<Longrightarrow> Q n"
  using all_nodes_iff [of Q n] by blast

lemma rewritten_all:
  assumes "all_nodes P n"
    and step: "\<And>n. P n \<Longrightarrow> (\<And>c. c \<in> set (childrenOf n) \<Longrightarrow> all_nodes P c \<and> all_nodes Q (bottom_up f c)) \<Longrightarrow> all_nodes Q (f (rebuild f n))"
  shows "all_nodes Q (bottom_up f n)"
  using assms(1)
proof (induction n rule: node_induct)
  case (Node n)
  then show ?case
    using step [of n] all_nodes_iff [of P n] unfolding bottom_up_unfold [of f n] by blast
qed

text \<open>A node put into another one.\<close>

definition all_in_attr :: "(node \<Rightarrow> bool) \<Rightarrow> attr \<Rightarrow> bool" where
  "all_in_attr Q p \<longleftrightarrow> (\<forall>c \<in> set (attr_children p). all_nodes Q c)"

lemma all_in_attr_simps [simp]:
  "all_in_attr Q (Child k c) \<longleftrightarrow> all_nodes Q c"
  "all_in_attr Q (Children k cs) \<longleftrightarrow> (\<forall>c. Some c \<in> set cs \<longrightarrow> all_nodes Q c)"
  "all_in_attr Q (Scalar k v)"
  by (auto simp: all_in_attr_def map_filter_id)

lemma all_nodes_Node [simp]: "all_nodes Q (Node t ps) \<longleftrightarrow> Q (Node t ps) \<and> (\<forall>p \<in> set ps. all_in_attr Q p)"
  by (auto simp: all_nodes_iff [of Q "Node t ps"] childrenOf_def all_in_attr_def)

lemma all_nodes_props: "all_nodes Q n \<longleftrightarrow> Q n \<and> (\<forall>p \<in> set (props n). all_in_attr Q p)"
  by (cases n) simp

lemma all_nodes_put:
  assumes "\<forall>p \<in> set (props n). all_in_attr Q p" "all_in_attr Q p" "Q (put p n)"
  shows "all_nodes Q (put p n)"
  using assms put_in_subset [of p "props n"] by (auto simp: all_nodes_props put_def)

subsection \<open>The walker does not matter\<close>

lemma rewrite_leaves:
  fixes n :: node and ps :: "attr list" and cs :: "node option list"
  shows "(\<And>n. leaf n \<Longrightarrow> f n = n) \<Longrightarrow> (\<forall>m \<in> set (nodes n). leaf m) \<Longrightarrow> rewrite V f n = n"
    and "(\<And>n. leaf n \<Longrightarrow> f n = n) \<Longrightarrow> (\<forall>m \<in> set (prop_nodes ps). leaf m) \<Longrightarrow> rewrite_props V f parent ps = ps"
    and "(\<And>n. leaf n \<Longrightarrow> f n = n) \<Longrightarrow> (\<forall>m \<in> set (list_nodes cs). leaf m) \<Longrightarrow> rewrite_list V f cs = cs"
proof (induction V f n and V f parent ps and V f cs rule: rewrite_rewrite_props_rewrite_list.induct)
  case (1 V f t ps)
  then have "rewrite_props V f (Node t ps) ps = ps" by auto
  moreover have "leaf (Node t ps)" using "1.prems"(2) by simp
  ultimately show ?case using "1.prems"(1) by simp
qed (auto simp: ball_Un)

lemma rewrite_covers:
  fixes n :: node and ps :: "attr list" and cs :: "node option list"
  shows "covers W \<Longrightarrow> (\<And>n. leaf n \<Longrightarrow> f n = n) \<Longrightarrow> rewrite W f n = bottom_up f n"
    and "covers W \<Longrightarrow> (\<And>n. leaf n \<Longrightarrow> f n = n) \<Longrightarrow> set ps \<subseteq> set (props parent)
           \<Longrightarrow> rewrite_props W f parent ps = map (map_attr (bottom_up f)) ps"
    and "covers W \<Longrightarrow> (\<And>n. leaf n \<Longrightarrow> f n = n)
           \<Longrightarrow> rewrite_list W f cs = map (map_option (bottom_up f)) cs"
proof (induction W f n and W f parent ps and W f cs rule: rewrite_rewrite_props_rewrite_list.induct)
  case (1 W f t ps)
  then show ?case by (simp add: bottom_up_unfold [of f "Node t ps"] rebuild_def)
next
  case (3 W f parent k c ps)
  have "(if W parent k then rewrite W f c else c) = bottom_up f c"
  proof (cases "W parent k")
    case True
    then show ?thesis using "3.IH"(1) "3.prems" by simp
  next
    case False
    then have "\<forall>m \<in> set (nodes c). leaf m"
      using "3.prems" by (force simp: covers_def)
    then show ?thesis
      unfolding bottom_up_def using rewrite_leaves(1) [of f c "\<lambda>n k. True"] "3.prems"(2) False by simp
  qed
  then show ?case using "3.IH"(2) "3.prems" by (simp add: map_attr_def)
next
  case (4 W f parent k cs ps)
  have "(if W parent k then rewrite_list W f cs else cs) = map (map_option (bottom_up f)) cs"
  proof (cases "W parent k")
    case True
    then show ?thesis using "4.IH"(1) "4.prems" by simp
  next
    case False
    then have "\<forall>m \<in> set (list_nodes cs). leaf m"
      using "4.prems" by (force simp: covers_def)
    then show ?thesis
      using rewrite_leaves(3) [of f cs "\<lambda>n k. True"] rewrite_list_all [of f cs] "4.prems"(2) False by simp
  qed
  then show ?case using "4.IH"(2) "4.prems" by (simp add: map_attr_def)
qed (auto simp: map_attr_def)

text \<open>A walker that descends everywhere covers every tree.\<close>

lemma covers_everything: "covers (\<lambda>n k. True)"
  by (simp add: covers_def)

end
