(* ===== verification/Charges.thy ===== *)
theory Charges
  imports Rewriting
begin

text \<open>
  What the instrumentation guarantees of the metered tree: every function charges on entry and runs
  under the depth guard, every loop charges on every iteration, every call site is paid for. Each
  phase establishes its charge and the later phases keep it.
\<close>

definition is_loop :: "node \<Rightarrow> bool" where
  "is_loop n \<longleftrightarrow> type_of n \<in> {''ForStatement'', ''WhileStatement'', ''DoWhileStatement'',
     ''ForInStatement'', ''ForOfStatement''}"

definition loop_charged :: "node \<Rightarrow> bool" where
  "loop_charged n \<longleftrightarrow> (\<exists>b rest. child n ''body'' = Some b \<and> is_type ''BlockStatement'' b
     \<and> children b ''body'' = Some gasCallStatement # rest)"

text \<open>After its directives a body charges first; an arrow without a block charges in its expression.\<close>

definition entry_charged :: "node \<Rightarrow> bool" where
  "entry_charged n \<longleftrightarrow> (\<exists>b. child n ''body'' = Some b \<and>
     (if is_type ''BlockStatement'' b
      then \<exists>rest. drop (directivePrologueLength (children b ''body'')) (children b ''body'') = Some gasCallStatement # rest
      else is_type ''ArrowFunctionExpression'' n \<and> (\<exists>e. b = wrapWithGas e)))"

definition charged :: "node \<Rightarrow> bool" where
  "charged n \<longleftrightarrow> (is_loop n \<longrightarrow> loop_charged n) \<and> (isFunctionNode n \<longrightarrow> entry_charged n)"

text \<open>The shape a parser gives loops, functions and try statements.\<close>

definition shaped :: "node \<Rightarrow> bool" where
  "shaped n \<longleftrightarrow> (is_loop n \<or> is_type ''ArrowFunctionExpression'' n \<longrightarrow> child n ''body'' \<noteq> None)
     \<and> (is_type ''FunctionDeclaration'' n \<or> is_type ''FunctionExpression'' n
        \<longrightarrow> (\<exists>b. child n ''body'' = Some b \<and> is_type ''BlockStatement'' b))
     \<and> (is_type ''TryStatement'' n \<longrightarrow>
          (\<forall>b. child n ''block'' = Some b \<longrightarrow> is_type ''BlockStatement'' b)
        \<and> (\<forall>h. child n ''handler'' = Some h \<longrightarrow> is_type ''CatchClause'' h
             \<and> (\<forall>b. child h ''body'' = Some b \<longrightarrow> is_type ''BlockStatement'' b))
        \<and> (\<forall>b. child n ''finalizer'' = Some b \<longrightarrow> is_type ''BlockStatement'' b))"

definition inert :: "node \<Rightarrow> bool" where
  "inert n \<longleftrightarrow> \<not> is_loop n \<and> \<not> isFunctionNode n \<and> \<not> is_type ''TryStatement'' n"

lemma inert_charged: "inert n \<Longrightarrow> charged n"
  by (simp add: inert_def charged_def)

lemma inert_shaped: "inert n \<Longrightarrow> shaped n"
  by (auto simp: inert_def shaped_def isFunctionNode_def)

lemma inert_put [simp]: "inert (put p n) = inert n"
  by (simp add: inert_def is_loop_def isFunctionNode_def is_type_def)

lemma inert_Node: "inert (Node t ps) \<longleftrightarrow> t \<notin> {''ForStatement'', ''WhileStatement'', ''DoWhileStatement'',
     ''ForInStatement'', ''ForOfStatement'', ''FunctionDeclaration'', ''FunctionExpression'', ''ArrowFunctionExpression'',
     ''TryStatement''}"
  by (auto simp: inert_def is_loop_def isFunctionNode_def)

lemma inertI: "is_type t n \<Longrightarrow> t \<notin> {''ForStatement'', ''WhileStatement'', ''DoWhileStatement'',
     ''ForInStatement'', ''ForOfStatement'', ''FunctionDeclaration'', ''FunctionExpression'', ''ArrowFunctionExpression'',
     ''TryStatement''} \<Longrightarrow> inert n"
  by (cases n) (simp add: inert_Node)

subsection \<open>Inserted nodes\<close>

text \<open>A predicate that asks nothing of nodes that are neither loops nor functions.\<close>

definition spares :: "(node \<Rightarrow> bool) \<Rightarrow> bool" where
  "spares Q \<longleftrightarrow> (\<forall>n. inert n \<longrightarrow> Q n)"

lemma spares_charged: "spares charged" "spares shaped"
  by (simp_all add: spares_def inert_charged inert_shaped)

lemma sparesD: "spares Q \<Longrightarrow> inert n \<Longrightarrow> Q n"
  by (simp add: spares_def)

lemma all_ident: "spares Q \<Longrightarrow> all_nodes Q (astIdent s)"
  by (simp add: astIdent_def inert_Node sparesD)

lemma all_literal: "spares Q \<Longrightarrow> all_nodes Q (astLiteral v)"
  by (simp add: astLiteral_def inert_Node sparesD)

lemma all_call: "spares Q \<Longrightarrow> (\<And>a. a \<in> set args \<Longrightarrow> all_nodes Q a) \<Longrightarrow> all_nodes Q (astCall f args)"
  using all_ident [of Q f] by (auto simp: astCall_def inert_Node sparesD)

lemma all_array: "spares Q \<Longrightarrow> (\<And>e. Some e \<in> set es \<Longrightarrow> all_nodes Q e) \<Longrightarrow> all_nodes Q (astArray es)"
  by (auto simp: astArray_def inert_Node sparesD)

lemma all_gas: "spares Q \<Longrightarrow> all_nodes Q gasCallExpr" "spares Q \<Longrightarrow> all_nodes Q gasCallStatement"
  by (simp_all add: gasCallExpr_def gasCallStatement_def inert_Node sparesD)

lemma all_wrap: "spares Q \<Longrightarrow> all_nodes Q e \<Longrightarrow> all_nodes Q (wrapWithGas e)"
  using all_gas [of Q] by (auto simp: wrapWithGas_def inert_Node sparesD)

lemma all_block: "spares Q \<Longrightarrow> (\<And>s. Some s \<in> set cs \<Longrightarrow> all_nodes Q s) \<Longrightarrow> all_nodes Q (astBlock cs)"
  by (auto simp: astBlock_def inert_Node sparesD)

lemma all_kid: "spares Q \<Longrightarrow> all_nodes Q n \<Longrightarrow> all_nodes Q (kid n k)"
  by (auto simp: kid_def inert_Node sparesD split: option.splits intro: all_nodes_child)

lemma all_put: "spares Q \<Longrightarrow> all_nodes Q n \<Longrightarrow> all_in_attr Q p \<Longrightarrow> inert n \<Longrightarrow> all_nodes Q (put p n)"
  by (intro all_nodes_put) (auto simp: all_nodes_props sparesD)

lemma all_call_statement:
  "spares Q \<Longrightarrow> (\<And>a. a \<in> set args \<Longrightarrow> all_nodes Q a) \<Longrightarrow> all_nodes Q (push_arguments (callStatement f) args)"
  by (auto simp: push_arguments_def callStatement_def inert_Node sparesD kid_def child_def children_def put_def)

lemma all_gas_check: "spares Q \<Longrightarrow> all_nodes Q (gasCheckStatement s)"
  using all_ident [of Q s]
  by (auto simp: gasCheckStatement_def push_arguments_def gasCallStatement_def gasCallExpr_def inert_Node
      sparesD kid_def child_def children_def put_def)

lemma all_unshift: "spares Q \<Longrightarrow> all_nodes Q b \<Longrightarrow> all_nodes Q s \<Longrightarrow> inert b \<Longrightarrow> all_nodes Q (unshift s b)"
  unfolding unshift_def by (intro all_put) (auto intro: all_nodes_children)

lemma all_unshift_in:
  "spares Q \<Longrightarrow> all_nodes Q n \<Longrightarrow> all_nodes Q s \<Longrightarrow> inert n \<Longrightarrow> (\<And>b. child n k = Some b \<Longrightarrow> inert b)
     \<Longrightarrow> all_nodes Q (unshift_in k s n)"
  unfolding unshift_in_def
  by (auto split: option.splits intro!: all_put all_unshift intro: all_nodes_child)

lemma inert_block [simp]: "is_type ''BlockStatement'' b \<Longrightarrow> inert b"
  by (rule inertI) auto

lemma inert_catch: "is_type ''CatchClause'' b \<Longrightarrow> inert b"
  by (rule inertI) auto

lemma charged_try: "is_type ''TryStatement'' n \<Longrightarrow> charged n"
  by (simp add: charged_def is_loop_def isFunctionNode_def is_type_def)

lemma all_put_try: "all_nodes charged n \<Longrightarrow> all_in_attr charged p \<Longrightarrow> is_type ''TryStatement'' n \<Longrightarrow> all_nodes charged (put p n)"
  by (rule all_nodes_put) (auto simp: all_nodes_props charged_try is_type_def)

subsection \<open>Phase 1\<close>

lemma gas_not_directive: "\<not> is_directive gasCallStatement"
  by (simp add: is_directive_def gasCallStatement_def kid_def child_def gasCallExpr_def)

lemma insertGas_at_head:
  "drop (directivePrologueLength (insertGasAfterDirectives body)) (insertGasAfterDirectives body)
     = Some gasCallStatement # drop (directivePrologueLength body) body"
proof -
  have "directivePrologueLength (take (directivePrologueLength body) body @ Some gasCallStatement # rest)
      = directivePrologueLength body" for rest
    by (induction body rule: directivePrologueLength.induct) (auto simp: gas_not_directive)
  moreover have "directivePrologueLength body \<le> length body"
    by (induction body rule: directivePrologueLength.induct) auto
  ultimately show ?thesis by (simp add: insertGasAfterDirectives_def Let_def)
qed

lemma insertGas_members:
  "Some s \<in> set (insertGasAfterDirectives body) \<Longrightarrow> s = gasCallStatement \<or> Some s \<in> set body"
  by (auto simp: insertGasAfterDirectives_def Let_def dest: in_set_takeD in_set_dropD)

text \<open>A node under construction: its children are done.\<close>

definition ready :: "(node \<Rightarrow> bool) \<Rightarrow> node \<Rightarrow> bool" where
  "ready Q n \<longleftrightarrow> (\<forall>p \<in> set (props n). all_in_attr Q p)"

lemma ready_iff: "ready Q n \<longleftrightarrow> (\<forall>c \<in> set (childrenOf n). all_nodes Q c)"
  by (auto simp: ready_def childrenOf_def all_in_attr_def)

lemma ready_child: "ready Q n \<Longrightarrow> child n k = Some c \<Longrightarrow> all_nodes Q c"
  using child_in_props [of n k c] by (auto simp: ready_def)

lemma ready_children: "ready Q n \<Longrightarrow> Some c \<in> set (children n k) \<Longrightarrow> all_nodes Q c"
  using children_in_props [of c n k] by (auto simp: ready_def)

lemma ready_put: "ready Q n \<Longrightarrow> all_in_attr Q p \<Longrightarrow> ready Q (put p n)"
  using put_in_subset [of p "props n"] by (auto simp: ready_def put_def)

lemma ready_all: "ready Q n \<Longrightarrow> Q n \<Longrightarrow> all_nodes Q n"
  by (simp add: ready_def all_nodes_props)

lemma ready_kid: "spares Q \<Longrightarrow> ready Q n \<Longrightarrow> all_nodes Q (kid n k)"
  by (auto simp: kid_def inert_Node sparesD split: option.splits intro: ready_child)

lemma all_ready: "all_nodes Q n \<Longrightarrow> ready Q n"
  by (simp add: ready_def all_nodes_props)

lemma ready_rebuild:
  "(\<And>c. c \<in> set (childrenOf n) \<Longrightarrow> all_nodes Q (bottom_up f c)) \<Longrightarrow> ready Q (rebuild f n)"
  by (simp add: ready_iff)

lemma ready_ensureBlock:
  assumes "spares Q" "ready Q n"
  shows "ready Q (ensureBlock k n)"
proof (cases "child n k")
  case (Some c)
  have "all_nodes Q (astBlock [Some c])"
    using ready_child [OF assms(2) Some] by (intro all_block assms) simp
  with Some assms show ?thesis by (simp add: ensureBlock_def ready_put)
qed (simp add: ensureBlock_def assms)

lemma ensureBlock_child: "child n k \<noteq> None \<Longrightarrow> \<exists>b. child (ensureBlock k n) k = Some b \<and> is_type ''BlockStatement'' b"
  by (auto simp: ensureBlock_def astBlock_def split: option.splits)

lemma unshift_in_body:
  "child n k = Some b \<Longrightarrow> is_type ''BlockStatement'' b \<Longrightarrow>
     \<exists>b'. child (unshift_in k s n) k = Some b' \<and> is_type ''BlockStatement'' b' \<and> children b' ''body'' = Some s # children b ''body''"
  by (simp add: unshift_in_def unshift_def is_type_def)

lemma ready_unshift_in:
  "spares Q \<Longrightarrow> ready Q n \<Longrightarrow> all_nodes Q s \<Longrightarrow> (\<And>b. child n k = Some b \<Longrightarrow> inert b) \<Longrightarrow> ready Q (unshift_in k s n)"
  unfolding unshift_in_def
  by (auto split: option.splits intro!: ready_put all_unshift intro: ready_child)

lemma type_unshift_in [simp]: "type_of (unshift_in k s n) = type_of n" "type_of (ensureBlock k n) = type_of n"
  by (simp_all add: unshift_in_def ensureBlock_def split: option.splits)

lemma loop_body_charged:
  assumes "ready charged n" "child n ''body'' \<noteq> None"
  shows "ready charged (chargeLoopBody n) \<and> loop_charged (chargeLoopBody n) \<and> type_of (chargeLoopBody n) = type_of n"
proof -
  obtain b where b: "child (ensureBlock ''body'' n) ''body'' = Some b" "is_type ''BlockStatement'' b"
    using ensureBlock_child [OF assms(2)] by blast
  have "ready charged (chargeLoopBody n)"
    unfolding chargeLoopBody_def using b
    by (intro ready_unshift_in ready_ensureBlock spares_charged all_gas assms) auto
  moreover have "loop_charged (chargeLoopBody n)"
    using unshift_in_body [OF b, of gasCallStatement] unfolding loop_charged_def chargeLoopBody_def by blast
  ultimately show ?thesis by (simp add: chargeLoopBody_def)
qed

lemma ready_charged_loop: "ready charged n \<Longrightarrow> loop_charged n \<Longrightarrow> is_loop n \<Longrightarrow> all_nodes charged n"
  by (rule ready_all) (auto simp: charged_def is_loop_def isFunctionNode_def is_type_def)

lemma function_entry_charged:
  assumes "ready charged n" "child n ''body'' = Some b" "is_type ''BlockStatement'' b" "\<not> is_loop n"
  shows "all_nodes charged (chargeFunctionEntry n)"
proof -
  let ?b = "put (Children ''body'' (insertGasAfterDirectives (children b ''body''))) b"
  have eq: "chargeFunctionEntry n = put (Child ''body'' ?b) n"
    using assms(2,3) by (simp add: chargeFunctionEntry_def)
  have b: "all_nodes charged b" by (rule ready_child [OF assms(1,2)])
  have "all_nodes charged ?b"
  proof (rule all_put [OF spares_charged(1) b])
    show "all_in_attr charged (Children ''body'' (insertGasAfterDirectives (children b ''body'')))"
      using all_nodes_children [OF b] all_gas [OF spares_charged(1)] by (auto dest: insertGas_members)
  qed (simp add: assms(3))
  then have "ready charged (put (Child ''body'' ?b) n)"
    by (intro ready_put assms(1)) simp
  moreover have "entry_charged (put (Child ''body'' ?b) n)"
    using assms(3) insertGas_at_head [of "children b ''body''"] by (simp add: entry_charged_def is_type_def)
  ultimately show ?thesis
    using assms(4) unfolding eq by (intro ready_all) (auto simp: charged_def is_loop_def)
qed

lemma all_put_other:
  "ready charged n \<Longrightarrow> all_in_attr charged p \<Longrightarrow> \<not> is_loop n \<Longrightarrow> \<not> isFunctionNode n \<Longrightarrow> all_nodes charged (put p n)"
  by (rule ready_all) (auto simp: ready_put charged_def is_loop_def isFunctionNode_def is_type_def)

lemma arrow_entry_charged:
  assumes "ready charged n" "child n ''body'' \<noteq> None" "is_type ''ArrowFunctionExpression'' n"
  shows "all_nodes charged (chargeArrowEntry n)"
proof (cases "is_type ''BlockStatement'' (kid n ''body'')")
  case True
  then show ?thesis
    using assms by (auto simp: chargeArrowEntry_def kid_def is_loop_def is_type_def
        intro!: function_entry_charged)
next
  case False
  have "ready charged (put (Child ''body'' (wrapWithGas (kid n ''body''))) n)"
    using assms(1) by (auto intro!: ready_put all_wrap ready_kid spares_charged)
  then show ?thesis
    using False assms(3)
    by (auto simp: chargeArrowEntry_def charged_def entry_charged_def is_loop_def is_type_def
        wrapWithGas_def intro!: ready_all)
qed

lemma for_update_charged:
  assumes "ready charged n" "loop_charged n" "is_loop n"
  shows "all_nodes charged (chargeForUpdate n)"
proof -
  have "ready charged (chargeForUpdate n)"
    unfolding chargeForUpdate_def using assms(1) all_gas [OF spares_charged(1)]
    by (auto simp: inert_Node inert_charged split: option.splits intro!: ready_put intro: ready_child)
  moreover have "loop_charged (chargeForUpdate n)"
    using assms(2) by (auto simp: loop_charged_def chargeForUpdate_def)
  moreover have "is_loop (chargeForUpdate n)"
    using assms(3) by (simp add: is_loop_def chargeForUpdate_def)
  ultimately show ?thesis by (rule ready_charged_loop)
qed

lemma ready_branch:
  assumes "ready charged n" "child n k \<noteq> None"
  shows "ready charged (unshift_in k gasCallStatement (ensureBlock k n))"
proof -
  obtain b where b: "child (ensureBlock k n) k = Some b" "is_type ''BlockStatement'' b"
    using ensureBlock_child [OF assms(2)] by blast
  then show ?thesis
    by (intro ready_unshift_in ready_ensureBlock spares_charged all_gas assms) auto
qed

lemma ready_branch_absent: "child n k = None \<Longrightarrow> unshift_in k s (ensureBlock k n) = n"
  by (simp add: unshift_in_def ensureBlock_def)

lemma ready_ensured: "ready charged n \<Longrightarrow> ready charged (unshift_in k gasCallStatement (ensureBlock k n))"
  using ready_branch ready_branch_absent by (cases "child n k = None") auto

lemma if_charged:
  assumes "ready charged n" "is_type ''IfStatement'' n"
  shows "all_nodes charged (chargeIf n)"
proof -
  have "ready charged (chargeIf n)"
    using assms(1) by (auto simp: chargeIf_def Let_def split: option.splits intro!: ready_ensured)
  moreover have "type_of (chargeIf n) = type_of n"
    by (simp add: chargeIf_def Let_def split: option.splits)
  ultimately show ?thesis
    using assms(2) by (intro ready_all) (auto simp: charged_def is_loop_def isFunctionNode_def is_type_def)
qed

lemma switch_charged:
  assumes "ready charged n" "is_type ''SwitchCase'' n"
  shows "all_nodes charged (chargeSwitchCase n)"
proof -
  have n: "\<not> is_loop n" "\<not> isFunctionNode n" using assms(2) by (auto simp: is_loop_def isFunctionNode_def is_type_def)
  then have "all_nodes charged n" using assms(1) by (intro ready_all) (auto simp: charged_def)
  moreover have "all_nodes charged (put (Children ''consequent'' (Some gasCallStatement # children n ''consequent'')) n)"
    using assms(1) n all_gas [OF spares_charged(1)] by (intro all_put_other) (auto intro: ready_children)
  ultimately show ?thesis by (simp add: chargeSwitchCase_def)
qed

lemma conditional_charged:
  assumes "ready charged n" "is_type ''ConditionalExpression'' n"
  shows "all_nodes charged (chargeConditional n)"
  unfolding chargeConditional_def
  using assms by (auto simp: is_loop_def isFunctionNode_def is_type_def
      intro!: all_put_other all_wrap ready_kid spares_charged)

text \<open>The shape of a try statement whose children are done.\<close>

definition try_shaped :: "node \<Rightarrow> bool" where
  "try_shaped n \<longleftrightarrow>
     (\<forall>b. child n ''block'' = Some b \<longrightarrow> is_type ''BlockStatement'' b)
     \<and> (\<forall>h. child n ''handler'' = Some h \<longrightarrow> is_type ''CatchClause'' h
          \<and> (\<forall>b. child h ''body'' = Some b \<longrightarrow> is_type ''BlockStatement'' b))
     \<and> (\<forall>b. child n ''finalizer'' = Some b \<longrightarrow> is_type ''BlockStatement'' b)"

lemma handler_charged:
  assumes "all_nodes charged h" "is_type ''CatchClause'' h"
    and "\<And>b. child h ''body'' = Some b \<Longrightarrow> is_type ''BlockStatement'' b" "all_nodes charged s"
  shows "all_nodes charged (unshift_in ''body'' s h)"
  using assms by (intro all_unshift_in spares_charged) (auto intro: inert_catch)

lemma legacy_try_charged:
  assumes n: "ready charged n" "is_type ''TryStatement'' n" "try_shaped n"
  shows "all_nodes charged (chargeTry None n)"
proof -
  note gas = all_gas [OF spares_charged(1)]
  let ?n1 = "unshift_in ''block'' gasCallStatement n"
  let ?n2 = "charge_in_handler ?n1"
  have 1: "ready charged ?n1" using n by (intro ready_unshift_in spares_charged gas) (auto simp: try_shaped_def)
  have same: "child ?n1 ''handler'' = child n ''handler''" "child ?n1 ''finalizer'' = child n ''finalizer''"
    by (auto simp: unshift_in_def split: option.splits)
  have 2: "ready charged ?n2"
  proof (cases "child n ''handler''")
    case (Some h)
    have "all_nodes charged (unshift_in ''body'' gasCallStatement h)"
      using Some n ready_child [OF n(1) Some] by (intro handler_charged gas) (auto simp: try_shaped_def)
    then show ?thesis using 1 Some same by (simp add: charge_in_handler_def ready_put)
  qed (simp add: charge_in_handler_def same 1)
  have same2: "child ?n2 ''finalizer'' = child n ''finalizer''" "type_of ?n2 = type_of n"
    using same by (auto simp: charge_in_handler_def split: option.splits)
  have "ready charged (unshift_in ''finalizer'' gasCallStatement ?n2)"
    using n same2 by (intro ready_unshift_in spares_charged gas 2) (auto simp: try_shaped_def)
  then show ?thesis
    using n(2) same2(2) unfolding chargeTry_def
    by (intro ready_all) (auto intro: charged_try simp: is_type_def)
qed

lemma armHandler_charged:
  assumes h: "all_nodes charged h" "is_type ''CatchClause'' h"
    and body: "\<And>b. child h ''body'' = Some b \<Longrightarrow> is_type ''BlockStatement'' b"
  shows "all_nodes charged (armHandler names h)"
proof -
  let ?h = "put (Child ''param'' (astIdent (caught_name names))) h"
  note sp = spares_charged(1)
  have h': "all_nodes charged ?h" "is_type ''CatchClause'' ?h"
    "\<And>b. child ?h ''body'' = Some b \<Longrightarrow> is_type ''BlockStatement'' b"
    using h body by (auto simp: is_type_def inert_catch intro!: all_put sp all_ident)
  have bind: "all_nodes charged (letDeclaration p (Some (astIdent x)))" if "all_nodes charged p" for p x
    using that sp by (auto simp: letDeclaration_def inert_Node inert_charged intro: all_ident)
  let ?l = "\<lambda>p. unshift_in ''body'' (letDeclaration p (Some (astIdent (caught_name names)))) ?h"
  have l: "all_nodes charged (?l p)" "is_type ''CatchClause'' (?l p)"
      "\<And>b. child (?l p) ''body'' = Some b \<Longrightarrow> is_type ''BlockStatement'' b"
    if "all_nodes charged p" for p
    using h' bind [OF that] by (auto simp: is_type_def intro!: handler_charged)
      (auto simp: unshift_in_def unshift_def is_type_def split: option.splits)
  show ?thesis
  proof (cases "child h ''param''")
    case None
    then show ?thesis
      using h' by (auto simp: armHandler_def intro!: handler_charged all_gas_check sp)
  next
    case (Some p)
    have p: "all_nodes charged p" by (rule all_nodes_child [OF h(1) Some])
    show ?thesis
      using Some h body l [OF p] by (auto simp: armHandler_def intro!: handler_charged all_gas_check sp)
  qed
qed

lemma armed_try_charged:
  assumes n: "ready charged n" "is_type ''TryStatement'' n" "try_shaped n"
  shows "all_nodes charged (armTryStatement names n)"
proof -
  note sp = spares_charged(1) and gas = all_gas [OF spares_charged(1)]
  let ?blk = "unshift gasCallStatement (kid n ''block'')"
  have "inert (kid n ''block'')"
    using n(3) by (auto simp: kid_def try_shaped_def inert_Node split: option.splits)
  then have blk: "all_nodes charged ?blk" using n(1) by (intro all_unshift sp ready_kid gas)
  have handler: "all_in_attr charged (arm_handler_of names n)"
    using n(3) ready_child [OF n(1)]
    by (auto simp: arm_handler_of_def try_shaped_def split: option.splits intro!: armHandler_charged)
  let ?n2 = "if child n ''handler'' \<noteq> None then put (arm_handler_of names n) (put (Child ''block'' ?blk) n)
             else put (Child ''block'' ?blk) n"
  have n2: "ready charged ?n2" using n(1) blk handler by (auto intro!: ready_put)
  show ?thesis
  proof (cases "child n ''finalizer''")
    case None
    have "is_type ''TryStatement'' ?n2" using n(2) by (simp add: is_type_def)
    then have "all_nodes charged ?n2" using n2 by (intro ready_all charged_try)
    moreover have "armTryStatement names n = ?n2" unfolding armTryStatement_def Let_def None by simp
    ultimately show ?thesis by simp
  next
    case (Some fin)
    let ?guarded = "if child n ''handler'' \<noteq> None
      then astBlock [Some (Node ''TryStatement'' [Child ''block'' ?blk, arm_handler_of names n, Scalar ''finalizer'' Null])]
      else ?blk"
    let ?outer = "Node ''TryStatement'' [Child ''block'' ?guarded, Child ''handler'' (record_clause names),
      Child ''finalizer'' (unshift (gasCheckStatement (flag_name names)) fin)]"
    have "all_nodes charged ?guarded"
      using blk handler by (auto intro!: all_block sp charged_try)
    moreover have "all_nodes charged (record_clause names)"
      using sp by (simp add: record_clause_def astBlock_def inert_Node inert_charged all_ident)
    moreover have "all_nodes charged (unshift (gasCheckStatement (flag_name names)) fin)"
      using n(3) Some ready_child [OF n(1) Some]
      by (intro all_unshift sp all_gas_check) (auto simp: try_shaped_def)
    ultimately have outer: "all_nodes charged ?outer" by (simp add: charged_try)
    have lt: "all_nodes charged (letDeclaration (astIdent (flag_name names)) None)"
      using sp by (simp add: letDeclaration_def inert_Node inert_charged all_ident)
    let ?body = "Children ''body'' [Some (letDeclaration (astIdent (flag_name names)) None), Some ?outer]"
    let ?ps = "put_in ?body (delete_props [''block'', ''handler'', ''finalizer''] (props ?n2))"
    have "\<forall>p \<in> set ?ps. all_in_attr charged p"
    proof
      fix p assume "p \<in> set ?ps"
      then have "p = ?body \<or> p \<in> set (props ?n2)"
        using put_in_subset [of ?body "delete_props [''block'', ''handler'', ''finalizer''] (props ?n2)"]
        by (auto simp: delete_props_def)
      then show "all_in_attr charged p" using outer lt n2 by (auto simp: ready_def)
    qed
    then have "all_nodes charged (Node ''BlockStatement'' ?ps)" by (simp add: inert_charged)
    moreover have "armTryStatement names n = Node ''BlockStatement'' ?ps"
      unfolding armTryStatement_def Let_def Some option.case by simp
    ultimately show ?thesis by simp
  qed
qed

lemma try_charged:
  "ready charged n \<Longrightarrow> is_type ''TryStatement'' n \<Longrightarrow> try_shaped n \<Longrightarrow> all_nodes charged (chargeTry names n)"
  using legacy_try_charged armed_try_charged by (cases names) (auto simp: chargeTry_def)

lemma bottom_up_same: "f (rebuild f n) = rebuild f n \<Longrightarrow> type_of (bottom_up f n) = type_of n"
  by (simp add: bottom_up_unfold)

lemma block_visitor_ids: "type_of n \<in> {''BlockStatement'', ''CatchClause''} \<Longrightarrow> block_visitor names n = n"
  by (auto simp: block_visitor_def is_type_def)

lemma phase1_types:
  "is_type ''BlockStatement'' n \<Longrightarrow> is_type ''BlockStatement'' (bottom_up (block_visitor names) n)"
  "is_type ''CatchClause'' n \<Longrightarrow> bottom_up (block_visitor names) n = rebuild (block_visitor names) n"
  by (simp_all add: bottom_up_unfold block_visitor_ids is_type_def)

lemma phase1_step:
  assumes shape: "shaped n" and children: "\<And>c. c \<in> set (childrenOf n) \<Longrightarrow> all_nodes charged (bottom_up (block_visitor names) c)"
  shows "all_nodes charged (block_visitor names (rebuild (block_visitor names) n))"
proof -
  let ?f = "block_visitor names"
  let ?n = "rebuild ?f n"
  have r: "ready charged ?n" by (rule ready_rebuild [OF children])
  consider (fn) "is_type ''FunctionDeclaration'' n \<or> is_type ''FunctionExpression'' n"
    | (arrow) "is_type ''ArrowFunctionExpression'' n"
    | (for_loop) "is_type ''ForStatement'' n"
    | (loop) "is_loop n" "\<not> is_type ''ForStatement'' n"
    | (cond) "is_type ''IfStatement'' n" | (switch) "is_type ''SwitchCase'' n"
    | (try_stmt) "is_type ''TryStatement'' n" | (ternary) "is_type ''ConditionalExpression'' n"
    | (other) "\<not> is_loop n" "\<not> isFunctionNode n" "\<not> is_type ''IfStatement'' n" "\<not> is_type ''SwitchCase'' n"
        "\<not> is_type ''TryStatement'' n" "\<not> is_type ''ConditionalExpression'' n"
    unfolding isFunctionNode_def by blast
  then show ?thesis
  proof cases
    case fn
    then obtain b where b: "child n ''body'' = Some b" "is_type ''BlockStatement'' b"
      using shape by (auto simp: shaped_def)
    have body: "child ?n ''body'' = Some (bottom_up ?f b)" using b by simp
    have "all_nodes charged (chargeFunctionEntry ?n)"
      using fn by (intro function_entry_charged [OF r body] phase1_types b) (auto simp: is_loop_def is_type_def)
    with fn show ?thesis by (auto simp: block_visitor_def)
  next
    case arrow
    then have "child ?n ''body'' \<noteq> None" using shape by (simp add: shaped_def)
    with arrow show ?thesis
      using arrow_entry_charged [OF r] by (simp add: block_visitor_def is_type_def)
  next
    case for_loop
    then have "child ?n ''body'' \<noteq> None" using shape by (simp add: shaped_def is_loop_def is_type_def)
    note l = loop_body_charged [OF r this]
    have "is_loop (chargeLoopBody ?n)" using l for_loop by (simp add: is_loop_def is_type_def)
    with for_loop l show ?thesis
      by (auto simp: block_visitor_def is_type_def intro!: for_update_charged)
  next
    case loop
    then have "child ?n ''body'' \<noteq> None" using shape by (simp add: shaped_def)
    note l = loop_body_charged [OF r this]
    have "is_loop (chargeLoopBody ?n)" using l loop by (simp add: is_loop_def is_type_def)
    with l have "all_nodes charged (chargeLoopBody ?n)" by (intro ready_charged_loop) auto
    with loop show ?thesis by (auto simp: block_visitor_def is_type_def is_loop_def)
  next
    case cond
    with if_charged [OF r] show ?thesis by (simp add: block_visitor_def is_type_def)
  next
    case switch
    with switch_charged [OF r] show ?thesis by (simp add: block_visitor_def is_type_def)
  next
    case try_stmt
    have "try_shaped ?n"
      using shape try_stmt phase1_types [of _ names]
      by (fastforce simp: shaped_def try_shaped_def type_of_rebuild)
    with try_stmt try_charged [OF r] show ?thesis by (simp add: block_visitor_def is_type_def)
  next
    case ternary
    with conditional_charged [OF r] show ?thesis by (simp add: block_visitor_def is_type_def)
  next
    case other
    then have "inert ?n" by (simp add: inert_def is_loop_def isFunctionNode_def is_type_def)
    then have "all_nodes charged ?n" using r by (intro ready_all inert_charged)
    moreover have "?f ?n = ?n"
      using other by (simp add: block_visitor_def is_loop_def isFunctionNode_def is_type_def)
    ultimately show ?thesis by simp
  qed
qed

lemma injectBlockGas_charges:
  assumes "covers W" "all_nodes shaped n"
  shows "all_nodes charged (injectBlockGas W names n)"
proof -
  have "injectBlockGas W names n = bottom_up (block_visitor names) n"
    unfolding injectBlockGas_def using assms(1)
    by (intro rewrite_covers(1)) (auto simp: leaf_def block_visitor_def is_type_def)
  moreover have "all_nodes charged (bottom_up (block_visitor names) n)"
    using assms(2) by (rule rewritten_all) (blast intro: phase1_step)
  ultimately show ?thesis by simp
qed

end
