(* ===== verification/Guards.thy ===== *)
theory Guards
  imports Charges
begin

text \<open>
  The later phases keep the charges of the first: a visitor that leaves blocks, statements and the
  inserted charges alone is \<open>quiet\<close>, and a quiet rewrite keeps them. Phase 3 pays for the call
  sites, phase 4 puts the depth guard around every body.
\<close>

definition quiet :: "(node \<Rightarrow> node) \<Rightarrow> bool" where
  "quiet f \<longleftrightarrow>
     (\<forall>n. type_of n \<in> {''BlockStatement'', ''ExpressionStatement'', ''Literal'', ''Identifier'',
        ''SequenceExpression''} \<longrightarrow> f n = n)
     \<and> (\<forall>n. \<forall>t \<in> {''BlockStatement'', ''ExpressionStatement'', ''Literal''}. type_of (f n) = t \<longrightarrow> type_of n = t)
     \<and> f gasCallExpr = gasCallExpr"

lemma quiet_same:
  "quiet f \<Longrightarrow> type_of n \<in> {''BlockStatement'', ''ExpressionStatement'', ''Literal'', ''Identifier'', ''SequenceExpression''}
     \<Longrightarrow> f n = n"
  unfolding quiet_def by blast

lemma quiet_type:
  assumes "quiet f" "t \<in> {''BlockStatement'', ''ExpressionStatement'', ''Literal''}"
  shows "is_type t (bottom_up f n) = is_type t n"
proof -
  have "type_of m = t" if "type_of (f m) = t" for m
    using assms that unfolding quiet_def by blast
  moreover have "type_of (f m) = t" if "type_of m = t" for m
  proof -
    have "f m = m" by (rule quiet_same [OF assms(1)]) (use assms(2) that in auto)
    with that show ?thesis by simp
  qed
  ultimately have "type_of (f (rebuild f n)) = t \<longleftrightarrow> type_of (rebuild f n) = t" by blast
  then show ?thesis by (simp add: bottom_up_unfold [of f n] is_type_def)
qed

lemma rebuild_Node: "rebuild f (Node t ps) = Node t (map (map_attr (bottom_up f)) ps)"
  by (simp add: rebuild_def)

lemma bottom_up_Node: "bottom_up f (Node t ps) = f (Node t (map (map_attr (bottom_up f)) ps))"
  by (simp add: bottom_up_unfold [of f "Node t ps"] rebuild_Node)

lemma quiet_leaf:
  assumes "quiet f" "t = ''Identifier'' \<or> t = ''Literal''"
  shows "bottom_up f (Node t [Scalar k v]) = Node t [Scalar k v]"
  using quiet_same [OF assms(1), of "Node t [Scalar k v]"] assms(2)
  by (auto simp: bottom_up_Node map_attr_def)

lemma quiet_gas:
  assumes "quiet f"
  shows "bottom_up f gasCallExpr = gasCallExpr" "bottom_up f gasCallStatement = gasCallStatement"
proof -
  have "rebuild f gasCallExpr = gasCallExpr"
    using quiet_leaf [OF assms] by (simp add: gasCallExpr_def rebuild_Node map_attr_def)
  then show 1: "bottom_up f gasCallExpr = gasCallExpr"
    using assms by (simp add: bottom_up_unfold [of f gasCallExpr] quiet_def)
  show "bottom_up f gasCallStatement = gasCallStatement"
    using 1 quiet_same [OF assms, of gasCallStatement]
    by (simp add: gasCallStatement_def bottom_up_Node map_attr_def)
qed

lemma quiet_wrap: "quiet f \<Longrightarrow> bottom_up f (wrapWithGas e) = wrapWithGas (bottom_up f e)"
  using quiet_gas(1) [of f] quiet_same [of f "wrapWithGas (bottom_up f e)"]
  by (simp add: wrapWithGas_def bottom_up_Node map_attr_def)

lemma kid_rebuild: "child n k = Some c \<Longrightarrow> kid (rebuild f n) k = bottom_up f c"
  by (simp add: kid_def)

lemma quiet_directive:
  assumes "quiet f"
  shows "is_directive (bottom_up f s) = is_directive s"
proof (cases "is_type ''ExpressionStatement'' s")
  case True
  then have s: "bottom_up f s = rebuild f s"
    using quiet_same [OF assms, of "rebuild f s"] by (simp add: bottom_up_unfold is_type_def)
  show ?thesis
  proof (cases "child s ''expression''")
    case None
    then show ?thesis by (simp add: is_directive_def s kid_def)
  next
    case (Some e)
    have "is_type ''Literal'' e \<Longrightarrow> scalar (bottom_up f e) ''value'' = scalar e ''value''"
      using quiet_same [OF assms, of "rebuild f e"] by (simp add: bottom_up_unfold is_type_def)
    then show ?thesis
      using Some quiet_type [OF assms, of "''Literal''" e]
      by (auto simp: is_directive_def s kid_def)
  qed
next
  case False
  then show ?thesis using quiet_type [OF assms, of "''ExpressionStatement''" s] by (simp add: is_directive_def)
qed

lemma quiet_prologue:
  "quiet f \<Longrightarrow> directivePrologueLength (map (map_option (bottom_up f)) cs) = directivePrologueLength cs"
  by (induction cs rule: directivePrologueLength.induct) (auto simp: quiet_directive)

lemma quiet_loop:
  assumes "quiet f" "loop_charged n"
  shows "loop_charged (rebuild f n)"
proof -
  obtain b rest where b: "child n ''body'' = Some b" "is_type ''BlockStatement'' b"
    "children b ''body'' = Some gasCallStatement # rest"
    using assms(2) by (auto simp: loop_charged_def)
  have "bottom_up f b = rebuild f b"
    using b(2) quiet_same [OF assms(1), of "rebuild f b"] by (simp add: bottom_up_unfold is_type_def)
  then show ?thesis
    using b quiet_gas [OF assms(1)] by (simp add: loop_charged_def)
qed

lemma quiet_entry:
  assumes "quiet f" "entry_charged n"
  shows "entry_charged (rebuild f n)"
proof -
  obtain b where b: "child n ''body'' = Some b"
    "if is_type ''BlockStatement'' b
     then \<exists>rest. drop (directivePrologueLength (children b ''body'')) (children b ''body'') = Some gasCallStatement # rest
     else is_type ''ArrowFunctionExpression'' n \<and> (\<exists>e. b = wrapWithGas e)"
    using assms(2) by (auto simp: entry_charged_def)
  show ?thesis
  proof (cases "is_type ''BlockStatement'' b")
    case True
    have eq: "bottom_up f b = rebuild f b"
      using True quiet_same [OF assms(1), of "rebuild f b"] by (simp add: bottom_up_unfold is_type_def)
    then show ?thesis
      using b True quiet_gas [OF assms(1)]
      by (auto simp: entry_charged_def quiet_prologue [OF assms(1)] drop_map)
  next
    case False
    then obtain e where e: "b = wrapWithGas e" "is_type ''ArrowFunctionExpression'' n" using b(2) by auto
    have "\<not> is_type ''BlockStatement'' (wrapWithGas x)" for x by (simp add: wrapWithGas_def)
    then show ?thesis
      using b(1) e quiet_wrap [OF assms(1), of e] by (auto simp: entry_charged_def)
  qed
qed

lemma quiet_charged: "quiet f \<Longrightarrow> charged n \<Longrightarrow> charged (rebuild f n)"
  using quiet_loop [of f n] quiet_entry [of f n]
  by (auto simp: charged_def is_loop_def isFunctionNode_def)

subsection \<open>Phase 2\<close>

lemma wrapLeftAt_type [simp]: "type_of (wrapLeftAt k n) = type_of n"
  by (subst wrapLeftAt.simps) (simp split: option.splits)

lemma wrapLeftAt_all:
  assumes "spares Q"
  shows "is_type ''BinaryExpression'' n \<Longrightarrow> all_nodes Q n \<Longrightarrow> all_nodes Q (wrapLeftAt k n)"
proof (induction k n rule: wrapLeftAt.induct)
  case (1 k n)
  have n: "inert n" using "1.prems"(1) by (rule inertI) auto
  show ?case
  proof (cases "child n ''left''")
    case None
    then show ?thesis using "1.prems"(2) by (subst wrapLeftAt.simps) simp
  next
    case (Some l)
    have l: "all_nodes Q l" by (rule all_nodes_child [OF "1.prems"(2) Some])
    have "is_type ''BinaryExpression'' l \<Longrightarrow> 0 < k \<Longrightarrow> all_nodes Q (wrapLeftAt (k - 1) l)"
      using "1.IH" [OF Some] l by simp
    then show ?thesis
      using Some l n "1.prems"(2) assms
      by (subst wrapLeftAt.simps) (auto intro!: all_put all_wrap)
  qed
qed

lemma binary_visitor_quiet: "quiet binary_visitor"
  by (auto simp: quiet_def binary_visitor_def is_type_def gasCallExpr_def split: if_splits)

lemma binary_keeps:
  assumes "spares Q" "all_nodes Q n"
  shows "all_nodes Q (binary_visitor n)"
  using assms wrapLeftAt_all [of Q n 10] by (simp add: binary_visitor_def)

text \<open>A phase whose visitor is quiet and adds no loops or functions keeps the charges.\<close>

lemma phase_keeps:
  assumes "covers W" "quiet f" "all_nodes charged n" "\<And>n. leaf n \<Longrightarrow> f n = n"
    and "\<And>n. all_nodes charged n \<Longrightarrow> all_nodes charged (f n)"
  shows "all_nodes charged (rewrite W f n)"
proof -
  have "all_nodes charged (bottom_up f n)"
    using assms(3)
  proof (rule rewritten_all)
    fix n assume "charged n" "\<And>c. c \<in> set (childrenOf n) \<Longrightarrow> all_nodes charged c \<and> all_nodes charged (bottom_up f c)"
    then show "all_nodes charged (f (rebuild f n))"
      using ready_rebuild [of n charged f] quiet_charged [OF assms(2)] by (intro assms(5) ready_all) blast+
  qed
  then show ?thesis using rewrite_covers(1) [OF assms(1,4)] by simp
qed

subsection \<open>Phase 3: call sites\<close>

definition is_depth_call :: "node \<Rightarrow> bool" where
  "is_depth_call n \<longleftrightarrow> is_type ''Identifier'' (kid n ''callee'') \<and> text_of (kid n ''callee'') ''name'' \<in> set DEPTH_HELPERS"

text \<open>A call that is not one of the metering hooks.\<close>

definition chargeable :: "node \<Rightarrow> bool" where
  "chargeable n \<longleftrightarrow> is_type ''CallExpression'' n \<and> \<not> is_helper_call n \<and> \<not> is_gas_member_call n \<and> \<not> is_depth_call n"

text \<open>Every such call below a node stands behind a charge.\<close>

definition sites_paid :: "node \<Rightarrow> bool" where
  "sites_paid n \<longleftrightarrow> (\<forall>c \<in> set (childrenOf n). chargeable c \<longrightarrow> n = wrapWithGas c)"

lemma sites_paidI: "(\<And>c. c \<in> set (childrenOf n) \<Longrightarrow> \<not> chargeable c) \<Longrightarrow> sites_paid n"
  by (auto simp: sites_paid_def)

lemma gas_is_helper: "is_helper_call gasCallExpr"
  by (simp add: is_helper_call_def gasCallExpr_def kid_def child_def text_of_def scalar_def)

lemma chargeable_type: "chargeable c \<Longrightarrow> type_of c = ''CallExpression''"
  by (simp add: chargeable_def is_type_def)

lemma childrenOf_Node: "childrenOf (Node t ps) = concat (map attr_children ps)"
  by (simp add: childrenOf_def)

lemma map_filter_Some [simp]: "List.map_filter (\<lambda>c. c) (Some x # cs) = x # List.map_filter (\<lambda>c. c) cs"
  "List.map_filter (\<lambda>c. c) (None # cs) = List.map_filter (\<lambda>c. c) cs" "List.map_filter (\<lambda>c. c) [] = []"
  by (simp_all add: List.map_filter_simps)

lemma sites_paid_gas: "all_nodes sites_paid gasCallExpr"
  by (auto simp: gasCallExpr_def sites_paid_def childrenOf_Node dest: chargeable_type)

lemma sites_paid_wrap: "all_nodes sites_paid e \<Longrightarrow> all_nodes sites_paid (wrapWithGas e)"
  using sites_paid_gas gas_is_helper
  by (auto simp: wrapWithGas_def sites_paid_def childrenOf_Node chargeable_def)

lemma call_visitor_quiet: "quiet call_visitor"
  using gas_is_helper
  by (auto simp: quiet_def call_visitor_def is_type_def wrapWithGas_def split: if_splits)

lemma not_chargeable_visited: "\<not> chargeable (bottom_up call_visitor c)"
  by (auto simp: bottom_up_unfold [of call_visitor c] call_visitor_def chargeable_def wrapWithGas_def)

lemma all_nodes_conj: "all_nodes (\<lambda>n. P n \<and> Q n) n \<longleftrightarrow> all_nodes P n \<and> all_nodes Q n"
  by (auto simp: all_nodes_def)

lemma phase3_pays: "all_nodes sites_paid (bottom_up call_visitor n)"
proof (rule rewritten_all [where P = "\<lambda>_. True"])
  fix n assume IH: "\<And>c. c \<in> set (childrenOf n) \<Longrightarrow> all_nodes (\<lambda>_. True) c \<and> all_nodes sites_paid (bottom_up call_visitor c)"
  have "sites_paid (rebuild call_visitor n)"
    using not_chargeable_visited by (auto simp: sites_paid_def)
  then have "all_nodes sites_paid (rebuild call_visitor n)"
    by (rule ready_all [rotated]) (rule ready_rebuild, simp add: IH)
  then show "all_nodes sites_paid (call_visitor (rebuild call_visitor n))"
    using sites_paid_wrap by (simp add: call_visitor_def)
qed (simp add: all_nodes_def)

lemma injectCallGas_pays:
  assumes "covers W" "all_nodes charged n"
  shows "all_nodes (\<lambda>n. charged n \<and> sites_paid n) (injectCallGas W n)"
proof -
  have leaf: "\<And>n. leaf n \<Longrightarrow> call_visitor n = n" by (auto simp: leaf_def call_visitor_def is_type_def)
  have "all_nodes charged (injectCallGas W n)"
    unfolding injectCallGas_def using assms
  proof (rule phase_keeps [OF _ call_visitor_quiet])
    show "all_nodes charged n \<Longrightarrow> all_nodes charged (call_visitor n)" for n
      by (auto simp: call_visitor_def intro: all_wrap spares_charged)
  qed (rule leaf)
  then show ?thesis
    using phase3_pays [of n] rewrite_covers(1) [OF assms(1) leaf, of n]
    by (simp add: all_nodes_conj injectCallGas_def)
qed

subsection \<open>Phase 4: the guard\<close>

text \<open>The entry and exit statements of a guard, legacy and armed.\<close>

definition guard_pair :: "armed_names option \<Rightarrow> node \<Rightarrow> node \<Rightarrow> bool" where
  "guard_pair names enter exit \<longleftrightarrow>
     (case names of
        None \<Rightarrow> enter = callStatement ''__depth_enter'' \<and> exit = callStatement ''__depth_exit''
      | Some x \<Rightarrow> \<exists>w \<ge> 1. (enter, exit) = armedDepthPair w (token_name x))"

definition depth_guarded :: "armed_names option \<Rightarrow> node \<Rightarrow> bool" where
  "depth_guarded names n \<longleftrightarrow> (\<exists>b dirs enter rest handler exit.
     child n ''body'' = Some b \<and> is_type ''BlockStatement'' b
     \<and> children b ''body'' = dirs @ [Some enter, Some (Node ''TryStatement''
           [Child ''block'' (astBlock rest), handler, Child ''finalizer'' (astBlock [Some exit])])]
     \<and> (\<forall>d \<in> set dirs. \<exists>s. d = Some s \<and> is_directive s)
     \<and> guard_pair names enter exit
     \<and> ((\<exists>more. rest = Some gasCallStatement # more)
        \<or> (\<exists>e. rest = [Some (Node ''ReturnStatement'' [Child ''argument'' (wrapWithGas e)])])))"

definition instrumented :: "armed_names option \<Rightarrow> node \<Rightarrow> bool" where
  "instrumented names n \<longleftrightarrow> (is_loop n \<longrightarrow> loop_charged n) \<and> (isFunctionNode n \<longrightarrow> depth_guarded names n) \<and> sites_paid n"

lemma prologue_directives:
  "\<forall>d \<in> set (take (directivePrologueLength cs) cs). \<exists>s. d = Some s \<and> is_directive s"
  by (induction cs rule: directivePrologueLength.induct) auto

text \<open>The visitor of phase 4 changes function nodes only, and no type.\<close>

lemma guard_visitor_type [simp]: "type_of (guard_visitor names n) = type_of n"
  by (auto simp: guard_visitor_def wrapDepthGuard_def arrow_to_block_def Let_def split: option.splits)

lemma guard_visitor_other: "\<not> isFunctionNode n \<Longrightarrow> guard_visitor names n = n"
  by (auto simp: guard_visitor_def isFunctionNode_def)

lemma guard_type [simp]: "type_of (bottom_up (guard_visitor names) n) = type_of n"
  by (simp add: bottom_up_unfold [of _ n])

lemma guard_other: "\<not> isFunctionNode n \<Longrightarrow> bottom_up (guard_visitor names) n = rebuild (guard_visitor names) n"
  by (simp add: bottom_up_unfold [of _ n] guard_visitor_other isFunctionNode_def)

lemma guard_visitor_quiet: "quiet (guard_visitor names)"
  by (auto simp: quiet_def isFunctionNode_def is_type_def gasCallExpr_def intro!: guard_visitor_other)

lemma not_function:
  "is_type t n \<Longrightarrow> t \<in> {''Identifier'', ''CallExpression'', ''MemberExpression'', ''SequenceExpression''} \<Longrightarrow> \<not> isFunctionNode n"
  by (auto simp: isFunctionNode_def is_type_def)

lemma guard_kid_type:
  "\<not> isFunctionNode n \<Longrightarrow> is_type t (kid (bottom_up (guard_visitor names) n) k) = is_type t (kid n k)"
  by (simp add: guard_other kid_def is_type_def split: option.splits)

lemma guard_kid_text:
  assumes "\<not> isFunctionNode n" "is_type ''Identifier'' (kid n k)"
  shows "text_of (kid (bottom_up (guard_visitor names) n) k) j = text_of (kid n k) j"
proof (cases "child n k")
  case None
  then show ?thesis by (simp add: guard_other [OF assms(1)] kid_def)
next
  case (Some c)
  then have "\<not> isFunctionNode c" using assms(2) by (intro not_function [of "''Identifier''"]) (auto simp: kid_def)
  then show ?thesis using Some by (simp add: guard_other [OF assms(1)] guard_other kid_def)
qed

lemma guard_kid_kid:
  assumes "\<not> isFunctionNode n" "is_type ''MemberExpression'' (kid n k)"
  shows "is_type t (kid (kid (bottom_up (guard_visitor names) n) k) j) = is_type t (kid (kid n k) j)"
    and "is_type ''Identifier'' (kid (kid n k) j) \<Longrightarrow>
      text_of (kid (kid (bottom_up (guard_visitor names) n) k) j) i = text_of (kid (kid n k) j) i"
proof -
  have m: "\<not> isFunctionNode (kid n k)" using assms(2) by (rule not_function) simp
  have "kid (bottom_up (guard_visitor names) n) k = bottom_up (guard_visitor names) (kid n k)"
    using assms(2) by (auto simp: guard_other [OF assms(1)] kid_def split: option.splits)
  then show "is_type t (kid (kid (bottom_up (guard_visitor names) n) k) j) = is_type t (kid (kid n k) j)"
    "is_type ''Identifier'' (kid (kid n k) j) \<Longrightarrow>
      text_of (kid (kid (bottom_up (guard_visitor names) n) k) j) i = text_of (kid (kid n k) j) i"
    using guard_kid_type [OF m] guard_kid_text [OF m] by simp_all
qed

lemma chargeable_guard [simp]: "chargeable (bottom_up (guard_visitor names) c) = chargeable c"
proof (cases "is_type ''CallExpression'' c")
  case True
  have c: "\<not> isFunctionNode c" using True by (rule not_function) simp
  show ?thesis
    using guard_kid_type [OF c] guard_kid_text [OF c] guard_kid_kid [OF c, of "''callee''"]
    by (auto simp: chargeable_def is_helper_call_def is_gas_member_call_def is_depth_call_def)
      (simp_all add: is_type_def)
qed (simp add: chargeable_def is_type_def)

lemma guard_keeps_sites:
  assumes "sites_paid n"
  shows "sites_paid (rebuild (guard_visitor names) n)"
  unfolding sites_paid_def
proof (intro ballI impI)
  fix c' assume "c' \<in> set (childrenOf (rebuild (guard_visitor names) n))" and ch: "chargeable c'"
  then obtain c where c: "c \<in> set (childrenOf n)" "c' = bottom_up (guard_visitor names) c" by auto
  then have "n = wrapWithGas c" using assms ch by (simp add: sites_paid_def)
  then have "\<not> isFunctionNode n" "rebuild (guard_visitor names) n = bottom_up (guard_visitor names) (wrapWithGas c)"
    by (auto simp: guard_other isFunctionNode_def wrapWithGas_def)
  then show "rebuild (guard_visitor names) n = wrapWithGas c'"
    using quiet_wrap [OF guard_visitor_quiet] c(2) by simp
qed

lemma childrenOf_put: "set (childrenOf (put p n)) \<subseteq> set (attr_children p) \<union> set (childrenOf n)"
  using put_in_subset [of p "props n"] by (force simp: childrenOf_def put_def)

lemma sites_paid_block:
  "is_type ''BlockStatement'' b \<Longrightarrow> sites_paid b \<Longrightarrow> c \<in> set (childrenOf b) \<Longrightarrow> \<not> chargeable c"
  by (auto simp: sites_paid_def is_type_def wrapWithGas_def)

lemma instrumented_inert: "inert n \<Longrightarrow> instrumented names n \<longleftrightarrow> sites_paid n"
  by (auto simp: inert_def instrumented_def)

lemma instrumented_try: "is_type ''TryStatement'' n \<Longrightarrow> instrumented names n \<longleftrightarrow> sites_paid n"
  by (auto simp: instrumented_def is_loop_def isFunctionNode_def is_type_def)

lemma depth_call: "f \<in> set DEPTH_HELPERS \<Longrightarrow> is_depth_call (Node t (Child ''callee'' (Node ''Identifier'' [Scalar ''name'' (Text f)]) # ps))"
  by (simp add: is_depth_call_def text_of_def scalar_def)

lemma all_instrumented_Node:
  "inert (Node t ps) \<Longrightarrow> (\<And>c. c \<in> set (concat (map attr_children ps)) \<Longrightarrow> \<not> chargeable c \<and> all_nodes (instrumented names) c)
     \<Longrightarrow> all_nodes (instrumented names) (Node t ps)"
  by (auto simp: instrumented_inert sites_paid_def childrenOf_Node all_in_attr_def)

lemma not_chargeable_Node: "t \<noteq> ''CallExpression'' \<Longrightarrow> \<not> chargeable (Node t ps)"
  by (simp add: chargeable_def)

lemma depth_statement_instrumented:
  assumes "f \<in> set DEPTH_HELPERS" "\<And>a. a \<in> set args \<Longrightarrow> \<not> chargeable a \<and> all_nodes (instrumented names) a"
  shows "all_nodes (instrumented names) (push_arguments (callStatement f) args)"
proof -
  have eq: "push_arguments (callStatement f) args = Node ''ExpressionStatement'' [Child ''expression''
      (Node ''CallExpression'' [Child ''callee'' (Node ''Identifier'' [Scalar ''name'' (Text f)]),
         Children ''arguments'' (map Some args), Scalar ''optional'' (Flag False)])]"
    by (simp add: push_arguments_def callStatement_def kid_def child_def children_def put_def)
  have mf: "List.map_filter (\<lambda>c. c) (map Some args) = args"
    by (induction args) simp_all
  show ?thesis
    unfolding eq using assms depth_call [OF assms(1)]
    by (intro all_instrumented_Node) (auto simp: inert_Node mf chargeable_def
        instrumented_inert sites_paid_def childrenOf_Node)
qed

lemma depth_statement_instrumented0:
  "f \<in> set DEPTH_HELPERS \<Longrightarrow> all_nodes (instrumented names) (callStatement f)"
  using depth_statement_instrumented [of f "[]" names]
  by (simp add: push_arguments_def callStatement_def kid_def child_def children_def put_def)

lemma leaf_instrumented [simp]:
  "all_nodes (instrumented names) (astIdent s)" "\<not> chargeable (astIdent s)"
  "all_nodes (instrumented names) (astLiteral v)" "\<not> chargeable (astLiteral v)"
  by (simp_all add: astIdent_def astLiteral_def instrumented_inert inert_Node sites_paid_def childrenOf_Node
      not_chargeable_Node)

lemma armed_pair_instrumented:
  "all_nodes (instrumented names) (fst (armedDepthPair w t))" "all_nodes (instrumented names) (snd (armedDepthPair w t))"
proof -
  have call: "all_nodes (instrumented names) (astCall ''__depth_enter'' [astLiteral v])" for v
    using depth_statement_instrumented [of "''__depth_enter''" "[astLiteral v]" names]
    by (simp add: push_arguments_def callStatement_def kid_def child_def children_def put_def astCall_def
        astIdent_def DEPTH_HELPERS_def)
  have "\<not> chargeable (astCall ''__depth_enter'' [astLiteral v])" for v
    by (simp add: chargeable_def astCall_def astIdent_def depth_call DEPTH_HELPERS_def)
  then show "all_nodes (instrumented names) (fst (armedDepthPair w t))"
    using call leaf_instrumented
    by (simp add: armedDepthPair_def inert_Node not_chargeable_Node instrumented_inert sites_paid_def
        childrenOf_Node)
  show "all_nodes (instrumented names) (snd (armedDepthPair w t))"
    by (auto simp: armedDepthPair_def DEPTH_HELPERS_def intro!: depth_statement_instrumented)
qed

lemma armed_handler_instrumented:
  "all_nodes (instrumented names) (Node ''CatchClause''
     [Child ''param'' (astIdent c), Child ''body'' (astBlock
        [Some (push_arguments (callStatement ''__depth_exit'') [astIdent c]),
         Some (Node ''ThrowStatement'' [Child ''argument'' (astIdent c)])])])"
proof -
  have "all_nodes (instrumented names) (push_arguments (callStatement ''__depth_exit'') [astIdent c])"
    by (rule depth_statement_instrumented) (auto simp: DEPTH_HELPERS_def)
  moreover have "\<not> chargeable (push_arguments (callStatement ''__depth_exit'') [astIdent c])"
    by (auto simp: push_arguments_def callStatement_def dest: chargeable_type)
  ultimately show ?thesis
    by (simp add: astBlock_def inert_Node not_chargeable_Node instrumented_inert sites_paid_def childrenOf_Node)
qed

lemma not_chargeable_statement: "\<not> chargeable (callStatement f)"
  by (simp add: callStatement_def not_chargeable_Node)

lemma armed_guard_pair:
  "1 \<le> w \<Longrightarrow> guard_pair (Some x) (fst (armedDepthPair w (token_name x))) (snd (armedDepthPair w (token_name x)))"
  by (auto simp: guard_pair_def)

lemma armed_pair_not_chargeable:
  "\<not> chargeable (fst (armedDepthPair w t))" "\<not> chargeable (snd (armedDepthPair w t))"
  by (auto simp: armedDepthPair_def push_arguments_def callStatement_def not_chargeable_Node dest!: chargeable_type)

text \<open>The guard around a body whose first statement charges.\<close>

definition body_charges :: "node option list \<Rightarrow> bool" where
  "body_charges rest \<longleftrightarrow> (\<exists>more. rest = Some gasCallStatement # more)
     \<or> (\<exists>e. rest = [Some (Node ''ReturnStatement'' [Child ''argument'' (wrapWithGas e)])])"

lemma wrapDepthGuard_guards:
  assumes n: "ready (instrumented names) n" "sites_paid n" "isFunctionNode n"
    and b: "child n ''body'' = Some b" "is_type ''BlockStatement'' b"
    and rest: "body_charges (drop (directivePrologueLength (children b ''body'')) (children b ''body''))"
  shows "all_nodes (instrumented names) (wrapDepthGuard (weightOf names n) n)"
proof -
  let ?cs = "children b ''body''"
  let ?dirs = "take (directivePrologueLength ?cs) ?cs" and ?rest = "drop (directivePrologueLength ?cs) ?cs"
  obtain enter exit handler where
    pair: "guard_pair names enter exit" and key: "prop_key handler = ''handler''"
    and eq: "wrapDepthGuard (weightOf names n) n = put (Child ''body'' (put (Children ''body'' (?dirs @ [Some enter,
        Some (Node ''TryStatement'' [Child ''block'' (astBlock ?rest), handler, Child ''finalizer'' (astBlock [Some exit])])])) b)) n"
    and parts: "all_nodes (instrumented names) enter" "all_nodes (instrumented names) exit"
      "all_in_attr (instrumented names) handler" "\<forall>c \<in> set (attr_children handler). \<not> chargeable c"
      "\<not> chargeable enter" "\<not> chargeable exit"
  proof (cases names)
    case None
    show ?thesis
      by (rule that [of "callStatement ''__depth_enter''" "callStatement ''__depth_exit''" "Scalar ''handler'' Null"])
        (simp_all add: None guard_pair_def wrapDepthGuard_def b weightOf_def Let_def
          depth_statement_instrumented0 DEPTH_HELPERS_def not_chargeable_statement)
  next
    case (Some x)
    show ?thesis
      by (rule that [of "fst (armedDepthPair (frameWeight n) (token_name x))"
            "snd (armedDepthPair (frameWeight n) (token_name x))"
            "Child ''handler'' (Node ''CatchClause''
               [Child ''param'' (astIdent (caught_name x)), Child ''body'' (astBlock
                 [Some (push_arguments (callStatement ''__depth_exit'') [astIdent (caught_name x)]),
                  Some (Node ''ThrowStatement'' [Child ''argument'' (astIdent (caught_name x))])])])"])
        (use armed_guard_pair [of "frameWeight n" x] frame_weight_positive in
          \<open>simp_all add: Some wrapDepthGuard_def b weightOf_def Let_def armed_pair_instrumented
            armed_handler_instrumented armed_pair_not_chargeable not_chargeable_Node del: all_nodes_Node\<close>)
  qed
  have b_all: "all_nodes (instrumented names) b" by (rule ready_child [OF n(1) b(1)])
  then have b_paid: "sites_paid b" using b(2) all_nodes_self [OF b_all] by (simp add: instrumented_inert)
  have stmt: "all_nodes (instrumented names) c \<and> \<not> chargeable c" if "Some c \<in> set ?cs" for c
    using all_nodes_children [OF b_all that] sites_paid_block [OF b(2) b_paid children_childrenOf [OF that]] by simp
  let ?tr = "Node ''TryStatement'' [Child ''block'' (astBlock ?rest), handler, Child ''finalizer'' (astBlock [Some exit])]"
  have rest_block: "all_nodes (instrumented names) (astBlock ?rest)"
    using stmt unfolding astBlock_def
    by (intro all_instrumented_Node) (auto simp: inert_Node map_filter_id dest!: in_set_dropD)
  have exit_block: "all_nodes (instrumented names) (astBlock [Some exit])"
    using parts unfolding astBlock_def by (intro all_instrumented_Node) (auto simp: inert_Node)
  have try_paid: "sites_paid ?tr"
    using parts(4) by (auto simp: sites_paid_def childrenOf_Node astBlock_def not_chargeable_Node)
  have "instrumented names ?tr" using try_paid instrumented_try [of ?tr names] by simp
  then have try_all: "all_nodes (instrumented names) ?tr"
    using rest_block exit_block parts(3) by simp
  let ?L = "?dirs @ [Some enter, Some ?tr]"
  let ?b = "put (Children ''body'' ?L) b"
  have L: "all_nodes (instrumented names) c \<and> \<not> chargeable c" if "Some c \<in> set ?L" for c
    using that stmt parts(1,5) try_all not_chargeable_Node by (auto dest!: in_set_takeD)
  have "sites_paid ?b"
  proof (rule sites_paidI)
    fix c assume "c \<in> set (childrenOf ?b)"
    then have "Some c \<in> set ?L \<or> c \<in> set (childrenOf b)"
      using childrenOf_put [of "Children ''body'' ?L" b] by (auto simp: map_filter_id simp del: set_append)
    then show "\<not> chargeable c" using L sites_paid_block [OF b(2) b_paid] by blast
  qed
  then have "instrumented names ?b" using b(2) by (simp add: instrumented_inert)
  moreover have "ready (instrumented names) ?b"
    using all_ready [OF b_all] L by (intro ready_put) auto
  ultimately have b'_all: "all_nodes (instrumented names) ?b" by (intro ready_all)
  have "depth_guarded names (put (Child ''body'' ?b) n)"
    unfolding depth_guarded_def
    using b(2) pair rest prologue_directives [of ?cs]
    by (intro exI [of _ ?b] exI [of _ ?dirs] exI [of _ enter] exI [of _ ?rest] exI [of _ handler] exI [of _ exit])
      (simp add: body_charges_def is_type_def)
  moreover have "sites_paid (put (Child ''body'' ?b) n)"
  proof -
    have "\<not> chargeable c" if "c \<in> set (childrenOf n)" for c
      using that n(2,3) not_function [of "''SequenceExpression''"] by (auto simp: sites_paid_def wrapWithGas_def)
    moreover have "\<not> chargeable ?b" using b(2) by (auto simp: is_type_def dest: chargeable_type)
    moreover have "set (childrenOf (put (Child ''body'' ?b) n)) \<subseteq> insert ?b (set (childrenOf n))"
      using childrenOf_put [of "Child ''body'' ?b" n] by simp
    ultimately show ?thesis by (intro sites_paidI) blast
  qed
  ultimately have "instrumented names (put (Child ''body'' ?b) n)"
    using n(3) by (auto simp: instrumented_def isFunctionNode_def is_loop_def is_type_def)
  moreover have "ready (instrumented names) (put (Child ''body'' ?b) n)"
    using n(1) b'_all by (intro ready_put) auto
  ultimately show ?thesis unfolding eq by (intro ready_all)
qed

lemma function_children_not_chargeable:
  "isFunctionNode n \<Longrightarrow> sites_paid n \<Longrightarrow> c \<in> set (childrenOf n) \<Longrightarrow> \<not> chargeable c"
  using not_function [of "''SequenceExpression''" n] by (auto simp: sites_paid_def wrapWithGas_def)

lemma arrow_block_guards:
  assumes n: "ready (instrumented names) n" "sites_paid n" "is_type ''ArrowFunctionExpression'' n"
    and body: "child n ''body'' = Some (wrapWithGas e)"
  shows "all_nodes (instrumented names) (wrapDepthGuard (weightOf names (arrow_to_block n)) (arrow_to_block n))"
proof -
  let ?ret = "Node ''ReturnStatement'' [Child ''argument'' (wrapWithGas e)]"
  have eq: "arrow_to_block n = put (Child ''body'' (astBlock [Some ?ret])) n"
    using body by (simp add: arrow_to_block_def kid_def wrapWithGas_def)
  have fn: "isFunctionNode n" using n(3) by (simp add: isFunctionNode_def)
  have "\<not> chargeable (wrapWithGas e)" by (simp add: wrapWithGas_def not_chargeable_Node)
  then have ret: "all_nodes (instrumented names) ?ret"
    using ready_child [OF n(1) body] by (intro all_instrumented_Node) (auto simp: inert_Node simp del: all_nodes_Node)
  have blk: "all_nodes (instrumented names) (astBlock [Some ?ret])"
    unfolding astBlock_def using ret not_chargeable_Node
    by (intro all_instrumented_Node) (auto simp: inert_Node simp del: all_nodes_Node)
  have ready: "ready (instrumented names) (arrow_to_block n)"
    unfolding eq using n(1) blk by (intro ready_put) (simp_all del: all_nodes_Node)
  have "set (childrenOf (arrow_to_block n)) \<subseteq> insert (astBlock [Some ?ret]) (set (childrenOf n))"
    using childrenOf_put [of "Child ''body'' (astBlock [Some ?ret])" n] by (simp add: eq)
  moreover have "\<not> chargeable (astBlock [Some ?ret])" by (simp add: astBlock_def not_chargeable_Node)
  ultimately have paid: "sites_paid (arrow_to_block n)"
    using function_children_not_chargeable [OF fn n(2)] by (intro sites_paidI) blast
  show ?thesis
  proof (rule wrapDepthGuard_guards [OF ready paid])
    show "isFunctionNode (arrow_to_block n)" using n(3) by (simp add: eq isFunctionNode_def is_type_def)
    show "child (arrow_to_block n) ''body'' = Some (astBlock [Some ?ret])" by (simp add: eq)
    show "is_type ''BlockStatement'' (astBlock [Some ?ret])" by (simp add: astBlock_def)
    show "body_charges (drop (directivePrologueLength (children (astBlock [Some ?ret]) ''body''))
        (children (astBlock [Some ?ret]) ''body''))"
      by (auto simp: astBlock_def children_def is_directive_def body_charges_def)
  qed
qed

lemma phase4_step:
  assumes n: "charged n" "sites_paid n"
    and IH: "\<And>c. c \<in> set (childrenOf n) \<Longrightarrow> all_nodes (instrumented names) (bottom_up (guard_visitor names) c)"
  shows "all_nodes (instrumented names) (guard_visitor names (rebuild (guard_visitor names) n))"
proof -
  let ?n = "rebuild (guard_visitor names) n"
  have r: "ready (instrumented names) ?n" by (rule ready_rebuild [OF IH])
  have paid: "sites_paid ?n" by (rule guard_keeps_sites [OF n(2)])
  have ch: "charged ?n" by (rule quiet_charged [OF guard_visitor_quiet n(1)])
  show ?thesis
  proof (cases "isFunctionNode n")
    case False
    then have "\<not> isFunctionNode ?n" by (simp add: isFunctionNode_def)
    then have "instrumented names ?n" using ch paid by (simp add: instrumented_def charged_def)
    then show ?thesis using r False by (simp add: ready_all guard_visitor_other isFunctionNode_def)
  next
    case True
    then have fn: "isFunctionNode ?n" by (simp add: isFunctionNode_def)
    then obtain b where b: "child ?n ''body'' = Some b"
      "if is_type ''BlockStatement'' b
       then \<exists>rest. drop (directivePrologueLength (children b ''body'')) (children b ''body'') = Some gasCallStatement # rest
       else is_type ''ArrowFunctionExpression'' ?n \<and> (\<exists>e. b = wrapWithGas e)"
      using ch unfolding charged_def entry_charged_def by blast
    show ?thesis
    proof (cases "is_type ''BlockStatement'' b")
      case True
      then have "all_nodes (instrumented names) (wrapDepthGuard (weightOf names ?n) ?n)"
        using b(2) by (intro wrapDepthGuard_guards [OF r paid fn b(1)]) (auto simp: body_charges_def)
      moreover have "kid ?n ''body'' = b" unfolding kid_def b(1) by (simp only: option.case)
      then have "arrow_to_block ?n = ?n" using True by (simp add: arrow_to_block_def)
      ultimately show ?thesis using fn unfolding isFunctionNode_def guard_visitor_def by auto
    next
      case False
      then obtain e where e: "b = wrapWithGas e" "is_type ''ArrowFunctionExpression'' ?n" using b(2) by auto
      have "guard_visitor names ?n = wrapDepthGuard (weightOf names (arrow_to_block ?n)) (arrow_to_block ?n)"
        using e(2) unfolding guard_visitor_def is_type_def by simp
      then show ?thesis using arrow_block_guards [OF r paid e(2) b(1) [unfolded e(1)]] by simp
    qed
  qed
qed

lemma injectDepthGuards_guards:
  assumes "covers W" "all_nodes (\<lambda>n. charged n \<and> sites_paid n) n"
  shows "all_nodes (instrumented names) (injectDepthGuards W names n)"
proof -
  have "injectDepthGuards W names n = bottom_up (guard_visitor names) n"
    unfolding injectDepthGuards_def using assms(1)
    by (intro rewrite_covers(1)) (auto simp: leaf_def isFunctionNode_def is_type_def intro!: guard_visitor_other)
  moreover have "all_nodes (instrumented names) (bottom_up (guard_visitor names) n)"
    using assms(2) by (rule rewritten_all) (blast intro: phase4_step)
  ultimately show ?thesis by simp
qed

end
