(* ===== verification/MeterProps.thy ===== *)
theory MeterProps
  imports Guards
begin

text \<open>
  The transform as a whole: the allocator rewrite keeps the shape of loops, functions and try
  statements, so the guarantees of the phases hold of what meterCode prints.
\<close>

subsection \<open>The allocator rewrite keeps shapes\<close>

definition convertible :: "string list" where
  "convertible = [''BinaryExpression'', ''AssignmentExpression'', ''TaggedTemplateExpression'', ''TemplateLiteral'',
     ''ArrayExpression'', ''ObjectExpression'', ''CallExpression'', ''NewExpression'', ''VariableDeclarator'']"

lemma convert_other: "type_of n \<notin> set convertible \<Longrightarrow> convert op tagged d n s = (n, s)"
  by (auto simp: convert_def or_else_def convertConcat_def convertTaggedTemplate_def convertTemplateLiteral_def
      convertArraySpread_def convertObjectSpread_def convertCallSpread_def convertRestPattern_def Let_def
      is_type_def convertible_def)

lemma convertible_inert: "type_of n \<in> set convertible \<Longrightarrow> inert n"
  by (auto simp: convertible_def inert_def is_loop_def isFunctionNode_def is_type_def)

lemma shaped_thunk: "all_nodes shaped e \<Longrightarrow> all_nodes shaped (arrowThunk e)"
  by (auto simp: arrowThunk_def shaped_def is_loop_def child_def)

lemma shaped_member_key: "all_nodes shaped m \<Longrightarrow> all_nodes shaped (memberKeyExpr m)"
  by (auto simp: memberKeyExpr_def intro: all_kid all_literal spares_charged)

lemma shaped_segment: "(\<And>n. n \<in> set ns \<Longrightarrow> all_nodes shaped n) \<Longrightarrow> all_nodes shaped (segment t ns)"
  unfolding segment_def by (rule all_array [OF spares_charged(2)]) (auto intro: all_literal spares_charged)

lemma shaped_kid_kid: "all_nodes shaped m \<Longrightarrow> all_nodes shaped (kid m k)"
  by (rule all_kid [OF spares_charged(2)])

lemmas shaped_intros = all_call [OF spares_charged(2)] all_array [OF spares_charged(2)]
  all_literal [OF spares_charged(2)] shaped_thunk shaped_segment

lemma shaped_put: "ready shaped n \<Longrightarrow> inert n \<Longrightarrow> all_in_attr shaped p \<Longrightarrow> all_nodes shaped (put p n)"
  by (rule all_nodes_put) (auto simp: ready_def inert_shaped)

lemma convertConcat_shaped:
  assumes "ready shaped n" "convertConcat s n = Some n'"
  shows "all_nodes shaped n'"
proof -
  have kid: "all_nodes shaped (kid n k)" for k by (rule ready_kid [OF spares_charged(2) assms(1)])
  have call: "all_nodes shaped (astCall ''__concat'' [x, y])" if "all_nodes shaped x" "all_nodes shaped y" for x y
    using that by (intro shaped_intros) auto
  show ?thesis
    using assms(2) kid call shaped_kid_kid [OF kid] shaped_member_key [OF kid]
    by (auto simp: convertConcat_def cloneNode_def inert_Node inert_shaped split: if_splits
        intro!: shaped_intros)
qed

lemma convertTaggedTemplate_shaped:
  assumes "ready shaped n" "convertTaggedTemplate n = Some n'"
  shows "all_nodes shaped n'"
proof -
  have kid: "all_nodes shaped (kid n k)" for k by (rule ready_kid [OF spares_charged(2) assms(1)])
  have void: "all_nodes shaped astVoid0" by (simp add: astVoid0_def inert_Node inert_shaped astLiteral_def)
  have "all_nodes shaped (astArray (map (\<lambda>q. Some (if cooked_of q = Null then astVoid0 else astLiteral (cooked_of q))) qs))" for qs
    using void by (auto intro!: shaped_intros)
  moreover have "all_nodes shaped (astArray (map (\<lambda>q. Some (astLiteral (raw_of q))) qs))" for qs
    by (auto intro!: shaped_intros)
  moreover have "all_nodes shaped (astArray (children (kid n ''quasi'') ''expressions''))"
    using all_nodes_children [OF kid] by (auto intro!: shaped_intros)
  ultimately show ?thesis
    using assms(2) kid shaped_kid_kid [OF kid] shaped_member_key [OF kid]
    by (auto simp: convertTaggedTemplate_def Let_def split: if_splits intro!: all_call [OF spares_charged(2)])
qed

lemma template_parts_shaped:
  "(\<And>e. Some e \<in> set es \<Longrightarrow> all_nodes shaped e) \<Longrightarrow> Some e \<in> set (template_parts qs es) \<Longrightarrow> all_nodes shaped e"
  by (induction qs es rule: template_parts.induct) (auto intro: all_literal spares_charged)

lemma convertTemplateLiteral_shaped:
  assumes "ready shaped n" "convertTemplateLiteral t n = Some n'"
  shows "all_nodes shaped n'"
proof -
  have "all_nodes shaped (astArray (template_parts (children n ''quasis'') (children n ''expressions'')))"
    using template_parts_shaped ready_children [OF assms(1)] by (intro all_array [OF spares_charged(2)]) blast
  then show ?thesis
    using assms(2) by (auto simp: convertTemplateLiteral_def split: if_splits intro!: all_call [OF spares_charged(2)])
qed

lemma array_segment_shaped:
  assumes "ready shaped n" "Some e \<in> set (map array_segment (children n k))"
  shows "all_nodes shaped e"
proof -
  obtain x where x: "x \<in> set (children n k)" "Some e = array_segment x" using assms(2) by auto
  show ?thesis
  proof (cases x)
    case None
    with x(2) show ?thesis by (auto simp: array_segment_def intro!: shaped_segment)
  next
    case (Some a)
    have "all_nodes shaped a" using ready_children [OF assms(1)] x(1) Some by blast
    with x(2) Some shaped_kid_kid [of a] show ?thesis
      by (auto simp: array_segment_def split: if_splits intro!: shaped_segment)
  qed
qed

lemma convertArraySpread_shaped:
  assumes "ready shaped n" "convertArraySpread n = Some n'"
  shows "all_nodes shaped n'"
proof -
  have "all_nodes shaped (astArray (map array_segment (children n ''elements'')))"
    using array_segment_shaped [OF assms(1)] by (intro all_array [OF spares_charged(2)]) blast
  then show ?thesis
    using assms(2) by (auto simp: convertArraySpread_def split: if_splits intro!: all_call [OF spares_charged(2)])
qed

lemma property_segment_shaped:
  assumes "ready shaped n" "Some e \<in> set (map property_segment (children n k))"
  shows "all_nodes shaped e"
proof -
  obtain p where p: "Some p \<in> set (children n k)" "Some e = property_segment (Some p)"
    using assms(2) by (force simp: property_segment_def Some_eq_map_option)
  have kid: "all_nodes shaped (kid p j)" for j by (rule shaped_kid_kid [OF ready_children [OF assms(1) p(1)]])
  show ?thesis
    using p(2) kid by (auto simp: property_segment_def Let_def split: if_splits intro!: shaped_intros)
qed

lemma meter_spread_property_shaped:
  assumes "ready shaped n" "Some e \<in> set (map meter_spread_property (children n k))"
  shows "all_nodes shaped e"
proof -
  obtain p where p: "Some p \<in> set (children n k)" "Some e = meter_spread_property (Some p)"
    using assms(2) by (force simp: meter_spread_property_def Some_eq_map_option)
  have p_all: "all_nodes shaped p" by (rule ready_children [OF assms(1) p(1)])
  have "all_nodes shaped (put (Child ''argument'' (astCall ''__objspreadmeter'' [kid p ''argument''])) p)"
    if s: "is_type ''SpreadElement'' p"
  proof (rule shaped_put [OF all_ready [OF p_all]])
    show "inert p" using s by (rule inertI) auto
    show "all_in_attr shaped (Child ''argument'' (astCall ''__objspreadmeter'' [kid p ''argument'']))"
      using shaped_kid_kid [OF p_all] by (auto intro!: all_call [OF spares_charged(2)])
  qed
  with p p_all show ?thesis by (auto simp: meter_spread_property_def split: if_splits)
qed

lemma convertObjectSpread_shaped:
  assumes "ready shaped n" "convertObjectSpread n = Some n'"
  shows "all_nodes shaped n'"
proof -
  have i: "inert n"
    using assms(2) by (intro inertI [of "''ObjectExpression''"]) (auto simp: convertObjectSpread_def Let_def split: if_splits)
  have "all_nodes shaped (astArray (map property_segment (children n ''properties'')))"
    using property_segment_shaped [OF assms(1)] by (intro all_array [OF spares_charged(2)]) blast
  moreover have "all_nodes shaped (put (Children ''properties'' (map meter_spread_property (children n ''properties''))) n)"
    using meter_spread_property_shaped [OF assms(1)] by (intro shaped_put assms(1) i) (simp only: all_in_attr_simps, blast)
  ultimately show ?thesis
    using assms(2) by (auto simp: convertObjectSpread_def Let_def split: if_splits intro!: all_call [OF spares_charged(2)])
qed

lemma argument_segments_shaped:
  assumes "ready shaped n"
  shows "all_nodes shaped (astArray (map argument_segment (children n k)))"
proof (rule all_array [OF spares_charged(2)])
  fix e assume "Some e \<in> set (map argument_segment (children n k))"
  then obtain a where a: "Some a \<in> set (children n k)" "Some e = argument_segment (Some a)"
    by (force simp: argument_segment_def Some_eq_map_option)
  have "all_nodes shaped a" by (rule ready_children [OF assms a(1)])
  with a(2) shaped_kid_kid [of a] show "all_nodes shaped e"
    by (auto simp: argument_segment_def split: if_splits intro!: shaped_segment)
qed

lemma convertCallSpread_shaped:
  assumes "ready shaped n" "convertCallSpread op d n s = Some (n', s')"
  shows "all_nodes shaped n'"
proof -
  have i: "inert n"
    using assms(2) inertI [of "''CallExpression''" n] inertI [of "''NewExpression''" n]
    by (auto simp: convertCallSpread_def Let_def split: if_splits)
  have put: "all_nodes shaped (put (Children ''arguments'' (spread_of args)) n)"
    if "\<And>a. a \<in> set args \<Longrightarrow> all_nodes shaped a" for args
    using that by (intro shaped_put assms(1) i)
      (auto simp: spread_of_def inert_Node inert_shaped intro!: all_call [OF spares_charged(2)])
  then show ?thesis
    using assms(2) argument_segments_shaped [OF assms(1), of "''arguments''"]
    by (auto simp: convertCallSpread_def Let_def split: if_splits intro!: put shaped_intros)
qed

lemma convertRestPattern_shaped:
  assumes "ready shaped n" "convertRestPattern on n = Some n'"
  shows "all_nodes shaped n'"
proof -
  have i: "inert n"
    using assms(2) inertI [of "''VariableDeclarator''" n] inertI [of "''AssignmentExpression''" n]
    by (auto simp: convertRestPattern_def split: if_splits)
  have "all_nodes shaped (meterRestSource p (kid n k))" for p k
    using ready_kid [OF spares_charged(2) assms(1)] by (auto simp: meterRestSource_def intro!: shaped_intros)
  then show ?thesis
    using assms(2) i by (auto simp: convertRestPattern_def split: if_splits intro!: shaped_put assms(1))
qed

lemma convert_shaped:
  assumes "ready shaped n" "type_of n \<in> set convertible"
  shows "all_nodes shaped (fst (convert op tagged d n s))"
proof -
  have n: "all_nodes shaped n"
    using assms by (intro ready_all inert_shaped convertible_inert)
  show ?thesis
    using n convertConcat_shaped [OF assms(1)] convertTaggedTemplate_shaped [OF assms(1)]
      convertTemplateLiteral_shaped [OF assms(1)] convertArraySpread_shaped [OF assms(1)]
      convertObjectSpread_shaped [OF assms(1)] convertCallSpread_shaped [OF assms(1)]
      convertRestPattern_shaped [OF assms(1)]
    by (auto simp: convert_def or_else_def split: option.splits)
qed

text \<open>What the walk keeps of a node that is not converted: its type, its properties, their types.\<close>

definition same_type :: "node \<Rightarrow> node \<Rightarrow> bool" where
  "same_type n n' \<longleftrightarrow> (type_of n \<notin> set convertible \<longrightarrow> type_of n' = type_of n)"

definition kept :: "(node \<Rightarrow> node \<Rightarrow> bool) \<Rightarrow> node \<Rightarrow> node \<Rightarrow> bool" where
  "kept R n n' \<longleftrightarrow> (type_of n \<notin> set convertible
     \<longrightarrow> type_of n' = type_of n \<and> (\<forall>k. rel_option R (child n k) (child n' k)))"

definition kept2 :: "node \<Rightarrow> node \<Rightarrow> bool" where
  "kept2 = kept (kept same_type)"

definition kept_attr :: "attr \<Rightarrow> attr \<Rightarrow> bool" where
  "kept_attr p p' \<longleftrightarrow> prop_key p' = prop_key p \<and> (case p of
     Child k c \<Rightarrow> (\<exists>c'. p' = Child k c' \<and> kept2 c c' \<and> all_nodes shaped c')
   | Children k cs \<Rightarrow> (\<exists>cs'. p' = Children k cs' \<and> (\<forall>c. Some c \<in> set cs' \<longrightarrow> all_nodes shaped c))
   | Scalar k v \<Rightarrow> p' = Scalar k v)"

lemma kept_attr_simps [simp]:
  "kept_attr (Child k c) (Child j c') \<longleftrightarrow> j = k \<and> kept2 c c' \<and> all_nodes shaped c'"
  "kept_attr (Children k cs) (Children j cs') \<longleftrightarrow> j = k \<and> (\<forall>c. Some c \<in> set cs' \<longrightarrow> all_nodes shaped c)"
  "kept_attr (Scalar k v) (Scalar j w) \<longleftrightarrow> j = k \<and> w = v"
  by (auto simp: kept_attr_def)

lemma kept_attr_shaped: "kept_attr p p' \<Longrightarrow> all_in_attr shaped p'"
  by (cases p; cases p') (auto simp: kept_attr_def)

lemma kept_mono: "(\<And>a b. R a b \<Longrightarrow> S a b) \<Longrightarrow> kept R n n' \<Longrightarrow> kept S n n'"
  by (auto simp: kept_def intro: option.rel_mono_strong)

lemma kept2_kept: "kept2 n n' \<Longrightarrow> kept same_type n n'"
  unfolding kept2_def by (erule kept_mono [rotated]) (auto simp: kept_def same_type_def)

lemma kept_property:
  "list_all2 kept_attr ps ps' \<Longrightarrow> rel_option kept_attr (property ps k) (property ps' k)"
  by (induction rule: list_all2_induct) (auto simp: kept_attr_def)

lemma kept_child:
  assumes "list_all2 kept_attr (props n) (props n')"
  shows "rel_option kept2 (child n k) (child n' k)"
  using kept_property [OF assms, of k]
  by (cases "property (props n) k"; cases "property (props n') k")
    (auto simp: child_def kept_attr_def split: attr.splits)

lemma kept_child_type:
  assumes "kept R n n'" "type_of n \<notin> set convertible" "\<And>a b. R a b \<Longrightarrow> same_type a b"
    and "child n' k = Some c'"
  shows "\<exists>c. child n k = Some c \<and> R c c' \<and> (\<forall>t. t \<notin> set convertible \<longrightarrow> is_type t c \<longrightarrow> is_type t c')"
proof -
  have "rel_option R (child n k) (child n' k)" using assms(1,2) by (simp add: kept_def)
  then obtain c where "child n k = Some c" "R c c'"
    using assms(4) by (cases "child n k") auto
  then show ?thesis using assms(3) by (auto simp: same_type_def is_type_def)
qed

lemma kept_same_type: "kept R n n' \<Longrightarrow> same_type n n'"
  by (simp add: kept_def same_type_def)

lemma kept_shaped:
  assumes k: "kept2 n n'" and n: "shaped n" "type_of n \<notin> set convertible"
  shows "shaped n'"
proof -
  have t: "is_type t n' = is_type t n" "is_loop n' = is_loop n" for t
    using k n(2) by (auto simp: kept2_def kept_def is_type_def is_loop_def)
  have some: "child n j \<noteq> None \<Longrightarrow> child n' j \<noteq> None" for j
  proof -
    have "rel_option (kept same_type) (child n j) (child n' j)" using k n(2) by (simp add: kept2_def kept_def)
    then show "child n j \<noteq> None \<Longrightarrow> child n' j \<noteq> None" by (cases "child n' j") auto
  qed
  have ch: "child n' j = Some c' \<Longrightarrow> \<exists>c. child n j = Some c \<and> kept same_type c c'
      \<and> (\<forall>t. t \<notin> set convertible \<longrightarrow> is_type t c \<longrightarrow> is_type t c')" for j c'
    by (rule kept_child_type [OF k [unfolded kept2_def] n(2)]) (rule kept_same_type)
  have conv: "''BlockStatement'' \<notin> set convertible" "''CatchClause'' \<notin> set convertible"
    by (simp_all add: convertible_def)
  have blk: "is_type ''BlockStatement'' b'" if "child n' j = Some b'" "\<And>b. child n j = Some b \<Longrightarrow> is_type ''BlockStatement'' b" for j b'
    using ch [OF that(1)] that(2) conv by blast
  have "is_type ''CatchClause'' h' \<and> (\<forall>b. child h' ''body'' = Some b \<longrightarrow> is_type ''BlockStatement'' b)"
    if tr: "is_type ''TryStatement'' n" and h': "child n' ''handler'' = Some h'" for h'
  proof -
    obtain h where h: "child n ''handler'' = Some h" "kept same_type h h'"
      "is_type ''CatchClause'' h \<longrightarrow> is_type ''CatchClause'' h'"
      using ch [OF h'] conv by blast
    have ht: "is_type ''CatchClause'' h" "\<And>b. child h ''body'' = Some b \<Longrightarrow> is_type ''BlockStatement'' b"
      using n(1) tr h(1) by (auto simp: shaped_def)
    have "type_of h \<notin> set convertible" using ht(1) conv by (simp add: is_type_def)
    then show ?thesis
      using kept_child_type [OF h(2)] h(3) ht conv by blast
  qed
  moreover have "\<exists>b. child n' ''body'' = Some b \<and> is_type ''BlockStatement'' b"
    if "is_type ''FunctionDeclaration'' n \<or> is_type ''FunctionExpression'' n"
  proof -
    obtain b where b: "child n ''body'' = Some b" "is_type ''BlockStatement'' b"
      using n(1) \<open>is_type ''FunctionDeclaration'' n \<or> is_type ''FunctionExpression'' n\<close> by (auto simp: shaped_def)
    obtain b' where "child n' ''body'' = Some b'" using some [of "''body''"] b(1) by blast
    moreover have "is_type ''BlockStatement'' b'" using b by (intro blk [OF calculation]) simp
    ultimately show ?thesis by blast
  qed
  ultimately show ?thesis
    using n(1) some blk unfolding shaped_def t by blast
qed

lemma recur_kept:
  fixes n :: node and ps :: "attr list" and cs :: "node option list"
  shows "all_nodes shaped n \<Longrightarrow> kept2 n (fst (recur W op r tagged d n s)) \<and> all_nodes shaped (fst (recur W op r tagged d n s))"
    and "\<forall>p \<in> set ps. all_in_attr shaped p \<Longrightarrow> list_all2 kept_attr ps (fst (recur_props W op r d parent ps s))"
    and "\<forall>c. Some c \<in> set cs \<longrightarrow> all_nodes shaped c
      \<Longrightarrow> \<forall>c. Some c \<in> set (fst (recur_list W op r d cs s)) \<longrightarrow> all_nodes shaped c"
proof (induction W op r tagged d n s and W op r d parent ps s and W op r d cs s
    rule: recur_recur_props_recur_list.induct)
  case (1 W op r tagged d t ps s)
  let ?d = "if t = ''ChainExpression'' then Suc d else d"
  obtain ps' s' where rp: "recur_props W op r ?d (Node t ps) ps s = (ps', s')"
    by (cases "recur_props W op r ?d (Node t ps) ps s")
  have eq: "recur W op r tagged d (Node t ps) s = convert op tagged d (Node t ps') s'"
    using rp by simp
  have ps': "list_all2 kept_attr ps ps'" using "1.IH" "1.prems" rp by auto
  have ready: "ready shaped (Node t ps')"
  proof -
    have "list_all2 (\<lambda>p p'. all_in_attr shaped p') ps ps'"
      using ps' by (rule list_all2_mono) (rule kept_attr_shaped)
    then show ?thesis by (auto simp: ready_def list_all2_conv_all_nth in_set_conv_nth)
  qed
  show ?case
  proof (cases "t \<in> set convertible")
    case True
    then show ?thesis using convert_shaped [OF ready] unfolding eq by (simp add: kept2_def kept_def)
  next
    case False
    have "rel_option (kept same_type) (child (Node t ps) k) (child (Node t ps') k)" for k
      using kept_child [of "Node t ps" "Node t ps'" k] ps'
      by (auto intro: option.rel_mono_strong kept2_kept)
    then have k: "kept2 (Node t ps) (Node t ps')" by (simp add: kept2_def kept_def)
    have "shaped (Node t ps')" using kept_shaped [OF k] "1.prems" False by simp
    then have "all_nodes shaped (Node t ps')" using ready by (intro ready_all)
    then show ?thesis using k False unfolding eq by (simp add: convert_other)
  qed
next
  case (3 W op r depth parent k c ps s)
  let ?t = "r \<and> type_of parent = ''TaggedTemplateExpression'' \<and> k = ''quasi''"
  obtain c' s' where c': "recur W op (r \<and> W parent k) ?t depth c s = (c', s')"
    by (cases "recur W op (r \<and> W parent k) ?t depth c s")
  obtain ps' s'' where ps': "recur_props W op r depth parent ps s' = (ps', s'')"
    by (cases "recur_props W op r depth parent ps s'")
  have "kept2 c c' \<and> all_nodes shaped c'" using "3.IH"(1) "3.prems" c' by simp
  moreover have "list_all2 kept_attr ps ps'"
    using "3.IH"(2) [OF c' [symmetric] refl] "3.prems" ps' by simp
  ultimately show ?case using c' ps' by simp
next
  case (4 W op r depth parent k cs ps s)
  obtain cs' s' where cs': "recur_list W op (r \<and> W parent k) depth cs s = (cs', s')"
    by (cases "recur_list W op (r \<and> W parent k) depth cs s")
  obtain ps' s'' where ps': "recur_props W op r depth parent ps s' = (ps', s'')"
    by (cases "recur_props W op r depth parent ps s'")
  have "\<forall>c. Some c \<in> set cs' \<longrightarrow> all_nodes shaped c" using "4.IH"(1) "4.prems" cs' by simp
  moreover have "list_all2 kept_attr ps ps'"
    using "4.IH"(2) [OF cs' [symmetric] refl] "4.prems" ps' by simp
  ultimately show ?case using cs' ps' by simp
next
  case (8 W op r depth c cs s)
  obtain c' s' where c': "recur W op r False depth c s = (c', s')"
    by (cases "recur W op r False depth c s")
  obtain cs' s'' where cs': "recur_list W op r depth cs s' = (cs', s'')"
    by (cases "recur_list W op r depth cs s'")
  have "all_nodes shaped c'" using "8.IH"(1) "8.prems" c' by simp
  moreover have "\<forall>c. Some c \<in> set cs' \<longrightarrow> all_nodes shaped c"
    using "8.IH"(2) [OF c' [symmetric] refl] "8.prems" cs' by simp
  ultimately show ?case using c' cs' by auto
qed (auto split: prod.splits)

lemma transformAllocators_shaped:
  assumes "all_nodes shaped ast"
  shows "kept2 ast (transformAllocators W op ast)" "all_nodes shaped (transformAllocators W op ast)"
  using recur_kept(1) [OF assms, of W op True False 0 0] by (simp_all add: transformAllocators_def)

subsection \<open>The whole transform\<close>

lemma program_inert: "is_type ''Program'' n \<Longrightarrow> inert n"
  by (rule inertI) auto

lemma entry_gas_shaped:
  assumes "all_nodes shaped n" "is_type ''Program'' n"
  shows "all_nodes shaped (put (Children ''body'' (insertGasAfterDirectives (children n ''body''))) n)"
  using all_nodes_children [OF assms(1)] all_gas [OF spares_charged(2)]
  by (intro shaped_put all_ready assms program_inert) (auto dest: insertGas_members)

lemma injectBinaryDepthGas_keeps:
  assumes "covers W" "all_nodes charged n"
  shows "all_nodes charged (injectBinaryDepthGas W n)"
  unfolding injectBinaryDepthGas_def using assms
  by (intro phase_keeps binary_visitor_quiet binary_keeps spares_charged) (auto simp: leaf_def binary_visitor_def is_type_def)

lemma top_level_frame_instrumented:
  assumes "all_nodes (instrumented names) n" "is_type ''Program'' n"
  shows "all_nodes (instrumented names) (chargeTopLevelFrame tok n)"
proof -
  let ?pair = "armedDepthPair (frameWeight n) tok"
  let ?cs = "children n ''body''"
  let ?o = "1 + directivePrologueLength ?cs"
  let ?L = "take ?o ?cs @ Some (fst ?pair) # drop ?o ?cs @ [Some (snd ?pair)]"
  have eq: "chargeTopLevelFrame tok n = put (Children ''body'' ?L) n"
    by (simp add: chargeTopLevelFrame_def Let_def)
  have mem: "c = fst ?pair \<or> c = snd ?pair \<or> Some c \<in> set ?cs" if "Some c \<in> set ?L" for c
    using that by (auto dest: in_set_takeD in_set_dropD)
  have "sites_paid n" using all_nodes_self [OF assms(1)] by (simp add: instrumented_def)
  then have none: "\<not> chargeable c" if "c \<in> set (childrenOf n)" for c
    using that assms(2) by (auto simp: sites_paid_def is_type_def wrapWithGas_def)
  have "sites_paid (put (Children ''body'' ?L) n)"
  proof (rule sites_paidI)
    fix c assume "c \<in> set (childrenOf (put (Children ''body'' ?L) n))"
    then have "Some c \<in> set ?L \<or> c \<in> set (childrenOf n)"
      using childrenOf_put [of "Children ''body'' ?L" n] by (auto simp: map_filter_id simp del: set_append)
    then show "\<not> chargeable c"
      using mem none children_childrenOf [of c n "''body''"] armed_pair_not_chargeable by blast
  qed
  then have "instrumented names (put (Children ''body'' ?L) n)"
    using program_inert [OF assms(2)] by (simp add: instrumented_inert)
  moreover have "ready (instrumented names) (put (Children ''body'' ?L) n)"
    using mem armed_pair_instrumented all_nodes_children [OF assms(1)]
    by (intro ready_put all_ready assms) (simp only: all_in_attr_simps, blast)
  ultimately show ?thesis unfolding eq by (intro ready_all)
qed

lemma rewrite_program: "(\<And>n. is_type ''Program'' n \<Longrightarrow> f n = n) \<Longrightarrow> is_type ''Program'' n \<Longrightarrow> is_type ''Program'' (rewrite W f n)"
  by (cases n) simp

lemma phases_program:
  assumes "is_type ''Program'' n"
  shows "is_type ''Program'' (injectDepthGuards W names (injectCallGas W (injectBinaryDepthGas W (injectBlockGas W names n))))"
  unfolding injectDepthGuards_def injectCallGas_def injectBinaryDepthGas_def injectBlockGas_def
  by (intro rewrite_program assms)
    (auto simp: guard_visitor_def call_visitor_def binary_visitor_def block_visitor_def is_type_def)

lemma phases_instrument:
  assumes W: "covers W" and ast: "all_nodes shaped ast" "is_type ''Program'' ast"
  shows "all_nodes (instrumented names)
     (injectDepthGuards W names (injectCallGas W (injectBinaryDepthGas W (injectBlockGas W names
       (put (Children ''body'' (insertGasAfterDirectives (children (transformAllocators W op ast) ''body'')))
          (transformAllocators W op ast))))))"
proof -
  have "is_type ''Program'' (transformAllocators W op ast)"
    using transformAllocators_shaped(1) [OF ast(1), of W op] ast(2)
    by (simp add: kept2_def kept_def is_type_def convertible_def)
  note shape = entry_gas_shaped [OF transformAllocators_shaped(2) [OF ast(1)] this]
  show ?thesis
    by (intro injectDepthGuards_guards injectCallGas_pays injectBinaryDepthGas_keeps injectBlockGas_charges W shape)
qed

lemma chooseNames_returns: "\<exists>names. chooseNames full ast = Some names"
proof -
  let ?used = "map (\<lambda>n. text_of n ''name'') (filter (is_type ''Identifier'') (full ast))"
  obtain c f t where "freshName ?used ''__gasx'' = Some c" "freshName ?used ''__gasf'' = Some f"
    "freshName ?used ''__gasd'' = Some t"
    using freshName_terminates [of ?used] by metis
  then show ?thesis by (simp add: chooseNames_def)
qed

lemma metered_instrumented:
  assumes W: "covers W" and ast: "all_nodes shaped ast" "is_type ''Program'' ast"
  shows "\<exists>names out. meterTree W full op ast = Some out \<and> (names \<noteq> None \<longleftrightarrow> nativeStackTerminal op)
     \<and> all_nodes (instrumented names) out"
proof (cases "nativeStackTerminal op")
  case False
  then show ?thesis
    using phases_instrument [OF W ast, of None op] by (auto simp: meterTree_def Let_def)
next
  case True
  obtain names where names: "chooseNames full ast = Some names" using chooseNames_returns by blast
  let ?in = "put (Children ''body'' (insertGasAfterDirectives (children (transformAllocators W op ast) ''body'')))
          (transformAllocators W op ast)"
  let ?out = "injectDepthGuards W (Some names) (injectCallGas W (injectBinaryDepthGas W (injectBlockGas W (Some names) ?in)))"
  have "is_type ''Program'' ?in"
    using transformAllocators_shaped(1) [OF ast(1), of W op] ast(2)
    by (simp add: kept2_def kept_def is_type_def convertible_def)
  then have "is_type ''Program'' ?out" by (rule phases_program)
  with phases_instrument [OF W ast, of "Some names" op]
  have "all_nodes (instrumented (Some names)) (chargeTopLevelFrame (token_name names) ?out)"
    by (rule top_level_frame_instrumented)
  moreover have "meterTree W full op ast = Some (chargeTopLevelFrame (token_name names) ?out)"
    using True names by (simp add: meterTree_def Let_def)
  ultimately show ?thesis using True by blast
qed

subsection \<open>A program to meter\<close>

text \<open>\<open>function f(a) { for (;;) a = a + g(...a); }\<close>\<close>

definition demo_call :: node where
  "demo_call = Node ''CallExpression'' [Child ''callee'' (astIdent ''g''),
     Children ''arguments'' [Some (Node ''SpreadElement'' [Child ''argument'' (astIdent ''a'')])],
     Scalar ''optional'' (Flag False)]"

definition demo_loop :: node where
  "demo_loop = Node ''ForStatement'' [Scalar ''init'' Null, Scalar ''test'' Null, Scalar ''update'' Null,
     Child ''body'' (Node ''ExpressionStatement'' [Child ''expression'' (Node ''AssignmentExpression''
       [Scalar ''operator'' (Text ''=''), Child ''left'' (astIdent ''a''),
        Child ''right'' (Node ''BinaryExpression'' [Child ''left'' (astIdent ''a''),
          Scalar ''operator'' (Text ''+''), Child ''right'' demo_call])])])]"

definition demo_function :: node where
  "demo_function = Node ''FunctionDeclaration'' [Child ''id'' (astIdent ''f''),
     Children ''params'' [Some (astIdent ''a'')], Child ''body'' (astBlock [Some demo_loop])]"

definition demo_program :: node where
  "demo_program = Node ''Program'' [Children ''body'' [Some demo_function]]"

lemmas demo_defs = demo_program_def demo_function_def demo_loop_def demo_call_def astBlock_def astIdent_def

lemma demo_shaped: "all_nodes shaped demo_program"
  by (simp add: demo_defs shaped_def is_loop_def child_def)

lemma demo_spread: "well_spread demo_program"
  by (simp add: demo_defs well_spread_def spreads_placed_def slot_spread_free_def has_type_iff)

text \<open>
  A call inside an optional chain is wrapped where it stands, so the parenthesised charge ends the
  chain: \<open>a?.b().c()\<close> becomes \<open>(__gas(1), (__gas(1), a?.b()).c())\<close>, which reads a property of
  undefined where the source short-circuits.
\<close>

definition chain_call :: node where
  "chain_call = Node ''CallExpression'' [Child ''callee'' (Node ''MemberExpression''
     [Child ''object'' (astIdent ''a''), Child ''property'' (astIdent ''b''), Scalar ''computed'' (Flag False),
      Scalar ''optional'' (Flag True)]), Children ''arguments'' [], Scalar ''optional'' (Flag False)]"

definition chain_then :: "node \<Rightarrow> node" where
  "chain_then c = Node ''CallExpression'' [Child ''callee'' (Node ''MemberExpression''
     [Child ''object'' c, Child ''property'' (astIdent ''c''), Scalar ''computed'' (Flag False),
      Scalar ''optional'' (Flag False)]), Children ''arguments'' [], Scalar ''optional'' (Flag False)]"

lemma metering_cuts_optional_chains:
  "injectCallGas (\<lambda>n k. True) (Node ''ChainExpression'' [Child ''expression'' (chain_then chain_call)])
     = Node ''ChainExpression'' [Child ''expression'' (wrapWithGas (chain_then (wrapWithGas chain_call)))]"
  by (simp add: injectCallGas_def chain_call_def chain_then_def astIdent_def call_visitor_def
      is_helper_call_def is_gas_member_call_def kid_def child_def wrapWithGas_def text_of_def scalar_def)

subsection \<open>Properties\<close>





text \<open>C30. The choice of the armed local names ends for every program, and the three names are used by no
  identifier of it and differ from one another.\<close>

theorem armed_names_are_fresh:
  "\<exists>names. chooseNames full ast = Some names
     \<and> {caught_name names, flag_name names, token_name names}
        \<inter> (\<lambda>n. text_of n ''name'') ` {n \<in> set (full ast). is_type ''Identifier'' n} = {}
     \<and> distinct [caught_name names, flag_name names, token_name names]"
proof -
  let ?used = "map (\<lambda>n. text_of n ''name'') (filter (is_type ''Identifier'') (full ast))"
  obtain i j k where n: "freshName ?used ''__gasx'' = Some (''__gasx'' @ replicate i (CHR ''_''))"
    "freshName ?used ''__gasf'' = Some (''__gasf'' @ replicate j (CHR ''_''))"
    "freshName ?used ''__gasd'' = Some (''__gasd'' @ replicate k (CHR ''_''))"
    and fresh: "''__gasx'' @ replicate i (CHR ''_'') \<notin> set ?used" "''__gasf'' @ replicate j (CHR ''_'') \<notin> set ?used"
      "''__gasd'' @ replicate k (CHR ''_'') \<notin> set ?used"
    using freshName_terminates [of ?used] by metis
  then show ?thesis by (auto simp: chooseNames_def)
qed





end
