(* ===== verification/ScopeAnalysis.thy ===== *)
theory ScopeAnalysis
  imports AstBuilders
begin

text \<open>
  lint-core/scope_analysis.js: what the banned-name scanners can tell of an expression without
  running it. Which property a member access or a pattern reads, whether an expression denotes the
  global object or Math, and whether a scope declares a name. A missing property of a node is
  \<open>None\<close> here, as \<open>undefined\<close> fails every test of the code.
\<close>

definition is_kid :: "string \<Rightarrow> node option \<Rightarrow> bool" where
  "is_kid t c \<longleftrightarrow> (case c of Some n \<Rightarrow> is_type t n | None \<Rightarrow> False)"

lemma is_kid_simps [simp]:
  "is_kid t (Some n) = is_type t n" "\<not> is_kid t None"
  by (simp_all add: is_kid_def)

subsection \<open>Static keys\<close>

text \<open>The string a computed key expression stands for.\<close>

definition static_text :: "node \<Rightarrow> string option" where
  "static_text p =
     (if is_type ''Literal'' p
      then (case scalar p ''value'' of Text s \<Rightarrow> Some s | _ \<Rightarrow> None)
      else if is_type ''TemplateLiteral'' p \<and> children p ''expressions'' = []
      then (case children p ''quasis'' of
              [Some q] \<Rightarrow> (case scalar q ''value'' of Quasi cooked raw \<Rightarrow> cooked | _ \<Rightarrow> None)
            | _ \<Rightarrow> None)
      else None)"

definition staticComputedKey :: "node \<Rightarrow> string option" where
  "staticComputedKey n =
     (if flagged n ''computed'' then Option.bind (child n ''property'') static_text else None)"

definition staticMemberKey :: "node \<Rightarrow> string option" where
  "staticMemberKey n =
     (if \<not> is_type ''MemberExpression'' n then None
      else case child n ''property'' of
          None \<Rightarrow> None
        | Some p \<Rightarrow>
            if flagged n ''computed'' then staticComputedKey n
            else if is_type ''Identifier'' p then Some (text_of p ''name'') else None)"

definition staticPatternKey :: "node \<Rightarrow> string option" where
  "staticPatternKey p =
     (if \<not> is_type ''Property'' p then None
      else case child p ''key'' of
          None \<Rightarrow> None
        | Some key \<Rightarrow>
            if flagged p ''computed'' then static_text key
            else if is_type ''Identifier'' key then Some (text_of key ''name'')
            else if is_type ''Literal'' key
            then (case scalar key ''value'' of Text s \<Rightarrow> Some s | _ \<Rightarrow> None)
            else None)"

subsection \<open>The reads of an object pattern\<close>

record pattern_entry =
  source_of :: node
  path_of :: "string list"
  property_of :: node

text \<open>The pattern a property's value nests, directly or under a default.\<close>

definition nested_pattern :: "node \<Rightarrow> node option" where
  "nested_pattern p =
     (case child p ''value'' of
        None \<Rightarrow> None
      | Some v \<Rightarrow>
          if is_type ''ObjectPattern'' v then Some v
          else if is_type ''AssignmentPattern'' v \<and> is_kid ''ObjectPattern'' (child v ''left'')
          then child v ''left'' else None)"

lemma nested_pattern_size: "nested_pattern p = Some q \<Longrightarrow> size q < size p"
  by (auto simp: nested_pattern_def split: option.splits if_splits dest!: size_child)

function collect_entries :: "node \<Rightarrow> node \<Rightarrow> string list \<Rightarrow> pattern_entry list" where
  "collect_entries src pat path =
     concat (map (\<lambda>e. case e of
         None \<Rightarrow> []
       | Some p \<Rightarrow> (case staticPatternKey p of
            None \<Rightarrow> []
          | Some key \<Rightarrow>
              \<lparr>source_of = src, path_of = path @ [key], property_of = p\<rparr>
              # (case nested_pattern p of
                   None \<Rightarrow> []
                 | Some q \<Rightarrow> collect_entries src q (path @ [key])))) (children pat ''properties''))"
  by pat_completeness auto
termination
  by (relation "measure (\<lambda>(src, pat, path). size pat)")
    (auto dest!: nested_pattern_size size_children)

declare collect_entries.simps [simp del]

definition objectPatternEntries :: "node \<Rightarrow> pattern_entry list" where
  "objectPatternEntries n =
     (if is_type ''VariableDeclarator'' n \<and> is_kid ''ObjectPattern'' (child n ''id'')
         \<and> child n ''init'' \<noteq> None
      then collect_entries (kid n ''init'') (kid n ''id'') []
      else if is_type ''AssignmentExpression'' n \<and> scalar n ''operator'' = Text ''=''
         \<and> is_kid ''ObjectPattern'' (child n ''left'') \<and> child n ''right'' \<noteq> None
      then collect_entries (kid n ''right'') (kid n ''left'') []
      else [])"

subsection \<open>The global object and Math\<close>

definition unwrap_chain :: "bool \<Rightarrow> node \<Rightarrow> node" where
  "unwrap_chain optionalChain n =
     (if optionalChain \<and> is_type ''ChainExpression'' n then kid n ''expression'' else n)"

lemma kid_size: "kid n k = c \<Longrightarrow> child n k \<noteq> None \<Longrightarrow> size c < size n"
  by (auto simp: kid_def dest: size_child)

lemma unwrap_chain_child: "child (unwrap_chain oc n) k = Some c \<Longrightarrow> size c < size n"
proof -
  assume c: "child (unwrap_chain oc n) k = Some c"
  have "size (unwrap_chain oc n) \<le> size n"
  proof (cases "child n ''expression''")
    case None
    then show ?thesis using c
      by (auto simp: unwrap_chain_def kid_def child_def split: if_splits)
  qed (auto simp: unwrap_chain_def kid_def dest!: size_child)
  with size_child [OF c] show ?thesis by simp
qed

function isGlobalObjectRef :: "node \<Rightarrow> bool \<Rightarrow> bool \<Rightarrow> bool" where
  "isGlobalObjectRef n0 aliased optionalChain =
     (let n = unwrap_chain optionalChain n0 in
      if is_type ''Identifier'' n \<and> text_of n ''name'' = ''globalThis'' then True
      else if \<not> aliased then False
      else if is_type ''ThisExpression'' n then True
      else is_type ''MemberExpression'' n \<and> staticMemberKey n = Some ''globalThis''
           \<and> (case child n ''object'' of
                None \<Rightarrow> False | Some obj \<Rightarrow> isGlobalObjectRef obj aliased optionalChain))"
  by pat_completeness auto
termination
  by (relation "measure (\<lambda>(n, _). size n)") (auto dest!: unwrap_chain_child)

declare isGlobalObjectRef.simps [simp del]

definition object_is_global :: "node \<Rightarrow> bool \<Rightarrow> bool \<Rightarrow> bool" where
  "object_is_global n aliased optionalChain \<longleftrightarrow>
     (case child n ''object'' of
        None \<Rightarrow> False | Some obj \<Rightarrow> isGlobalObjectRef obj aliased optionalChain)"

definition isMathObjectRef :: "node \<Rightarrow> bool \<Rightarrow> bool \<Rightarrow> bool" where
  "isMathObjectRef n0 aliased optionalChain =
     (let n = unwrap_chain optionalChain n0 in
      if is_type ''Identifier'' n \<and> text_of n ''name'' = ''Math'' then True
      else is_type ''MemberExpression'' n \<and> object_is_global n aliased optionalChain
           \<and> staticMemberKey n = Some ''Math'')"

definition isGlobalObjectPathRef :: "node \<Rightarrow> string list \<Rightarrow> bool \<Rightarrow> bool \<Rightarrow> bool" where
  "isGlobalObjectPathRef n path aliased optionalChain =
     (if \<not> isGlobalObjectRef n aliased optionalChain then False
      else if path = [] then True
      else if \<not> aliased then False
      else list_all (\<lambda>key. key = ''globalThis'') path)"

definition isMathObjectPathRef :: "node \<Rightarrow> string list \<Rightarrow> bool \<Rightarrow> bool \<Rightarrow> bool" where
  "isMathObjectPathRef n path aliased optionalChain =
     (if path = [] then isMathObjectRef n aliased optionalChain
      else if last path \<noteq> ''Math'' then False
      else isGlobalObjectPathRef n (butlast path) aliased optionalChain)"

subsection \<open>Declarations\<close>

function patternDeclares :: "node \<Rightarrow> string \<Rightarrow> bool" where
  "patternDeclares pat name =
     (if is_type ''Identifier'' pat then text_of pat ''name'' = name
      else if is_type ''AssignmentPattern'' pat
      then (case child pat ''left'' of None \<Rightarrow> False | Some l \<Rightarrow> patternDeclares l name)
      else if is_type ''RestElement'' pat
      then (case child pat ''argument'' of None \<Rightarrow> False | Some a \<Rightarrow> patternDeclares a name)
      else if is_type ''ArrayPattern'' pat
      then list_ex (\<lambda>el. case el of None \<Rightarrow> False | Some e \<Rightarrow> patternDeclares e name)
             (children pat ''elements'')
      else if is_type ''ObjectPattern'' pat
      then list_ex (\<lambda>el. case el of
             None \<Rightarrow> False
           | Some p \<Rightarrow>
               (case child p (if is_type ''RestElement'' p then ''argument'' else ''value'') of
                  None \<Rightarrow> False | Some v \<Rightarrow> patternDeclares v name)) (children pat ''properties'')
      else False)"
  by pat_completeness auto
termination
  by (relation "measure (\<lambda>(pat, _). size pat)") (auto dest!: size_child size_children)

declare patternDeclares.simps [simp del]

definition declares :: "string \<Rightarrow> node option \<Rightarrow> bool" where
  "declares name pat \<longleftrightarrow> (case pat of None \<Rightarrow> False | Some p \<Rightarrow> patternDeclares p name)"

definition declarators_declare :: "node \<Rightarrow> string \<Rightarrow> bool" where
  "declarators_declare decl name \<longleftrightarrow>
     list_ex (\<lambda>d. case d of None \<Rightarrow> False | Some dn \<Rightarrow> declares name (child dn ''id''))
       (children decl ''declarations'')"

definition names_itself :: "node \<Rightarrow> string \<Rightarrow> bool" where
  "names_itself n name \<longleftrightarrow> (case child n ''id'' of None \<Rightarrow> False | Some i \<Rightarrow> text_of i ''name'' = name)"

definition statement_declares :: "string \<Rightarrow> node option \<Rightarrow> bool" where
  "statement_declares name s =
     (case s of
        None \<Rightarrow> False
      | Some st \<Rightarrow>
          if is_type ''VariableDeclaration'' st \<and> declarators_declare st name then True
          else (is_type ''FunctionDeclaration'' st \<or> is_type ''ClassDeclaration'' st)
               \<and> names_itself st name)"

definition scopeDeclares :: "node \<Rightarrow> string \<Rightarrow> bool" where
  "scopeDeclares n name =
     (if is_type ''FunctionDeclaration'' n \<or> is_type ''FunctionExpression'' n
         \<or> is_type ''ArrowFunctionExpression'' n
      then names_itself n name \<or> list_ex (declares name) (children n ''params'')
      else if is_type ''CatchClause'' n then declares name (child n ''param'')
      else if is_type ''Program'' n \<or> is_type ''BlockStatement'' n \<or> is_type ''StaticBlock'' n
      then list_ex (statement_declares name) (children n ''body'')
      else if is_type ''SwitchCase'' n
      then list_ex (statement_declares name) (children n ''consequent'')
      else if is_type ''ForStatement'' n
      then is_kid ''VariableDeclaration'' (child n ''init'') \<and> declarators_declare (kid n ''init'') name
      else if is_type ''ForInStatement'' n \<or> is_type ''ForOfStatement'' n
      then is_kid ''VariableDeclaration'' (child n ''left'') \<and> declarators_declare (kid n ''left'') name
      else False)"

end
