(* ===== verification/LintScans.thy ===== *)
theory LintScans
  imports ScopeAnalysis Reserved
begin

text \<open>
  The scanners of lint-core/banned_syntax.js, banned_globals.js and banned_with.js, with the tables of
  lint-core/constants.js and stripped-globals.js they read. The parser and the walkers are third-party
  code and parameters: a walk is the list of the nodes whose own-type visitor it calls, in order. An
  ancestor walk also says through which property a node hangs from its parent, which is how the
  identity tests (\<open>parent.key === node\<close>) come out, and which nodes enclose it, innermost first. A
  node parsed with locations carries the line it starts at as the value of its \<open>loc\<close>; a literal
  that overflows to infinity is \<open>Opaque ''Infinity''\<close>.
\<close>

subsection \<open>The frozen tables\<close>

definition BANNED_MATH_MEMBERS :: "string list" where
  "BANNED_MATH_MEMBERS = [''sqrt'', ''pow'', ''log'', ''log2'', ''log10'']"

definition SAFE_MATH_MEMBERS :: "string list" where
  "SAFE_MATH_MEMBERS = [''floor'', ''ceil'', ''round'', ''abs'', ''min'', ''max'', ''sign'', ''trunc'',
     ''PI'', ''E'']"

definition RESERVED_CONTROL_BINDINGS :: "string list" where
  "RESERVED_CONTROL_BINDINGS =
     [''__contractCode'', ''__methodName'', ''__isCrossCall'', ''__readManifest'']"

definition LINT_MAX_CODE_SIZE :: nat where "LINT_MAX_CODE_SIZE = 65536"
definition MAX_NESTING_DEPTH :: nat where "MAX_NESTING_DEPTH = 64"
definition MAX_SYNTAX_DEPTH :: nat where "MAX_SYNTAX_DEPTH = 200"

definition STRIPPED_PROTO_METHOD_NAMES :: "string list" where
  "STRIPPED_PROTO_METHOD_NAMES = [''match'', ''matchAll'', ''search'', ''normalize'', ''localeCompare'',
     ''toLocaleLowerCase'', ''toLocaleUpperCase'', ''toLocaleString'']"

definition REGEX_COERCING_METHODS :: "string list" where
  "REGEX_COERCING_METHODS = [''match'', ''matchAll'', ''search'']"

definition CONSENSUS_RULES :: "string list" where
  "CONSENSUS_RULES = [''invalid-type'', ''nesting-depth'', ''unsupported-syntax'', ''reserved-identifier'',
     ''banned-math'', ''banned-literal'', ''banned-async'', ''banned-generator'', ''banned-wasm'',
     ''banned-rest'', ''banned-with'']"

definition STRIPPED_GLOBAL_NAMES :: "string list" where
  "STRIPPED_GLOBAL_NAMES = [''Date'', ''setTimeout'', ''setInterval'', ''setImmediate'',
     ''clearTimeout'', ''clearInterval'', ''clearImmediate'',
     ''WeakRef'', ''FinalizationRegistry'', ''Proxy'', ''Reflect'',
     ''fetch'', ''XMLHttpRequest'', ''WebSocket'', ''SharedArrayBuffer'', ''Atomics'',
     ''queueMicrotask'', ''Promise'', ''BigInt'', ''WebAssembly'',
     ''Intl'', ''Temporal'', ''structuredClone'', ''performance'']"

definition CONSENSUS_GATED_STRIPPED_GLOBALS :: "string list" where
  "CONSENSUS_GATED_STRIPPED_GLOBALS = [''Promise'', ''WebAssembly'']"

definition ADVISORY_STRIPPED_GLOBAL_NAMES :: "string list" where
  "ADVISORY_STRIPPED_GLOBAL_NAMES =
     filter (\<lambda>n. n \<notin> set CONSENSUS_GATED_STRIPPED_GLOBALS) STRIPPED_GLOBAL_NAMES"

subsection \<open>Parser, walkers and hits\<close>

record node_visit =
  v_node :: node
  v_slot :: string
  v_above :: "node list"

record lint_tools =
  parse_plain :: "string \<Rightarrow> host_error + node"
  parse_located :: "string \<Rightarrow> host_error + node"
  simple_walk :: "node \<Rightarrow> node list"
  ancestor_walk :: "node \<Rightarrow> node_visit list"
  full_walk :: "node \<Rightarrow> node list"

text \<open>A hit names what was found and the line it starts at; \<open>None\<close> prints as a question mark.\<close>

record hit =
  hit_kind :: string
  hit_line :: "rat option"

record flagged_hit = hit +
  hit_flag :: bool

definition line_at :: "node \<Rightarrow> rat option" where
  "line_at n = (case scalar n ''loc'' of Number l \<Rightarrow> Some l | _ \<Rightarrow> None)"

definition hit_at :: "string \<Rightarrow> node \<Rightarrow> hit" where
  "hit_at kind n = \<lparr>hit_kind = kind, hit_line = line_at n\<rparr>"

text \<open>
  A parse that fails reports nothing, unless it overflowed the host's stack and the caller wants to know.
\<close>

definition scan_source ::
  "(string \<Rightarrow> host_error + node) \<Rightarrow> string \<Rightarrow> bool \<Rightarrow> 'h \<Rightarrow> (node \<Rightarrow> 'h) \<Rightarrow> host_error + 'h" where
  "scan_source acorn_parse code overflowIsHostFault no_hits scan =
     (case acorn_parse code of
        Inr ast \<Rightarrow> Inr (scan ast)
      | Inl e \<Rightarrow> if overflowIsHostFault \<and> isHostStackOverflow e then Inl e else Inr no_hits)"

subsection \<open>banned\_syntax.js\<close>

definition markMember :: "bool \<Rightarrow> string option \<Rightarrow> node \<Rightarrow> flagged_hit list" where
  "markMember hard member n =
     (case member of
        None \<Rightarrow> []
      | Some m \<Rightarrow>
          if m = [] then []
          else if m \<in> set BANNED_MATH_MEMBERS
          then [\<lparr>hit_kind = m, hit_line = line_at n, hit_flag = True\<rparr>]
          else if hard \<and> m \<notin> set SAFE_MATH_MEMBERS
          then [\<lparr>hit_kind = m, hit_line = line_at n, hit_flag = False\<rparr>]
          else [])"

definition markDestructuredMath :: "bool \<Rightarrow> bool \<Rightarrow> bool \<Rightarrow> node \<Rightarrow> flagged_hit list" where
  "markDestructuredMath hard aliased optionalChain n =
     concat (map (\<lambda>en.
         if isMathObjectPathRef (source_of en) (butlast (path_of en)) aliased optionalChain
         then markMember hard (Some (last (path_of en))) (property_of en) else [])
       (objectPatternEntries n))"

definition member_name :: "node \<Rightarrow> string option" where
  "member_name n =
     (if \<not> flagged n ''computed''
      then (case child n ''property'' of
              Some p \<Rightarrow> if is_type ''Identifier'' p then Some (text_of p ''name'') else None
            | None \<Rightarrow> None)
      else staticComputedKey n)"

definition math_visitor :: "bool \<Rightarrow> bool \<Rightarrow> bool \<Rightarrow> bool \<Rightarrow> node \<Rightarrow> flagged_hit list" where
  "math_visitor hard aliased optionalChain destructure n =
     (if is_type ''VariableDeclarator'' n \<or> is_type ''AssignmentExpression'' n
      then (if destructure then markDestructuredMath hard aliased optionalChain n else [])
      else if is_type ''MemberExpression'' n
      then (case child n ''object'' of
              None \<Rightarrow> []
            | Some obj \<Rightarrow> if isMathObjectRef obj aliased optionalChain
                          then markMember hard (member_name n) n else [])
      else [])"

definition findBannedMathCalls ::
  "lint_tools \<Rightarrow> string \<Rightarrow> bool \<Rightarrow> bool \<Rightarrow> bool \<Rightarrow> bool \<Rightarrow> bool \<Rightarrow> host_error + flagged_hit list" where
  "findBannedMathCalls T code hard aliased optionalChain destructure overflowIsHostFault =
     scan_source (parse_located T) code overflowIsHostFault []
       (\<lambda>ast. concat (map (math_visitor hard aliased optionalChain destructure) (simple_walk T ast)))"

text \<open>Strings are their UTF-8 bytes here.\<close>

definition codeSizeBytes :: "string \<Rightarrow> nat" where
  "codeSizeBytes code = length code"

definition proto_visitor :: "node \<Rightarrow> flagged_hit list" where
  "proto_visitor n =
     (if is_type ''CallExpression'' n \<and> is_kid ''MemberExpression'' (child n ''callee'')
      then (case member_name (kid n ''callee'') of
              None \<Rightarrow> []
            | Some m \<Rightarrow> if m = [] \<or> m \<notin> set STRIPPED_PROTO_METHOD_NAMES then []
                else [\<lparr>hit_kind = m, hit_line = line_at n, hit_flag = m \<in> set REGEX_COERCING_METHODS\<rparr>])
      else [])"

definition findBannedProtoMethods :: "lint_tools \<Rightarrow> string \<Rightarrow> flagged_hit list" where
  "findBannedProtoMethods T code =
     (case parse_located T code of
        Inr ast \<Rightarrow> concat (map proto_visitor (simple_walk T ast)) | Inl _ \<Rightarrow> [])"

definition exponent_visitor :: "node \<Rightarrow> hit list" where
  "exponent_visitor n =
     (if is_type ''BinaryExpression'' n \<and> scalar n ''operator'' = Text ''**'' then [hit_at ''**'' n]
      else if is_type ''AssignmentExpression'' n \<and> scalar n ''operator'' = Text ''**=''
      then [hit_at ''**='' n] else [])"

definition findBannedExponentiation :: "lint_tools \<Rightarrow> string \<Rightarrow> bool \<Rightarrow> host_error + hit list" where
  "findBannedExponentiation T code overflowIsHostFault =
     scan_source (parse_located T) code overflowIsHostFault []
       (\<lambda>ast. concat (map exponent_visitor (simple_walk T ast)))"

fun first_control :: "node list \<Rightarrow> string option" where
  "first_control [] = None"
| "first_control (n # ns) =
     (if is_type ''Identifier'' n \<and> text_of n ''name'' \<in> set RESERVED_CONTROL_BINDINGS
      then Some (text_of n ''name'') else first_control ns)"

definition findReservedControlBinding :: "lint_tools \<Rightarrow> string \<Rightarrow> bool \<Rightarrow> host_error + string option" where
  "findReservedControlBinding T code overflowIsHostFault =
     scan_source (parse_plain T) code overflowIsHostFault None (\<lambda>ast. first_control (full_walk T ast))"

definition literal_visitor :: "node \<Rightarrow> hit list" where
  "literal_visitor n =
     (if \<not> is_type ''Literal'' n then []
      else if scalar n ''bigint'' \<noteq> Null then [hit_at ''bigint'' n]
      else if scalar n ''regex'' \<noteq> Null then [hit_at ''regex'' n] else [])"

definition findBannedLiterals :: "lint_tools \<Rightarrow> string \<Rightarrow> bool \<Rightarrow> host_error + hit list" where
  "findBannedLiterals T code overflowIsHostFault =
     scan_source (parse_located T) code overflowIsHostFault []
       (\<lambda>ast. concat (map literal_visitor (simple_walk T ast)))"

subsubsection \<open>Rest positions\<close>

definition PATTERN_NODE_TYPES :: "string list" where
  "PATTERN_NODE_TYPES =
     [''ArrayPattern'', ''ObjectPattern'', ''Property'', ''AssignmentPattern'', ''RestElement'']"

text \<open>The stack is innermost first; each entry carries the property it hangs from in the next one.\<close>

type_synonym above = "(string \<times> node) list"

definition metered_rest :: "above \<Rightarrow> bool" where
  "metered_rest stack =
     (case stack of
        (slot, parent) # (_, gp) # _ \<Rightarrow>
          (is_type ''ArrayPattern'' parent \<or> is_type ''ObjectPattern'' parent)
          \<and> (is_type ''VariableDeclarator'' gp \<and> slot = ''id'' \<and> child gp ''init'' \<noteq> None
             \<or> is_type ''AssignmentExpression'' gp \<and> scalar gp ''operator'' = Text ''='' \<and> slot = ''left'')
      | _ \<Rightarrow> False)"

definition bannedRestKind :: "above \<Rightarrow> string option" where
  "bannedRestKind stack =
     (if metered_rest stack then None
      else case dropWhile (\<lambda>(_, n). type_of n \<in> set PATTERN_NODE_TYPES) stack of
          [] \<Rightarrow> Some ''nested rest''
        | (_, owner) # _ \<Rightarrow>
            if is_type ''FunctionDeclaration'' owner \<or> is_type ''FunctionExpression'' owner
               \<or> is_type ''ArrowFunctionExpression'' owner then Some ''rest parameter''
            else if is_type ''CatchClause'' owner then Some ''catch-clause rest''
            else if is_type ''ForOfStatement'' owner \<or> is_type ''ForInStatement'' owner
            then Some ''for-loop-head rest''
            else if is_type ''VariableDeclarator'' owner \<and> child owner ''init'' = None
            then Some ''for-loop-head rest''
            else Some ''nested rest'')"

definition rest_hit :: "above \<Rightarrow> node \<Rightarrow> hit list" where
  "rest_hit stack n =
     (if is_type ''RestElement'' n
      then (case bannedRestKind stack of Some kind \<Rightarrow> [hit_at kind n] | None \<Rightarrow> []) else [])"

text \<open>\<open>slot\<close> is the property the node was reached through; the root's is empty.\<close>

fun collectBannedRest :: "string \<Rightarrow> node \<Rightarrow> above \<Rightarrow> hit list"
and collect_rest_props :: "attr list \<Rightarrow> above \<Rightarrow> hit list"
and collect_rest_list :: "string \<Rightarrow> node option list \<Rightarrow> above \<Rightarrow> hit list"
where
  "collectBannedRest slot (Node t ps) stack =
     rest_hit stack (Node t ps) @ collect_rest_props ps ((slot, Node t ps) # stack)"
| "collect_rest_props [] stack = []"
| "collect_rest_props (Child k c # ps) stack = collectBannedRest k c stack @ collect_rest_props ps stack"
| "collect_rest_props (Children k cs # ps) stack = collect_rest_list k cs stack @ collect_rest_props ps stack"
| "collect_rest_props (Scalar k v # ps) stack = collect_rest_props ps stack"
| "collect_rest_list k [] stack = []"
| "collect_rest_list k (None # cs) stack = collect_rest_list k cs stack"
| "collect_rest_list k (Some c # cs) stack = collectBannedRest k c stack @ collect_rest_list k cs stack"

definition findBannedRest :: "lint_tools \<Rightarrow> string \<Rightarrow> bool \<Rightarrow> host_error + hit list" where
  "findBannedRest T code overflowIsHostFault =
     scan_source (parse_located T) code overflowIsHostFault [] (\<lambda>ast. collectBannedRest [] ast [])"

end
