(* ===== verification/LintGlobals.thy ===== *)
theory LintGlobals
  imports LintScans
begin

text \<open>
  lint-core/banned_globals.js, banned_with.js and the float scan of banned_syntax.js: the scans that
  resolve an identifier to the global of that name, the generator and \<open>with\<close> scans, and the findings
  the lint reports.
\<close>

subsection \<open>Reads of a global\<close>

definition destructuredGlobalEntries :: "node \<Rightarrow> string \<Rightarrow> bool \<Rightarrow> bool \<Rightarrow> pattern_entry list" where
  "destructuredGlobalEntries n name aliased optionalChain =
     filter (\<lambda>en. path_of en \<noteq> [] \<and> last (path_of en) = name
         \<and> isGlobalObjectPathRef (source_of en) (butlast (path_of en)) aliased optionalChain)
       (objectPatternEntries n)"

text \<open>An identifier in a non-computed property position names no variable.\<close>

definition property_position :: "node_visit \<Rightarrow> bool" where
  "property_position v \<longleftrightarrow>
     (case v_above v of
        [] \<Rightarrow> False
      | parent # _ \<Rightarrow> \<not> flagged parent ''computed''
          \<and> (is_type ''MemberExpression'' parent \<and> v_slot v = ''property''
             \<or> is_type ''Property'' parent \<and> v_slot v = ''key''))"

definition shadowed :: "node_visit \<Rightarrow> string \<Rightarrow> bool" where
  "shadowed v name \<longleftrightarrow> list_ex (\<lambda>scope. scopeDeclares scope name) (v_above v)"

definition global_member :: "node \<Rightarrow> bool \<Rightarrow> bool \<Rightarrow> string option" where
  "global_member n aliased optionalChain =
     (if object_is_global n aliased optionalChain then staticMemberKey n else None)"

subsection \<open>The async surface\<close>

definition async_visitor :: "bool \<Rightarrow> bool \<Rightarrow> bool \<Rightarrow> bool \<Rightarrow> node_visit \<Rightarrow> hit list" where
  "async_visitor hard aliased optionalChain destructure v =
     (let n = v_node v in
      if is_type ''VariableDeclarator'' n \<or> is_type ''AssignmentExpression'' n
      then (if destructure
            then map (\<lambda>en. hit_at ''promise'' (property_of en))
                   (destructuredGlobalEntries n ''Promise'' aliased optionalChain)
            else [])
      else if is_type ''FunctionDeclaration'' n \<or> is_type ''FunctionExpression'' n
              \<or> is_type ''ArrowFunctionExpression'' n
      then (if flagged n ''async'' then [hit_at ''async'' n] else [])
      else if is_type ''AwaitExpression'' n then [hit_at ''await'' n]
      else if is_type ''Identifier'' n
      then (if text_of n ''name'' \<noteq> ''Promise'' \<or> property_position v
               \<or> hard \<and> shadowed v ''Promise'' then [] else [hit_at ''promise'' n])
      else if is_type ''ImportExpression'' n then (if hard then [hit_at ''import'' n] else [])
      else if is_type ''MemberExpression'' n
      then (if global_member n aliased optionalChain = Some ''Promise'' then [hit_at ''promise'' n] else [])
      else [])"

definition findBannedAsync ::
  "lint_tools \<Rightarrow> string \<Rightarrow> bool \<Rightarrow> bool \<Rightarrow> bool \<Rightarrow> bool \<Rightarrow> bool \<Rightarrow> host_error + hit list" where
  "findBannedAsync T code hard aliased optionalChain destructure overflowIsHostFault =
     scan_source (parse_located T) code overflowIsHostFault []
       (\<lambda>ast. concat (map (async_visitor hard aliased optionalChain destructure) (ancestor_walk T ast)))"

subsection \<open>Generators and \<open>with\<close>\<close>

definition generator_visitor :: "node \<Rightarrow> hit list" where
  "generator_visitor n =
     (if is_type ''FunctionDeclaration'' n \<or> is_type ''FunctionExpression'' n
      then (if flagged n ''generator'' then [hit_at ''generator'' n] else [])
      else if is_type ''YieldExpression'' n then [hit_at ''yield'' n] else [])"

definition findBannedGenerator :: "lint_tools \<Rightarrow> string \<Rightarrow> bool \<Rightarrow> host_error + hit list" where
  "findBannedGenerator T code overflowIsHostFault =
     scan_source (parse_located T) code overflowIsHostFault []
       (\<lambda>ast. concat (map generator_visitor (simple_walk T ast)))"

definition with_visitor :: "node \<Rightarrow> hit list" where
  "with_visitor n = (if is_type ''WithStatement'' n then [hit_at ''with'' n] else [])"

definition findBannedWith :: "lint_tools \<Rightarrow> string \<Rightarrow> bool \<Rightarrow> host_error + hit list" where
  "findBannedWith T code overflowIsHostFault =
     scan_source (parse_located T) code overflowIsHostFault []
       (\<lambda>ast. concat (map with_visitor (simple_walk T ast)))"

subsection \<open>WebAssembly and the stripped globals\<close>

definition wasm_visitor :: "bool \<Rightarrow> bool \<Rightarrow> bool \<Rightarrow> node_visit \<Rightarrow> hit list" where
  "wasm_visitor aliased optionalChain destructure v =
     (let n = v_node v in
      if is_type ''VariableDeclarator'' n \<or> is_type ''AssignmentExpression'' n
      then (if destructure
            then map (\<lambda>en. hit_at ''WebAssembly'' (property_of en))
                   (destructuredGlobalEntries n ''WebAssembly'' aliased optionalChain)
            else [])
      else if is_type ''Identifier'' n
      then (if text_of n ''name'' \<noteq> ''WebAssembly'' \<or> property_position v
               \<or> shadowed v ''WebAssembly'' then [] else [hit_at ''WebAssembly'' n])
      else if is_type ''MemberExpression'' n
      then (if global_member n aliased optionalChain = Some ''WebAssembly''
            then [hit_at ''WebAssembly'' n] else [])
      else [])"

definition findBannedWasm ::
  "lint_tools \<Rightarrow> string \<Rightarrow> bool \<Rightarrow> bool \<Rightarrow> bool \<Rightarrow> bool \<Rightarrow> host_error + hit list" where
  "findBannedWasm T code aliased optionalChain destructure overflowIsHostFault =
     scan_source (parse_located T) code overflowIsHostFault []
       (\<lambda>ast. concat (map (wasm_visitor aliased optionalChain destructure) (ancestor_walk T ast)))"

definition stripped_visitor :: "string list \<Rightarrow> bool \<Rightarrow> bool \<Rightarrow> node_visit \<Rightarrow> hit list" where
  "stripped_visitor wanted aliased optionalChain v =
     (let n = v_node v in
      if is_type ''Identifier'' n
      then (if text_of n ''name'' \<notin> set wanted \<or> property_position v
               \<or> shadowed v (text_of n ''name'') then [] else [hit_at (text_of n ''name'') n])
      else if is_type ''MemberExpression'' n
      then (case global_member n aliased optionalChain of
              Some key \<Rightarrow> if key \<noteq> [] \<and> key \<in> set wanted then [hit_at key n] else []
            | None \<Rightarrow> [])
      else [])"

definition findBannedStrippedGlobals ::
  "lint_tools \<Rightarrow> string \<Rightarrow> bool \<Rightarrow> string list \<Rightarrow> bool \<Rightarrow> hit list" where
  "findBannedStrippedGlobals T code aliased wanted optionalChain =
     (case parse_located T code of
        Inr ast \<Rightarrow> concat (map (stripped_visitor wanted aliased optionalChain) (ancestor_walk T ast))
      | Inl _ \<Rightarrow> [])"

subsection \<open>Findings\<close>

record finding =
  f_rule :: string
  f_message :: string
  f_line :: "rat option"
  f_severity :: string

definition line_text :: "rat option \<Rightarrow> string" where
  "line_text l = (case l of Some r \<Rightarrow> num_text (Num r) | None \<Rightarrow> ''?'')"

definition err :: "string \<Rightarrow> string \<Rightarrow> rat option \<Rightarrow> finding" where
  "err rule message line = \<lparr>f_rule = rule, f_message = message, f_line = line, f_severity = ''error''\<rparr>"

definition warn :: "string \<Rightarrow> string \<Rightarrow> rat option \<Rightarrow> finding" where
  "warn rule message line = \<lparr>f_rule = rule, f_message = message, f_line = line, f_severity = ''warning''\<rparr>"

text \<open>Number literals with a fraction, or too big for a double.\<close>

definition float_text :: "scalar \<Rightarrow> string option" where
  "float_text v =
     (case v of
        Number r \<Rightarrow> if rat_integral r then None else Some (num_text (Num r))
      | Opaque s \<Rightarrow> if s = ''Infinity'' then Some s else None
      | _ \<Rightarrow> None)"

definition float_visitor :: "node \<Rightarrow> finding list" where
  "float_visitor n =
     (if \<not> is_type ''Literal'' n then []
      else case float_text (scalar n ''value'') of
          None \<Rightarrow> []
        | Some v \<Rightarrow> [warn ''float-literal''
              (''WARNING: decimal number literal ('' @ v @ '') detected at line '' @ line_text (line_at n)
               @ ''; use xchain.math for deterministic arithmetic'') (line_at n)])"

definition findFloatWarnings :: "lint_tools \<Rightarrow> string \<Rightarrow> finding list" where
  "findFloatWarnings T code =
     (case parse_located T code of
        Inr ast \<Rightarrow> concat (map float_visitor (simple_walk T ast)) | Inl _ \<Rightarrow> [])"

definition checkFloatWarnings :: "lint_tools \<Rightarrow> string \<Rightarrow> string list" where
  "checkFloatWarnings T code = map f_message (findFloatWarnings T code)"

end
