(* ===== verification/LintDepth.thy ===== *)
theory LintDepth
  imports LintGlobals
begin

text \<open>
  lint-core/nesting_depth.js and syntax_depth.js: the two scans that bound the depth of a source
  before anything recursive reads it. acorn's tokenizer is a parameter, the list of the tokens it
  returns before it reaches the end (\<open>eof\<close>) or fails. The frames of a scan are a stack with the
  innermost first; \<open>bound\<close> is \<open>None\<close> for a scan with an infinite limit.
\<close>

record token =
  label :: string
  tok_text :: string
  tok_line :: nat

type_synonym tokens = "token list"

record depth_hit =
  dh_line :: nat
  dh_depth :: nat

subsection \<open>nesting\_depth.js\<close>

definition OPEN_TOKENS :: "string list" where "OPEN_TOKENS = [''('', ''['', ''{'', ''${'']"
definition CLOSE_TOKENS :: "string list" where "CLOSE_TOKENS = ['')'', '']'', ''}'']"

fun nesting_loop :: "nat \<Rightarrow> nat \<Rightarrow> tokens \<Rightarrow> depth_hit option" where
  "nesting_loop maxDepth open_count [] = None"
| "nesting_loop maxDepth open_count (t # ts) =
     (if label t \<in> set OPEN_TOKENS
      then (if maxDepth < Suc open_count then Some \<lparr>dh_line = tok_line t, dh_depth = Suc open_count\<rparr>
            else nesting_loop maxDepth (Suc open_count) ts)
      else if label t = ''eof'' then None
      else nesting_loop maxDepth
             (if label t \<in> set CLOSE_TOKENS \<and> 0 < open_count then open_count - 1 else open_count) ts)"

definition findNestingDepth :: "(string \<Rightarrow> tokens) \<Rightarrow> jsval \<Rightarrow> nat option \<Rightarrow> depth_hit option" where
  "findNestingDepth tokenizer code limit =
     (case code of
        JStr s \<Rightarrow> nesting_loop (case limit of None \<Rightarrow> MAX_NESTING_DEPTH | Some l \<Rightarrow> l) 0 (tokenizer s)
      | _ \<Rightarrow> None)"

definition nestingDepthFinding :: "(string \<Rightarrow> tokens) \<Rightarrow> jsval \<Rightarrow> finding option" where
  "nestingDepthFinding tokenizer code =
     map_option (\<lambda>h. err ''nesting-depth''
         (''nesting depth exceeds limit ('' @ nat_text MAX_NESTING_DEPTH @ '') at line '' @ nat_text (dh_line h))
         (Some (of_nat (dh_line h))))
       (findNestingDepth tokenizer code None)"

subsection \<open>syntax\_depth.js\<close>

definition OP_LABELS :: "string list" where
  "OP_LABELS = [''='', ''_='', ''++/--'', ''!/~'', ''||'', ''&&'', ''??'', ''|'', ''^'', ''&'',
     ''==/!=/===/!=='', ''</>/<=/>='', ''<</>>/>>>'', ''+/-'', ''%'', ''*'', ''/'', ''**'',
     ''?'', ''?.'', ''.'', ''=>'', ''...'', ''`'',
     ''new'', ''typeof'', ''void'', ''delete'', ''in'', ''instanceof'', ''function'', ''class'',
     ''extends'', ''return'', ''throw'', ''var'', ''const'', ''case'', ''default'', ''import'']"

definition OP_WEIGHT :: "string \<Rightarrow> nat" where
  "OP_WEIGHT l = (if l = ''=>'' then 3 else if l = ''('' then 2 else 1)"

definition OP_NAMES :: "string list" where "OP_NAMES = [''yield'', ''await'']"

definition PREFIX_LABELS :: "string list" where
  "PREFIX_LABELS = [''if'', ''else'', ''while'', ''for'', ''do'', ''with'', ''switch'', ''try'',
     ''catch'', ''finally'']"

definition CONTINUE_LABELS :: "string list" where "CONTINUE_LABELS = [''else'', ''catch'', ''finally'']"

definition NEW_STATEMENT_LABELS :: "string list" where
  "NEW_STATEMENT_LABELS = [''name'', ''num'', ''string'', ''regexp'', ''bigint'', ''privateId'',
     ''this'', ''null'', ''true'', ''false'', ''super'', ''import'', ''export'',
     ''new'', ''typeof'', ''void'', ''delete'', ''!/~'',
     ''if'', ''for'', ''while'', ''do'', ''with'', ''switch'', ''try'', ''var'', ''const'', ''return'',
     ''throw'', ''break'', ''continue'', ''debugger'', ''function'', ''class'', ''case'', ''default'']"

definition LABEL_LEADERS :: "string option list" where
  "LABEL_LEADERS = [None, Some '';'', Some ''}'', Some '')'', Some '':'', Some ''{'', Some ''else'', Some ''do'']"

definition OPENERS :: "string list" where "OPENERS = [''('', ''['', ''{'', ''${'']"
definition CLOSERS :: "string list" where "CLOSERS = ['')'', '']'', ''}'']"

definition FRAME_CONSTANT :: "string \<Rightarrow> nat" where
  "FRAME_CONSTANT kind = (if kind = ''top'' \<or> kind = ''{'' then 4 else 2)"

datatype pending = No_pending | Pending_semi | Pending_brace

record depth_frame =
  kind :: string
  prefix_count :: nat
  ops :: nat
  child_weight :: nat
  best :: nat
  openDo :: nat
  pending :: pending

definition newFrame :: "string \<Rightarrow> depth_frame" where
  "newFrame k = \<lparr>kind = k, prefix_count = 0, ops = 0, child_weight = 0, best = 0, openDo = 0,
     pending = No_pending\<rparr>"

definition closeSegment :: "depth_frame \<Rightarrow> depth_frame" where
  "closeSegment f = f\<lparr>best := max (best f) (prefix_count f + ops f + child_weight f)\<rparr>"

definition resetSegment :: "depth_frame \<Rightarrow> depth_frame" where
  "resetSegment f = f\<lparr>prefix_count := 0, ops := 0, child_weight := 0\<rparr>"

fun outer_now :: "depth_frame list \<Rightarrow> nat" where
  "outer_now [] = 0"
| "outer_now (f # fs) = outer_now fs + (FRAME_CONSTANT (kind f) + prefix_count f + ops f)"

fun depthNow :: "depth_frame list \<Rightarrow> nat" where
  "depthNow [] = 0"
| "depthNow (f # fs) = outer_now fs
     + FRAME_CONSTANT (kind f) + max (best f) (prefix_count f + ops f + child_weight f)"

text \<open>The innermost frame of a stack of two or more closes into its parent.\<close>

definition frame_weight :: "depth_frame \<Rightarrow> nat" where
  "frame_weight f = FRAME_CONSTANT (kind f) + best f"

definition absorb :: "nat \<Rightarrow> depth_frame \<Rightarrow> depth_frame" where
  "absorb w p = (if child_weight p < w then p\<lparr>child_weight := w\<rparr> else p)"

fun popFrame :: "depth_frame list \<Rightarrow> depth_frame list" where
  "popFrame (f # p # fs) = absorb (frame_weight (closeSegment f)) p # fs"
| "popFrame fs = fs"

definition settlePending :: "depth_frame \<Rightarrow> string \<Rightarrow> depth_frame" where
  "settlePending f l =
     (let fromBrace = (pending f = Pending_brace);
          g = f\<lparr>pending := No_pending\<rparr>;
          while_of_do = (l = ''while'' \<and> 0 < openDo g);
          g' = (if while_of_do then g\<lparr>openDo := openDo g - 1\<rparr> else g);
          carry = (l \<in> set CONTINUE_LABELS \<or> while_of_do)
      in if \<not> carry \<and> (\<not> fromBrace \<or> l \<in> set NEW_STATEMENT_LABELS)
         then resetSegment (closeSegment g') else g')"

text \<open>One token; the second component says that a segment or a frame just closed.\<close>

definition mark_brace :: "string \<Rightarrow> depth_frame list \<Rightarrow> depth_frame list" where
  "mark_brace closed_kind stack =
     (case stack of [] \<Rightarrow> [] | p # fs \<Rightarrow> (if closed_kind = ''{'' then p\<lparr>pending := Pending_brace\<rparr> else p) # fs)"

fun applyToken :: "depth_frame list \<Rightarrow> token \<Rightarrow> string option \<Rightarrow> string option \<Rightarrow> depth_frame list \<times> bool" where
  "applyToken [] t prev prevPrev = ([], False)"
| "applyToken (f # fs) t prev prevPrev =
     (let l = label t in
      if l \<in> set OPENERS
      then (newFrame l # (if l = ''('' \<or> l = ''['' then f\<lparr>ops := ops f + OP_WEIGHT l\<rparr> else f) # fs, False)
      else if l \<in> set CLOSERS
      then (if fs = [] then (f # fs, False) else (mark_brace (kind f) (popFrame (f # fs)), True))
      else if l = '',''
      then ((closeSegment f)\<lparr>ops := 0, child_weight := 0\<rparr> # fs, True)
      else if l = '';'' then ((closeSegment f)\<lparr>pending := Pending_semi\<rparr> # fs, True)
      else if l \<in> set PREFIX_LABELS
      then (f\<lparr>prefix_count := Suc (prefix_count f), openDo := (if l = ''do'' then Suc (openDo f) else openDo f)\<rparr> # fs,
            False)
      else if l = '':''
      then ((if prev = Some ''name'' \<and> prevPrev \<in> set LABEL_LEADERS
             then f\<lparr>prefix_count := Suc (prefix_count f)\<rparr> else f) # fs, False)
      else if l \<in> set OP_LABELS \<or> l = ''name'' \<and> tok_text t \<in> set OP_NAMES
      then (f\<lparr>ops := ops f + OP_WEIGHT l\<rparr> # fs, False)
      else (f # fs, False))"

fun close_frames :: "depth_frame list \<Rightarrow> depth_frame list" where
  "close_frames (f # p # fs) = close_frames (popFrame (f # p # fs))"
| "close_frames fs = fs"

definition finalDepth :: "depth_frame list \<Rightarrow> nat" where
  "finalDepth stack =
     (case close_frames stack of [] \<Rightarrow> 0 | f # _ \<Rightarrow> FRAME_CONSTANT ''top'' + best (closeSegment f))"

definition settle_top :: "string \<Rightarrow> depth_frame list \<Rightarrow> depth_frame list" where
  "settle_top l stack =
     (case stack of [] \<Rightarrow> [] | f # fs \<Rightarrow> (if pending f \<noteq> No_pending then settlePending f l else f) # fs)"

definition over_limit :: "nat option \<Rightarrow> nat \<Rightarrow> bool" where
  "over_limit limit d = (case limit of None \<Rightarrow> False | Some l \<Rightarrow> l < d)"

fun scan_tokens ::
  "nat option \<Rightarrow> depth_frame list \<Rightarrow> nat \<Rightarrow> string option \<Rightarrow> string option \<Rightarrow> tokens \<Rightarrow> depth_hit" where
  "scan_tokens limit stack line prev prevPrev [] = \<lparr>dh_line = line, dh_depth = finalDepth stack\<rparr>"
| "scan_tokens limit stack line prev prevPrev (t # ts) =
     (let stack1 = settle_top (label t) stack in
      if label t = ''eof'' then \<lparr>dh_line = tok_line t, dh_depth = finalDepth stack1\<rparr>
      else case applyToken stack1 t prev prevPrev of
          (stack2, ended) \<Rightarrow>
            if ended \<and> over_limit limit (depthNow stack2)
            then \<lparr>dh_line = tok_line t, dh_depth = depthNow stack2\<rparr>
            else scan_tokens limit stack2 (tok_line t) (Some (label t)) prev ts)"

definition scanSyntaxDepth :: "tokens \<Rightarrow> nat option \<Rightarrow> depth_hit" where
  "scanSyntaxDepth ts limit = scan_tokens limit [newFrame ''top''] 1 None None ts"

definition findSyntaxDepth :: "(string \<Rightarrow> tokens) \<Rightarrow> jsval \<Rightarrow> nat option \<Rightarrow> depth_hit option" where
  "findSyntaxDepth tokenizer code limit =
     (case code of
        JStr s \<Rightarrow>
          (let maxDepth = (case limit of None \<Rightarrow> MAX_SYNTAX_DEPTH | Some l \<Rightarrow> l);
               found = scanSyntaxDepth (tokenizer s) (Some maxDepth)
           in if maxDepth < dh_depth found then Some found else None)
      | _ \<Rightarrow> None)"

definition measureSyntaxDepth :: "(string \<Rightarrow> tokens) \<Rightarrow> jsval \<Rightarrow> nat" where
  "measureSyntaxDepth tokenizer code =
     (case code of JStr s \<Rightarrow> dh_depth (scanSyntaxDepth (tokenizer s) None) | _ \<Rightarrow> 0)"

definition syntaxDepthFinding :: "(string \<Rightarrow> tokens) \<Rightarrow> jsval \<Rightarrow> finding option" where
  "syntaxDepthFinding tokenizer code =
     map_option (\<lambda>h. err ''nesting-depth''
         (''syntax depth exceeds limit ('' @ nat_text MAX_SYNTAX_DEPTH @ '') at line '' @ nat_text (dh_line h))
         (Some (of_nat (dh_line h))))
       (findSyntaxDepth tokenizer code None)"

subsection \<open>The running bound never overshoots\<close>

text \<open>
  The depth a stack comes to when its frames close, the innermost with a child of weight \<open>w\<close>. It never
  falls as tokens are applied, and the running bound stays below it, so a scan that stops early stops
  on a source the full measure refuses too.
\<close>

fun closing_depth :: "nat \<Rightarrow> depth_frame list \<Rightarrow> nat" where
  "closing_depth w [] = 0"
| "closing_depth w [f] = FRAME_CONSTANT (kind f) + max (best f) (prefix_count f + ops f + max (child_weight f) w)"
| "closing_depth w (f # g # fs) =
     closing_depth (FRAME_CONSTANT (kind f) + max (best f) (prefix_count f + ops f + max (child_weight f) w)) (g # fs)"

definition rooted :: "depth_frame list \<Rightarrow> bool" where
  "rooted stack \<longleftrightarrow> stack \<noteq> [] \<and> kind (last stack) = ''top''"

lemma closing_depth_mono: "v \<le> w \<Longrightarrow> closing_depth v stack \<le> closing_depth w stack"
  by (induction w stack arbitrary: v rule: closing_depth.induct) (auto simp: max_def)

lemma depthNow_le: "outer_now fs + FRAME_CONSTANT (kind f)
     + max (best f) (prefix_count f + ops f + max (child_weight f) w) \<le> closing_depth w (f # fs)"
proof (induction fs arbitrary: f w)
  case (Cons g fs)
  let ?m = "FRAME_CONSTANT (kind f) + max (best f) (prefix_count f + ops f + max (child_weight f) w)"
  have "outer_now fs + FRAME_CONSTANT (kind g)
      + max (best g) (prefix_count g + ops g + max (child_weight g) ?m) \<le> closing_depth ?m (g # fs)"
    by (rule Cons.IH)
  moreover have "prefix_count g + ops g + ?m
      \<le> max (best g) (prefix_count g + ops g + max (child_weight g) ?m)" by (simp add: le_max_iff_disj)
  ultimately have "outer_now fs + FRAME_CONSTANT (kind g) + (prefix_count g + ops g + ?m)
      \<le> closing_depth ?m (g # fs)" by linarith
  then show ?case by simp
qed simp

lemma depthNow_closing: "depthNow stack \<le> closing_depth 0 stack"
  using depthNow_le [of "tl stack" "hd stack" 0] by (cases stack) simp_all

lemma closing_depth_top:
  assumes "kind f = kind g"
    and "max (best f) (prefix_count f + ops f + max (child_weight f) v)
       \<le> max (best g) (prefix_count g + ops g + max (child_weight g) w)"
  shows "closing_depth v (f # fs) \<le> closing_depth w (g # fs)"
  using assms closing_depth_mono by (cases fs) (auto simp del: max.bounded_iff)

lemma closing_depth_pop: "closing_depth 0 (popFrame stack) = closing_depth 0 stack"
proof (cases stack rule: popFrame.cases)
  case (1 f p fs)
  then show ?thesis
    by (cases fs) (simp_all add: absorb_def frame_weight_def closeSegment_def max_def)
qed simp_all

lemma closing_depth_close: "closing_depth 0 (close_frames stack) = closing_depth 0 stack"
  by (induction stack rule: close_frames.induct) (auto simp del: popFrame.simps simp: closing_depth_pop)

lemma rooted_simps [simp]:
  "rooted (f # fs) = (if fs = [] then kind f = ''top'' else rooted fs)" "\<not> rooted []"
  by (simp_all add: rooted_def)

lemma frame_steps_kind [simp]:
  "kind (closeSegment f) = kind f" "kind (resetSegment f) = kind f" "kind (absorb w f) = kind f"
  "kind (settlePending f l) = kind f"
  by (simp_all add: closeSegment_def resetSegment_def absorb_def settlePending_def Let_def)

lemma rooted_pop: "rooted (popFrame stack) = rooted stack"
  by (cases stack rule: popFrame.cases) simp_all

lemma finalDepth_closing: "rooted stack \<Longrightarrow> finalDepth stack = closing_depth 0 stack"
proof (induction stack rule: close_frames.induct)
  case (1 f p fs)
  then have "rooted (popFrame (f # p # fs))" by (simp only: rooted_pop)
  with 1 have "finalDepth (popFrame (f # p # fs)) = closing_depth 0 (popFrame (f # p # fs))" by blast
  then show ?case by (simp only: finalDepth_def close_frames.simps closing_depth_pop)
qed (auto simp: finalDepth_def closeSegment_def max_def)

subsection \<open>Tokens only deepen\<close>

definition deeper :: "depth_frame list \<Rightarrow> depth_frame list \<Rightarrow> bool" where
  "deeper s s' \<longleftrightarrow> (rooted s \<longrightarrow> rooted s') \<and> closing_depth 0 s \<le> closing_depth 0 s'"

lemma deeper_refl [intro]: "deeper s s"
  by (simp add: deeper_def)

lemma deeper_trans: "deeper s t \<Longrightarrow> deeper t u \<Longrightarrow> deeper s u"
  by (auto simp: deeper_def)

lemma deeper_top [intro]:
  assumes "kind g = kind f"
    "max (best f) (prefix_count f + ops f + child_weight f)
       \<le> max (best g) (prefix_count g + ops g + child_weight g)"
  shows "deeper (f # fs) (g # fs)"
  using closing_depth_top [of f g 0 0 fs] assms by (auto simp: deeper_def)

lemma deeper_push: "deeper (f # fs) (newFrame l # f # fs)"
  by (simp add: deeper_def closing_depth_mono)

lemma deeper_mark: "deeper s (mark_brace k s)"
  by (cases s) (auto simp: mark_brace_def)

lemma deeper_pop: "deeper s (popFrame s)"
  by (simp add: deeper_def rooted_pop closing_depth_pop)

lemma settle_deepens: "deeper stack (settle_top l stack)"
  by (cases stack)
    (auto simp: settle_top_def settlePending_def Let_def closeSegment_def resetSegment_def)

lemma applyToken_deepens:
  assumes "applyToken stack t prev prevPrev = (stack', e)"
  shows "deeper stack stack'"
proof (cases stack)
  case Nil
  with assms show ?thesis by auto
next
  case (Cons f fs)
  let ?opened = "if label t = ''('' \<or> label t = ''['' then f\<lparr>ops := ops f + OP_WEIGHT (label t)\<rparr> else f"
  have push: "deeper (f # fs) (newFrame (label t) # ?opened # fs)"
    by (rule deeper_trans [OF _ deeper_push]) auto
  have pop: "deeper (f # fs) (mark_brace (kind f) (popFrame (f # fs)))"
    by (rule deeper_trans [OF deeper_pop deeper_mark])
  show ?thesis
  proof (cases "label t \<in> set OPENERS \<or> label t \<in> set CLOSERS")
    case True
    with assms Cons push pop show ?thesis by (auto simp: Let_def split: if_splits)
  next
    case False
    with assms Cons show ?thesis
      by (auto simp: Let_def closeSegment_def split: if_splits simp del: max.bounded_iff)
  qed
qed

lemma scan_depth:
  assumes "rooted stack"
  shows "closing_depth 0 stack \<le> dh_depth (scan_tokens None stack line prev prevPrev ts)
    \<and> (l < dh_depth (scan_tokens (Some l) stack line prev prevPrev ts)
         \<longleftrightarrow> l < dh_depth (scan_tokens None stack line prev prevPrev ts))
    \<and> dh_depth (scan_tokens (Some l) stack line prev prevPrev ts)
         \<le> dh_depth (scan_tokens None stack line prev prevPrev ts)"
  using assms
proof (induction ts arbitrary: stack line prev prevPrev)
  case Nil
  then show ?case by (simp add: finalDepth_closing)
next
  case (Cons t ts)
  let ?s1 = "settle_top (label t) stack"
  from settle_deepens [of stack "label t"] Cons.prems
  have s1: "rooted ?s1" "closing_depth 0 stack \<le> closing_depth 0 ?s1" by (simp_all add: deeper_def)
  obtain s2 e where s2: "applyToken ?s1 t prev prevPrev = (s2, e)" by fastforce
  from applyToken_deepens [OF s2] s1(1)
  have r2: "rooted s2" "closing_depth 0 ?s1 \<le> closing_depth 0 s2" by (simp_all add: deeper_def)
  note ih = Cons.IH [OF r2(1), of "tok_line t" "Some (label t)" prev]
  show ?case
  proof (cases "label t = ''eof''")
    case True
    then show ?thesis using s1 by (simp add: finalDepth_closing)
  next
    case False
    have stop: "depthNow s2 \<le> dh_depth (scan_tokens None s2 (tok_line t) (Some (label t)) prev ts)"
      using depthNow_closing [of s2] ih by linarith
    show ?thesis using False ih stop s1 r2 s2 by (auto simp: over_limit_def Let_def)
  qed
qed

lemma findSyntaxDepth_stop:
  "findSyntaxDepth tokenizer (JStr s) (Some l) \<noteq> None \<longleftrightarrow> l < measureSyntaxDepth tokenizer (JStr s)"
  using scan_depth [of "[newFrame ''top'']" 1 None None "tokenizer s" l]
  by (simp add: findSyntaxDepth_def measureSyntaxDepth_def scanSyntaxDepth_def Let_def rooted_def newFrame_def)

end
