(* ===== verification/LintAnalysis.thy ===== *)
theory LintAnalysis
  imports LintGlobals
begin

text \<open>
  lint-core/contract_analysis.js: the advisory detectors. They parse the source again, look at the
  exported object and at single nodes, and report author-facing findings that decide nothing on chain.
\<close>

definition TYPED_ARRAY_CTORS :: "string list" where
  "TYPED_ARRAY_CTORS = [''Array'', ''ArrayBuffer'', ''Int8Array'', ''Uint8Array'', ''Uint8ClampedArray'',
     ''Int16Array'', ''Uint16Array'', ''Int32Array'', ''Uint32Array'', ''Float32Array'', ''Float64Array'']"

definition BULK_ALLOC_METHODS :: "string list" where
  "BULK_ALLOC_METHODS = [''fill'', ''repeat'', ''padStart'', ''padEnd'']"

text \<open>A line that is not known prints as \<open>null\<close> in these messages.\<close>

definition lineOf :: "node \<Rightarrow> string" where
  "lineOf n = (case line_at n of Some r \<Rightarrow> num_text (Num r) | None \<Rightarrow> ''null'')"

definition isStateGetCall :: "node option \<Rightarrow> bool" where
  "isStateGetCall c \<longleftrightarrow>
     is_kid ''CallExpression'' c
     \<and> (let callee = kid (the c) ''callee''; obj = kid callee ''object'' in
         is_type ''MemberExpression'' callee \<and> \<not> flagged callee ''computed''
         \<and> text_of (kid callee ''property'') ''name'' = ''get''
         \<and> (is_type ''Identifier'' obj \<and> text_of obj ''name'' = ''state''
            \<or> is_type ''MemberExpression'' obj \<and> \<not> flagged obj ''computed''
               \<and> text_of (kid obj ''property'') ''name'' = ''state''))"

definition calleeName :: "node \<Rightarrow> string option" where
  "calleeName n =
     (if \<not> is_type ''CallExpression'' n then None
      else case child n ''callee'' of
          None \<Rightarrow> None
        | Some c \<Rightarrow>
            if is_type ''Identifier'' c then Some (text_of c ''name'')
            else if is_type ''MemberExpression'' c \<and> \<not> flagged c ''computed''
            then map_option (\<lambda>p. text_of p ''name'') (child c ''property'') else None)"

subsection \<open>The exported object\<close>

definition is_module_exports :: "node \<Rightarrow> bool" where
  "is_module_exports l \<longleftrightarrow>
     is_type ''MemberExpression'' l \<and> \<not> flagged l ''computed''
     \<and> is_kid ''Identifier'' (child l ''object'') \<and> text_of (kid l ''object'') ''name'' = ''module''
     \<and> text_of (kid l ''property'') ''name'' = ''exports''"

definition assigns_exports :: "node \<Rightarrow> bool" where
  "assigns_exports n \<longleftrightarrow>
     is_type ''AssignmentExpression'' n \<and> is_module_exports (kid n ''left'')
     \<and> is_kid ''ObjectExpression'' (child n ''right'')"

text \<open>\<open>p.key.name || p.key.value\<close>, as text, and whether it is truthy.\<close>

definition key_text :: "node \<Rightarrow> string" where
  "key_text p =
     (let key = kid p ''key'' in
      if text_of key ''name'' \<noteq> [] then text_of key ''name''
      else case scalar key ''value'' of
          Text s \<Rightarrow> s | Number r \<Rightarrow> num_text (Num r) | Opaque s \<Rightarrow> s | _ \<Rightarrow> ''null'')"

definition key_truthy :: "node \<Rightarrow> bool" where
  "key_truthy p \<longleftrightarrow>
     (let key = kid p ''key'' in
      text_of key ''name'' \<noteq> [] \<or>
      (case scalar key ''value'' of
         Text s \<Rightarrow> s \<noteq> [] | Number r \<Rightarrow> r \<noteq> 0 | Opaque s \<Rightarrow> s \<noteq> ''0'' | _ \<Rightarrow> False))"

definition is_function_value :: "node option \<Rightarrow> bool" where
  "is_function_value v \<longleftrightarrow> is_kid ''FunctionExpression'' v \<or> is_kid ''ArrowFunctionExpression'' v"

definition plain_properties :: "node \<Rightarrow> node list" where
  "plain_properties obj =
     filter (\<lambda>p. is_type ''Property'' p \<and> \<not> flagged p ''computed'')
       (concat (map (\<lambda>e. case e of None \<Rightarrow> [] | Some p \<Rightarrow> [p]) (children obj ''properties'')))"

definition findExportsObject :: "lint_tools \<Rightarrow> node \<Rightarrow> node option \<times> string list" where
  "findExportsObject T ast =
     (let obj = map_option (\<lambda>n. kid n ''right'') (List.find assigns_exports (simple_walk T ast))
      in (obj, case obj of
            None \<Rightarrow> []
          | Some ob \<Rightarrow> map key_text
              (filter (\<lambda>p. key_truthy p \<and> is_function_value (child p ''value'')) (plain_properties ob))))"

subsection \<open>The detectors\<close>

text \<open>What one \<open>crossCallable\<close> property is told: errors first, then warnings.\<close>

definition unknown_method :: "string list \<Rightarrow> node option \<Rightarrow> finding list" where
  "unknown_method methodNames e =
     (case e of
        None \<Rightarrow> []
      | Some el \<Rightarrow>
          (case scalar el ''value'' of
             Text m \<Rightarrow>
               if is_type ''Literal'' el \<and> m \<notin> set methodNames
               then [warn ''crossCallable-unknown-method''
                 (''crossCallable lists \"'' @ m @ ''\" at line '' @ lineOf el
                  @ '', which is not an exported method (it will be uncallable cross-chain; typo?)'')
                 (line_at el)] else []
           | _ \<Rightarrow> []))"

definition checkCrossCallable :: "node option \<Rightarrow> string list \<Rightarrow> finding list \<times> finding list" where
  "checkCrossCallable obj methodNames =
     (case obj of
        None \<Rightarrow> ([], [])
      | Some ob \<Rightarrow>
          (let ps = filter (\<lambda>p. key_truthy p \<and> key_text p = ''crossCallable'') (plain_properties ob) in
           (concat (map (\<lambda>p. case child p ''value'' of
                None \<Rightarrow> []
              | Some v \<Rightarrow>
                  if type_of v \<in> {''ArrayExpression'', ''Identifier'', ''CallExpression'',
                                   ''ConditionalExpression'', ''LogicalExpression''} then []
                  else [err ''crossCallable-not-array''
                    (''crossCallable must be an array of method names at line '' @ lineOf v
                     @ ''; a non-array value makes every cross-chain call to this contract fail (XCALL_NOT_CALLABLE)'')
                    (line_at v)]) ps),
            concat (map (\<lambda>p. case child p ''value'' of
                None \<Rightarrow> []
              | Some v \<Rightarrow>
                  if is_type ''ArrayExpression'' v
                  then concat (map (unknown_method methodNames) (children v ''elements'')) else []) ps))))"

definition is_true_literal :: "node option \<Rightarrow> bool" where
  "is_true_literal t \<longleftrightarrow> is_kid ''Literal'' t \<and> scalar (the t) ''value'' = Flag True"

definition loop_visitor :: "node \<Rightarrow> finding list" where
  "loop_visitor n =
     (if (is_type ''WhileStatement'' n \<or> is_type ''DoWhileStatement'' n) \<and> is_true_literal (child n ''test'')
         \<or> is_type ''ForStatement'' n \<and> child n ''test'' = None
      then [warn ''unbounded-loop''
        (''unbounded loop at line '' @ lineOf n
         @ ''; termination depends entirely on an internal break (the gas ceiling will halt it otherwise)'')
        (line_at n)]
      else [])"

definition checkUnboundedLoops :: "lint_tools \<Rightarrow> node \<Rightarrow> finding list" where
  "checkUnboundedLoops T ast = concat (map loop_visitor (simple_walk T ast))"

definition alloc_finding :: "node \<Rightarrow> string \<Rightarrow> finding list" where
  "alloc_finding n what =
     [warn ''large-allocation''
        (''bulk allocation ('' @ what @ '') at line '' @ lineOf n
         @ ''; gas-metered at runtime, keep the size bounded so it cannot hit the gas ceiling'')
        (line_at n)]"

definition allocation_visitor :: "node \<Rightarrow> finding list" where
  "allocation_visitor n =
     (let callee = child n ''callee''; name = text_of (kid n ''callee'') ''name'';
          property_name = text_of (kid (kid n ''callee'') ''property'') ''name'' in
      if is_type ''NewExpression'' n
      then (if is_kid ''Identifier'' callee \<and> name \<in> set TYPED_ARRAY_CTORS then alloc_finding n name else [])
      else if is_type ''CallExpression'' n
      then (if is_kid ''Identifier'' callee \<and> name = ''Array'' then alloc_finding n ''Array''
            else if is_kid ''MemberExpression'' callee \<and> \<not> flagged (kid n ''callee'') ''computed''
                    \<and> property_name \<in> set BULK_ALLOC_METHODS
            then alloc_finding n (CHR ''.'' # property_name @ ''()'') else [])
      else [])"

definition checkLargeAllocations :: "lint_tools \<Rightarrow> node \<Rightarrow> finding list" where
  "checkLargeAllocations T ast = concat (map allocation_visitor (simple_walk T ast))"

definition state_get_visitor :: "node \<Rightarrow> finding list" where
  "state_get_visitor n =
     (if is_type ''MemberExpression'' n \<and> isStateGetCall (child n ''object'')
      then [warn ''unchecked-state-get''
        (''state.get(...) result dereferenced at line '' @ lineOf n
         @ '' without a null guard; an absent key returns null and will throw. Default it (e.g. `|| ''
         @ [CHR 39] @ ''0'' @ [CHR 39] @ ''`) or require() it first'')
        (line_at n)]
      else [])"

definition checkUncheckedStateGet :: "lint_tools \<Rightarrow> node \<Rightarrow> finding list" where
  "checkUncheckedStateGet T ast = concat (map state_get_visitor (simple_walk T ast))"

definition calls_named :: "lint_tools \<Rightarrow> (string \<Rightarrow> bool) \<Rightarrow> node \<Rightarrow> bool" where
  "calls_named T P v \<longleftrightarrow>
     list_ex (\<lambda>c. case calleeName c of None \<Rightarrow> False | Some n \<Rightarrow> P n) (simple_walk T v)"

definition input_finding :: "lint_tools \<Rightarrow> node \<Rightarrow> finding list" where
  "input_finding T p =
     (if \<not> is_function_value (child p ''value'') then []
      else let v = kid p ''value'' in
        if calls_named T (\<lambda>n. n = ''getInputParam'') v \<and> \<not> calls_named T (starts_with ''require'') v
        then [warn ''missing-input-validation''
          (''method \"'' @ key_text p @ ''\" at line '' @ lineOf v
           @ '' reads input params but has no require() validation; validate inputs before use'')
          (line_at v)]
        else [])"

definition checkMissingInputValidation :: "lint_tools \<Rightarrow> node option \<Rightarrow> finding list" where
  "checkMissingInputValidation T obj =
     (case obj of None \<Rightarrow> [] | Some ob \<Rightarrow> concat (map (input_finding T) (plain_properties ob)))"

definition analyzeContract :: "lint_tools \<Rightarrow> string \<Rightarrow> finding list \<times> finding list" where
  "analyzeContract T code =
     (case parse_located T code of
        Inl _ \<Rightarrow> ([], [])
      | Inr ast \<Rightarrow>
          (let (obj, methodNames) = findExportsObject T ast;
               (errors, warnings) = checkCrossCallable obj methodNames
           in (errors, warnings @ checkUnboundedLoops T ast @ checkLargeAllocations T ast
                 @ checkUncheckedStateGet T ast @ checkMissingInputValidation T obj)))"

end
