(* ===== verification/Lint.thy ===== *)
theory Lint
  imports LintDepth LintAnalysis Metering
begin

text \<open>
  lint-core/result_composition.js, lint-core.js and syntax.js: the ordered consensus findings, the
  advisory ones behind them, and the deploy verdict. Besides the parser, the walkers and the
  tokenizer, the machine supplies the printer, the isolate that compiles the source (it may be
  impossible to spawn) and the point where its native stack gives out in the metering passes.
\<close>

record lint_host =
  tools :: lint_tools
  tokenize :: "string \<Rightarrow> tokens"
  descends :: walker
  print_tree :: "node \<Rightarrow> string"
  passes_overflow :: "string \<Rightarrow> host_error option"
  isolate_unavailable :: "string option"
  v8_compile :: "string \<Rightarrow> host_error option"

record lint_opts =
  lo_hardened :: bool
  lo_globalAlias :: bool
  lo_optionalChain :: bool
  lo_destructure :: bool
  lo_overflowIsHostFault :: "bool option"
  lo_nestingDepth :: bool
  lo_syntaxDepth :: bool

subsection \<open>The consensus errors, in deploy-check order\<close>

definition sizeErrors :: "string \<Rightarrow> finding list" where
  "sizeErrors code =
     (if codeSizeBytes code > LINT_MAX_CODE_SIZE
      then [err ''code-size'' (''code size exceeds limit ('' @ nat_text LINT_MAX_CODE_SIZE @ '' bytes)'') None]
      else [])"

definition plain_flags :: meter_flags where
  "plain_flags = \<lparr>specEvalOrder = False, meterCallSpread = False, meterRestPattern = False,
     nativeStackTerminal = False\<rparr>"

definition meter_failure :: "lint_host \<Rightarrow> string \<Rightarrow> host_error option" where
  "meter_failure E code =
     (case meterCode (parse_plain (tools E)) (print_tree E) (descends E) (full_walk (tools E)) code plain_flags of
        Some (Inl e) \<Rightarrow> Some e
      | _ \<Rightarrow> passes_overflow E code)"

text \<open>\<open>Inr None\<close>: the source parsed and the scans go on.\<close>

definition parseError :: "lint_host \<Rightarrow> string \<Rightarrow> bool \<Rightarrow> host_error + finding option" where
  "parseError E code overflowIsHostFault =
     (case meter_failure E code of
        None \<Rightarrow> Inr None
      | Some e \<Rightarrow>
          if overflowIsHostFault \<and> isHostStackOverflow e then Inl e
          else Inr (Some (err ''unsupported-syntax''
            (''unsupported syntax (ES2020 maximum): '' @ host_message e) None)))"

definition reserved_finding :: "string option \<Rightarrow> finding list" where
  "reserved_finding name =
     (case name of None \<Rightarrow> [] | Some x \<Rightarrow> [err ''reserved-identifier'' (''reserved identifier: '' @ x) None])"

definition reservedErrors :: "lint_host \<Rightarrow> string \<Rightarrow> bool \<Rightarrow> bool \<Rightarrow> host_error + finding list" where
  "reservedErrors E code hard ovf =
     rbind (findReservedIdentifier (parse_plain (tools E)) (full_walk (tools E)) code ovf) (\<lambda>reserved.
     rbind (if hard then findReservedControlBinding (tools E) code ovf else Inr None) (\<lambda>control.
     Inr (reserved_finding reserved @ reserved_finding control)))"

definition math_finding :: "flagged_hit \<Rightarrow> finding" where
  "math_finding h = err ''banned-math''
     (if hit_flag h
      then ''banned API: Math.'' @ hit_kind h @ '' at line '' @ line_text (hit_line h) @
        ''; IEEE 754 floating-point transcendentals are non-deterministic across CPU architectures. Use xchain.math.''
        @ hit_kind h @ ''() instead''
      else ''banned API: Math.'' @ hit_kind h @ '' at line '' @ line_text (hit_line h) @
        ''; not part of the deterministic sandbox Math subset (floor/ceil/round/abs/min/max/sign/trunc/PI/E). Use those members or xchain.math instead'')
     (hit_line h)"

definition exponent_finding :: "hit \<Rightarrow> finding" where
  "exponent_finding h = err ''banned-math''
     (''banned operator: '' @ hit_kind h @ '' at line '' @ line_text (hit_line h) @
      ''; exponentiation is IEEE 754 floating-point (non-deterministic across CPU architectures). Use xchain.math.pow() instead'')
     (hit_line h)"

definition mathErrors ::
  "lint_host \<Rightarrow> string \<Rightarrow> bool \<Rightarrow> bool \<Rightarrow> bool \<Rightarrow> bool \<Rightarrow> bool \<Rightarrow> host_error + finding list" where
  "mathErrors E code hard globalAlias optionalChain destructure ovf =
     rbind (findBannedMathCalls (tools E) code hard globalAlias optionalChain destructure ovf) (\<lambda>banned.
     rbind (if hard then findBannedExponentiation (tools E) code ovf else Inr []) (\<lambda>pows.
     Inr (map math_finding banned @ map exponent_finding pows)))"

definition literal_finding :: "hit \<Rightarrow> finding" where
  "literal_finding h = err ''banned-literal''
     (''banned literal: '' @ hit_kind h @ '' literal at line '' @ line_text (hit_line h) @ ''; '' @
      (if hit_kind h = ''bigint''
       then ''BigInt is unmetered native arithmetic; use the xchain.math bignumber API instead''
       else ''regular-expression literals can backtrack catastrophically and are unmetered''))
     (hit_line h)"

definition async_advice :: "string \<Rightarrow> string" where
  "async_advice k =
     (if k = ''promise''
      then ''Promise schedules microtasks whose drain timing is isolated-vm version-dependent and unpinned''
      else if k = ''import''
      then ''dynamic import() evaluates to a Promise; the microtask surface it schedules is nondeterministic across validators''
      else if k = ''await''
      then ''await resumes after the synchronous contract invocation returns; post-await state writes are nondeterministic across validators''
      else ''async functions return a pending Promise the synchronous CONTRACT_WRAPPER cannot await; their post-await effects are nondeterministic across validators'')"

definition async_finding :: "hit \<Rightarrow> finding" where
  "async_finding h = err ''banned-async''
     (''banned async surface: '' @ hit_kind h @ '' at line '' @ line_text (hit_line h) @ '' (''
      @ async_advice (hit_kind h) @ '')'') (hit_line h)"

definition generator_finding :: "hit \<Rightarrow> finding" where
  "generator_finding h = err ''banned-generator''
     (''banned generator surface: '' @ hit_kind h @ '' at line '' @ line_text (hit_line h) @ '' ('' @
      (if hit_kind h = ''yield''
       then ''yield suspends a generator frame without unwinding the call-depth guard; rewrite without generators''
       else ''a suspended generator frame is not unwound until drained, so undrained generators leak __stackDepth toward the 512 cap and throw a spurious deterministic out_of_stack; use a plain function'')
      @ '')'') (hit_line h)"

definition rest_advice :: "string \<Rightarrow> string" where
  "rest_advice k =
     (if k = ''rest parameter''
      then ''the copy is performed by the caller's argument list, which has no source expression to charge, so f.apply(null, bigArr) in a loop copies O(n) elements for ~1 gas. Read arguments.length / index the parameters instead''
      else if k = ''catch-clause rest''
      then ''the source is the thrown value, bound by the runtime rather than by an expression, so the own-key copy cannot be charged. Destructure the caught binding on a following line instead''
      else if k = ''for-loop-head rest''
      then ''the source is a per-iteration value produced by the iterator, with no expression to charge. Bind the iteration value and destructure it in the loop body instead''
      else ''a nested rest copies an intermediate value produced by the enclosing destructure, with no expression to charge. Destructure in two steps so the rest reads a named binding instead'')"

definition rest_finding :: "hit \<Rightarrow> finding" where
  "rest_finding h = err ''banned-rest''
     (''unmeterable rest pattern: '' @ hit_kind h @ '' at line '' @ line_text (hit_line h) @ '' (''
      @ rest_advice (hit_kind h) @ '')'') (hit_line h)"

definition with_finding :: "hit \<Rightarrow> finding" where
  "with_finding h = err ''banned-with''
     (''banned statement: with at line '' @ line_text (hit_line h) @
      ''; a with block rebinds free identifiers to an object at runtime, which bypasses the identifier-based deploy bans and the metering rewrite. Read the properties through the object instead'')
     (hit_line h)"

definition wasm_finding :: "hit \<Rightarrow> finding" where
  "wasm_finding h = err ''banned-wasm''
     (''banned global: WebAssembly at line '' @ line_text (hit_line h) @
      ''; WebAssembly executes native code that carries no __gas metering (unmetered native execution) and is a consensus-fork surface. The sandbox removes it, so this is unreachable at runtime'')
     (hit_line h)"

subsection \<open>The advisory warnings\<close>

definition proto_finding :: "flagged_hit \<Rightarrow> finding" where
  "proto_finding h = warn ''banned-proto-method''
     (''neutered method: .'' @ hit_kind h @ ''() at line '' @ line_text (hit_line h) @ ''; '' @
      (if hit_flag h
       then ''coerces its argument to a RegExp through the %RegExp% intrinsic, so catastrophic backtracking still runs for ~1 gas''
       else ''its output depends on the host ICU data/version, which varies across validator builds'')
      @ ''. The sandbox removes it, so this throws TypeError at runtime'') (hit_line h)"

definition stripped_finding :: "hit \<Rightarrow> finding" where
  "stripped_finding h = warn ''banned-stripped-global''
     (''stripped global: '' @ hit_kind h @ '' at line '' @ line_text (hit_line h) @
      ''; the sandbox deletes it so every validator computes the same result, so this throws ReferenceError at runtime. Use the xchain.* gateway instead (e.g. xchain.attestation.request to read a URL, blockContext.timestamp for time)'')
     (hit_line h)"

definition advisory_warnings :: "lint_host \<Rightarrow> string \<Rightarrow> bool \<Rightarrow> bool \<Rightarrow> finding list" where
  "advisory_warnings E code globalAlias optionalChain =
     findFloatWarnings (tools E) code
     @ map proto_finding (findBannedProtoMethods (tools E) code)
     @ map stripped_finding
         (findBannedStrippedGlobals (tools E) code globalAlias ADVISORY_STRIPPED_GLOBAL_NAMES optionalChain)"

subsection \<open>lintSource\<close>

record lint_result =
  lint_errors :: "finding list"
  lint_warnings :: "finding list"

text \<open>The scans behind a successful parse, in order.\<close>

definition consensus_scans :: "lint_host \<Rightarrow> string \<Rightarrow> lint_opts \<Rightarrow> bool \<Rightarrow> host_error + finding list" where
  "consensus_scans E code lo ovf =
     (let T = tools E; hard = lo_hardened lo; alias = lo_globalAlias lo; chain = lo_optionalChain lo;
          destr = lo_destructure lo in
     rbind (reservedErrors E code hard ovf) (\<lambda>reserved.
     rbind (mathErrors E code hard alias chain destr ovf) (\<lambda>maths.
     rbind (findBannedLiterals T code ovf) (\<lambda>literals.
     rbind (findBannedAsync T code hard alias chain destr ovf) (\<lambda>asyncs.
     rbind (findBannedGenerator T code ovf) (\<lambda>generators.
     rbind (findBannedRest T code ovf) (\<lambda>rests.
     rbind (findBannedWasm T code alias chain destr ovf) (\<lambda>wasms.
     rbind (findBannedWith T code ovf) (\<lambda>withs.
     Inr (reserved @ maths @ map literal_finding literals @ map async_finding asyncs
       @ map generator_finding generators @ map rest_finding rests @ map wasm_finding wasms
       @ map with_finding withs))))))))))"

definition composeLintSource :: "lint_host \<Rightarrow> jsval \<Rightarrow> lint_opts \<Rightarrow> host_error + lint_result" where
  "composeLintSource E src lo =
     (case src of
        JStr code \<Rightarrow>
          (let ovf = (case lo_overflowIsHostFault lo of Some b \<Rightarrow> b | None \<Rightarrow> lo_syntaxDepth lo);
               size_errors = sizeErrors code in
           rbind (parseError E code ovf) (\<lambda>unparsed.
             case unparsed of
               Some f \<Rightarrow> Inr \<lparr>lint_errors = size_errors @ [f], lint_warnings = []\<rparr>
             | None \<Rightarrow>
                 rbind (consensus_scans E code lo ovf) (\<lambda>found.
                   let move2 = analyzeContract (tools E) code in
                   Inr \<lparr>lint_errors = size_errors @ found @ fst move2,
                        lint_warnings = advisory_warnings E code (lo_globalAlias lo) (lo_optionalChain lo)
                          @ snd move2\<rparr>)))
      | _ \<Rightarrow> Inr \<lparr>lint_errors = [err ''invalid-type'' ''Contract source must be a string'' None],
                 lint_warnings = []\<rparr>)"

definition lintSource :: "lint_host \<Rightarrow> jsval \<Rightarrow> lint_opts \<Rightarrow> host_error + lint_result" where
  "lintSource E src lo =
     (case (if lo_nestingDepth lo then nestingDepthFinding (tokenize E) src else None) of
        Some f \<Rightarrow> Inr \<lparr>lint_errors = [f], lint_warnings = []\<rparr>
      | None \<Rightarrow>
          (case (if lo_syntaxDepth lo then syntaxDepthFinding (tokenize E) src else None) of
             Some f \<Rightarrow> Inr \<lparr>lint_errors = [f], lint_warnings = []\<rparr>
           | None \<Rightarrow> composeLintSource E src lo))"

subsection \<open>validateSyntax\<close>

definition isBlockingConsensusError :: "syntax_opts \<Rightarrow> finding \<Rightarrow> bool" where
  "isBlockingConsensusError so f =
     (if f_rule f = ''banned-async'' \<and> \<not> so_bannedAsync so then False
      else if f_rule f = ''banned-generator'' \<and> \<not> so_bannedGenerator so then False
      else if f_rule f = ''banned-wasm'' \<and> \<not> so_bannedWasm so then False
      else if f_rule f = ''banned-rest'' \<and> \<not> so_bannedRest so then False
      else if f_rule f = ''banned-with'' \<and> \<not> so_bannedWith so then False
      else f_rule f \<in> set CONSENSUS_RULES)"

definition stack_fault :: "host_error \<Rightarrow> exn" where
  "stack_fault e = HostFaultError (''syntax validation stack overflow: '' @ host_message e)"

definition checkV8Syntax :: "lint_host \<Rightarrow> string \<Rightarrow> bool \<Rightarrow> lint_verdict res" where
  "checkV8Syntax E code overflowIsHostFault =
     (case isolate_unavailable E of
        Some m \<Rightarrow> Inl (HostFaultError (''syntax validation isolate unavailable: '' @ m))
      | None \<Rightarrow>
          (case v8_compile E code of
             None \<Rightarrow> Inr None
           | Some e \<Rightarrow>
               if overflowIsHostFault \<and> isHostStackOverflow e then Inl (stack_fault e)
               else Inr (Some (''syntax error: '' @ host_message e))))"

definition preParseFinding :: "lint_host \<Rightarrow> string \<Rightarrow> bool \<Rightarrow> bool \<Rightarrow> finding option" where
  "preParseFinding E code nesting syntaxDepth =
     (case (if nesting then nestingDepthFinding (tokenize E) (JStr code) else None) of
        Some f \<Rightarrow> Some f
      | None \<Rightarrow> if syntaxDepth then syntaxDepthFinding (tokenize E) (JStr code) else None)"

text \<open>Another error than the overflow is rethrown as it came.\<close>

fun rethrown :: "host_error \<Rightarrow> exn" where
  "rethrown (EHostFault m) = HostFaultError m"
| "rethrown (ERevert m) = ContractRevertError m"
| "rethrown (EGas u c) = GasExhaustedError u c"
| "rethrown (EOther _ m) = PlainError m"

definition lintAcornRules :: "lint_host \<Rightarrow> string \<Rightarrow> lint_opts \<Rightarrow> lint_result res" where
  "lintAcornRules E code lo =
     (case lintSource E (JStr code) lo of
        Inr r \<Rightarrow> Inr r
      | Inl e \<Rightarrow> if lo_overflowIsHostFault lo = Some True \<and> isHostStackOverflow e then Inl (stack_fault e)
                 else Inl (rethrown e))"

definition acorn_opts :: "syntax_opts \<Rightarrow> lint_opts" where
  "acorn_opts so =
     \<lparr>lo_hardened = so_lintHardening so, lo_globalAlias = so_lintGlobalAlias so,
      lo_optionalChain = so_lintOptionalChain so, lo_destructure = so_lintDestructure so,
      lo_overflowIsHostFault = Some (so_lintSyntaxDepth so), lo_nestingDepth = False,
      lo_syntaxDepth = False\<rparr>"

text \<open>
  \<open>nesting\<close> is \<open>opts.enforceLintNestingDepth\<close>, which only the deploy path sets; a verdict is \<open>None\<close> for
  a valid source and the error text otherwise.
\<close>

definition validateSyntax :: "lint_host \<Rightarrow> bool \<Rightarrow> string \<Rightarrow> syntax_opts \<Rightarrow> lint_verdict res" where
  "validateSyntax E nesting code so =
     (case preParseFinding E code (so_lintSyntaxDepth so \<or> nesting) (so_lintSyntaxDepth so) of
        Some f \<Rightarrow> Inr (Some (f_message f))
      | None \<Rightarrow>
          rbind (checkV8Syntax E code (so_lintSyntaxDepth so)) (\<lambda>syntaxError.
            case syntaxError of
              Some m \<Rightarrow> Inr (Some m)
            | None \<Rightarrow>
                rbind (lintAcornRules E code (acorn_opts so)) (\<lambda>r.
                  case filter (isBlockingConsensusError so) (lint_errors r) of
                    [] \<Rightarrow> Inr None
                  | f # _ \<Rightarrow> Inr (Some (f_message f)))))"

end
