(* ===== verification/LintDemo.thy ===== *)
theory LintDemo
  imports Lint
begin

text \<open>
  A concrete machine for the witnesses of the lint properties: a parser that reads every source as the
  program \<open>var [x, ...c] = a\<close>, walkers that visit every node, a tokenizer that gives its tokens, and a
  second machine whose stack is too small for the source \<open>deep\<close>.
\<close>

definition demo_rest :: node where
  "demo_rest = Node ''RestElement'' [Child ''argument'' (astIdent ''c'')]"

definition demo_pattern :: node where
  "demo_pattern = Node ''ArrayPattern'' [Children ''elements'' [Some (astIdent ''x''), Some demo_rest]]"

definition demo_source :: node where
  "demo_source = Node ''Program'' [Children ''body'' [Some (Node ''VariableDeclaration''
     [Children ''declarations'' [Some (Node ''VariableDeclarator''
        [Child ''id'' demo_pattern, Child ''init'' (astIdent ''a'')])],
      Scalar ''kind'' (Text ''var'')])], Scalar ''sourceType'' (Text ''script'')]"

definition demo_tokens :: tokens where
  "demo_tokens = map (\<lambda>l. \<lparr>label = l, tok_text = l, tok_line = 1\<rparr>)
     [''var'', ''['', ''name'', '','', ''...'', ''name'', '']'', ''='', ''name'', ''eof'']"

definition demo_tools :: lint_tools where
  "demo_tools = \<lparr>parse_plain = (\<lambda>_. Inr demo_source), parse_located = (\<lambda>_. Inr demo_source),
     simple_walk = nodes, ancestor_walk = map (\<lambda>n. \<lparr>v_node = n, v_slot = [], v_above = []\<rparr>) \<circ> nodes,
     full_walk = nodes\<rparr>"

definition demo_host :: lint_host where
  "demo_host = \<lparr>tools = demo_tools, tokenize = (\<lambda>_. demo_tokens), descends = (\<lambda>_ _. True),
     print_tree = (\<lambda>_. ''var''), passes_overflow = (\<lambda>_. None), isolate_unavailable = None,
     v8_compile = (\<lambda>_. None)\<rparr>"

definition shallow_host :: lint_host where
  "shallow_host = demo_host\<lparr>passes_overflow := (\<lambda>code. if code = ''deep''
     then Some (EOther True ''Maximum call stack size exceeded'') else None)\<rparr>"

text \<open>Every rule armed, as at the head of the chain, and none, as at genesis.\<close>

definition all_armed :: syntax_opts where
  "all_armed = \<lparr>so_bannedAsync = True, so_lintHardening = True, so_bannedGenerator = True,
     so_bannedWasm = True, so_lintGlobalAlias = True, so_bannedRest = True, so_lintOptionalChain = True,
     so_bannedWith = True, so_lintDestructure = True, so_lintSyntaxDepth = True\<rparr>"

definition none_armed :: syntax_opts where
  "none_armed = \<lparr>so_bannedAsync = False, so_lintHardening = False, so_bannedGenerator = False,
     so_bannedWasm = False, so_lintGlobalAlias = False, so_bannedRest = False, so_lintOptionalChain = False,
     so_bannedWith = False, so_lintDestructure = False, so_lintSyntaxDepth = False\<rparr>"

lemma demo_depths:
  "nestingDepthFinding (\<lambda>_. demo_tokens) (JStr code) = None"
  "syntaxDepthFinding (\<lambda>_. demo_tokens) (JStr code) = None"
proof -
  have "nesting_loop 64 0 demo_tokens = None" by (simp add: demo_tokens_def OPEN_TOKENS_def CLOSE_TOKENS_def)
  then show "nestingDepthFinding (\<lambda>_. demo_tokens) (JStr code) = None"
    by (simp add: nestingDepthFinding_def findNestingDepth_def MAX_NESTING_DEPTH_def)
  have "dh_depth (scanSyntaxDepth demo_tokens (Some 200)) \<le> 200"
    by (simp add: scanSyntaxDepth_def demo_tokens_def Let_def settle_top_def newFrame_def OPENERS_def CLOSERS_def
        PREFIX_LABELS_def OP_LABELS_def OP_WEIGHT_def OP_NAMES_def closeSegment_def absorb_def frame_weight_def
        FRAME_CONSTANT_def mark_brace_def over_limit_def finalDepth_def)
  then show "syntaxDepthFinding (\<lambda>_. demo_tokens) (JStr code) = None"
    by (simp add: syntaxDepthFinding_def findSyntaxDepth_def MAX_SYNTAX_DEPTH_def Let_def)
qed

lemmas demo_tree_defs = demo_source_def demo_pattern_def demo_rest_def astIdent_def

lemmas demo_reads = is_type_def is_kid_def child_def children_def scalar_def text_of_def flagged_def kid_def

lemma demo_scans:
  "concat (map (math_visitor True True True True) (nodes demo_source)) = []"
  "concat (map exponent_visitor (nodes demo_source)) = []" "concat (map literal_visitor (nodes demo_source)) = []"
  "concat (map generator_visitor (nodes demo_source)) = []" "concat (map with_visitor (nodes demo_source)) = []"
  "concat (map (async_visitor True True True True \<circ> (\<lambda>n. \<lparr>v_node = n, v_slot = [], v_above = []\<rparr>)) (nodes demo_source)) = []"
  "concat (map (wasm_visitor True True True \<circ> (\<lambda>n. \<lparr>v_node = n, v_slot = [], v_above = []\<rparr>)) (nodes demo_source)) = []"
  "first_reserved (nodes demo_source) = None" "first_control (nodes demo_source) = None"
  by (simp_all add: demo_tree_defs demo_reads math_visitor_def markDestructuredMath_def objectPatternEntries_def
      exponent_visitor_def literal_visitor_def generator_visitor_def with_visitor_def async_visitor_def
      wasm_visitor_def Let_def destructuredGlobalEntries_def RESERVED_IDENTIFIERS_def ALLOC_HELPERS_def
      DEPTH_HELPERS_def RESERVED_CONTROL_BINDINGS_def property_position_def shadowed_def)

lemma demo_rests: "collectBannedRest [] demo_source [] = []"
  by (simp add: demo_tree_defs demo_reads rest_hit_def bannedRestKind_def metered_rest_def)

end
