(* ===== verification/LintProps.thy ===== *)
theory LintProps
  imports LintDemo
begin

text \<open>
  What the deploy verdict depends on: it never depends on where a machine's native stack gives out, and
  the depth scan that stops early finds what the full measure finds.
\<close>

subsection \<open>Two machines that differ in their stacks\<close>

definition overflowed :: "host_error + 'a \<Rightarrow> bool" where
  "overflowed r \<longleftrightarrow> (case r of Inl e \<Rightarrow> isHostStackOverflow e | Inr _ \<Rightarrow> False)"

definition overflowed_opt :: "host_error option \<Rightarrow> bool" where
  "overflowed_opt r \<longleftrightarrow> (case r of Some e \<Rightarrow> isHostStackOverflow e | None \<Rightarrow> False)"

definition agrees :: "host_error + 'a \<Rightarrow> host_error + 'a \<Rightarrow> bool" where
  "agrees a b \<longleftrightarrow> a = b \<or> overflowed a \<or> overflowed b"

definition agrees_opt :: "host_error option \<Rightarrow> host_error option \<Rightarrow> bool" where
  "agrees_opt a b \<longleftrightarrow> a = b \<or> overflowed_opt a \<or> overflowed_opt b"

text \<open>The same libraries over stacks of their own; either may be unable to spawn an isolate.\<close>

definition same_but_stack :: "lint_host \<Rightarrow> lint_host \<Rightarrow> bool" where
  "same_but_stack E E' \<longleftrightarrow>
     (\<forall>code. agrees (parse_plain (tools E) code) (parse_plain (tools E') code))
     \<and> (\<forall>code. agrees (parse_located (tools E) code) (parse_located (tools E') code))
     \<and> (\<forall>code. agrees_opt (passes_overflow E code) (passes_overflow E' code))
     \<and> (\<forall>code. agrees_opt (v8_compile E code) (v8_compile E' code))
     \<and> simple_walk (tools E) = simple_walk (tools E') \<and> ancestor_walk (tools E) = ancestor_walk (tools E')
     \<and> full_walk (tools E) = full_walk (tools E') \<and> tokenize E = tokenize E'
     \<and> descends E = descends E' \<and> print_tree E = print_tree E'"

text \<open>Two results that are the same whenever both are results.\<close>

definition one_result :: "'e + 'a \<Rightarrow> 'f + 'a \<Rightarrow> bool" where
  "one_result a b \<longleftrightarrow> (\<forall>x y. a = Inr x \<longrightarrow> b = Inr y \<longrightarrow> x = y)"

lemma one_result_Inr [intro]: "x = y \<Longrightarrow> one_result (Inr x) (Inr y)"
  by (simp add: one_result_def)

lemma one_result_Inl [simp]: "one_result (Inl e) b" "one_result a (Inl e)"
  by (simp_all add: one_result_def)

lemma one_result_refl [simp]: "one_result a a"
  by (simp add: one_result_def)

lemma one_result_rbind:
  assumes "one_result a b" "\<And>x. one_result (f x) (g x)"
  shows "one_result (rbind a f) (rbind b g)"
  using assms by (auto simp: one_result_def rbind_Inr_iff)

lemma one_result_scan:
  "agrees (pa code) (pb code) \<Longrightarrow> one_result (scan_source pa code True z f) (scan_source pb code True z f)"
  by (auto simp: agrees_def scan_source_def overflowed_def split: sum.splits)

lemma one_result_reserved:
  "agrees (pa code) (pb code)
     \<Longrightarrow> one_result (findReservedIdentifier pa w code True) (findReservedIdentifier pb w code True)"
  by (auto simp: agrees_def findReservedIdentifier_def overflowed_def split: sum.splits)

lemma meter_failure_agrees:
  assumes "same_but_stack E E'"
  shows "agrees_opt (meter_failure E code) (meter_failure E' code)"
proof -
  from assms have p: "agrees (parse_plain (tools E) code) (parse_plain (tools E') code)"
    and o: "agrees_opt (passes_overflow E code) (passes_overflow E' code)"
    and w: "full_walk (tools E) = full_walk (tools E')" "descends E = descends E'" "print_tree E = print_tree E'"
    by (simp_all add: same_but_stack_def)
  show ?thesis
  proof (cases "overflowed (parse_plain (tools E) code) \<or> overflowed (parse_plain (tools E') code)")
    case True
    then show ?thesis
      by (auto simp: overflowed_def agrees_opt_def overflowed_opt_def meter_failure_def meterCode_def
          split: sum.splits)
  next
    case False
    with p have "parse_plain (tools E) code = parse_plain (tools E') code" by (auto simp: agrees_def)
    with w o show ?thesis
      by (auto simp: meter_failure_def meterCode_def agrees_opt_def split: sum.splits option.splits)
  qed
qed

lemma parseError_one_result:
  "same_but_stack E E' \<Longrightarrow> one_result (parseError E code True) (parseError E' code True)"
  using meter_failure_agrees [of E E' code]
  by (auto simp: parseError_def agrees_opt_def overflowed_opt_def split: option.splits)

lemma consensus_scans_one_result:
  assumes "same_but_stack E E'"
  shows "one_result (consensus_scans E code lo True) (consensus_scans E' code lo True)"
proof -
  from assms have p: "agrees (parse_plain (tools E) code) (parse_plain (tools E') code)"
    and l: "agrees (parse_located (tools E) code) (parse_located (tools E') code)"
    and w: "simple_walk (tools E) = simple_walk (tools E')" "ancestor_walk (tools E) = ancestor_walk (tools E')"
      "full_walk (tools E) = full_walk (tools E')"
    by (simp_all add: same_but_stack_def)
  note scans = one_result_scan [of "parse_plain (tools E)" code "parse_plain (tools E')", OF p]
    one_result_scan [of "parse_located (tools E)" code "parse_located (tools E')", OF l]
    one_result_reserved [of "parse_plain (tools E)" code "parse_plain (tools E')", OF p]
  show ?thesis
    unfolding consensus_scans_def reservedErrors_def mathErrors_def Let_def findReservedControlBinding_def
      findBannedMathCalls_def findBannedExponentiation_def findBannedLiterals_def findBannedAsync_def
      findBannedGenerator_def findBannedRest_def findBannedWasm_def findBannedWith_def w
    by (intro one_result_rbind) (auto intro: scans)
qed

lemma scans_parse:
  "consensus_scans E code lo True = Inr x \<Longrightarrow> \<not> overflowed (parse_located (tools E) code)"
  by (auto simp: consensus_scans_def rbind_Inr_iff findBannedWith_def scan_source_def overflowed_def Let_def
      split: sum.splits if_splits)

lemma analysis_agrees:
  assumes "same_but_stack E E'" "\<not> overflowed (parse_located (tools E) code)"
    "\<not> overflowed (parse_located (tools E') code)"
  shows "analyzeContract (tools E) code = analyzeContract (tools E') code"
proof -
  from assms have "parse_located (tools E) code = parse_located (tools E') code"
    by (auto simp: same_but_stack_def agrees_def)
  moreover from assms(1) have w: "simple_walk (tools E) = simple_walk (tools E')"
    by (simp add: same_but_stack_def)
  moreover from w have i: "input_finding (tools E) = input_finding (tools E')"
    by (simp add: fun_eq_iff input_finding_def calls_named_def)
  moreover have "checkMissingInputValidation (tools E) = checkMissingInputValidation (tools E')"
    by (rule ext) (simp only: checkMissingInputValidation_def i)
  ultimately have f: "findExportsObject (tools E) = findExportsObject (tools E')"
    "checkUnboundedLoops (tools E) = checkUnboundedLoops (tools E')"
    "checkLargeAllocations (tools E) = checkLargeAllocations (tools E')"
    "checkUncheckedStateGet (tools E) = checkUncheckedStateGet (tools E')"
    "checkMissingInputValidation (tools E) = checkMissingInputValidation (tools E')"
    "parse_located (tools E) code = parse_located (tools E') code"
    by (simp_all add: fun_eq_iff findExportsObject_def checkUnboundedLoops_def checkLargeAllocations_def
        checkUncheckedStateGet_def)
  show ?thesis by (simp only: analyzeContract_def f)
qed

lemma lint_errors_agree:
  assumes "same_but_stack E E'" "lo_overflowIsHostFault lo = Some True"
    and r: "composeLintSource E (JStr code) lo = Inr r" and r': "composeLintSource E' (JStr code) lo = Inr r'"
  shows "lint_errors r = lint_errors r'"
proof -
  from r assms(2) obtain u where u: "parseError E code True = Inr u"
    by (auto simp: composeLintSource_def rbind_Inr_iff Let_def)
  from r' assms(2) obtain u' where u': "parseError E' code True = Inr u'"
    by (auto simp: composeLintSource_def rbind_Inr_iff Let_def)
  from parseError_one_result [OF assms(1), of code] u u' have uu: "u = u'" by (simp add: one_result_def)
  show ?thesis
  proof (cases u)
    case (Some f)
    with r r' u u' uu assms(2) show ?thesis by (auto simp: composeLintSource_def)
  next
    case None
    with r u assms(2) obtain x where x: "consensus_scans E code lo True = Inr x"
      "lint_errors r = sizeErrors code @ x @ fst (analyzeContract (tools E) code)"
      by (auto simp: composeLintSource_def rbind_Inr_iff Let_def)
    from None r' u' uu assms(2) obtain x' where x': "consensus_scans E' code lo True = Inr x'"
      "lint_errors r' = sizeErrors code @ x' @ fst (analyzeContract (tools E') code)"
      by (auto simp: composeLintSource_def rbind_Inr_iff Let_def)
    from consensus_scans_one_result [OF assms(1), of code lo] x(1) x'(1) have "x = x'"
      by (simp add: one_result_def)
    with x(2) x'(2) analysis_agrees [OF assms(1) scans_parse [OF x(1)] scans_parse [OF x'(1)]]
    show ?thesis by simp
  qed
qed

lemma v8_one_result:
  "same_but_stack E E' \<Longrightarrow> one_result (checkV8Syntax E code True) (checkV8Syntax E' code True)"
  by (auto simp: same_but_stack_def agrees_opt_def overflowed_opt_def checkV8Syntax_def one_result_def
      split: option.splits if_splits dest!: spec [of _ code])

subsection \<open>What acceptance means\<close>

text \<open>Every scan returns, and the scan of an armed rule finds nothing.\<close>

definition nothing_banned ::
  "lint_host \<Rightarrow> string \<Rightarrow> syntax_opts \<Rightarrow> bool \<Rightarrow> bool" where
  "nothing_banned E code so ovf \<longleftrightarrow>
     (let T = tools E; hard = so_lintHardening so; alias = so_lintGlobalAlias so;
          chain = so_lintOptionalChain so; destr = so_lintDestructure so in
      reservedErrors E code hard ovf = Inr [] \<and> mathErrors E code hard alias chain destr ovf = Inr []
      \<and> findBannedLiterals T code ovf = Inr []
      \<and> (\<exists>hs. findBannedAsync T code hard alias chain destr ovf = Inr hs \<and> (so_bannedAsync so \<longrightarrow> hs = []))
      \<and> (\<exists>hs. findBannedGenerator T code ovf = Inr hs \<and> (so_bannedGenerator so \<longrightarrow> hs = []))
      \<and> (\<exists>hs. findBannedRest T code ovf = Inr hs \<and> (so_bannedRest so \<longrightarrow> hs = []))
      \<and> (\<exists>hs. findBannedWasm T code alias chain destr ovf = Inr hs \<and> (so_bannedWasm so \<longrightarrow> hs = []))
      \<and> (\<exists>hs. findBannedWith T code ovf = Inr hs \<and> (so_bannedWith so \<longrightarrow> hs = [])))"

lemma filter_finding_map:
  assumes "\<And>h. f_rule (g h) = r"
  shows "filter (isBlockingConsensusError so) (map g hs) = []
     \<longleftrightarrow> (isBlockingConsensusError so (err r [] None) \<longrightarrow> hs = [])"
proof -
  have "isBlockingConsensusError so (g h) = isBlockingConsensusError so (err r [] None)" for h
    using assms [of h] by (simp add: isBlockingConsensusError_def err_def)
  then show ?thesis by (cases hs) (auto simp: filter_empty_conv)
qed

lemma rules_block [simp]:
  "isBlockingConsensusError so (err ''reserved-identifier'' m l)"
  "isBlockingConsensusError so (err ''banned-math'' m l)"
  "isBlockingConsensusError so (err ''banned-literal'' m l)"
  "isBlockingConsensusError so (err ''unsupported-syntax'' m l)"
  "isBlockingConsensusError so (err ''banned-async'' m l) = so_bannedAsync so"
  "isBlockingConsensusError so (err ''banned-generator'' m l) = so_bannedGenerator so"
  "isBlockingConsensusError so (err ''banned-rest'' m l) = so_bannedRest so"
  "isBlockingConsensusError so (err ''banned-wasm'' m l) = so_bannedWasm so"
  "isBlockingConsensusError so (err ''banned-with'' m l) = so_bannedWith so"
  "\<not> isBlockingConsensusError so (err ''code-size'' m l)"
  "\<not> isBlockingConsensusError so (err ''crossCallable-not-array'' m l)"
  by (simp_all add: isBlockingConsensusError_def err_def CONSENSUS_RULES_def)

lemma analysis_never_blocks: "filter (isBlockingConsensusError so) (fst (analyzeContract T code)) = []"
proof -
  have "\<not> isBlockingConsensusError so f" if "f \<in> set (fst (checkCrossCallable obj ns))" for f obj ns
    using that by (auto simp: checkCrossCallable_def Let_def split: option.splits if_splits)
  note quiet = this
  show ?thesis
  proof (cases "parse_located T code")
    case (Inr ast)
    obtain obj ns where "findExportsObject T ast = (obj, ns)" by fastforce
    with Inr quiet [of _ obj ns] show ?thesis
      by (auto simp: analyzeContract_def filter_empty_conv split: prod.splits)
  qed (simp add: analyzeContract_def)
qed

lemma size_never_blocks: "filter (isBlockingConsensusError so) (sizeErrors code) = []"
  by (simp add: sizeErrors_def)

lemma reserved_blocks:
  "reservedErrors E code hard ovf = Inr fs \<Longrightarrow> filter (isBlockingConsensusError so) fs = [] \<longleftrightarrow> fs = []"
  by (auto simp: reservedErrors_def rbind_Inr_iff reserved_finding_def split: option.splits)

lemma finding_rules [simp]:
  "f_rule (math_finding fh) = ''banned-math''" "f_rule (exponent_finding h) = ''banned-math''"
  "f_rule (literal_finding h) = ''banned-literal''" "f_rule (async_finding h) = ''banned-async''"
  "f_rule (generator_finding h) = ''banned-generator''" "f_rule (rest_finding h) = ''banned-rest''"
  "f_rule (wasm_finding h) = ''banned-wasm''" "f_rule (with_finding h) = ''banned-with''"
  by (simp_all add: math_finding_def exponent_finding_def literal_finding_def async_finding_def
      generator_finding_def rest_finding_def wasm_finding_def with_finding_def err_def)

lemma math_blocks:
  "mathErrors E code hard a c d ovf = Inr fs \<Longrightarrow> filter (isBlockingConsensusError so) fs = [] \<longleftrightarrow> fs = []"
proof -
  assume "mathErrors E code hard a c d ovf = Inr fs"
  then obtain ms ps where "fs = map math_finding ms @ map exponent_finding ps"
    unfolding mathErrors_def rbind_Inr_iff by blast
  moreover have "filter (isBlockingConsensusError so) (map math_finding ms) = [] \<longleftrightarrow> ms = []"
    "filter (isBlockingConsensusError so) (map exponent_finding ps) = [] \<longleftrightarrow> ps = []"
    using filter_finding_map [of math_finding "''banned-math''" so ms]
      filter_finding_map [of exponent_finding "''banned-math''" so ps] by simp_all
  ultimately show ?thesis by simp
qed

lemmas map_blocks =
  filter_finding_map [of literal_finding "''banned-literal''", OF finding_rules(3), simplified]
  filter_finding_map [of async_finding "''banned-async''", OF finding_rules(4), simplified]
  filter_finding_map [of generator_finding "''banned-generator''", OF finding_rules(5), simplified]
  filter_finding_map [of rest_finding "''banned-rest''", OF finding_rules(6), simplified]
  filter_finding_map [of wasm_finding "''banned-wasm''", OF finding_rules(7), simplified]
  filter_finding_map [of with_finding "''banned-with''", OF finding_rules(8), simplified]

lemma scans_block_iff:
  "(\<exists>found. consensus_scans E code (acorn_opts so) ovf = Inr found
      \<and> filter (isBlockingConsensusError so) found = []) \<longleftrightarrow> nothing_banned E code so ovf"
proof
  assume "\<exists>found. consensus_scans E code (acorn_opts so) ovf = Inr found
      \<and> filter (isBlockingConsensusError so) found = []"
  then show "nothing_banned E code so ovf"
    unfolding consensus_scans_def Let_def rbind_Inr_iff nothing_banned_def
    by (auto simp: acorn_opts_def map_blocks reserved_blocks math_blocks)
next
  assume "nothing_banned E code so ovf"
  then show "\<exists>found. consensus_scans E code (acorn_opts so) ovf = Inr found
      \<and> filter (isBlockingConsensusError so) found = []"
    unfolding nothing_banned_def Let_def
    by (auto simp: consensus_scans_def acorn_opts_def map_blocks)
qed

lemma acorn_accepts_iff:
  "(\<exists>r. lintAcornRules E code (acorn_opts so) = Inr r \<and> filter (isBlockingConsensusError so) (lint_errors r) = [])
     \<longleftrightarrow> meter_failure E code = None \<and> nothing_banned E code so (so_lintSyntaxDepth so)"
proof -
  let ?lo = "acorn_opts so" and ?d = "so_lintSyntaxDepth so"
  have ls: "lintSource E (JStr code) ?lo = composeLintSource E (JStr code) ?lo"
    and ovf: "lo_overflowIsHostFault ?lo = Some ?d" by (simp_all add: acorn_opts_def lintSource_def)
  have acorn: "lintAcornRules E code ?lo = Inr r \<longleftrightarrow> composeLintSource E (JStr code) ?lo = Inr r" for r
    by (auto simp: lintAcornRules_def ls split: sum.splits if_splits)
  show ?thesis
  proof (cases "meter_failure E code")
    case (Some e)
    then show ?thesis
      by (auto simp: acorn composeLintSource_def ovf parseError_def size_never_blocks rbind_Inr_iff Let_def
          split: if_splits)
  next
    case None
    then have "parseError E code ?d = Inr None" by (simp add: parseError_def)
    then have "composeLintSource E (JStr code) ?lo = Inr r \<longleftrightarrow>
        (\<exists>found. consensus_scans E code ?lo ?d = Inr found \<and>
          r = \<lparr>lint_errors = sizeErrors code @ found @ fst (analyzeContract (tools E) code),
               lint_warnings = advisory_warnings E code (lo_globalAlias ?lo) (lo_optionalChain ?lo)
                 @ snd (analyzeContract (tools E) code)\<rparr>)" for r
      by (auto simp: composeLintSource_def ovf rbind_Inr_iff Let_def)
    then have "(\<exists>r. lintAcornRules E code ?lo = Inr r
        \<and> filter (isBlockingConsensusError so) (lint_errors r) = [])
      \<longleftrightarrow> (\<exists>found. consensus_scans E code ?lo ?d = Inr found
            \<and> filter (isBlockingConsensusError so) found = [])"
      unfolding acorn by (auto simp: size_never_blocks analysis_never_blocks)
    with None show ?thesis by (simp add: scans_block_iff)
  qed
qed

lemma v8_accepts_iff: "checkV8Syntax E code ovf = Inr None \<longleftrightarrow> isolate_unavailable E = None \<and> v8_compile E code = None"
  by (auto simp: checkV8Syntax_def split: option.splits if_splits)

lemma first_message_None:
  "(case fs of [] \<Rightarrow> Inr None | f # _ \<Rightarrow> Inr (Some (f_message f))) = Inr None \<longleftrightarrow> fs = []"
  by (cases fs) simp_all

lemma accepted_iff:
  "validateSyntax E nesting code so = Inr None \<longleftrightarrow>
     preParseFinding E code (so_lintSyntaxDepth so \<or> nesting) (so_lintSyntaxDepth so) = None
     \<and> isolate_unavailable E = None \<and> v8_compile E code = None \<and> meter_failure E code = None
     \<and> nothing_banned E code so (so_lintSyntaxDepth so)"
proof -
  let ?P = "preParseFinding E code (so_lintSyntaxDepth so \<or> nesting) (so_lintSyntaxDepth so) = None"
    and ?V = "checkV8Syntax E code (so_lintSyntaxDepth so) = Inr None"
  have "validateSyntax E nesting code so = Inr None \<longleftrightarrow> ?P \<and> ?V
      \<and> (\<exists>r. lintAcornRules E code (acorn_opts so) = Inr r
            \<and> filter (isBlockingConsensusError so) (lint_errors r) = [])"
    unfolding validateSyntax_def
    by (cases "preParseFinding E code (so_lintSyntaxDepth so \<or> nesting) (so_lintSyntaxDepth so)")
      (auto simp: rbind_Inr_iff first_message_None split: option.splits)
  then show ?thesis by (simp only: acorn_accepts_iff v8_accepts_iff conj_assoc)
qed

subsection \<open>The concrete machines\<close>

lemma demo_nothing_banned: "nothing_banned demo_host code all_armed True"
  using demo_scans demo_rests
  by (simp add: nothing_banned_def all_armed_def demo_host_def demo_tools_def reservedErrors_def mathErrors_def
      findReservedIdentifier_def findReservedControlBinding_def findBannedMathCalls_def findBannedExponentiation_def
      findBannedLiterals_def findBannedAsync_def findBannedGenerator_def findBannedRest_def findBannedWasm_def
      findBannedWith_def scan_source_def reserved_finding_def del: concat_eq_Nil_conv)

lemma nothing_banned_tools: "tools E = tools E' \<Longrightarrow> nothing_banned E code so ovf = nothing_banned E' code so ovf"
  by (simp add: nothing_banned_def reservedErrors_def mathErrors_def Let_def)

lemma shallow_simps [simp]:
  "tools shallow_host = tools demo_host" "tokenize shallow_host = tokenize demo_host"
  by (simp_all add: shallow_host_def)

lemma demo_accepted: "validateSyntax demo_host nesting code all_armed = Inr None"
  using demo_nothing_banned [of code] demo_depths
  by (simp add: accepted_iff preParseFinding_def all_armed_def demo_host_def demo_tools_def meter_failure_def
      meterCode_def split: option.split)

lemma shallow_accepted: "code \<noteq> ''deep'' \<Longrightarrow> validateSyntax shallow_host nesting code all_armed = Inr None"
  using demo_nothing_banned [of code] demo_depths nothing_banned_tools [of shallow_host demo_host]
  by (simp add: accepted_iff preParseFinding_def)
    (simp add: all_armed_def shallow_host_def demo_host_def demo_tools_def meter_failure_def meterCode_def
      split: option.split)

lemma demo_overflow: "isHostStackOverflow (EOther True ''Maximum call stack size exceeded'')"
  by (simp add: to_lower_def starts_with_def)

lemma demo_same_but_stack: "same_but_stack demo_host shallow_host"
  using demo_overflow
  by (simp add: same_but_stack_def shallow_host_def demo_host_def agrees_def agrees_opt_def overflowed_opt_def
      del: isHostStackOverflow.simps)

subsection \<open>Verdicts and stacks\<close>

text \<open>C8. A deploy verdict is a property of the source, not of the machine: with the syntax-depth rule
  armed, two machines that run the same libraries over native stacks of different sizes, one of which may
  overflow in the parser, the metering passes, a scanner or V8 where the other does not, and each of which
  may fail to spawn an isolate, agree on the verdict and on its text whenever both reach one. What an
  overflow yields instead is a host fault, which no block records.\<close>

theorem verdicts_survive_the_stack:
  assumes "same_but_stack E E'" "so_lintSyntaxDepth so"
    and "validateSyntax E nesting code so = Inr v" "validateSyntax E' nesting code so = Inr v'"
  shows "v = v'"
proof -
  from assms(1) have "tokenize E = tokenize E'" by (simp add: same_but_stack_def)
  then have pre: "preParseFinding E code n d = preParseFinding E' code n d" for n d
    by (simp add: preParseFinding_def split: option.split)
  note v8 = v8_one_result [OF assms(1), of code]
  note lint = lint_errors_agree [OF assms(1), of "acorn_opts so" code]
  from assms(2) have o: "lo_overflowIsHostFault (acorn_opts so) = Some True"
    and ls: "lintSource X (JStr code) (acorn_opts so) = composeLintSource X (JStr code) (acorn_opts so)" for X
    by (simp_all add: acorn_opts_def lintSource_def)
  show ?thesis
  proof (cases "preParseFinding E code True True")
    case (Some f)
    with assms pre show ?thesis by (simp add: validateSyntax_def)
  next
    case None
    with assms pre obtain w w' where w: "checkV8Syntax E code True = Inr w" "checkV8Syntax E' code True = Inr w'"
      by (auto simp: validateSyntax_def rbind_Inr_iff)
    with v8 have ww: "w' = w" by (simp add: one_result_def)
    show ?thesis
    proof (cases w)
      case (Some m)
      with w ww have "checkV8Syntax E code True = Inr (Some m)" "checkV8Syntax E' code True = Inr (Some m)"
        by simp_all
      with assms(2-4) pre None show ?thesis by (auto simp: validateSyntax_def)
    next
      case w0: None
      with w ww have n: "checkV8Syntax E code True = Inr None" "checkV8Syntax E' code True = Inr None"
        by simp_all
      from assms(2,3) None n(1) obtain r where r1: "lintAcornRules E code (acorn_opts so) = Inr r"
        by (auto simp: validateSyntax_def rbind_Inr_iff)
      from None pre have "preParseFinding E' code True True = None" by simp
      with assms(2,4) n(2) obtain r' where r2: "lintAcornRules E' code (acorn_opts so) = Inr r'"
        by (auto simp: validateSyntax_def rbind_Inr_iff)
      from r1 have "composeLintSource E (JStr code) (acorn_opts so) = Inr r"
        by (auto simp: lintAcornRules_def ls split: sum.splits if_splits)
      moreover from r2 have "composeLintSource E' (JStr code) (acorn_opts so) = Inr r'"
        by (auto simp: lintAcornRules_def ls split: sum.splits if_splits)
      ultimately have "lint_errors r = lint_errors r'" by (rule lint [OF o])
      with assms(2-4) pre None n r1 r2 show ?thesis by (simp add: validateSyntax_def)
    qed
  qed
qed

theorem verdicts_survive_the_stack_witness:
  "\<exists>v. validateSyntax demo_host False ''f'' all_armed = Inr v \<and> validateSyntax shallow_host False ''f'' all_armed = Inr v
     \<and> passes_overflow demo_host ''deep'' \<noteq> passes_overflow shallow_host ''deep''"
proof -
  have f: "''f'' \<noteq> ''deep''" by simp
  obtain v where v: "validateSyntax shallow_host False ''f'' all_armed = Inr v"
    using shallow_accepted [OF f] by blast
  have a: "so_lintSyntaxDepth all_armed" by (simp add: all_armed_def)
  from verdicts_survive_the_stack [OF demo_same_but_stack a demo_accepted v] have "v = None" by simp
  with v demo_accepted show ?thesis by (simp add: demo_host_def shallow_host_def)
qed

text \<open>C16. The early stop of the syntax-depth scan decides exactly what the full scan would: the scan that gives up
  at the first closing point whose running bound passes the limit reports a hit on precisely the sources whose
  full measure exceeds the limit, whatever the tokens are.\<close>

theorem early_stop_decides_the_limit:
  "findSyntaxDepth tokenizer (JStr src) (Some l) \<noteq> None \<longleftrightarrow> l < measureSyntaxDepth tokenizer (JStr src)"
  by (rule findSyntaxDepth_stop)

end
