(* ===== verification/LintArming.thy ===== *)
theory LintArming
  imports LintProps
begin

text \<open>
  Monotonicity of the deploy gate: what a stronger setting of the lint lets pass, a weaker one lets pass,
  from the resolution of the global object up to the verdict.
\<close>

subsection \<open>Arming a rule only rejects more\<close>

lemma isGlobalObjectRef_mono:
  "isGlobalObjectRef n a c \<Longrightarrow> (a \<longrightarrow> a') \<Longrightarrow> (c \<longrightarrow> c') \<Longrightarrow> isGlobalObjectRef n a' c'"
proof (induction n a c rule: isGlobalObjectRef.induct)
  case (1 n a c)
  from "1.prems"(1) have "c \<or> \<not> is_type ''ChainExpression'' n"
    by (subst (asm) isGlobalObjectRef.simps) (auto simp: unwrap_chain_def is_type_def Let_def split: if_splits)
  with "1.prems"(3) have u: "unwrap_chain c' n = unwrap_chain c n" by (auto simp: unwrap_chain_def)
  from "1.prems"(1) show ?case
    by (subst isGlobalObjectRef.simps, subst (asm) isGlobalObjectRef.simps)
      (use "1.prems"(2,3) "1.IH" u in \<open>auto simp: Let_def split: option.splits if_splits\<close>)
qed

lemma object_is_global_mono:
  "object_is_global n a c \<Longrightarrow> (a \<longrightarrow> a') \<Longrightarrow> (c \<longrightarrow> c') \<Longrightarrow> object_is_global n a' c'"
  by (auto simp: object_is_global_def split: option.splits dest: isGlobalObjectRef_mono)

lemma isMathObjectRef_mono:
  assumes "isMathObjectRef n a c" "a \<longrightarrow> a'" "c \<longrightarrow> c'"
  shows "isMathObjectRef n a' c'"
proof -
  from assms(1) have "c \<or> \<not> is_type ''ChainExpression'' n"
    by (auto simp: isMathObjectRef_def unwrap_chain_def is_type_def Let_def split: if_splits)
  with assms(3) have "unwrap_chain c' n = unwrap_chain c n" by (auto simp: unwrap_chain_def)
  with assms show ?thesis
    by (auto simp: isMathObjectRef_def Let_def split: if_splits dest: object_is_global_mono)
qed

lemma path_ref_mono:
  "isGlobalObjectPathRef n p a c \<Longrightarrow> (a \<longrightarrow> a') \<Longrightarrow> (c \<longrightarrow> c') \<Longrightarrow> isGlobalObjectPathRef n p a' c'"
  "isMathObjectPathRef n p a c \<Longrightarrow> (a \<longrightarrow> a') \<Longrightarrow> (c \<longrightarrow> c') \<Longrightarrow> isMathObjectPathRef n p a' c'"
proof -
  show *: "isGlobalObjectPathRef n p a c \<Longrightarrow> (a \<longrightarrow> a') \<Longrightarrow> (c \<longrightarrow> c') \<Longrightarrow> isGlobalObjectPathRef n p a' c'" for n p
    by (auto simp: isGlobalObjectPathRef_def split: if_splits dest: isGlobalObjectRef_mono)
  show "isMathObjectPathRef n p a c \<Longrightarrow> (a \<longrightarrow> a') \<Longrightarrow> (c \<longrightarrow> c') \<Longrightarrow> isMathObjectPathRef n p a' c'"
    by (auto simp: isMathObjectPathRef_def split: if_splits dest: isMathObjectRef_mono *)
qed

text \<open>What the stronger setting lets pass, the weaker one lets pass.\<close>

lemma markMember_mono: "markMember h' m n = [] \<Longrightarrow> (h \<longrightarrow> h') \<Longrightarrow> markMember h m n = []"
  by (auto simp: markMember_def split: option.splits if_splits)

lemma math_visitor_mono:
  assumes "math_visitor h' a' c' d' n = []" "h \<longrightarrow> h'" "a \<longrightarrow> a'" "c \<longrightarrow> c'" "d \<longrightarrow> d'"
  shows "math_visitor h a c d n = []"
proof -
  have m: "markMember h m k = []" if "markMember h' m k = []" for m k
    using that assms(2) by (rule markMember_mono)
  have p: "isMathObjectPathRef k q a' c'" if "isMathObjectPathRef k q a c" for k q
    using that assms(3,4) by (rule path_ref_mono(2))
  have r: "isMathObjectRef k a' c'" if "isMathObjectRef k a c" for k
    using that assms(3,4) by (rule isMathObjectRef_mono)
  have "markDestructuredMath h a c n = []" if "markDestructuredMath h' a' c' n = []"
    using that m p by (auto simp: markDestructuredMath_def split: if_splits)
  with assms(1,5) m r show ?thesis
    by (auto simp: math_visitor_def split: if_splits option.splits)
qed

lemma entries_mono:
  assumes "destructuredGlobalEntries n x a' c' = []" "a \<longrightarrow> a'" "c \<longrightarrow> c'"
  shows "destructuredGlobalEntries n x a c = []"
  using assms path_ref_mono(1) by (fastforce simp: destructuredGlobalEntries_def filter_empty_conv)

lemma global_member_mono:
  "global_member n a c = Some x \<Longrightarrow> (a \<longrightarrow> a') \<Longrightarrow> (c \<longrightarrow> c') \<Longrightarrow> global_member n a' c' = Some x"
  by (auto simp: global_member_def split: if_splits dest: object_is_global_mono)

lemma async_visitor_mono:
  assumes "async_visitor h a' c' d' v = []" "a \<longrightarrow> a'" "c \<longrightarrow> c'" "d \<longrightarrow> d'"
  shows "async_visitor h a c d v = []"
proof -
  have "global_member (v_node v) a c \<noteq> Some ''Promise''" if "global_member (v_node v) a' c' \<noteq> Some ''Promise''"
    using that assms(2,3) global_member_mono by blast
  moreover have "destructuredGlobalEntries (v_node v) ''Promise'' a c = []"
    if "destructuredGlobalEntries (v_node v) ''Promise'' a' c' = []"
    using that assms(2,3) by (rule entries_mono)
  moreover have "is_type ''MemberExpression'' (v_node v) \<Longrightarrow> \<not> is_type ''Identifier'' (v_node v)"
    by (simp add: is_type_def)
  ultimately show ?thesis using assms(1,4)
    by (cases "is_type ''VariableDeclarator'' (v_node v) \<or> is_type ''AssignmentExpression'' (v_node v)";
        cases "is_type ''MemberExpression'' (v_node v)"; cases h) (simp_all add: async_visitor_def Let_def split: if_splits)
qed

lemma wasm_visitor_mono:
  assumes "wasm_visitor a' c' d' v = []" "a \<longrightarrow> a'" "c \<longrightarrow> c'" "d \<longrightarrow> d'"
  shows "wasm_visitor a c d v = []"
proof -
  have "global_member (v_node v) a c \<noteq> Some ''WebAssembly''"
    if "global_member (v_node v) a' c' \<noteq> Some ''WebAssembly''"
    using that assms(2,3) global_member_mono by blast
  moreover have "destructuredGlobalEntries (v_node v) ''WebAssembly'' a c = []"
    if "destructuredGlobalEntries (v_node v) ''WebAssembly'' a' c' = []"
    using that assms(2,3) by (rule entries_mono)
  moreover have "is_type ''MemberExpression'' (v_node v) \<Longrightarrow> \<not> is_type ''Identifier'' (v_node v)"
    by (simp add: is_type_def)
  ultimately show ?thesis using assms(1,4)
    by (cases "is_type ''VariableDeclarator'' (v_node v) \<or> is_type ''AssignmentExpression'' (v_node v)";
        cases "is_type ''MemberExpression'' (v_node v)") (simp_all add: wasm_visitor_def Let_def split: if_splits)
qed

text \<open>
  \<open>so\<close> arms no rule \<open>so'\<close> does not. The hardening bundle also lifts a rejection, of a local that shadows
  Promise, so a set that arms the async rule without the bundle is not below one with it.
\<close>

definition no_stricter :: "syntax_opts \<Rightarrow> syntax_opts \<Rightarrow> bool" where
  "no_stricter so so' \<longleftrightarrow>
     (so_bannedAsync so \<longrightarrow> so_bannedAsync so' \<and> so_lintHardening so = so_lintHardening so')
     \<and> (so_lintHardening so \<longrightarrow> so_lintHardening so')
     \<and> (so_bannedGenerator so \<longrightarrow> so_bannedGenerator so') \<and> (so_bannedWasm so \<longrightarrow> so_bannedWasm so')
     \<and> (so_lintGlobalAlias so \<longrightarrow> so_lintGlobalAlias so') \<and> (so_bannedRest so \<longrightarrow> so_bannedRest so')
     \<and> (so_lintOptionalChain so \<longrightarrow> so_lintOptionalChain so') \<and> (so_bannedWith so \<longrightarrow> so_bannedWith so')
     \<and> (so_lintDestructure so \<longrightarrow> so_lintDestructure so')
     \<and> (so_lintSyntaxDepth so \<longrightarrow> so_lintSyntaxDepth so')"

lemma scan_weaker:
  assumes "scan_source p code ovf' z f' = Inr h'" "ovf \<longrightarrow> ovf'"
    and "\<And>ast. b \<Longrightarrow> f' ast = z \<Longrightarrow> f ast = z"
  shows "\<exists>h. scan_source p code ovf z f = Inr h \<and> (b \<longrightarrow> h' = z \<longrightarrow> h = z)"
  using assms by (auto simp: scan_source_def split: sum.splits if_splits)

lemma reserved_weaker:
  assumes "reservedErrors E code h' ovf' = Inr []" "ovf \<longrightarrow> ovf'" "h \<longrightarrow> h'"
  shows "reservedErrors E code h ovf = Inr []"
proof -
  from assms(1) have r: "findReservedIdentifier (parse_plain (tools E)) (full_walk (tools E)) code ovf' = Inr None"
    and c: "h' \<longrightarrow> findReservedControlBinding (tools E) code ovf' = Inr None"
    by (auto simp: reservedErrors_def rbind_Inr_iff reserved_finding_def split: option.splits if_splits)
  from r assms(2) have "findReservedIdentifier (parse_plain (tools E)) (full_walk (tools E)) code ovf = Inr None"
    by (auto simp: findReservedIdentifier_def split: sum.splits if_splits)
  moreover from c assms(2,3) have "h \<longrightarrow> findReservedControlBinding (tools E) code ovf = Inr None"
    by (auto simp: findReservedControlBinding_def scan_source_def split: sum.splits if_splits)
  ultimately show ?thesis by (auto simp: reservedErrors_def reserved_finding_def)
qed

lemma math_weaker:
  assumes "mathErrors E code h' a' c' d' ovf' = Inr []" "ovf \<longrightarrow> ovf'" "h \<longrightarrow> h'" "a \<longrightarrow> a'" "c \<longrightarrow> c'" "d \<longrightarrow> d'"
  shows "mathErrors E code h a c d ovf = Inr []"
proof -
  from assms(1) have m: "findBannedMathCalls (tools E) code h' a' c' d' ovf' = Inr []"
    and x: "h' \<longrightarrow> findBannedExponentiation (tools E) code ovf' = Inr []"
    by (auto simp: mathErrors_def rbind_Inr_iff split: if_splits)
  have "concat (map (math_visitor h a c d) ns) = []" if True "concat (map (math_visitor h' a' c' d') ns) = []" for ns
    using that math_visitor_mono [OF _ assms(3-6)] by auto
  then have "\<exists>hs. findBannedMathCalls (tools E) code h a c d ovf = Inr hs \<and> (True \<longrightarrow> ([] :: flagged_hit list) = [] \<longrightarrow> hs = [])"
    unfolding findBannedMathCalls_def
    by (rule scan_weaker [OF m [unfolded findBannedMathCalls_def] assms(2)])
  then have "findBannedMathCalls (tools E) code h a c d ovf = Inr []" by simp
  moreover have "h \<longrightarrow> findBannedExponentiation (tools E) code ovf = Inr []"
    using x assms(2,3) by (auto simp: findBannedExponentiation_def scan_source_def split: sum.splits if_splits)
  ultimately show ?thesis by (auto simp: mathErrors_def)
qed

lemma async_weaker:
  assumes "findBannedAsync T code h' a' c' d' ovf' = Inr hs'" "ovf \<longrightarrow> ovf'" "a \<longrightarrow> a'" "c \<longrightarrow> c'" "d \<longrightarrow> d'"
  shows "\<exists>hs. findBannedAsync T code h a c d ovf = Inr hs \<and> (h = h' \<longrightarrow> hs' = [] \<longrightarrow> hs = [])"
proof -
  have "concat (map (async_visitor h a c d) vs) = []"
    if "h = h'" "concat (map (async_visitor h' a' c' d') vs) = []" for vs
    using that async_visitor_mono [OF _ assms(3-5)] by auto
  then show ?thesis unfolding findBannedAsync_def
    by (rule scan_weaker [OF assms(1) [unfolded findBannedAsync_def] assms(2)])
qed

lemma wasm_weaker:
  assumes "findBannedWasm T code a' c' d' ovf' = Inr hs'" "ovf \<longrightarrow> ovf'" "a \<longrightarrow> a'" "c \<longrightarrow> c'" "d \<longrightarrow> d'"
  shows "\<exists>hs. findBannedWasm T code a c d ovf = Inr hs \<and> (True \<longrightarrow> hs' = [] \<longrightarrow> hs = [])"
proof -
  have "concat (map (wasm_visitor a c d) vs) = []" if True "concat (map (wasm_visitor a' c' d') vs) = []" for vs
    using that wasm_visitor_mono [OF _ assms(3-5)] by auto
  then show ?thesis unfolding findBannedWasm_def
    by (rule scan_weaker [OF assms(1) [unfolded findBannedWasm_def] assms(2)])
qed

lemma plain_weaker:
  "findBannedGenerator T code ovf' = Inr hs \<Longrightarrow> (ovf \<longrightarrow> ovf') \<Longrightarrow> findBannedGenerator T code ovf = Inr hs"
  "findBannedRest T code ovf' = Inr hs \<Longrightarrow> (ovf \<longrightarrow> ovf') \<Longrightarrow> findBannedRest T code ovf = Inr hs"
  "findBannedWith T code ovf' = Inr hs \<Longrightarrow> (ovf \<longrightarrow> ovf') \<Longrightarrow> findBannedWith T code ovf = Inr hs"
  "findBannedLiterals T code ovf' = Inr hs \<Longrightarrow> (ovf \<longrightarrow> ovf') \<Longrightarrow> findBannedLiterals T code ovf = Inr hs"
  by (auto simp: findBannedGenerator_def findBannedRest_def findBannedWith_def findBannedLiterals_def
      scan_source_def split: sum.splits if_splits)

lemma nothing_banned_mono:
  assumes "nothing_banned E code so' ovf'" "no_stricter so so'" "ovf \<longrightarrow> ovf'"
  shows "nothing_banned E code so ovf"
proof -
  let ?T = "tools E"
  from assms(2) have f: "so_lintHardening so \<longrightarrow> so_lintHardening so'" "so_lintGlobalAlias so \<longrightarrow> so_lintGlobalAlias so'"
    "so_lintOptionalChain so \<longrightarrow> so_lintOptionalChain so'" "so_lintDestructure so \<longrightarrow> so_lintDestructure so'"
    by (simp_all add: no_stricter_def)
  from assms(1) have n: "reservedErrors E code (so_lintHardening so') ovf' = Inr []"
    "mathErrors E code (so_lintHardening so') (so_lintGlobalAlias so') (so_lintOptionalChain so')
       (so_lintDestructure so') ovf' = Inr []"
    "findBannedLiterals ?T code ovf' = Inr []"
    by (simp_all add: nothing_banned_def Let_def)
  from assms(1) obtain ga re wi where g: "findBannedGenerator ?T code ovf' = Inr ga" "so_bannedGenerator so' \<longrightarrow> ga = []"
    "findBannedRest ?T code ovf' = Inr re" "so_bannedRest so' \<longrightarrow> re = []"
    "findBannedWith ?T code ovf' = Inr wi" "so_bannedWith so' \<longrightarrow> wi = []"
    by (auto simp: nothing_banned_def Let_def)
  from assms(1) obtain ay wa where a: "findBannedAsync ?T code (so_lintHardening so') (so_lintGlobalAlias so')
      (so_lintOptionalChain so') (so_lintDestructure so') ovf' = Inr ay" "so_bannedAsync so' \<longrightarrow> ay = []"
    and w: "findBannedWasm ?T code (so_lintGlobalAlias so') (so_lintOptionalChain so') (so_lintDestructure so') ovf'
      = Inr wa" "so_bannedWasm so' \<longrightarrow> wa = []"
    by (auto simp: nothing_banned_def Let_def)
  from async_weaker [OF a(1) assms(3) f(2-4), of "so_lintHardening so"] obtain ay' where
    ay: "findBannedAsync ?T code (so_lintHardening so) (so_lintGlobalAlias so) (so_lintOptionalChain so)
      (so_lintDestructure so) ovf = Inr ay'"
    "so_lintHardening so = so_lintHardening so' \<longrightarrow> ay = [] \<longrightarrow> ay' = []" by blast
  from wasm_weaker [OF w(1) assms(3) f(2-4)] obtain wa' where
    wa: "findBannedWasm ?T code (so_lintGlobalAlias so) (so_lintOptionalChain so)
      (so_lintDestructure so) ovf = Inr wa'" "wa = [] \<longrightarrow> wa' = []" by blast
  from assms(2) a(2) w(2) g(2,4,6) ay(2) wa(2)
  have armed: "so_bannedAsync so \<longrightarrow> ay' = []" "so_bannedWasm so \<longrightarrow> wa' = []" "so_bannedGenerator so \<longrightarrow> ga = []"
    "so_bannedRest so \<longrightarrow> re = []" "so_bannedWith so \<longrightarrow> wi = []"
    unfolding no_stricter_def by blast+
  show ?thesis
    unfolding nothing_banned_def Let_def
    using reserved_weaker [OF n(1) assms(3) f(1)] math_weaker [OF n(2) assms(3) f] plain_weaker(4) [OF n(3) assms(3)]
      plain_weaker(1) [OF g(1) assms(3)] plain_weaker(2) [OF g(3) assms(3)] plain_weaker(3) [OF g(5) assms(3)]
      ay(1) wa(1) armed
    by blast
qed

text \<open>C15. Activations only tighten the deploy gate: a source that validates with a set of rules armed
  validates with every smaller set, the depth rules and the refinements of the global-object and Math
  resolution included, so that no activation height can make a rejected contract deployable. The one
  relaxation of the rule set, the shadowed local Promise that the hardening bundle accepts, is what
  \<open>no_stricter\<close> excludes.\<close>

theorem arming_rules_only_rejects:
  assumes "validateSyntax E nesting' code so' = Inr None"
    and "no_stricter so so'" "nesting \<longrightarrow> nesting'"
  shows "validateSyntax E nesting code so = Inr None"
proof -
  let ?d = "so_lintSyntaxDepth so" and ?d' = "so_lintSyntaxDepth so'"
  from assms(2) have d: "?d \<longrightarrow> ?d'" by (simp add: no_stricter_def)
  from assms(1) have a: "preParseFinding E code (?d' \<or> nesting') ?d' = None" "isolate_unavailable E = None"
    "v8_compile E code = None" "meter_failure E code = None" "nothing_banned E code so' ?d'"
    by (simp_all add: accepted_iff)
  from a(1) d assms(3) have "preParseFinding E code (?d \<or> nesting) ?d = None"
    by (auto simp: preParseFinding_def split: option.splits if_splits)
  with a nothing_banned_mono [OF a(5) assms(2) d] show ?thesis by (simp add: accepted_iff)
qed

lemma none_stricter_than_all: "no_stricter none_armed all_armed"
  by (simp add: no_stricter_def none_armed_def all_armed_def)

theorem arming_rules_only_rejects_witness: "validateSyntax demo_host False ''f'' none_armed = Inr None"
  by (rule arming_rules_only_rejects [OF demo_accepted [of False] none_stricter_than_all]) simp

end
