(* ===== verification/LintClean.thy ===== *)
theory LintClean
  imports LintProps AllocatorProps
begin

text \<open>
  What an accepted source is like: free of every banned construct, and with no rest pattern the metering
  transform cannot charge. The lint's classification of rest positions and the transform's rewrite are
  two pieces of code that have to agree; \<open>metered_rest\<close> is one side, \<open>convertRestPattern\<close> the other.
\<close>

subsection \<open>Where the rest elements of a tree stand\<close>

text \<open>Every node of a tree with the property it hangs from and the stack above it.\<close>

fun occurrences :: "string \<Rightarrow> node \<Rightarrow> above \<Rightarrow> (string \<times> node \<times> above) list"
and prop_occurrences :: "attr list \<Rightarrow> above \<Rightarrow> (string \<times> node \<times> above) list"
and list_occurrences :: "string \<Rightarrow> node option list \<Rightarrow> above \<Rightarrow> (string \<times> node \<times> above) list"
where
  "occurrences slot (Node t ps) stack =
     (slot, Node t ps, stack) # prop_occurrences ps ((slot, Node t ps) # stack)"
| "prop_occurrences [] stack = []"
| "prop_occurrences (Child k c # ps) stack = occurrences k c stack @ prop_occurrences ps stack"
| "prop_occurrences (Children k cs # ps) stack = list_occurrences k cs stack @ prop_occurrences ps stack"
| "prop_occurrences (Scalar k v # ps) stack = prop_occurrences ps stack"
| "list_occurrences k [] stack = []"
| "list_occurrences k (None # cs) stack = list_occurrences k cs stack"
| "list_occurrences k (Some c # cs) stack = occurrences k c stack @ list_occurrences k cs stack"

lemma collect_occurrences:
  "collectBannedRest slot n stack = concat (map (\<lambda>(_, m, st). rest_hit st m) (occurrences slot n stack))"
  "collect_rest_props ps stack = concat (map (\<lambda>(_, m, st). rest_hit st m) (prop_occurrences ps stack))"
  "collect_rest_list k cs stack = concat (map (\<lambda>(_, m, st). rest_hit st m) (list_occurrences k cs stack))"
  by (induction slot n stack and ps stack and k cs stack rule: occurrences_prop_occurrences_list_occurrences.induct)
    simp_all

lemma occurrences_nodes:
  "map (\<lambda>(_, m, _). m) (occurrences slot n stack) = nodes n"
  "map (\<lambda>(_, m, _). m) (prop_occurrences ps stack) = prop_nodes ps"
  "map (\<lambda>(_, m, _). m) (list_occurrences k cs stack) = list_nodes cs"
  by (induction slot n stack and ps stack and k cs stack rule: occurrences_prop_occurrences_list_occurrences.induct)
    simp_all

lemma occurs_in: "(k, m, st) \<in> set (occurrences slot n stack) \<Longrightarrow> m \<in> set (nodes n)"
  unfolding occurrences_nodes(1) [of slot n stack, symmetric] by force

lemma occurs: "m \<in> set (nodes n) \<Longrightarrow> \<exists>k st. (k, m, st) \<in> set (occurrences slot n stack)"
  unfolding occurrences_nodes(1) [of slot n stack, symmetric] by force

text \<open>The child hangs from the named property of the parent.\<close>

definition hangs :: "node \<Rightarrow> string \<Rightarrow> node \<Rightarrow> bool" where
  "hangs p k c \<longleftrightarrow> Child k c \<in> set (props p) \<or> (\<exists>cs. Children k cs \<in> set (props p) \<and> Some c \<in> set cs)"

definition from_above :: "(string \<times> node \<times> above) set \<Rightarrow> string \<times> node \<times> above \<Rightarrow> bool" where
  "from_above S x \<longleftrightarrow> (case x of (k, m, st) \<Rightarrow> \<exists>j p st'. st = (j, p) # st' \<and> (j, p, st') \<in> S \<and> hangs p k m)"

lemma from_above_mono: "from_above S x \<Longrightarrow> S \<subseteq> S' \<Longrightarrow> from_above S' x"
  by (auto simp: from_above_def)

lemma occurrences_from_above:
  "x \<in> set (occurrences slot n stack)
     \<Longrightarrow> x = (slot, n, stack) \<or> from_above (set (occurrences slot n stack)) x"
  "x \<in> set (prop_occurrences ps stack) \<Longrightarrow> stack = (j, p) # st' \<Longrightarrow> set ps \<subseteq> set (props p)
     \<Longrightarrow> from_above (insert (j, p, st') (set (prop_occurrences ps stack))) x"
  "x \<in> set (list_occurrences k cs stack) \<Longrightarrow> stack = (j, p) # st'
     \<Longrightarrow> Children k cs0 \<in> set (props p) \<Longrightarrow> set cs \<subseteq> set cs0
     \<Longrightarrow> from_above (insert (j, p, st') (set (list_occurrences k cs stack))) x"
proof (induction slot n stack and ps stack and k cs stack arbitrary: x and x j p st' and x j p st' cs0
    rule: occurrences_prop_occurrences_list_occurrences.induct)
  case (1 slot t ps stack)
  then show ?case using "1.IH" [of x slot "Node t ps" stack] by (cases x) auto
next
  case (3 k c ps stack)
  from "3.prems"(1) consider "x \<in> set (occurrences k c stack)" | "x \<in> set (prop_occurrences ps stack)" by auto
  then show ?case
  proof cases
    case 1
    with "3.IH"(1) [OF 1] "3.prems"(2,3) show ?thesis
      by (auto simp: from_above_def hangs_def)
  next
    case 2
    with "3.IH"(2) [OF 2 "3.prems"(2)] "3.prems"(3) show ?thesis by (auto intro: from_above_mono)
  qed
next
  case (4 k cs ps stack)
  from "4.prems"(1) consider "x \<in> set (list_occurrences k cs stack)" | "x \<in> set (prop_occurrences ps stack)" by auto
  then show ?case
  proof cases
    case 1
    with "4.IH"(1) [OF 1 "4.prems"(2), of cs] "4.prems"(3) show ?thesis by (auto intro: from_above_mono)
  next
    case 2
    with "4.IH"(2) [OF 2 "4.prems"(2)] "4.prems"(3) show ?thesis by (auto intro: from_above_mono)
  qed
next
  case (8 k c cs stack)
  from "8.prems"(1) consider "x \<in> set (occurrences k c stack)" | "x \<in> set (list_occurrences k cs stack)" by auto
  then show ?case
  proof cases
    case 1
    with "8.IH"(1) [OF 1] "8.prems"(2-4) show ?thesis
      by (auto simp: from_above_def hangs_def)
  next
    case 2
    with "8.IH"(2) [OF 2 "8.prems"(2,3)] "8.prems"(4) show ?thesis by (auto intro: from_above_mono)
  qed
qed auto

subsection \<open>Lint and transform in lockstep\<close>

text \<open>
  The shape acorn gives its trees, as far as rest elements go: an object has one property of a name, the
  rest of a pattern is one of its elements or properties, and \<open>id\<close>, \<open>init\<close> and \<open>left\<close> hold one node.
\<close>

definition rest_shape :: "node \<Rightarrow> attr \<Rightarrow> bool" where
  "rest_shape m a =
     (case a of
        Child k c \<Rightarrow> is_type ''ArrayPattern'' m \<or> is_type ''ObjectPattern'' m \<longrightarrow> \<not> is_type ''RestElement'' c
      | Children k cs \<Rightarrow> k \<noteq> ''id'' \<and> k \<noteq> ''left''
          \<and> (has_type ''RestElement'' cs \<longrightarrow> (is_type ''ArrayPattern'' m \<longrightarrow> k = ''elements'')
               \<and> (is_type ''ObjectPattern'' m \<longrightarrow> k = ''properties''))
      | Scalar k v \<Rightarrow> True)"

definition estree :: "node \<Rightarrow> bool" where
  "estree n \<longleftrightarrow>
     list_all (\<lambda>m. distinct (map prop_key (props m)) \<and> list_all (rest_shape m) (props m)) (nodes n)"

lemma estreeD:
  "estree ast \<Longrightarrow> m \<in> set (nodes ast) \<Longrightarrow> distinct (map prop_key (props m))"
  "estree ast \<Longrightarrow> m \<in> set (nodes ast) \<Longrightarrow> a \<in> set (props m) \<Longrightarrow> rest_shape m a"
  by (auto simp: estree_def list_all_iff)

lemma property_distinct: "distinct (map prop_key ps) \<Longrightarrow> p \<in> set ps \<Longrightarrow> property ps (prop_key p) = Some p"
  by (induction ps) auto

text \<open>\<open>d\<close> destructures a source the transform charges, with \<open>r\<close> the rest of its pattern.\<close>

definition charged_rest :: "node \<Rightarrow> node \<Rightarrow> bool" where
  "charged_rest d r \<longleftrightarrow>
     (\<exists>slot src p. (slot, src) \<in> {(''id'', ''init''), (''left'', ''right'')} \<and> child d slot = Some p
        \<and> (Some r \<in> set (children p ''elements'') \<or> Some r \<in> set (children p ''properties''))
        \<and> convertRestPattern True d = Some (put (Child src (meterRestSource (Some p) (kid d src))) d)
        \<and> \<not> bare_rest (Some p) (meterRestSource (Some p) (kid d src))
        \<and> (restKind (Some p) = Some ''obj'' \<or> restKind (Some p) = Some ''arr''))"

lemma estree_hangs:
  assumes "estree ast" "p \<in> set (nodes ast)" "hangs p k r" "is_type ''RestElement'' r"
    "is_type ''ArrayPattern'' p \<or> is_type ''ObjectPattern'' p"
  shows "(if is_type ''ArrayPattern'' p then k = ''elements'' else k = ''properties'') \<and> Some r \<in> set (children p k)
    \<and> has_type ''RestElement'' (children p k)"
proof -
  note shape = estreeD(2) [OF assms(1,2)]
  have "Child k r \<notin> set (props p)" using shape [of "Child k r"] assms(4,5) by (auto simp: rest_shape_def)
  with assms(3) obtain cs where cs: "Children k cs \<in> set (props p)" "Some r \<in> set cs"
    by (auto simp: hangs_def)
  from property_distinct [OF estreeD(1) [OF assms(1,2)] cs(1)] have c: "children p k = cs"
    by (simp add: children_def)
  have h: "has_type ''RestElement'' cs"
    using cs(2) assms(4) by (auto simp: has_type_def list_ex_iff is_some_type_def intro: bexI [of _ "Some r"])
  with shape [OF cs(1)] assms(5)
  have "if is_type ''ArrayPattern'' p then k = ''elements'' else k = ''properties''"
    by (auto simp: rest_shape_def)
  with c cs(2) h show ?thesis by simp
qed

lemma hangs_child:
  assumes "estree ast" "d \<in> set (nodes ast)" "hangs d k p" "k = ''id'' \<or> k = ''left''"
  shows "child d k = Some p"
proof -
  have "Children k cs \<notin> set (props d)" for cs
    using estreeD(2) [OF assms(1,2), of "Children k cs"] assms(4) by (auto simp: rest_shape_def)
  with assms(3) have "Child k p \<in> set (props d)" by (simp add: hangs_def)
  from property_distinct [OF estreeD(1) [OF assms(1,2)] this] show ?thesis by (simp add: child_def)
qed

lemma metered_rest_charged:
  assumes e: "estree ast" and d: "d \<in> set (nodes ast)" and p: "p \<in> set (nodes ast)"
    and r: "hangs p k r" "is_type ''RestElement'' r" and h: "hangs d slot p"
    and m: "metered_rest ((slot, p) # (x, d) # st)"
  shows "charged_rest d r"
proof -
  from m have pat: "is_type ''ArrayPattern'' p \<or> is_type ''ObjectPattern'' p" by (simp add: metered_rest_def)
  from estree_hangs [OF e p r pat] have
    kids: "Some r \<in> set (children p ''elements'') \<or> Some r \<in> set (children p ''properties'')"
    and kind: "restKind (Some p) = Some ''obj'' \<or> restKind (Some p) = Some ''arr''"
    using pat by (auto simp: restKind_def is_type_def split: if_splits)
  from m have own: "slot = ''id'' \<and> is_type ''VariableDeclarator'' d \<and> child d ''init'' \<noteq> None
      \<or> slot = ''left'' \<and> is_type ''AssignmentExpression'' d \<and> scalar d ''operator'' = Text ''=''"
    by (auto simp: metered_rest_def)
  then have c: "child d slot = Some p" using hangs_child [OF e d h] by blast
  from own obtain src where src: "(slot, src) \<in> {(''id'', ''init''), (''left'', ''right'')}"
    and conv: "convertRestPattern True d = Some (put (Child src (meterRestSource (Some p) (kid d src))) d)"
  proof (elim disjE)
    assume "slot = ''id'' \<and> is_type ''VariableDeclarator'' d \<and> child d ''init'' \<noteq> None"
    then show thesis using c that [of "''init''"] by (auto simp: convertRestPattern_def)
  next
    assume "slot = ''left'' \<and> is_type ''AssignmentExpression'' d \<and> scalar d ''operator'' = Text ''=''"
    then show thesis using c pat that [of "''right''"]
      by (auto simp: convertRestPattern_def is_type_def kid_def)
  qed
  have "\<not> bare_rest (Some p) (meterRestSource (Some p) (kid d src))" by (rule meterRestSource_charged)
  with src conv c kids kind show ?thesis unfolding charged_rest_def by blast
qed

text \<open>Every rest of a tree the scan passes hangs in a pattern whose source the transform charges.\<close>

lemma no_hit_charged:
  assumes "estree ast" "collectBannedRest [] ast [] = []" "\<not> is_type ''RestElement'' ast"
    and "r \<in> set (nodes ast)" "is_type ''RestElement'' r"
  shows "\<exists>d \<in> set (nodes ast). charged_rest d r"
proof -
  let ?S = "set (occurrences [] ast [])"
  from occurs [OF assms(4)] obtain k st where r: "(k, r, st) \<in> ?S" by blast
  from assms(2) r have "rest_hit st r = []" unfolding collect_occurrences(1) by auto
  with assms(5) have m: "metered_rest st"
    by (auto simp: rest_hit_def bannedRestKind_def split: if_splits list.splits)
  then obtain slot p x d st' where st: "st = (slot, p) # (x, d) # st'"
    by (cases st; cases "tl st") (auto simp: metered_rest_def split: list.splits prod.splits)
  from occurrences_from_above(1) [OF r] assms(3,5)
  have "from_above ?S (k, r, st)" by auto
  with st have p: "(slot, p, (x, d) # st') \<in> ?S" "hangs p k r" by (auto simp: from_above_def)
  from occurrences_from_above(1) [OF p(1)] have "from_above ?S (slot, p, (x, d) # st')" by auto
  then have d: "(x, d, st') \<in> ?S" "hangs d slot p" by (auto simp: from_above_def)
  from metered_rest_charged [OF assms(1) occurs_in [OF d(1)] occurs_in [OF p(1)] p(2) assms(5) d(2)] m st
  have "charged_rest d r" by simp
  with occurs_in [OF d(1)] show ?thesis by blast
qed

subsection \<open>Accepted sources\<close>

definition safe_math :: "string option \<Rightarrow> bool" where
  "safe_math m \<longleftrightarrow> (case m of None \<Rightarrow> True | Some x \<Rightarrow> x = [] \<or> x \<in> set SAFE_MATH_MEMBERS)"

definition clean_node :: "node \<Rightarrow> bool" where
  "clean_node n \<longleftrightarrow>
     type_of n \<notin> {''WithStatement'', ''YieldExpression''}
     \<and> (type_of n \<in> {''FunctionDeclaration'', ''FunctionExpression''} \<longrightarrow> \<not> flagged n ''generator'')
     \<and> (type_of n = ''BinaryExpression'' \<longrightarrow> scalar n ''operator'' \<noteq> Text ''**'')
     \<and> (type_of n = ''AssignmentExpression'' \<longrightarrow> scalar n ''operator'' \<noteq> Text ''**='')
     \<and> (type_of n = ''Literal'' \<longrightarrow> scalar n ''bigint'' = Null \<and> scalar n ''regex'' = Null)
     \<and> (type_of n = ''MemberExpression'' \<longrightarrow>
          (case child n ''object'' of
             Some obj \<Rightarrow> isMathObjectRef obj True True \<longrightarrow> safe_math (member_name n) | None \<Rightarrow> True))
     \<and> list_all (\<lambda>en. isMathObjectPathRef (source_of en) (butlast (path_of en)) True True
          \<longrightarrow> safe_math (Some (last (path_of en)))) (objectPatternEntries n)"

definition clean_visit :: "node_visit \<Rightarrow> bool" where
  "clean_visit v \<longleftrightarrow>
     (let n = v_node v in
      type_of n \<notin> {''AwaitExpression'', ''ImportExpression''}
      \<and> (type_of n \<in> {''FunctionDeclaration'', ''FunctionExpression'', ''ArrowFunctionExpression''}
           \<longrightarrow> \<not> flagged n ''async'')
      \<and> (\<forall>x \<in> {''Promise'', ''WebAssembly''}.
           (type_of n = ''Identifier'' \<and> text_of n ''name'' = x \<longrightarrow> property_position v \<or> shadowed v x)
           \<and> (type_of n = ''MemberExpression'' \<longrightarrow> global_member n True True \<noteq> Some x)
           \<and> destructuredGlobalEntries n x True True = []))"

lemma markMember_safe: "markMember True m n = [] \<Longrightarrow> safe_math m"
  by (auto simp: markMember_def safe_math_def split: option.splits if_splits)

lemma objectPatternEntries_owner:
  "objectPatternEntries n \<noteq> [] \<Longrightarrow> type_of n \<in> {''VariableDeclarator'', ''AssignmentExpression''}"
  by (auto simp: objectPatternEntries_def is_type_def split: if_splits)

lemma clean_nodeI:
  assumes "math_visitor True True True True n = []" "exponent_visitor n = []" "literal_visitor n = []"
    "generator_visitor n = []" "with_visitor n = []"
  shows "clean_node n"
proof -
  have "list_all (\<lambda>en. isMathObjectPathRef (source_of en) (butlast (path_of en)) True True
      \<longrightarrow> safe_math (Some (last (path_of en)))) (objectPatternEntries n)"
    using assms(1) objectPatternEntries_owner [of n] markMember_safe
    by (cases "objectPatternEntries n = []")
      (auto simp: math_visitor_def markDestructuredMath_def list_all_iff is_type_def split: if_splits)
  moreover have "safe_math (member_name n)"
    if "type_of n = ''MemberExpression''" "child n ''object'' = Some obj" "isMathObjectRef obj True True" for obj
    using assms(1) that markMember_safe by (auto simp: math_visitor_def is_type_def)
  ultimately show ?thesis
    using assms(2-5)
    by (auto simp: clean_node_def exponent_visitor_def literal_visitor_def generator_visitor_def with_visitor_def
        is_type_def hit_at_def split: if_splits option.splits)
qed

lemma clean_visitI:
  assumes "async_visitor True True True True v = []" "wasm_visitor True True True v = []"
  shows "clean_visit v"
proof -
  have "destructuredGlobalEntries (v_node v) x True True = []" if "x \<in> {''Promise'', ''WebAssembly''}" for x
  proof (cases "objectPatternEntries (v_node v) = []")
    case False
    from objectPatternEntries_owner [OF this] show ?thesis
      using assms that by (auto simp: async_visitor_def wasm_visitor_def Let_def is_type_def)
  qed (simp add: destructuredGlobalEntries_def)
  moreover have "type_of (v_node v) \<notin> {''AwaitExpression'', ''ImportExpression''}"
    using assms(1) by (auto simp: async_visitor_def Let_def is_type_def)
  moreover have "\<not> flagged (v_node v) ''async''"
    if "type_of (v_node v) \<in> {''FunctionDeclaration'', ''FunctionExpression'', ''ArrowFunctionExpression''}"
    using assms(1) that by (auto simp: async_visitor_def Let_def is_type_def split: if_splits)
  moreover have "property_position v \<or> shadowed v x"
    if "x \<in> {''Promise'', ''WebAssembly''}" "type_of (v_node v) = ''Identifier''" "text_of (v_node v) ''name'' = x" for x
    using assms that by (auto simp: async_visitor_def wasm_visitor_def Let_def is_type_def split: if_splits)
  moreover have "global_member (v_node v) True True \<noteq> Some x"
    if "x \<in> {''Promise'', ''WebAssembly''}" "type_of (v_node v) = ''MemberExpression''" for x
    using assms that by (auto simp: async_visitor_def wasm_visitor_def Let_def is_type_def split: if_splits)
  ultimately show ?thesis unfolding clean_visit_def Let_def by blast
qed

text \<open>C9. An accepted source is clean: with every rule armed, when both parses the validation makes of a source
  succeed and it is found valid, no node the walkers visit is a \<open>with\<close>, generator, async, \<open>import()\<close>, BigInt,
  RegExp or exponentiation construct, no static reference reads a Math member outside the deterministic subset
  or the global Promise or WebAssembly, directly, through the global object, or by destructuring, and no
  identifier is a name the metering or the wrapper reserves.\<close>

theorem accepted_source_is_clean:
  assumes "validateSyntax E nesting code all_armed = Inr None"
    and "parse_located (tools E) code = Inr ast" "parse_plain (tools E) code = Inr bare"
  shows "(\<forall>n \<in> set (simple_walk (tools E) ast). clean_node n)
    \<and> (\<forall>v \<in> set (ancestor_walk (tools E) ast). clean_visit v)
    \<and> (\<forall>n \<in> set (full_walk (tools E) bare). type_of n = ''Identifier''
         \<longrightarrow> text_of n ''name'' \<notin> set (RESERVED_IDENTIFIERS @ RESERVED_CONTROL_BINDINGS))"
proof -
  from assms(1) have "nothing_banned E code all_armed True" by (simp add: accepted_iff all_armed_def)
  then have b: "reservedErrors E code True True = Inr []" "mathErrors E code True True True True True = Inr []"
    "findBannedLiterals (tools E) code True = Inr []" "findBannedAsync (tools E) code True True True True True = Inr []"
    "findBannedGenerator (tools E) code True = Inr []" "findBannedWasm (tools E) code True True True True = Inr []"
    "findBannedWith (tools E) code True = Inr []"
    by (simp_all add: nothing_banned_def all_armed_def Let_def)
  have "clean_node n" if "n \<in> set (simple_walk (tools E) ast)" for n
  proof (rule clean_nodeI)
    show "math_visitor True True True True n = []" "exponent_visitor n = []"
      using b(2) that assms(2)
      by (auto simp: mathErrors_def rbind_Inr_iff findBannedMathCalls_def findBannedExponentiation_def scan_source_def)
    show "literal_visitor n = []" "generator_visitor n = []" "with_visitor n = []"
      using b(3,5,7) that assms(2)
      by (auto simp: findBannedLiterals_def findBannedGenerator_def findBannedWith_def scan_source_def)
  qed
  moreover have "clean_visit v" if "v \<in> set (ancestor_walk (tools E) ast)" for v
    using b(4,6) that assms(2)
    by (intro clean_visitI) (auto simp: findBannedAsync_def findBannedWasm_def scan_source_def)
  moreover have "first_reserved (full_walk (tools E) bare) = None" "first_control (full_walk (tools E) bare) = None"
    using b(1) assms(3)
    by (auto simp: reservedErrors_def rbind_Inr_iff findReservedIdentifier_def findReservedControlBinding_def
        scan_source_def reserved_finding_def split: option.splits)
  moreover have "first_control ns = None \<longleftrightarrow>
      (\<forall>n \<in> set ns. is_type ''Identifier'' n \<longrightarrow> text_of n ''name'' \<notin> set RESERVED_CONTROL_BINDINGS)" for ns
    by (induction ns) auto
  ultimately show ?thesis by (auto simp: first_reserved_None is_type_def)
qed

text \<open>C10. Lint and meter close the rest-pattern class between them: in a source accepted with the rest rule
  armed, every rest element of the tree is the rest of a declarator's or an assignment's own pattern, whose
  source expression the transform's \<open>convertRestPattern\<close> replaces by a size-charged copy, so no rest
  position is left that copies for free.\<close>

theorem no_rest_escapes_the_meter:
  assumes "validateSyntax E nesting code so = Inr None" "so_bannedRest so"
    and "parse_located (tools E) code = Inr ast" "estree ast" "type_of ast = ''Program''"
  shows "\<forall>r \<in> set (nodes ast). type_of r = ''RestElement'' \<longrightarrow> (\<exists>d \<in> set (nodes ast). charged_rest d r)"
proof -
  from assms(1,2) have "findBannedRest (tools E) code (so_lintSyntaxDepth so) = Inr []"
    by (auto simp: accepted_iff nothing_banned_def Let_def)
  with assms(3) have "collectBannedRest [] ast [] = []" by (simp add: findBannedRest_def scan_source_def)
  with no_hit_charged [OF assms(4)] assms(5) show ?thesis by (simp add: is_type_def)
qed

theorem accepted_source_is_clean_witness:
  "list_all clean_node (nodes demo_source) \<and> 8 \<le> length (nodes demo_source)"
  using accepted_source_is_clean [OF demo_accepted [of False "''f''"], of demo_source demo_source]
  by (simp add: demo_host_def demo_tools_def list_all_iff) (simp add: demo_tree_defs)

lemma demo_estree: "estree demo_source"
  by (simp add: estree_def rest_shape_def demo_tree_defs is_type_def has_type_def is_some_type_def)

theorem no_rest_escapes_the_meter_witness: "list_ex (\<lambda>d. charged_rest d demo_rest) (nodes demo_source)"
proof -
  have "parse_located (tools demo_host) ''f'' = Inr demo_source" by (simp add: demo_host_def demo_tools_def)
  moreover have "so_bannedRest all_armed" "type_of demo_source = ''Program''"
    by (simp_all add: all_armed_def demo_source_def)
  moreover have "demo_rest \<in> set (nodes demo_source)" "type_of demo_rest = ''RestElement''"
    by (simp_all add: demo_tree_defs)
  ultimately show ?thesis
    using no_rest_escapes_the_meter [OF demo_accepted [of False "''f''"] _ _ demo_estree] by (simp add: list_ex_iff)
qed

end
