(* ===== verification/Derivation.thy ===== *)
theory Derivation
  imports Pipeline
begin

text \<open>
  Armed harnesses: the derivation of a harness from the unarmed source and a list of rules
  (src/index/armed_harness/derivation.js), and the choice of the rules and the cache of derived
  sources (src/index/armed_harness/select.js). The texts themselves, the unarmed harness and the
  edits and helpers of each rule, are arguments: the derivation reads them as text. Offsets count
  the units of the string, here bytes; they are only used to cut the text they were found in.
\<close>

unbundle bit_operations_syntax

subsection \<open>Text\<close>

definition newline :: char where
  "newline = CHR 0x0A"

text \<open>\<open>s.endsWith(t)\<close>.\<close>

definition ends_with :: "string \<Rightarrow> string \<Rightarrow> bool" where
  "ends_with t s \<longleftrightarrow> starts_with (rev t) (rev s)"

lemma ends_with_iff: "ends_with t s \<longleftrightarrow> (\<exists>a. s = a @ t)"
proof
  assume "ends_with t s"
  then obtain r where "rev s = rev t @ r" unfolding ends_with_def by (auto dest: starts_withE)
  then have "s = rev r @ t" by (metis rev_append rev_rev_ident)
  then show "\<exists>a. s = a @ t" ..
qed (auto simp: ends_with_def)

text \<open>\<open>s.split(p)\<close> for a text separator. An empty separator splits into the single characters.\<close>

function split_text :: "string \<Rightarrow> string \<Rightarrow> string list" where
  "split_text p [] = (if p = [] then [] else [[]])"
| "split_text p (c # s) =
     (if p = [] then [c] # split_text p s
      else if starts_with p (c # s) then [] # split_text p (drop (length p) (c # s))
      else (case split_text p s of [] \<Rightarrow> [[c]] | w # ws \<Rightarrow> (c # w) # ws))"
  by pat_completeness auto
termination
  by (relation "measure (length \<circ> snd)") (auto simp: less_Suc_eq_le neq_Nil_conv)

text \<open>\<open>s.indexOf(p)\<close>, with -1 for no occurrence.\<close>

fun indexOf :: "string \<Rightarrow> string \<Rightarrow> int" where
  "indexOf p [] = (if p = [] then 0 else - 1)"
| "indexOf p (c # s) =
     (if starts_with p (c # s) then 0
      else (let i = indexOf p s in if i < 0 then - 1 else i + 1))"

text \<open>\<open>from.replace(/\n$/, '')\<close>: without its last character when that is a line break.\<close>

definition chop_newline :: "string \<Rightarrow> string" where
  "chop_newline s = (if s \<noteq> [] \<and> last s = newline then butlast s else s)"

subsection \<open>derivation.js\<close>

definition CLOSING :: string where
  "CLOSING = ''})();'' @ [newline]"

definition lineBreaks :: "string \<Rightarrow> nat" where
  "lineBreaks s = length (split_on newline s) - 1"

definition lineAt :: "string \<Rightarrow> nat \<Rightarrow> nat" where
  "lineAt source offset = lineBreaks (take offset source)"

record harness_rule =
  rule_label :: string
  rule_edits :: "(string \<times> string) list"
  rule_helpers :: string

record located_edit =
  edit_label :: string
  edit_start :: nat
  edit_end :: nat
  edit_to :: string
  edit_lines :: "nat list"

definition locateEdit :: "string \<Rightarrow> string \<Rightarrow> string \<times> string \<Rightarrow> located_edit res" where
  "locateEdit source label edit =
     (case edit of (from, to) \<Rightarrow>
        let hits = int (length (split_text from source)) - 1 in
        if hits \<noteq> 1
        then throw (''xchain-vm: '' @ label @ '' harness edit matched '' @ int_text hits @ '' times: '' @ trim from)
        else if lineBreaks from \<noteq> lineBreaks to
        then throw (''xchain-vm: '' @ label @ '' harness edit moves lines: '' @ trim from)
        else let start = nat (indexOf from source); first = lineAt source start in
          Inr \<lparr>edit_label = label, edit_start = start, edit_end = start + length from, edit_to = to,
               edit_lines = [first..<Suc (first + lineBreaks (chop_newline from))]\<rparr>)"

definition locateEdits :: "string \<Rightarrow> string \<Rightarrow> (string \<times> string) list \<Rightarrow> located_edit list res" where
  "locateEdits source label edits = rmap (locateEdit source label) edits"

text \<open>The two loops of \<open>deriveHarness\<close> over a rule's edits: every source line has one owner.\<close>

fun claimLines :: "string \<Rightarrow> nat list \<Rightarrow> (nat \<rightharpoonup> string) \<Rightarrow> (nat \<rightharpoonup> string) res" where
  "claimLines label [] own = Inr own"
| "claimLines label (l # ls) own =
     (case own l of
        Some other \<Rightarrow> throw (''xchain-vm: harness line '' @ nat_text (l + 1) @ '' is edited by both ''
          @ other @ '' and '' @ label)
      | None \<Rightarrow> claimLines label ls (own(l \<mapsto> label)))"

fun claimEdits :: "string \<Rightarrow> located_edit list \<Rightarrow> (nat \<rightharpoonup> string) \<times> located_edit list
    \<Rightarrow> ((nat \<rightharpoonup> string) \<times> located_edit list) res" where
  "claimEdits label [] (own, located) = Inr (own, located)"
| "claimEdits label (e # es) (own, located) =
     rbind (claimLines label (edit_lines e) own) (\<lambda>own'. claimEdits label es (own', located @ [e]))"

fun claimRules :: "string \<Rightarrow> harness_rule list \<Rightarrow> (nat \<rightharpoonup> string) \<times> located_edit list
    \<Rightarrow> ((nat \<rightharpoonup> string) \<times> located_edit list) res" where
  "claimRules source [] st = Inr st"
| "claimRules source (r # rs) st =
     rbind (locateEdits source (rule_label r) (rule_edits r)) (\<lambda>es.
     rbind (claimEdits (rule_label r) es st) (claimRules source rs))"

definition applyEdit :: "string \<Rightarrow> located_edit \<Rightarrow> string" where
  "applyEdit out e = take (edit_start e) out @ edit_to e @ drop (edit_end e) out"

text \<open>The edits are applied from the end of the source to its beginning.\<close>

definition applyEdits :: "string \<Rightarrow> located_edit list \<Rightarrow> string" where
  "applyEdits source located = foldl applyEdit source (sort_key (\<lambda>e. - int (edit_start e)) located)"

definition deriveHarness :: "string \<Rightarrow> harness_rule list \<Rightarrow> string res" where
  "deriveHarness source rules =
     (if \<not> ends_with CLOSING source then throw ''xchain-vm: harness no longer ends with its closing line''
      else rbind (claimRules source rules (Map.empty, [])) (\<lambda>(own, located).
        let out = applyEdits source located; helpers = concat (map rule_helpers rules) in
        Inr (take (length out - length CLOSING) out @ helpers @ CLOSING)))"

subsection \<open>select.js\<close>

text \<open>\<open>text.replace(from, () => to)\<close> replaces the first occurrence, here the only one.\<close>

definition rewriteOnce :: "string \<Rightarrow> string \<Rightarrow> string \<Rightarrow> string \<Rightarrow> string res" where
  "rewriteOnce label text from to =
     (let hits = int (length (split_text from text)) - 1 in
      if hits \<noteq> 1
      then throw (''xchain-vm: '' @ label @ '' helper rewrite matched '' @ int_text hits @ '' times: '' @ trim from)
      else let i = nat (indexOf from text) in Inr (take i text @ to @ drop (i + length from) text))"

text \<open>A rule and the other rule its helpers depend on, by their places in the list of the rules.\<close>

record coupling =
  coupled_rule :: nat
  coupled_with :: nat
  couple :: "string \<Rightarrow> string res"

fun coupled_helpers :: "coupling list \<Rightarrow> nat list \<Rightarrow> nat \<Rightarrow> string \<Rightarrow> string res" where
  "coupled_helpers [] on i helpers = Inr helpers"
| "coupled_helpers (c # cs) on i helpers =
     (if coupled_rule c = i \<and> coupled_with c \<in> set on
      then rbind (couple c helpers) (coupled_helpers cs on i)
      else coupled_helpers cs on i helpers)"

definition armed_rules :: "harness_rule list \<Rightarrow> nat \<Rightarrow> nat list" where
  "armed_rules RULES gates = filter (\<lambda>i. gates AND bit_of i True \<noteq> 0) [0..<length RULES]"

definition rulesFor :: "harness_rule list \<Rightarrow> coupling list \<Rightarrow> nat \<Rightarrow> harness_rule list res" where
  "rulesFor RULES COUPLINGS gates =
     (let on = armed_rules RULES gates in
      rmap (\<lambda>i. rbind (coupled_helpers COUPLINGS on i (rule_helpers (RULES ! i)))
                  (\<lambda>helpers. Inr ((RULES ! i)\<lparr>rule_helpers := helpers\<rparr>))) on)"

definition derivedFor :: "harness_rule list \<Rightarrow> coupling list \<Rightarrow> string \<Rightarrow> nat \<Rightarrow> string res" where
  "derivedFor RULES COUPLINGS source gates = rbind (rulesFor RULES COUPLINGS gates) (deriveHarness source)"

text \<open>\<open>SOURCES\<close>, which starts with the unarmed harness under the empty gates, and a request.\<close>

definition initial_sources :: "string \<Rightarrow> nat \<rightharpoonup> string" where
  "initial_sources source = [0 \<mapsto> source]"

definition harnessSourceFor :: "harness_rule list \<Rightarrow> coupling list \<Rightarrow> string \<Rightarrow> (nat \<rightharpoonup> string) \<Rightarrow> nat
    \<Rightarrow> string res \<times> (nat \<rightharpoonup> string)" where
  "harnessSourceFor RULES COUPLINGS source SOURCES gates =
     (case SOURCES gates of
        Some s \<Rightarrow> (Inr s, SOURCES)
      | None \<Rightarrow> (case derivedFor RULES COUPLINGS source gates of
          Inl e \<Rightarrow> (Inl e, SOURCES)
        | Inr s \<Rightarrow> (Inr s, SOURCES(gates \<mapsto> s))))"

text \<open>The proof over every combination when the module is loaded.\<close>

definition load_check :: "harness_rule list \<Rightarrow> coupling list \<Rightarrow> string \<Rightarrow> unit res" where
  "load_check RULES COUPLINGS source =
     rbind (check_all (\<lambda>gates. rbind (derivedFor RULES COUPLINGS source gates) (\<lambda>_. Inr ()))
              [1..<2 ^ length RULES]) (\<lambda>_.
     rbind (deriveHarness source []) (\<lambda>s.
       guard (s \<noteq> source) ''xchain-vm: the unarmed harness is not HARNESS_SOURCE''))"

end
