(* ===== verification/DerivationProps.thy ===== *)
theory DerivationProps
  imports Derivation "HOL-Library.Multiset"
begin

text \<open>
  What a derived harness is like: no line moves, the order of the rules does not matter, and an
  execution gets the harness of its own gates. Offsets in the source are related to line numbers
  first, then one edit, then a list of edits applied from the end of the source.
\<close>

subsection \<open>Lines\<close>

abbreviation lines_of :: "string \<Rightarrow> string list" where
  "lines_of s \<equiv> split_on newline s"

lemma lineBreaks_simps [simp]:
  "lineBreaks [] = 0" "lineBreaks (c # s) = (if c = newline then Suc (lineBreaks s) else lineBreaks s)"
  using split_on_nonempty [of newline s]
  by (auto simp: lineBreaks_def split: list.split)

lemma lineBreaks_append [simp]: "lineBreaks (a @ b) = lineBreaks a + lineBreaks b"
  by (induction a) auto

lemma lines_length: "length (lines_of s) = Suc (lineBreaks s)"
  using split_on_nonempty [of newline s] by (cases "lines_of s") (auto simp: lineBreaks_def)

text \<open>The lines of two texts put together: the last of the first runs into the first of the second.\<close>

lemma lines_append:
  "lines_of (a @ b) = butlast (lines_of a) @ (last (lines_of a) @ hd (lines_of b)) # tl (lines_of b)"
proof (induction a)
  case Nil
  show ?case using split_on_nonempty [of newline b] by (cases "lines_of b") auto
next
  case (Cons c a)
  show ?case
  proof (cases "c = newline")
    case True
    with Cons split_on_nonempty [of newline a] show ?thesis by simp
  next
    case False
    obtain w ws where a: "lines_of a = w # ws" using split_on_nonempty [of newline a] by (cases "lines_of a") auto
    with Cons False show ?thesis by (cases ws) auto
  qed
qed

lemma line_before: "l < lineBreaks a \<Longrightarrow> lines_of (a @ b) ! l = lines_of a ! l"
  by (simp add: lines_append nth_append lines_length nth_butlast)

lemma line_after: "lineBreaks a < l \<Longrightarrow> lines_of (a @ b) ! l = lines_of b ! (l - lineBreaks a)"
proof -
  assume l: "lineBreaks a < l"
  from less_imp_Suc_add [OF this] obtain k where k: "l = lineBreaks a + Suc k" by auto
  obtain w ws where b: "lines_of b = w # ws" using split_on_nonempty [of newline b] by (cases "lines_of b") auto
  have "length (butlast (lines_of a)) = lineBreaks a" by (simp add: lines_length)
  then show ?thesis unfolding lines_append [of a b] b k by (simp add: nth_append)
qed

lemma line_after_break: "lines_of (a @ newline # b) ! (Suc (lineBreaks a) + k) = lines_of b ! k"
proof -
  have "length (butlast (lines_of a)) = lineBreaks a" by (simp add: lines_length)
  then show ?thesis unfolding lines_append [of a "newline # b"] by (simp add: nth_append)
qed

lemma chop_newline_cases:
  obtains (broken) u where "s = u @ [newline]" "chop_newline s = u"
  | (whole) "\<not> ends_with [newline] s" "chop_newline s = s"
proof (cases "ends_with [newline] s")
  case True
  then obtain u where "s = u @ [newline]" by (auto simp: ends_with_iff)
  then show thesis by (intro broken) (auto simp: chop_newline_def)
next
  case False
  then have "\<not> (s \<noteq> [] \<and> last s = newline)" by (metis append_butlast_last_id ends_with_iff)
  then show thesis by (intro whole [OF False]) (auto simp: chop_newline_def)
qed

text \<open>Replacing one span leaves every line alone that the span does not touch.\<close>

lemma edit_keeps_lines:
  assumes "lineBreaks f = lineBreaks t" "ends_with [newline] f \<Longrightarrow> ends_with [newline] t"
    and l: "l \<notin> {lineBreaks a..lineBreaks a + lineBreaks (chop_newline f)}"
  shows "lines_of (a @ t @ b) ! l = lines_of (a @ f @ b) ! l"
proof (cases "l < lineBreaks a")
  case True
  then show ?thesis by (simp add: line_before)
next
  case False
  with l have after: "lineBreaks a + lineBreaks (chop_newline f) < l" by auto
  show ?thesis
  proof (cases rule: chop_newline_cases [of f])
    case (broken u)
    from assms(2) broken obtain v where v: "t = v @ [newline]" by (auto simp: ends_with_iff)
    from less_imp_Suc_add [OF after] obtain k where k: "l = Suc (lineBreaks (a @ u)) + k"
      using broken by auto
    from assms(1) broken v have "Suc (lineBreaks (a @ u)) + k = Suc (lineBreaks (a @ v)) + k" by simp
    then show ?thesis
      using line_after_break [of "a @ u" b k] line_after_break [of "a @ v" b k] broken v k by simp
  next
    case whole
    with after have "lineBreaks (a @ f) < l" by simp
    with line_after [of "a @ f" l b] line_after [of "a @ t" l b] assms(1) show ?thesis by simp
  qed
qed

subsection \<open>Where an edit is found\<close>

lemma indexOf_found:
  "0 \<le> indexOf p s \<Longrightarrow> \<exists>a b. s = a @ p @ b \<and> length a = nat (indexOf p s)"
proof (induction p s rule: indexOf.induct)
  case (1 p)
  then show ?case by (auto split: if_splits)
next
  case (2 p c s)
  show ?case
  proof (cases "starts_with p (c # s)")
    case True
    then obtain r where "c # s = p @ r" by (auto dest: starts_withE)
    moreover from True have "indexOf p (c # s) = 0" by simp
    ultimately show ?thesis by (intro exI [of _ "[]"] exI [of _ r]) simp
  next
    case False
    with 2 have "0 \<le> indexOf p s" by (auto simp: Let_def split: if_splits)
    with 2 False obtain a b where "s = a @ p @ b" "length a = nat (indexOf p s)" by auto
    with False \<open>0 \<le> indexOf p s\<close> show ?thesis
      by (intro exI [of _ "c # a"] exI [of _ b]) (auto simp: Let_def nat_add_distrib)
  qed
qed

lemma split_text_absent: "indexOf p s < 0 \<Longrightarrow> length (split_text p s) = 1"
proof (induction p s rule: indexOf.induct)
  case (2 p c s)
  then have "\<not> starts_with p (c # s)" by (auto split: if_splits)
  then have "p \<noteq> []" by (auto simp: starts_with_def)
  with 2 show ?case by (auto simp: Let_def length_Suc_conv split: if_splits)
qed (auto split: if_splits)

definition placed :: "string \<Rightarrow> string \<times> string \<Rightarrow> located_edit \<Rightarrow> bool" where
  "placed source ft e \<longleftrightarrow> (\<exists>a b. source = a @ fst ft @ b \<and> edit_start e = length a
     \<and> edit_end e = length a + length (fst ft) \<and> edit_to e = snd ft \<and> lineBreaks (fst ft) = lineBreaks (snd ft)
     \<and> edit_lines e = [lineBreaks a..<Suc (lineBreaks a + lineBreaks (chop_newline (fst ft)))]
     \<and> (fst ft = [] \<longrightarrow> a = []))"

lemma indexOf_empty: "indexOf [] s = 0"
  by (cases s) (auto simp: starts_with_def)

lemma locateEdit_placed: "locateEdit source label ft = Inr e \<Longrightarrow> placed source ft e"
proof -
  assume e: "locateEdit source label ft = Inr e"
  obtain f t where ft: "ft = (f, t)" by fastforce
  from e ft have hits: "length (split_text f source) = 2" and breaks: "lineBreaks f = lineBreaks t"
    by (auto simp: locateEdit_def Let_def split: if_splits)
  from hits split_text_absent [of f source] have "0 \<le> indexOf f source" by fastforce
  from indexOf_found [OF this] obtain a b where ab: "source = a @ f @ b" "length a = nat (indexOf f source)" by auto
  have "take (nat (indexOf f source)) source = a" unfolding ab(2) [symmetric] by (simp add: ab(1))
  with e ft hits breaks ab have "e = \<lparr>edit_label = label, edit_start = length a, edit_end = length a + length f,
      edit_to = t, edit_lines = [lineBreaks a..<Suc (lineBreaks a + lineBreaks (chop_newline f))]\<rparr>"
    by (simp add: locateEdit_def Let_def lineAt_def)
  with ft ab breaks show ?thesis unfolding placed_def
    by (intro exI [of _ a] exI [of _ b]) (auto simp: indexOf_empty)
qed

subsection \<open>The claims of the rules\<close>

lemma claimLines_ok:
  "claimLines label ls own = Inr own' \<Longrightarrow>
     distinct ls \<and> set ls \<inter> dom own = {} \<and> dom own' = dom own \<union> set ls"
proof (induction label ls own arbitrary: own' rule: claimLines.induct)
  case (2 label l ls own)
  then have n: "own l = None" and c: "claimLines label ls (own(l \<mapsto> label)) = Inr own'"
    by (auto split: option.splits)
  from 2(1) [OF n c] n show ?case by (auto simp: domIff)
qed auto

lemma claimEdits_ok:
  "claimEdits label es (own, located) = Inr (own', located') \<Longrightarrow>
     located' = located @ es \<and> distinct (concat (map edit_lines es))
     \<and> set (concat (map edit_lines es)) \<inter> dom own = {}
     \<and> dom own' = dom own \<union> set (concat (map edit_lines es))"
proof (induction label es "(own, located)" arbitrary: own located rule: claimEdits.induct)
  case (2 label e es own located)
  from 2(2) obtain own1 where c: "claimLines label (edit_lines e) own = Inr own1"
    and rest: "claimEdits label es (own1, located @ [e]) = Inr (own', located')"
    by (auto simp: rbind_Inr_iff)
  from c have l: "distinct (edit_lines e)" "set (edit_lines e) \<inter> dom own = {}"
    "dom own1 = dom own \<union> set (edit_lines e)"
    using claimLines_ok by blast+
  from 2(1) [OF rest] l show ?case by auto
qed simp

lemma rmap_list_all2: "rmap f xs = Inr ys \<longleftrightarrow> list_all2 (\<lambda>x y. f x = Inr y) xs ys"
  by (induction f xs arbitrary: ys rule: rmap.induct) (auto simp: rbind_Inr_iff list_all2_Cons1)

lemma claimRules_ok:
  "claimRules source rules (own, located) = Inr (own', located') \<Longrightarrow>
     \<exists>es. located' = located @ es \<and> list_all2 (placed source) (concat (map rule_edits rules)) es
       \<and> distinct (concat (map edit_lines es)) \<and> set (concat (map edit_lines es)) \<inter> dom own = {}
       \<and> dom own' = dom own \<union> set (concat (map edit_lines es))"
proof (induction rules arbitrary: own located)
  case Nil
  then show ?case by auto
next
  case (Cons r rules)
  from Cons.prems obtain es st where e: "locateEdits source (rule_label r) (rule_edits r) = Inr es"
    and c: "claimEdits (rule_label r) es (own, located) = Inr st"
    and rest: "claimRules source rules st = Inr (own', located')"
    by (auto simp: rbind_Inr_iff)
  obtain own1 located1 where st: "st = (own1, located1)" by fastforce
  from e have p: "list_all2 (placed source) (rule_edits r) es"
    by (auto simp: locateEdits_def rmap_list_all2 intro: locateEdit_placed elim!: list_all2_mono)
  from Cons.IH [OF rest [unfolded st]] obtain es' where es': "located' = located1 @ es'"
    "list_all2 (placed source) (concat (map rule_edits rules)) es'"
    "distinct (concat (map edit_lines es'))" "set (concat (map edit_lines es')) \<inter> dom own1 = {}"
    "dom own' = dom own1 \<union> set (concat (map edit_lines es'))" by auto
  with claimEdits_ok [OF c [unfolded st]] p show ?case
    by (intro exI [of _ "es @ es'"]) (auto intro!: list_all2_appendI)
qed

text \<open>Every offset of the replaced span is on a line the edit owns.\<close>

lemma placed_line:
  assumes "placed s ft e" "edit_start e \<le> k" "k < edit_end e"
  shows "lineAt s k \<in> set (edit_lines e)"
proof -
  from assms(1) obtain a b where p: "s = a @ fst ft @ b" "edit_start e = length a"
    "edit_end e = length a + length (fst ft)"
    "edit_lines e = [lineBreaks a..<Suc (lineBreaks a + lineBreaks (chop_newline (fst ft)))]"
    by (auto simp: placed_def)
  define i where "i = k - length a"
  from assms p have k: "k = length a + i" "i < length (fst ft)" by (auto simp: i_def)
  have "lineAt s k = lineBreaks a + lineBreaks (take i (fst ft))" using k p by (simp add: lineAt_def)
  moreover have "lineBreaks (take i (fst ft)) \<le> lineBreaks (chop_newline (fst ft))"
  proof (cases rule: chop_newline_cases [of "fst ft"])
    case (broken u)
    with k have "u = take i (fst ft) @ drop i u" by simp
    then have "lineBreaks u = lineBreaks (take i (fst ft)) + lineBreaks (drop i u)"
      by (metis lineBreaks_append)
    with broken show ?thesis by simp
  next
    case whole
    have "lineBreaks (fst ft) = lineBreaks (take i (fst ft)) + lineBreaks (drop i (fst ft))"
      by (metis append_take_drop_id lineBreaks_append)
    with whole show ?thesis by simp
  qed
  ultimately show ?thesis unfolding p(4) set_upt atLeastLessThan_iff by linarith
qed

lemma placed_lines_nonempty: "placed s ft e \<Longrightarrow> edit_lines e \<noteq> []"
  by (auto simp: placed_def)

lemma placed_first_line: "placed s ft e \<Longrightarrow> lineAt s (edit_start e) \<in> set (edit_lines e)"
  by (auto simp: placed_def lineAt_def)

lemma placed_apart:
  assumes "placed s ft e" "placed s ft' e'" "set (edit_lines e) \<inter> set (edit_lines e') = {}"
    and "edit_start e' \<le> edit_start e"
  shows "edit_end e' \<le> edit_start e"
proof (rule ccontr)
  assume "\<not> edit_end e' \<le> edit_start e"
  with placed_line [OF assms(2), of "edit_start e"] assms(4)
  have "lineAt s (edit_start e) \<in> set (edit_lines e')" by simp
  with placed_first_line [OF assms(1)] assms(3) show False by blast
qed

subsection \<open>Applying the edits\<close>

definition breaks_safe :: "string \<times> string \<Rightarrow> bool" where
  "breaks_safe ft \<longleftrightarrow> (ends_with [newline] (fst ft) \<longrightarrow> ends_with [newline] (snd ft))"

lemma applied_lines:
  assumes "\<forall>e \<in> set xs. \<exists>ft. placed s ft e \<and> breaks_safe ft"
    and "sorted_wrt (\<lambda>e e'. edit_end e' \<le> edit_start e) xs"
    and "\<forall>e \<in> set xs. edit_end e \<le> m" "take m out = take m s"
  shows "lineBreaks (foldl applyEdit out xs) = lineBreaks out
     \<and> (\<forall>l. l \<notin> set (concat (map edit_lines xs)) \<longrightarrow> lines_of (foldl applyEdit out xs) ! l = lines_of out ! l)"
  using assms
proof (induction xs arbitrary: out m)
  case (Cons e xs)
  from Cons.prems(1) obtain f t where ft: "placed s (f, t) e" "breaks_safe (f, t)" by fastforce
  then obtain a b where p: "s = a @ f @ b" "edit_start e = length a" "edit_end e = length a + length f"
    "edit_to e = t" "lineBreaks f = lineBreaks t"
    "edit_lines e = [lineBreaks a..<Suc (lineBreaks a + lineBreaks (chop_newline f))]"
    by (auto simp: placed_def)
  from Cons.prems(3) p have m: "length a + length f \<le> m" by simp
  define b' where "b' = take (m - length a - length f) b @ drop m out"
  have "out = take m out @ drop m out" by simp
  also have "take m out = a @ f @ take (m - length a - length f) b" using Cons.prems(4) p(1) m by simp
  finally have out: "out = a @ f @ b'" by (simp add: b'_def)
  have step: "applyEdit out e = a @ t @ b'" unfolding applyEdit_def by (simp add: out p)
  have ih: "lineBreaks (foldl applyEdit (a @ t @ b') xs) = lineBreaks (a @ t @ b')
     \<and> (\<forall>l. l \<notin> set (concat (map edit_lines xs)) \<longrightarrow> lines_of (foldl applyEdit (a @ t @ b') xs) ! l = lines_of (a @ t @ b') ! l)"
    using Cons.prems p by (intro Cons.IH [where m = "length a"]) auto
  have keep: "lines_of (a @ t @ b') ! l = lines_of out ! l" if "l \<notin> set (edit_lines e)" for l
    unfolding out using that p ft(2)
    by (intro edit_keeps_lines) (auto simp: breaks_safe_def)
  have "foldl applyEdit out (e # xs) = foldl applyEdit (a @ t @ b') xs" by (simp add: step)
  moreover have "lineBreaks (a @ t @ b') = lineBreaks out" using p(5) by (simp add: out)
  ultimately show ?case using ih keep by simp
qed simp

lemma applyEdit_suffix: "edit_start e \<le> length p \<Longrightarrow> edit_end e \<le> length p \<Longrightarrow> applyEdit (p @ c) e = applyEdit p e @ c"
  by (simp add: applyEdit_def)

lemma applyEdits_suffix:
  "\<forall>e \<in> set xs. edit_start e \<le> edit_end e \<and> edit_end e \<le> m \<Longrightarrow>
   sorted_wrt (\<lambda>e e'. edit_end e' \<le> edit_start e) xs \<Longrightarrow> m \<le> length p \<Longrightarrow>
   foldl applyEdit (p @ c) xs = foldl applyEdit p xs @ c"
proof (induction xs arbitrary: p m)
  case (Cons e xs)
  then have "applyEdit (p @ c) e = applyEdit p e @ c" by (intro applyEdit_suffix) auto
  moreover have "edit_start e \<le> length (applyEdit p e)" using Cons.prems by (auto simp: applyEdit_def)
  ultimately show ?case using Cons.prems Cons.IH [of "edit_start e" "applyEdit p e"] by auto
qed simp

text \<open>The order of application.\<close>

abbreviation from_the_end :: "located_edit list \<Rightarrow> located_edit list" where
  "from_the_end es \<equiv> sort_key (\<lambda>e. - int (edit_start e)) es"

lemma mset_concat_map: "mset xs = mset ys \<Longrightarrow> mset (concat (map f xs)) = mset (concat (map f ys))"
  by (simp add: mset_concat flip: sum_mset_sum_list)

lemma disjoint_lines: "distinct (concat (map edit_lines es)) \<Longrightarrow>
  sorted_wrt (\<lambda>e e'. set (edit_lines e) \<inter> set (edit_lines e') = {}) es"
  by (induction es) auto

lemma from_the_end_apart:
  assumes "\<forall>e \<in> set es. \<exists>ft. placed s ft e" "distinct (concat (map edit_lines es))"
  shows "sorted_wrt (\<lambda>e e'. edit_end e' \<le> edit_start e) (from_the_end es)"
proof -
  let ?xs = "from_the_end es"
  have "distinct (concat (map edit_lines ?xs))"
    using assms(2) mset_eq_imp_distinct_iff [OF mset_concat_map [of ?xs es edit_lines]] by simp
  then have d: "sorted_wrt (\<lambda>e e'. set (edit_lines e) \<inter> set (edit_lines e') = {}) ?xs"
    by (rule disjoint_lines)
  have "sorted (map (\<lambda>e. - int (edit_start e)) ?xs)" by simp
  then have o: "sorted_wrt (\<lambda>e e'. edit_start e' \<le> edit_start e) ?xs"
    by (simp add: sorted_map)
  show ?thesis
    unfolding sorted_wrt_iff_nth_less
  proof (intro allI impI)
    fix i j assume ij: "i < j" "j < length ?xs"
    then have "?xs ! i \<in> set es" "?xs ! j \<in> set es" by (metis nth_mem order.strict_trans set_sort)+
    with assms(1) obtain ft ft' where "placed s ft (?xs ! i)" "placed s ft' (?xs ! j)" by blast
    from placed_apart [OF this] d o ij show "edit_end (?xs ! j) \<le> edit_start (?xs ! i)"
      unfolding sorted_wrt_iff_nth_less by blast
  qed
qed

text \<open>An edit that does not own the closing line ends before it.\<close>

lemma before_closing:
  assumes "placed (p @ CLOSING) ft e" "lineBreaks p \<notin> set (edit_lines e)"
  shows "edit_start e \<le> edit_end e" "edit_end e \<le> length p"
proof -
  from assms(1) obtain a b where ab: "p @ CLOSING = a @ fst ft @ b" "edit_start e = length a"
    "edit_end e = length a + length (fst ft)" "fst ft = [] \<longrightarrow> a = []"
    by (auto simp: placed_def)
  then show le: "edit_start e \<le> edit_end e" by simp
  show "edit_end e \<le> length p"
  proof (rule ccontr)
    assume n: "\<not> edit_end e \<le> length p"
    define k where "k = max (length a) (length p)"
    have "fst ft \<noteq> []" using n ab by auto
    then have k: "edit_start e \<le> k" "k < edit_end e" "length p \<le> k" using n ab by (auto simp: k_def)
    have len: "length p + 6 = length (a @ fst ft @ b)" using arg_cong [OF ab(1), of length] by (simp add: CLOSING_def)
    then have "k < length p + 6" using k ab(3) by simp
    then obtain i where i: "k = length p + i" "i < 6" using k(3) by (metis le_Suc_ex nat_add_left_cancel_less)
    then have "i = 0 \<or> i = 1 \<or> i = 2 \<or> i = 3 \<or> i = 4 \<or> i = 5" by auto
    then have "lineBreaks (take i CLOSING) = 0" by (auto simp: CLOSING_def newline_def)
    with i have "lineAt (p @ CLOSING) k = lineBreaks p" by (simp add: lineAt_def)
    with placed_line [OF assms(1) k(1,2)] assms(2) show False by simp
  qed
qed

lemma list_all2_right: "list_all2 P xs ys \<Longrightarrow> y \<in> set ys \<Longrightarrow> \<exists>x \<in> set xs. P x y"
  by (induction rule: list_all2_induct) auto

lemma derived_lines:
  assumes "deriveHarness source rules = Inr out" "claimRules source rules (Map.empty, []) = Inr (own, located)"
    and safe: "\<forall>r \<in> set rules. \<forall>ft \<in> set (rule_edits r). breaks_safe ft"
    and closing_line: "own (lineBreaks source - 1) = None"
  shows "lineBreaks out = lineBreaks source + lineBreaks (concat (map rule_helpers rules))
     \<and> (\<forall>l < lineBreaks source - 1. own l = None \<longrightarrow> lines_of out ! l = lines_of source ! l)"
proof -
  from assms(1) obtain p where src: "source = p @ CLOSING"
    by (auto simp: deriveHarness_def ends_with_iff split: if_splits)
  have cl: "lineBreaks CLOSING = 1" by (simp add: CLOSING_def newline_def)
  from claimRules_ok [OF assms(2)] have es: "list_all2 (placed source) (concat (map rule_edits rules)) located"
    "distinct (concat (map edit_lines located))" "dom own = set (concat (map edit_lines located))" by auto
  let ?xs = "from_the_end located"
  have pl: "\<exists>ft. placed source ft e \<and> breaks_safe ft" if "e \<in> set located" for e
  proof -
    from that list_all2_right [OF es(1)] obtain ft where "ft \<in> set (concat (map rule_edits rules))" "placed source ft e"
      by blast
    with safe show ?thesis by (intro exI [of _ ft]) auto
  qed
  have ends: "edit_start e \<le> edit_end e \<and> edit_end e \<le> length p" if "e \<in> set located" for e
  proof -
    from pl [OF that] obtain ft where ft: "placed (p @ CLOSING) ft e" unfolding src by blast
    have "lineBreaks p \<notin> set (edit_lines e)" using closing_line es(3) that src cl by (auto simp: domIff)
    from before_closing [OF ft this] show ?thesis by simp
  qed
  have apart: "sorted_wrt (\<lambda>e e'. edit_end e' \<le> edit_start e) ?xs"
    using pl es(2) by (intro from_the_end_apart) blast+
  define q where "q = foldl applyEdit p ?xs"
  have "applyEdits source located = q @ CLOSING"
    unfolding applyEdits_def src q_def using ends apart
    by (intro applyEdits_suffix [where m = "length p"]) auto
  with assms(1,2) src have out: "out = q @ concat (map rule_helpers rules) @ CLOSING"
    by (auto simp: deriveHarness_def ends_with_iff)
  have "lineBreaks q = lineBreaks p
     \<and> (\<forall>l. l \<notin> set (concat (map edit_lines ?xs)) \<longrightarrow> lines_of q ! l = lines_of p ! l)"
    unfolding q_def using pl ends apart
    by (intro applied_lines [where s = source and m = "length p"]) (auto simp: src)
  moreover have "l \<notin> set (concat (map edit_lines ?xs))" if "own l = None" for l
    using that domIff [of l own] unfolding es(3) by simp
  ultimately have q: "lineBreaks q = lineBreaks p" "own l = None \<Longrightarrow> lines_of q ! l = lines_of p ! l" for l
    by blast+
  then show ?thesis
    unfolding out src by (auto simp: line_before cl)
qed

subsection \<open>The order of the rules\<close>

definition labelled_edits :: "harness_rule list \<Rightarrow> (string \<times> (string \<times> string)) list" where
  "labelled_edits rules = concat (map (\<lambda>r. map (Pair (rule_label r)) (rule_edits r)) rules)"

definition locateAll :: "string \<Rightarrow> (string \<times> (string \<times> string)) list \<Rightarrow> located_edit list res" where
  "locateAll source lfs = rmap (\<lambda>(label, ft). locateEdit source label ft) lfs"

lemma rmap_append: "rmap f (xs @ ys) = rbind (rmap f xs) (\<lambda>us. rbind (rmap f ys) (\<lambda>vs. Inr (us @ vs)))"
  by (induction xs) (auto simp: rbind_assoc, metis rbind.simps append_Cons sum.exhaust)

lemma rmap_map: "rmap f (map g xs) = rmap (f \<circ> g) xs"
  by (induction xs) auto

lemma claimLines_iff:
  "(\<exists>own'. claimLines label ls own = Inr own') \<longleftrightarrow> distinct ls \<and> set ls \<inter> dom own = {}"
proof (induction label ls own rule: claimLines.induct)
  case (2 label l ls own)
  show ?case
  proof (cases "own l")
    case None
    have d: "dom (own(l \<mapsto> label)) = insert l (dom own)" by simp
    have step: "claimLines label (l # ls) own = claimLines label ls (own(l \<mapsto> label))" using None by simp
    from None show ?thesis unfolding step 2 [OF None] d by (auto simp: domIff)
  qed auto
qed simp

lemma claimEdits_iff:
  "(\<exists>own' located'. claimEdits label es (own, located) = Inr (own', located')) \<longleftrightarrow>
     distinct (concat (map edit_lines es)) \<and> set (concat (map edit_lines es)) \<inter> dom own = {}"
proof (induction es arbitrary: own located)
  case (Cons e es)
  show ?case
  proof (cases "claimLines label (edit_lines e) own")
    case (Inl x)
    with claimLines_iff [of label "edit_lines e" own] show ?thesis by auto
  next
    case (Inr own1)
    with claimLines_ok [OF Inr] Cons [of own1 "located @ [e]"] show ?thesis by auto
  qed
qed simp

lemma claimRules_iff:
  "(\<exists>own'. claimRules source rules (own, located) = Inr (own', located @ es)) \<longleftrightarrow>
     locateAll source (labelled_edits rules) = Inr es
     \<and> distinct (concat (map edit_lines es)) \<and> set (concat (map edit_lines es)) \<inter> dom own = {}"
proof (induction rules arbitrary: own located es)
  case Nil
  then show ?case by (auto simp: labelled_edits_def locateAll_def)
next
  case (Cons r rules)
  have all: "locateAll source (labelled_edits (r # rules)) =
      rbind (locateEdits source (rule_label r) (rule_edits r)) (\<lambda>us.
      rbind (locateAll source (labelled_edits rules)) (\<lambda>vs. Inr (us @ vs)))"
    by (simp add: labelled_edits_def locateAll_def rmap_append rmap_map locateEdits_def comp_def)
  show ?case
  proof (cases "locateEdits source (rule_label r) (rule_edits r)")
    case (Inl x)
    with all show ?thesis by simp
  next
    case (Inr us)
    show ?thesis
    proof (cases "claimEdits (rule_label r) us (own, located)")
      case (Inl x)
      with claimEdits_iff [of "rule_label r" us own located]
      have no: "\<not> (distinct (concat (map edit_lines us)) \<and> set (concat (map edit_lines us)) \<inter> dom own = {})"
        by simp
      have "\<not> (distinct (concat (map edit_lines (us @ vs))) \<and> set (concat (map edit_lines (us @ vs))) \<inter> dom own = {})" for vs
        using no by (auto simp del: set_concat)
      with Inl Inr show ?thesis unfolding all by (auto simp: rbind_Inr_iff simp del: set_concat)
    next
      case c: (Inr st)
      obtain own1 loc1 where st: "st = (own1, loc1)" by fastforce
      from claimEdits_ok [OF c [unfolded st]] have f: "loc1 = located @ us" "distinct (concat (map edit_lines us))"
        "set (concat (map edit_lines us)) \<inter> dom own = {}" "dom own1 = dom own \<union> set (concat (map edit_lines us))"
        by auto
      have step: "claimRules source (r # rules) (own, located) = claimRules source rules (own1, located @ us)"
        using Inr c st f by simp
      show ?thesis
      proof (cases "\<exists>vs. es = us @ vs")
        case True
        then obtain vs where es: "es = us @ vs" by blast
        with Cons [of own1 "located @ us" vs] f Inr show ?thesis
          unfolding step all by (auto simp: rbind_Inr_iff)
      next
        case False
        have "claimRules source rules (own1, located @ us) \<noteq> Inr (own', located @ es)" for own'
          using claimRules_ok [of source rules own1 "located @ us"] False by fastforce
        with False Inr show ?thesis unfolding step all by (auto simp: rbind_Inr_iff)
      qed
    qed
  qed
qed

lemma not_isl_iff: "\<not> isl x \<longleftrightarrow> x = Inr (projr x)"
  by (cases x) auto

lemma rmap_perm:
  assumes "mset ys = mset xs" "rmap f xs = Inr us"
  shows "\<exists>vs. rmap f ys = Inr vs \<and> mset vs = mset us"
proof -
  have ok: "rmap f zs = Inr (map (projr \<circ> f) zs)" if "\<forall>z \<in> set zs. \<not> isl (f z)" for zs
    using that by (induction zs) (auto simp: rbind_Inr_iff not_isl_iff)
  have "\<forall>z \<in> set xs. \<not> isl (f z)"
    using assms(2) by (induction xs arbitrary: us) (auto simp: rbind_Inr_iff)
  moreover have "set ys = set xs" using assms(1) by (rule mset_eq_setD)
  moreover have "us = map (projr \<circ> f) xs" using ok calculation assms(2) by simp
  ultimately have "rmap f ys = Inr (map (projr \<circ> f) ys)" "mset (map (projr \<circ> f) ys) = mset us"
    using ok assms(1) by auto
  then show ?thesis by blast
qed

lemma disjoint_members:
  "distinct (concat (map g es)) \<Longrightarrow> e \<in> set es \<Longrightarrow> e' \<in> set es \<Longrightarrow> e \<noteq> e' \<Longrightarrow> set (g e) \<inter> set (g e') = {}"
  by (induction es) auto

lemma same_application:
  assumes "\<forall>e \<in> set es. \<exists>ft. placed s ft e" "distinct (concat (map edit_lines es))" "mset es' = mset es"
  shows "from_the_end es' = from_the_end es"
proof -
  have "inj_on (\<lambda>e. - int (edit_start e)) (set es)"
  proof (rule inj_onI, rule ccontr)
    fix e e' assume e: "e \<in> set es" "e' \<in> set es" "- int (edit_start e) = - int (edit_start e')" "e \<noteq> e'"
    from assms(1) e obtain ft ft' where "placed s ft e" "placed s ft' e'" by blast
    with e(3) have "lineAt s (edit_start e) \<in> set (edit_lines e) \<inter> set (edit_lines e')"
      using placed_first_line by fastforce
    with disjoint_members [OF assms(2) e(1,2,4)] show False by simp
  qed
  then have "inj_on (\<lambda>e. - int (edit_start e)) (set es')" using mset_eq_setD [OF assms(3)] by simp
  with assms(3) show ?thesis by (intro sort_key_inj_key_eq) auto
qed

lemma derive_permuted:
  assumes "mset rules' = mset rules" "claimRules source rules (Map.empty, []) = Inr (own, located)"
  shows "\<exists>own' located'. claimRules source rules' (Map.empty, []) = Inr (own', located')
           \<and> applyEdits source located' = applyEdits source located"
proof -
  from claimRules_ok [OF assms(2)] have es: "list_all2 (placed source) (concat (map rule_edits rules)) located"
    "distinct (concat (map edit_lines located))" by auto
  from claimRules_iff [of source rules Map.empty "[]" located] assms(2)
  have "locateAll source (labelled_edits rules) = Inr located" by auto
  moreover have "mset (labelled_edits rules') = mset (labelled_edits rules)"
    unfolding labelled_edits_def by (rule mset_concat_map [OF assms(1)])
  ultimately obtain vs where vs: "locateAll source (labelled_edits rules') = Inr vs" "mset vs = mset located"
    unfolding locateAll_def using rmap_perm by blast
  have "distinct (concat (map edit_lines vs))"
    using es(2) mset_eq_imp_distinct_iff [OF mset_concat_map [OF vs(2), of edit_lines]] by simp
  with claimRules_iff [of source rules' Map.empty "[]" vs] vs obtain own'
    where c: "claimRules source rules' (Map.empty, []) = Inr (own', vs)" by auto
  have "from_the_end vs = from_the_end located"
    using list_all2_right [OF es(1)] es(2) vs(2) by (intro same_application) blast+
  with c show ?thesis by (auto simp: applyEdits_def)
qed

subsection \<open>The gates and the cache\<close>

definition gate_list :: "harness_gates \<Rightarrow> bool list" where
  "gate_list g = [hg_resourceFaultSignal g, hg_hostErrorStackStrip g, hg_hostCallBounds g, hg_stringifyReentry g,
     hg_perElementMeter g, hg_stringReceiverMeter g, hg_toStringSizeMeter g, hg_nativeStackTerminal g]"

lemma bit_of_bit: "semiring_bits_class.bit (bit_of i b) j \<longleftrightarrow> b \<and> i = j"
  by (auto simp: bit_of_def bit_exp_iff possible_bit_def)

lemma mask_decodes: "j < 8 \<Longrightarrow> semiring_bits_class.bit (harnessMask g) j \<longleftrightarrow> gate_list g ! j"
proof -
  assume "j < 8"
  then have "j = 0 \<or> j = 1 \<or> j = 2 \<or> j = 3 \<or> j = 4 \<or> j = 5 \<or> j = 6 \<or> j = 7" by auto
  then show ?thesis by (elim disjE) (simp_all add: harnessMask_def gate_list_def bit_or_iff bit_of_bit)
qed

lemma armed_by_mask:
  "length RULES = 8 \<Longrightarrow> armed_rules RULES (harnessMask g) = filter (\<lambda>i. gate_list g ! i) [0..<8]"
  unfolding armed_rules_def
  by (rule filter_cong) (auto simp: bit_of_def and_exp_eq_0_iff_not_bit mask_decodes)

definition sources_sound :: "harness_rule list \<Rightarrow> coupling list \<Rightarrow> string \<Rightarrow> (nat \<rightharpoonup> string) \<Rightarrow> bool" where
  "sources_sound RULES COUPLINGS source S \<longleftrightarrow>
     (\<forall>gates s. S gates = Some s \<longrightarrow> derivedFor RULES COUPLINGS source gates = Inr s)"

lemma request_sound:
  "sources_sound RULES CP source S \<Longrightarrow>
     fst (harnessSourceFor RULES CP source S gates) = derivedFor RULES CP source gates
     \<and> sources_sound RULES CP source (snd (harnessSourceFor RULES CP source S gates))"
  unfolding sources_sound_def harnessSourceFor_def
  by (auto split: option.split sum.split)

lemma requests_sound:
  "sources_sound RULES CP source S \<Longrightarrow>
     sources_sound RULES CP source (fold (\<lambda>gates S. snd (harnessSourceFor RULES CP source S gates)) hs S)"
  by (induction hs arbitrary: S) (auto simp: request_sound)

lemma derivedFor_0: "derivedFor RULES CP source 0 = deriveHarness source []"
  by (simp add: derivedFor_def rulesFor_def armed_rules_def)

lemma initial_sound: "load_check RULES CP source = Inr () \<Longrightarrow> sources_sound RULES CP source (initial_sources source)"
  by (auto simp: sources_sound_def initial_sources_def derivedFor_0 load_check_def rbind_Inr_iff split: if_splits)

lemma loaded_derives:
  assumes "load_check RULES CP source = Inr ()" "gates < 2 ^ length RULES"
  shows "\<exists>s. derivedFor RULES CP source gates = Inr s"
proof (cases "gates = 0")
  case True
  with assms(1) show ?thesis by (auto simp: derivedFor_0 load_check_def rbind_Inr_iff)
next
  case False
  with assms show ?thesis by (auto simp: load_check_def rbind_Inr_iff check_all_ok_iff)
qed

lemma rulesFor_members:
  "rulesFor RULES CP gates = Inr rs \<Longrightarrow>
     map (\<lambda>r. (rule_label r, rule_edits r)) rs
       = map (\<lambda>i. (rule_label (RULES ! i), rule_edits (RULES ! i))) (armed_rules RULES gates)"
  unfolding rulesFor_def Let_def rmap_list_all2
  by (induction rule: list_all2_induct) (auto simp: rbind_Inr_iff)

lemma bit_of_take:
  assumes "i < 8"
  shows "take_bit 8 (bit_of i b) = bit_of i b"
proof (rule take_bit_nat_eq_self)
  have "(2::nat) ^ i < 2 ^ 8" by (rule power_strict_increasing [OF assms]) simp
  then show "bit_of i b < 2 ^ 8" by (simp add: bit_of_def)
qed

lemma harnessMask_bound: "harnessMask g < 2 ^ 8"
proof -
  have "take_bit 8 (harnessMask g) = harnessMask g"
    unfolding harnessMask_def take_bit_or by (simp add: bit_of_take)
  then show ?thesis by (simp add: take_bit_nat_eq_self_iff)
qed

subsection \<open>Properties\<close>

text \<open>C33. Arming rules moves no line of the harness: in a derived harness every source line before the closing
  one that no edit owns is the same text under the same number, and the harness is longer by
  exactly the lines of the helpers, inserted before the closing line. Contract code can read harness
  positions out of error text, so this holds for any rules whose edits keep a line break they end
  in and leave the closing line alone.\<close>

theorem armed_harness_moves_no_line:
  assumes "deriveHarness source rules = Inr out" "claimRules source rules (Map.empty, []) = Inr (own, located)"
    and "\<forall>r \<in> set rules. \<forall>ft \<in> set (rule_edits r). breaks_safe ft"
    and "own (lineBreaks source - 1) = None"
  shows "lineBreaks out = lineBreaks source + lineBreaks (concat (map rule_helpers rules))
     \<and> (\<forall>l < lineBreaks source - 1. own l = None \<longrightarrow> split_on newline out ! l = split_on newline source ! l)"
  by (rule derived_lines [OF assms])

definition demo_source :: string where
  "demo_source = ''var a;'' @ [newline] @ ''var b;'' @ [newline] @ ''var c;'' @ [newline] @ CLOSING"

definition demo_rules :: "harness_rule list" where
  "demo_rules = [\<lparr>rule_label = ''first'', rule_edits = [(''var b;'' @ [newline], ''var b = 1;'' @ [newline])],
       rule_helpers = ''function f() {}'' @ [newline]\<rparr>,
     \<lparr>rule_label = ''second'', rule_edits = [(''var a'', ''var aa'')], rule_helpers = []\<rparr>]"

definition demo_armed :: string where
  "demo_armed = ''var aa;'' @ [newline] @ ''var b = 1;'' @ [newline] @ ''var c;'' @ [newline]
     @ ''function f() {}'' @ [newline] @ CLOSING"

lemma demo_derived: "deriveHarness demo_source demo_rules = Inr demo_armed"
  by code_simp

theorem armed_harness_moves_no_line_witness:
  "split_on newline demo_armed ! 2 = split_on newline demo_source ! 2"
proof -
  have c: "claimRules demo_source demo_rules (Map.empty, [])
      = Inr (Map.empty(1 \<mapsto> ''first'', 0 \<mapsto> ''second''),
          [\<lparr>edit_label = ''first'', edit_start = 7, edit_end = 14, edit_to = ''var b = 1;'' @ [newline], edit_lines = [1]\<rparr>,
           \<lparr>edit_label = ''second'', edit_start = 0, edit_end = 5, edit_to = ''var aa'', edit_lines = [0]\<rparr>])"
    by (simp add: demo_source_def demo_rules_def locateEdits_def locateEdit_def CLOSING_def newline_def starts_with_def
        lineAt_def lineBreaks_def chop_newline_def Let_def)
  have n: "lineBreaks demo_source = 4" by code_simp
  have "\<forall>r \<in> set demo_rules. \<forall>ft \<in> set (rule_edits r). breaks_safe ft" by code_simp
  from armed_harness_moves_no_line [OF demo_derived c this] n show ?thesis by simp
qed

text \<open>The order in which the rules are listed decides nothing but the order of their helpers: a permuted
  list derives whenever the list does, with the same edits applied to the same places.\<close>

theorem rule_order_moves_only_helpers:
  assumes "mset rules' = mset rules" "deriveHarness source rules = Inr out"
  shows "\<exists>edited. out = edited @ concat (map rule_helpers rules) @ CLOSING
     \<and> deriveHarness source rules' = Inr (edited @ concat (map rule_helpers rules') @ CLOSING)"
proof -
  from assms(2) obtain own located where e: "ends_with CLOSING source"
    "claimRules source rules (Map.empty, []) = Inr (own, located)"
    by (auto simp: deriveHarness_def rbind_Inr_iff split: if_splits)
  from derive_permuted [OF assms(1) e(2)] obtain own' located'
    where p: "claimRules source rules' (Map.empty, []) = Inr (own', located')"
      "applyEdits source located' = applyEdits source located" by blast
  let ?out = "applyEdits source located"
  from assms(2) e p have "out = take (length ?out - length CLOSING) ?out @ concat (map rule_helpers rules) @ CLOSING"
    "deriveHarness source rules' = Inr (take (length ?out - length CLOSING) ?out @ concat (map rule_helpers rules') @ CLOSING)"
    by (simp_all add: deriveHarness_def Let_def)
  then show ?thesis by blast
qed

theorem rule_order_moves_only_helpers_witness:
  "\<exists>edited. demo_armed = edited @ concat (map rule_helpers demo_rules) @ CLOSING
     \<and> deriveHarness demo_source (rev demo_rules) = Inr (edited @ concat (map rule_helpers (rev demo_rules)) @ CLOSING)"
  using rule_order_moves_only_helpers [OF _ demo_derived, of "rev demo_rules"] by simp

text \<open>Once the module has loaded, every execution gets the harness of exactly its own gates, whatever
  was asked for before it: the request never fails, the answer is the derivation of the rules whose
  gates are on, edits and labels in their fixed order, and with no gate on it is the unarmed
  harness byte for byte.\<close>

theorem harness_is_of_the_gates:
  assumes "load_check RULES COUPLINGS source = Inr ()" "length RULES = 8"
  shows "\<exists>s rs. fst (harnessSourceFor RULES COUPLINGS source
             (fold (\<lambda>gates S. snd (harnessSourceFor RULES COUPLINGS source S gates)) history (initial_sources source))
             (harnessMask g)) = Inr s
     \<and> rulesFor RULES COUPLINGS (harnessMask g) = Inr rs \<and> deriveHarness source rs = Inr s
     \<and> map (\<lambda>r. (rule_label r, rule_edits r)) rs
         = map (\<lambda>i. (rule_label (RULES ! i), rule_edits (RULES ! i))) (filter (\<lambda>i. gate_list g ! i) [0..<8])
     \<and> (True \<notin> set (gate_list g) \<longrightarrow> s = source)"
proof -
  let ?S = "fold (\<lambda>gates S. snd (harnessSourceFor RULES COUPLINGS source S gates)) history (initial_sources source)"
  from loaded_derives [OF assms(1), of "harnessMask g"] harnessMask_bound [of g] assms(2)
  obtain s where s: "derivedFor RULES COUPLINGS source (harnessMask g) = Inr s" by auto
  then obtain rs where rs: "rulesFor RULES COUPLINGS (harnessMask g) = Inr rs" "deriveHarness source rs = Inr s"
    by (auto simp: derivedFor_def rbind_Inr_iff)
  have "fst (harnessSourceFor RULES COUPLINGS source ?S (harnessMask g)) = Inr s"
    using request_sound [OF requests_sound [OF initial_sound [OF assms(1)]]] s by simp
  moreover have "s = source" if off: "True \<notin> set (gate_list g)"
  proof -
    from off have "armed_rules RULES (harnessMask g) = []"
      unfolding armed_by_mask [OF assms(2)] by (auto simp: filter_empty_conv gate_list_def nth_Cons split: nat.splits)
    with rs have "deriveHarness source [] = Inr s" by (simp add: rulesFor_def)
    with assms(1) show ?thesis by (auto simp: load_check_def rbind_Inr_iff split: if_splits)
  qed
  ultimately show ?thesis
    using rs rulesFor_members [OF rs(1)] armed_by_mask [OF assms(2), of g] by auto
qed

definition plain_rule :: "string \<Rightarrow> harness_rule" where
  "plain_rule l = \<lparr>rule_label = l, rule_edits = [], rule_helpers = ''function '' @ l @ ''() {}'' @ [newline]\<rparr>"

definition demo_table :: "harness_rule list" where
  "demo_table = map plain_rule [''a'', ''b'', ''c'', ''d'', ''e'', ''f'', ''g'', ''h'']"

lemma plain_derives: "\<forall>r \<in> set rules. rule_edits r = [] \<Longrightarrow>
  deriveHarness (p @ CLOSING) rules = Inr (p @ concat (map rule_helpers rules) @ CLOSING)"
proof -
  assume p: "\<forall>r \<in> set rules. rule_edits r = []"
  then have "claimRules (p @ CLOSING) rules (own, []) = Inr (own, [])" for own
    by (induction rules) (auto simp: locateEdits_def)
  then show ?thesis by (simp add: deriveHarness_def ends_with_iff applyEdits_def)
qed

lemma plain_rules: "\<exists>rs. rulesFor demo_table [] gates = Inr rs \<and> (\<forall>r \<in> set rs. rule_edits r = [])"
proof -
  have r: "(demo_table ! i)\<lparr>rule_helpers := rule_helpers (demo_table ! i)\<rparr> = demo_table ! i" for i by simp
  have "rmap (\<lambda>i. Inr (demo_table ! i)) xs = Inr (map ((!) demo_table) xs)" for xs by (induction xs) auto
  then have "rulesFor demo_table [] gates = Inr (map ((!) demo_table) (armed_rules demo_table gates))"
    by (simp add: rulesFor_def)
  moreover have "rule_edits r = []" if "r \<in> set demo_table" for r
    using that by (auto simp: demo_table_def plain_rule_def)
  ultimately show ?thesis by (auto simp: armed_rules_def)
qed

lemma demo_loads: "load_check demo_table [] (p @ CLOSING) = Inr ()"
proof -
  have "rbind (derivedFor demo_table [] (p @ CLOSING) gates) (\<lambda>_. Inr ()) = (Inr () :: unit res)" for gates
    using plain_rules [of gates] plain_derives by (fastforce simp: derivedFor_def)
  moreover have "check_all (\<lambda>_. Inr ()) xs = (Inr () :: unit res)" for xs :: "nat list"
    by (simp add: check_all_ok_iff)
  ultimately show ?thesis using plain_derives [of "[]" p] by (simp add: load_check_def)
qed

theorem harness_is_of_the_gates_witness:
  "\<exists>s rs. fst (harnessSourceFor demo_table [] CLOSING
       (fold (\<lambda>gates S. snd (harnessSourceFor demo_table [] CLOSING S gates)) [2, 5] (initial_sources CLOSING))
       (harnessMask \<lparr>hg_resourceFaultSignal = True, hg_hostErrorStackStrip = False, hg_hostCallBounds = True,
          hg_stringifyReentry = False, hg_perElementMeter = False, hg_stringReceiverMeter = False,
          hg_toStringSizeMeter = False, hg_nativeStackTerminal = False\<rparr>)) = Inr s
     \<and> deriveHarness CLOSING rs = Inr s \<and> map rule_label rs = [''a'', ''c'']"
proof -
  let ?g = "\<lparr>hg_resourceFaultSignal = True, hg_hostErrorStackStrip = False, hg_hostCallBounds = True,
          hg_stringifyReentry = False, hg_perElementMeter = False, hg_stringReceiverMeter = False,
          hg_toStringSizeMeter = False, hg_nativeStackTerminal = False\<rparr>"
  have l: "load_check demo_table [] CLOSING = Inr ()" "length demo_table = 8"
    using demo_loads [of "[]"] by (simp_all add: demo_table_def)
  from harness_is_of_the_gates [OF l, of "[2, 5]" ?g] obtain s rs
    where f: "fst (harnessSourceFor demo_table [] CLOSING
       (fold (\<lambda>gates S. snd (harnessSourceFor demo_table [] CLOSING S gates)) [2, 5] (initial_sources CLOSING))
       (harnessMask ?g)) = Inr s" "deriveHarness CLOSING rs = Inr s"
    and m: "map (\<lambda>r. (rule_label r, rule_edits r)) rs
         = map (\<lambda>i. (rule_label (demo_table ! i), rule_edits (demo_table ! i))) (filter (\<lambda>i. gate_list ?g ! i) [0..<8])"
    by (elim exE conjE)
  have "map fst (map (\<lambda>r. (rule_label r, rule_edits r)) rs) = [''a'', ''c'']"
    unfolding m by (simp add: gate_list_def upt_rec demo_table_def plain_rule_def)
  then have "map rule_label rs = [''a'', ''c'']" by (simp add: comp_def)
  with f show ?thesis by (intro exI conjI)
qed

end
