(* ===== verification/HarnessMeter.thy ===== *)
theory HarnessMeter
  imports Pipeline "HOL-Library.Multiset"
begin

text \<open>
  The meter inside the isolate: the globals injected ahead of the harness
  (src/index/runtime/isolate_globals.js) and the part of the harness that charges, counts depth and
  guards native recursion (src/index/runtime/harness_part_1.js to harness_part_5.js). A \<open>realm\<close> is
  the closure state of the harness over the host it charges; an action is a function of the realm
  that returns or throws and keeps the realm it reached. V8's own routines that a wrapper calls are
  arguments.

  A value the guards measure is seen through a \<open>view\<close>: which values are objects, and what their own
  enumerable slots hold. The view may be cyclic, as the values of a contract may.
\<close>

subsection \<open>isolate_globals.js\<close>

definition MAX_STACK_DEPTH_MUSL :: int where
  "MAX_STACK_DEPTH_MUSL = 256"

record isolate_globals =
  DEPTH_LIMIT :: int
  NR_DEPTH_LIMIT :: int
  PKG3_SANDBOX_ON :: bool
  blockTime :: rat
  JSON_HOOK_GATE :: rat
  ITER_SET_METER_ON :: bool
  APPLY_LENGTH_METER_ON :: bool
  STRING_RESULT_METER_ON :: bool
  stack_fault_signal :: bool
  NATIVE_STACK_TERMINAL_ON :: bool

definition effectiveDepthLimit :: "bool \<Rightarrow> int" where
  "effectiveDepthLimit pkg3SandboxOn = (if pkg3SandboxOn then MAX_STACK_DEPTH_MUSL else MAX_STACK_DEPTH)"

definition block_time_or_zero :: "jsval \<Rightarrow> rat" where
  "block_time_or_zero t = (case num_only t of Num r \<Rightarrow> r | _ \<Rightarrow> 0)"

definition injectExecutionGlobals :: "jsval \<Rightarrow> bool \<Rightarrow> bool \<Rightarrow> bool \<Rightarrow> isolate_globals" where
  "injectExecutionGlobals opts pkg3SandboxOn faultSignalOn nativeStackOn =
     (let t = block_number opts ''timestamp'' in
      \<lparr>DEPTH_LIMIT = effectiveDepthLimit pkg3SandboxOn,
       NR_DEPTH_LIMIT = min (effectiveDepthLimit pkg3SandboxOn) MAX_STACK_DEPTH_MUSL,
       PKG3_SANDBOX_ON = pkg3SandboxOn,
       blockTime = block_time_or_zero t,
       JSON_HOOK_GATE = jsonStringifyHookGateTime (net_of opts),
       ITER_SET_METER_ON = isIterSetMeterActive (net_of opts) t,
       APPLY_LENGTH_METER_ON = isApplyLengthMeterActive (net_of opts) t,
       STRING_RESULT_METER_ON = isStringResultMeterActive (net_of opts) t,
       stack_fault_signal = faultSignalOn,
       NATIVE_STACK_TERMINAL_ON = nativeStackOn\<rparr>)"

subsection \<open>The closure of the harness\<close>

record realm = isolate_globals +
  outside :: host
  failClosed :: bool
  stackDepth :: int
  stackPoison :: bool

type_synonym 'a act = "realm \<Rightarrow> 'a res \<times> realm"

definition i_ret :: "'a \<Rightarrow> 'a act" where
  "i_ret x = (\<lambda>r. (Inr x, r))"

definition i_bind :: "'a act \<Rightarrow> ('a \<Rightarrow> 'b act) \<Rightarrow> 'b act" where
  "i_bind m f = (\<lambda>r. case m r of (Inl e, r') \<Rightarrow> (Inl e, r') | (Inr x, r') \<Rightarrow> f x r')"

definition i_res :: "'a res \<Rightarrow> 'a act" where
  "i_res x = (\<lambda>r. (x, r))"

text \<open>The prelude's first run over a host: no depth yet.\<close>

definition new_realm :: "isolate_globals \<Rightarrow> bool \<Rightarrow> host \<Rightarrow> realm" where
  "new_realm g fc h = isolate_globals.extend g
     \<lparr>outside = h, failClosed = fc, stackDepth = 0, stackPoison = False\<rparr>"

definition stackError :: exn where
  "stackError = PlainError ''maximum call stack depth exceeded''"

definition poisoned :: "realm \<Rightarrow> 'a res \<times> realm" where
  "poisoned r = (Inl stackError, r\<lparr>stackPoison := True\<rparr>)"

text \<open>\<open>__gas\<close>: the host's reference behind the poison check.\<close>

definition gas_arg :: "jsval \<Rightarrow> jsval" where
  "gas_arg n = (case n of
     JNum (Num q) \<Rightarrow> JNum (Num (if 1 < q then q else 1))
   | JNum PInf \<Rightarrow> JNum PInf
   | _ \<Rightarrow> JNum (Num 1))"

definition gasRef :: "jsval \<Rightarrow> unit act" where
  "gasRef n = (\<lambda>r. case bridge (gas_call (failClosed r) n) (outside r) of
     (Inl e, h) \<Rightarrow> (Inl e, r\<lparr>outside := h\<rparr>)
   | (Inr _, h) \<Rightarrow> (Inr (), r\<lparr>outside := h\<rparr>))"

definition gasFunc :: "jsval \<Rightarrow> unit act" where
  "gasFunc n = (\<lambda>r. if stackPoison r then (Inl stackError, r) else gasRef (gas_arg n) r)"

abbreviation js_nat :: "nat \<Rightarrow> jsval" where
  "js_nat n \<equiv> JNum (Num (of_nat n))"

text \<open>\<open>__allocGas(n)\<close> coerces its argument and charges sizes above one.\<close>

definition allocGas :: "jsval \<Rightarrow> unit act" where
  "allocGas n = i_bind (i_res (to_num n)) (\<lambda>x.
     if num_less (Num 1) x then gasFunc (JNum x) else i_ret ())"

definition meterUpgradeOn :: "realm \<Rightarrow> bool" where
  "meterUpgradeOn r \<longleftrightarrow> BINARY_ALLOC_GATE_BLOCK_TIME \<le> blockTime r"

definition nrGuardOn :: "realm \<Rightarrow> bool" where
  "nrGuardOn r \<longleftrightarrow> meterUpgradeOn r \<and> 0 < NR_DEPTH_LIMIT r"

definition jsonHookGuardOn :: "realm \<Rightarrow> bool" where
  "jsonHookGuardOn r \<longleftrightarrow> nrGuardOn r \<and> JSON_HOOK_GATE r \<le> blockTime r"

subsection \<open>The call-depth hooks\<close>

definition depth_enter :: "unit act" where
  "depth_enter = (\<lambda>r.
     if stackPoison r then (Inl stackError, r)
     else if 0 < DEPTH_LIMIT r \<and> DEPTH_LIMIT r \<le> stackDepth r then poisoned r
     else (Inr (), r\<lparr>stackDepth := stackDepth r + 1\<rparr>))"

definition depth_exit :: "unit act" where
  "depth_exit = (\<lambda>r. (Inr (), if 0 < stackDepth r then r\<lparr>stackDepth := stackDepth r - 1\<rparr> else r))"

subsection \<open>The guard of a value's nesting\<close>

record 'v view =
  is_object :: "'v \<Rightarrow> bool"
  is_array :: "'v \<Rightarrow> bool"
  slots :: "'v \<Rightarrow> 'v list"

definition object_slots :: "'v view \<Rightarrow> 'v \<Rightarrow> 'v list" where
  "object_slots W v = filter (is_object W) (slots W v)"

text \<open>The scan width: an array is charged before the scan, an object after it. Reading the slots of
  plain data runs no contract code, so both charge at the same point of the walk.\<close>

definition charge_width :: "'v view \<Rightarrow> 'v \<Rightarrow> unit act" where
  "charge_width W v = (if 1 < length (slots W v) then gasFunc (js_nat (length (slots W v))) else i_ret ())"

text \<open>The \<open>while\<close> loop over the explicit stack of values and depths. A level deeper than the limit
  ends the walk, so it returns on cyclic values too.\<close>

definition levels_left :: "int \<Rightarrow> ('v \<times> int) list \<Rightarrow> nat multiset" where
  "levels_left limit stack = mset (map (\<lambda>(v, d). nat (limit + 1 - d)) stack)"

lemma levels_left_step:
  assumes "d \<le> limit"
  shows "(levels_left limit (rev (map (\<lambda>c. (c, d + 1)) cs) @ stack), levels_left limit ((v, d) # stack))
     \<in> mult less_than"
proof -
  let ?K = "levels_left limit (rev (map (\<lambda>c. (c, d + 1)) cs))"
  have "\<forall>k \<in># ?K. \<exists>j \<in># {#nat (limit + 1 - d)#}. (k, j) \<in> less_than"
    using assms by (auto simp: levels_left_def)
  from one_step_implies_mult [OF _ this, of "levels_left limit stack"]
  show ?thesis by (simp add: levels_left_def add.commute)
qed

function guard_walk :: "'v view \<Rightarrow> int \<Rightarrow> ('v \<times> int) list \<Rightarrow> unit act" where
  "guard_walk W limit [] r = (Inr (), r)"
| "guard_walk W limit ((v, d) # stack) r =
     (case gasFunc (js_nat 1) r of
        (Inl e, r1) \<Rightarrow> (Inl e, r1)
      | (Inr _, r1) \<Rightarrow>
          if limit < d then poisoned r1
          else (case charge_width W v r1 of
              (Inl e, r2) \<Rightarrow> (Inl e, r2)
            | (Inr _, r2) \<Rightarrow>
                guard_walk W limit (rev (map (\<lambda>c. (c, d + 1)) (object_slots W v)) @ stack) r2))"
  by pat_completeness auto

termination
  by (relation "inv_image (mult less_than) (\<lambda>(W, limit, stack, r). levels_left limit stack)")
    (auto intro!: wf_mult levels_left_step)

definition guardNativeDepth :: "'v view \<Rightarrow> 'v \<Rightarrow> unit act" where
  "guardNativeDepth W v = (\<lambda>r.
     if \<not> nrGuardOn r then (Inr (), r)
     else if stackPoison r then (Inl stackError, r)
     else if \<not> is_object W v then (Inr (), r)
     else guard_walk W (NR_DEPTH_LIMIT r) [(v, 1)] r)"

text \<open>Plain data seen by the guard.\<close>

definition data_view :: "jsval view" where
  "data_view = \<lparr>is_object = (\<lambda>v. typeof v = ''object'' \<and> v \<noteq> JNull), is_array = isArray,
     slots = (\<lambda>v. map snd (own_entries v))\<rparr>"

subsection \<open>The guard of a text's nesting\<close>

text \<open>What follows the string literal whose opening quote has been read. A backslash takes the next
  unit with it.\<close>

fun after_literal :: "string \<Rightarrow> string" where
  "after_literal [] = []"
| "after_literal (c # s) =
     (if c = CHR 0x5C then after_literal (tl s)
      else if c = CHR 0x22 then s
      else after_literal s)"

lemma after_literal_shorter: "length (after_literal s) \<le> length s"
proof (induction s rule: after_literal.induct)
  case (2 c s)
  consider "c = CHR 0x5C" | "c \<noteq> CHR 0x5C" "c = CHR 0x22" | "c \<noteq> CHR 0x5C" "c \<noteq> CHR 0x22" by blast
  then show ?case
  proof cases
    case 1
    from 2(1) [OF 1] have "length (after_literal (tl s)) \<le> length s" by simp
    with 1 show ?thesis by simp
  next
    case 3
    from 2(2) [OF 3] 3 show ?thesis by simp
  qed simp
qed simp

function too_deep :: "int \<Rightarrow> int \<Rightarrow> string \<Rightarrow> bool" where
  "too_deep limit depth [] = False"
| "too_deep limit depth (c # s) =
     (if c = CHR 0x22 then too_deep limit depth (after_literal s)
      else if c = CHR ''['' \<or> c = CHR ''{'' then
        (if limit < depth + 1 then True else too_deep limit (depth + 1) s)
      else if c = CHR '']'' \<or> c = CHR ''}'' then
        too_deep limit (if 0 < depth then depth - 1 else depth) s
      else too_deep limit depth s)"
  by pat_completeness auto
termination
  by (relation "measure (\<lambda>(limit, depth, s). length s)") (simp_all add: less_Suc_eq_le after_literal_shorter)

definition guardParseDepth :: "string \<Rightarrow> unit act" where
  "guardParseDepth text = (\<lambda>r.
     if \<not> nrGuardOn r then (Inr (), r)
     else if stackPoison r then (Inl stackError, r)
     else if too_deep (NR_DEPTH_LIMIT r) 0 text then poisoned r
     else (Inr (), r))"

subsection \<open>JSON below the value-hook gate\<close>

text \<open>The wrapper of \<open>JSON.stringify\<close> on plain data while the value hooks are not resolved, and the
  wrapper of \<open>JSON.parse\<close> over V8's parser.\<close>

definition js_length :: "string \<Rightarrow> jsval" where
  "js_length s = js_nat (utf16_len s)"

definition json_stringify :: "jsval \<Rightarrow> jsval act" where
  "json_stringify v =
     i_bind (guardNativeDepth data_view v) (\<lambda>_.
       case json_text v of
         None \<Rightarrow> i_ret JUndef
       | Some t \<Rightarrow> i_bind (allocGas (js_length t)) (\<lambda>_. i_ret (JStr t)))"

definition json_parse :: "(string \<Rightarrow> jsval res) \<Rightarrow> jsval \<Rightarrow> jsval act" where
  "json_parse native text =
     (case text of
        JStr s \<Rightarrow> i_bind (allocGas (js_length s)) (\<lambda>_. i_bind (guardParseDepth s) (\<lambda>_. i_res (native s)))
      | _ \<Rightarrow> (\<lambda>r.
          if nrGuardOn r \<and> text \<noteq> JNull \<and> typeof text \<in> {''object'', ''function''}
          then i_bind (i_res (to_str text)) (\<lambda>s. i_bind (allocGas (js_length s)) (\<lambda>_.
                 i_bind (guardParseDepth s) (\<lambda>_. i_res (native s)))) r
          else i_bind (i_res (to_str text)) (\<lambda>s. i_res (native s)) r))"

end
