(* ===== verification/HarnessBuiltins.thy ===== *)
theory HarnessBuiltins
  imports HarnessMeter
begin

text \<open>
  The metered builtins of the harness (src/index/runtime/harness_part_1.js to harness_part_5.js).
  Each wrapper charges around V8's own routine, the argument \<open>native\<close>, which gets the receiver and
  the arguments and may itself run contract code. The helpers the metering transform calls for
  concatenation, templates and spread are functions of their own. Receivers and arguments are plain
  data; \<open>iterable\<close> says which values have an iterator.
\<close>

type_synonym native = "jsval \<Rightarrow> jsval list \<Rightarrow> jsval act"

subsection \<open>Reads and arithmetic\<close>

definition arg :: "jsval list \<Rightarrow> nat \<Rightarrow> jsval" where
  "arg args i = (if i < length args then args ! i else JUndef)"

text \<open>\<open>v[k]\<close> for a value that is neither null nor undefined; a string has a length.\<close>

definition read_prop :: "jsval \<Rightarrow> string \<Rightarrow> jsval" where
  "read_prop v k = (case v of JStr s \<Rightarrow> if k = ''length'' then js_length s else JUndef | _ \<Rightarrow> js_get v k)"

text \<open>\<open>v == null ? 0 : v.length\<close>, and \<open>v && typeof v[k] === 'number'\<close>.\<close>

definition length_of :: "jsval \<Rightarrow> jsval" where
  "length_of v = (if nullish v then js_nat 0 else read_prop v ''length'')"

definition number_at :: "jsval \<Rightarrow> string \<Rightarrow> jsnum option" where
  "number_at v k = (if truthy v then (case read_prop v k of JNum n \<Rightarrow> Some n | _ \<Rightarrow> None) else None)"

fun num_sign :: "jsnum \<Rightarrow> int" where
  "num_sign (Num q) = (if q < 0 then - 1 else if 0 < q then 1 else 0)"
| "num_sign PInf = 1" | "num_sign NInf = - 1" | "num_sign NaN = 0"

definition num_mul :: "jsnum \<Rightarrow> jsnum \<Rightarrow> jsnum" where
  "num_mul a b = (case (a, b) of
     (Num x, Num y) \<Rightarrow> Num (x * y)
   | _ \<Rightarrow> if a = NaN \<or> b = NaN \<or> num_sign a * num_sign b = 0 then NaN
          else if 0 < num_sign a * num_sign b then PInf else NInf)"

text \<open>\<open>a + b\<close>: objects become text, text on either side makes it a concatenation.\<close>

definition to_primitive :: "jsval \<Rightarrow> jsval res" where
  "to_primitive v = (case v of
     JArr _ \<Rightarrow> rbind (to_str v) (\<lambda>s. Inr (JStr s))
   | JObj _ \<Rightarrow> rbind (to_str v) (\<lambda>s. Inr (JStr s))
   | JNative _ \<Rightarrow> rbind (to_str v) (\<lambda>s. Inr (JStr s))
   | _ \<Rightarrow> Inr v)"

definition js_add :: "jsval \<Rightarrow> jsval \<Rightarrow> jsval res" where
  "js_add a b =
     rbind (to_primitive a) (\<lambda>x. rbind (to_primitive b) (\<lambda>y.
       if typeof x = ''string'' \<or> typeof y = ''string''
       then rbind (to_str x) (\<lambda>s. rbind (to_str y) (\<lambda>t. Inr (JStr (s @ t))))
       else rbind (to_num x) (\<lambda>m. rbind (to_num y) (\<lambda>n. Inr (JNum (num_add m n))))))"

subsection \<open>Wrappers that charge first\<close>

definition w_meterLen :: "native \<Rightarrow> native" where
  "w_meterLen native this args = i_bind (allocGas (length_of this)) (\<lambda>_. native this args)"

definition w_repeat :: "native \<Rightarrow> native" where
  "w_repeat native this args =
     i_bind (i_res (to_num (arg args 0))) (\<lambda>c.
     i_bind (if num_less (Num 0) c
             then i_bind (i_res (to_num (read_prop this ''length''))) (\<lambda>n. allocGas (JNum (num_mul c n)))
             else i_ret ()) (\<lambda>_. native this args))"

definition w_pad :: "native \<Rightarrow> native" where
  "w_pad native this args = i_bind (allocGas (arg args 0)) (\<lambda>_. native this args)"

definition w_globalFn :: "native \<Rightarrow> native" where
  "w_globalFn native this args =
     i_bind (case arg args 0 of JStr s \<Rightarrow> allocGas (js_length s) | _ \<Rightarrow> i_ret ()) (\<lambda>_. native this args)"

definition w_mutator :: "native \<Rightarrow> native" where
  "w_mutator native this args = i_bind (gasFunc (js_nat 1)) (\<lambda>_. native this args)"

fun add_lengths :: "(jsval \<Rightarrow> jsval option) \<Rightarrow> jsval \<Rightarrow> jsval list \<Rightarrow> jsval res" where
  "add_lengths len n [] = Inr n"
| "add_lengths len n (a # args) =
     rbind (js_add n (case len a of Some l \<Rightarrow> l | None \<Rightarrow> js_nat 1)) (\<lambda>n'. add_lengths len n' args)"

definition w_array_concat :: "native \<Rightarrow> native" where
  "w_array_concat native this args =
     i_bind (i_res (add_lengths (\<lambda>a. map_option JNum (number_at a ''length'')) (length_of this) args)) (\<lambda>n.
     i_bind (allocGas n) (\<lambda>_. native this args))"

definition w_string_concat :: "native \<Rightarrow> native" where
  "w_string_concat native this args =
     i_bind (i_res (add_lengths (\<lambda>a. case a of JStr s \<Rightarrow> Some (js_length s) | _ \<Rightarrow> None) (length_of this) args)) (\<lambda>n.
     i_bind (allocGas n) (\<lambda>_. native this args))"

text \<open>The compare count of a default sort: \<open>while (m < n) { m *= 2; lg++; }\<close>.\<close>

function log_loop :: "nat \<Rightarrow> nat \<Rightarrow> nat \<Rightarrow> nat" where
  "log_loop n m lg = (if 0 < m \<and> m < n then log_loop n (2 * m) (lg + 1) else lg)"
  by pat_completeness auto
termination by (relation "measure (\<lambda>(n, m, lg). n - m)") auto

declare log_loop.simps [simp del]

definition string_bytes :: "jsval list \<Rightarrow> nat" where
  "string_bytes xs = sum_list (map (\<lambda>v. case v of JStr s \<Rightarrow> utf16_len s | _ \<Rightarrow> 0) xs)"

text \<open>\<open>sort\<close> and \<open>toSorted\<close> of an array, and of a typed array, whose elements are numbers.\<close>

definition w_sort :: "native \<Rightarrow> jsval list \<Rightarrow> jsval list \<Rightarrow> jsval act" where
  "w_sort native xs args = (\<lambda>r.
     let n = length xs in
     i_bind (if meterUpgradeOn r \<and> typeof (arg args 0) \<noteq> ''function'' \<and> 1 < n
             then allocGas (js_nat (n * log_loop n 1 0 + string_bytes xs))
             else allocGas (js_nat n)) (\<lambda>_. native (JArr xs) args) r)"

definition w_typed_sort :: "native \<Rightarrow> jsval list \<Rightarrow> jsval list \<Rightarrow> jsval act" where
  "w_typed_sort native xs args =
     (let n = length xs in
      i_bind (if typeof (arg args 0) \<noteq> ''function'' \<and> 1 < n
              then allocGas (js_nat (n * log_loop n 1 0)) else allocGas (js_nat n)) (\<lambda>_. native (JArr xs) args))"

definition w_typed_set :: "native \<Rightarrow> native" where
  "w_typed_set native this args =
     i_bind (allocGas (case number_at (arg args 0) ''length'' of Some n \<Rightarrow> JNum n | None \<Rightarrow> js_nat 0))
       (\<lambda>_. native this args)"

definition sizeOf :: "jsval \<Rightarrow> jsnum" where
  "sizeOf v = (if nullish v then Num 0 else (case read_prop v ''size'' of JNum n \<Rightarrow> n | _ \<Rightarrow> Num 0))"

definition w_set_algebra :: "native \<Rightarrow> native" where
  "w_set_algebra native this args =
     i_bind (allocGas (JNum (num_add (sizeOf this) (sizeOf (arg args 0))))) (\<lambda>_. native this args)"

definition w_drop :: "native \<Rightarrow> native" where
  "w_drop native this args =
     i_bind (i_res (to_num (arg args 0))) (\<lambda>c.
     i_bind (if num_less (Num 0) c then allocGas (JNum c) else i_ret ()) (\<lambda>_. native this args))"

definition GROW_THRESHOLD :: nat where
  "GROW_THRESHOLD = 256"

definition w_apply :: "native \<Rightarrow> native" where
  "w_apply native this args =
     i_bind (case arg args 1 of
               JArr xs \<Rightarrow> if GROW_THRESHOLD < length xs then gasFunc (js_nat (length xs)) else i_ret ()
             | a \<Rightarrow> if nullish a then i_ret ()
                   else (case read_prop a ''length'' of
                       JNum n \<Rightarrow> if num_less (Num (of_nat GROW_THRESHOLD)) n then gasFunc (JNum n) else i_ret ()
                     | _ \<Rightarrow> i_ret ()))
       (\<lambda>_. native this args)"

subsection \<open>Wrappers that charge what came out\<close>

definition charge_text :: "jsval \<Rightarrow> unit act" where
  "charge_text v = (case v of JStr s \<Rightarrow> allocGas (js_length s) | _ \<Rightarrow> i_ret ())"

definition charge_length :: "jsval \<Rightarrow> unit act" where
  "charge_length v = (case number_at v ''length'' of Some n \<Rightarrow> allocGas (JNum n) | None \<Rightarrow> i_ret ())"

definition after_native :: "native \<Rightarrow> (jsval \<Rightarrow> unit act) \<Rightarrow> native" where
  "after_native native pay this args = i_bind (native this args) (\<lambda>v. i_bind (pay v) (\<lambda>_. i_ret v))"

definition w_join :: "native \<Rightarrow> native" where
  "w_join native this args = (\<lambda>r.
     i_bind (guardNativeDepth data_view this) (\<lambda>_.
       if meterUpgradeOn r then after_native native charge_text this args else w_meterLen native this args) r)"

definition w_flat :: "native \<Rightarrow> native" where
  "w_flat native this args = (\<lambda>r.
     i_bind (guardNativeDepth data_view this) (\<lambda>_.
       if meterUpgradeOn r then after_native native charge_length this args else w_meterLen native this args) r)"

definition charge_replaced :: "jsval \<Rightarrow> jsval \<Rightarrow> unit act" where
  "charge_replaced n v =
     (case (v, n) of
        (JStr s, JNum k) \<Rightarrow> if num_less k (Num (of_nat (utf16_len s))) then allocGas (js_length s) else allocGas n
      | (JStr s, _) \<Rightarrow> i_bind (i_res (to_num n)) (\<lambda>k.
            if num_less k (Num (of_nat (utf16_len s))) then allocGas (js_length s) else allocGas n)
      | _ \<Rightarrow> allocGas n)"

definition w_replace :: "native \<Rightarrow> native" where
  "w_replace native this args = (\<lambda>r.
     (let n = length_of this in
      if meterUpgradeOn r then after_native native (charge_replaced n) this args
      else i_bind (allocGas n) (\<lambda>_. native this args)) r)"

definition w_from :: "native \<Rightarrow> native" where
  "w_from native this args = (\<lambda>r.
     (let src = arg args 0 in
      case number_at src ''length'' of
        Some n \<Rightarrow> i_bind (allocGas (JNum n)) (\<lambda>_. native this args)
      | None \<Rightarrow>
          if meterUpgradeOn r then
            (case number_at src ''size'' of
               Some n \<Rightarrow> i_bind (allocGas (JNum n)) (\<lambda>_. native this args)
             | None \<Rightarrow> after_native native charge_length this args)
          else native this args) r)"

text \<open>The constructors of buffers and of collections. A sized source is charged before it is copied.\<close>

definition w_binary_ctor :: "(jsval \<Rightarrow> bool) \<Rightarrow> nat option \<Rightarrow> native \<Rightarrow> native" where
  "w_binary_ctor iterable bytes native this args =
     (let a = arg args 0; bpe = Num (of_nat (case bytes of Some b \<Rightarrow> b | None \<Rightarrow> 1)) in
      case a of
        JNum n \<Rightarrow> i_bind (allocGas (JNum (num_mul n bpe))) (\<lambda>_. native this args)
      | _ \<Rightarrow>
          if bytes = None then native this args
          else (case number_at a ''length'' of
              Some n \<Rightarrow> i_bind (allocGas (JNum (num_mul n bpe))) (\<lambda>_. native this args)
            | None \<Rightarrow> (case number_at a ''size'' of
                  Some n \<Rightarrow> i_bind (allocGas (JNum (num_mul n bpe))) (\<lambda>_. native this args)
                | None \<Rightarrow>
                    if truthy a \<and> iterable a
                    then after_native native (\<lambda>v. case number_at v ''length'' of
                           Some n \<Rightarrow> allocGas (JNum (num_mul n bpe)) | None \<Rightarrow> i_ret ()) this args
                    else native this args)))"

definition w_collection_ctor :: "(jsval \<Rightarrow> bool) \<Rightarrow> native \<Rightarrow> native" where
  "w_collection_ctor iterable native this args =
     (let a = arg args 0 in
      case number_at a ''length'' of
        Some n \<Rightarrow> i_bind (allocGas (JNum n)) (\<lambda>_. native this args)
      | None \<Rightarrow> (case number_at a ''size'' of
            Some n \<Rightarrow> i_bind (allocGas (JNum n)) (\<lambda>_. native this args)
          | None \<Rightarrow>
              if truthy a \<and> iterable a
              then after_native native (\<lambda>v. case number_at v ''size'' of
                     Some n \<Rightarrow> allocGas (JNum n) | None \<Rightarrow> i_ret ()) this args
              else native this args))"

text \<open>The statics of \<open>Object\<close> charge inside a \<open>try\<close> whose handler is empty: a charge that fails is
  recorded by the host but does not stop the call.\<close>

definition swallow :: "unit act \<Rightarrow> unit act" where
  "swallow m = (\<lambda>r. case m r of (_, r') \<Rightarrow> (Inr (), r'))"

definition lenArr :: "jsval \<Rightarrow> jsval" where
  "lenArr v = (case number_at v ''length'' of Some n \<Rightarrow> JNum n | None \<Rightarrow> js_nat 0)"

definition lenObj :: "jsval \<Rightarrow> jsval" where
  "lenObj v = js_nat (if truthy v \<and> typeof v = ''object'' then length (own_entries v) else 0)"

definition w_object_static :: "(jsval \<Rightarrow> jsval) \<Rightarrow> native \<Rightarrow> native" where
  "w_object_static toLen native this args = after_native native (\<lambda>v. swallow (allocGas (toLen v))) this args"

definition w_string_result :: "native \<Rightarrow> native" where
  "w_string_result native this args = after_native native (\<lambda>v. allocGas (read_prop v ''length'')) this args"

subsection \<open>The helpers of the metering transform\<close>

definition slen :: "jsval \<Rightarrow> nat" where
  "slen v = (case v of JStr s \<Rightarrow> utf16_len s | _ \<Rightarrow> 0)"

definition charge_above :: "nat \<Rightarrow> unit act" where
  "charge_above n = (if GROW_THRESHOLD < n then gasFunc (js_nat n) else i_ret ())"

text \<open>What a concatenation grew beyond its longer operand.\<close>

definition grown :: "jsval \<Rightarrow> jsval \<Rightarrow> jsval \<Rightarrow> unit act" where
  "grown a b r = (case r of JStr s \<Rightarrow> charge_above (utf16_len s - max (slen a) (slen b)) | _ \<Rightarrow> i_ret ())"

definition h_concat :: "jsval \<Rightarrow> jsval \<Rightarrow> jsval act" where
  "h_concat a b = i_bind (i_res (js_add a b)) (\<lambda>r. i_bind (grown a b r) (\<lambda>_. i_ret r))"

text \<open>\<open>obj[key] += b\<close>: the object is read and written through \<open>get\<close> and \<open>put\<close>, which may run accessors
  of the contract. Before the gate the right side was evaluated by the caller; past it the thunk runs
  after the read of the old value.\<close>

definition h_setconcat :: "jsval act \<Rightarrow> (jsval \<Rightarrow> unit act) \<Rightarrow> jsval \<Rightarrow> jsval act" where
  "h_setconcat get put b =
     i_bind get (\<lambda>a. i_bind (h_concat a b) (\<lambda>r. i_bind (put r) (\<lambda>_. i_ret r)))"

definition h_setconcatL :: "jsval act \<Rightarrow> (jsval \<Rightarrow> unit act) \<Rightarrow> jsval act \<Rightarrow> jsval act" where
  "h_setconcatL get put rhsThunk =
     i_bind get (\<lambda>a. i_bind rhsThunk (\<lambda>b. i_bind (h_concat a b) (\<lambda>r. i_bind (put r) (\<lambda>_. i_ret r))))"

text \<open>A template: each part becomes text (\<open>'' + p\<close>), the parts are joined.\<close>

fun joined :: "string \<Rightarrow> nat \<Rightarrow> jsval list \<Rightarrow> (string \<times> nat) res" where
  "joined r longest [] = Inr (r, longest)"
| "joined r longest (p # ps) =
     rbind (to_str p) (\<lambda>s. joined (r @ s) (max longest (utf16_len s)) ps)"

definition h_tmpl :: "jsval list \<Rightarrow> jsval act" where
  "h_tmpl parts = i_bind (i_res (joined [] 0 parts)) (\<lambda>(r, longest).
     i_bind (charge_above (utf16_len r - longest)) (\<lambda>_. i_ret (JStr r)))"

text \<open>A tagged template: the charge over the cooked strings and the substitutions, then the tag.\<close>

definition h_tagInvoke :: "native \<Rightarrow> jsval \<Rightarrow> jsval list \<Rightarrow> jsval list \<Rightarrow> jsval act" where
  "h_tagInvoke fn this cooked exprs =
     (let ls = map slen (cooked @ exprs) in
      i_bind (charge_above (sum_list ls - foldl max 0 ls)) (\<lambda>_. fn this (JArr cooked # exprs)))"

text \<open>Spread: segments tagged \<open>s\<close> (spread), \<open>h\<close> (a hole) or anything else (one element). \<open>iterate\<close> is the
  iteration of the spread source; a hole reads as undefined.\<close>

fun spread_segments :: "(jsval \<Rightarrow> jsval list act) \<Rightarrow> (string \<times> jsval) list \<Rightarrow> jsval list \<Rightarrow> nat
    \<Rightarrow> (jsval list \<times> nat) act" where
  "spread_segments iterate [] r n = i_ret (r, n)"
| "spread_segments iterate ((kind, v) # segs) r n =
     (if kind = ''s''
      then i_bind (iterate v) (\<lambda>a. spread_segments iterate segs (r @ a) (n + length a))
      else if kind = ''h'' then spread_segments iterate segs (r @ [JUndef]) n
      else spread_segments iterate segs (r @ [v]) n)"

definition h_arrspread :: "(jsval \<Rightarrow> jsval list act) \<Rightarrow> (string \<times> jsval) list \<Rightarrow> jsval act" where
  "h_arrspread iterate segments =
     i_bind (spread_segments iterate segments [] 0) (\<lambda>(r, n). i_bind (charge_above n) (\<lambda>_. i_ret (JArr r)))"

text \<open>\<open>r[k] = v\<close> on the fresh result: an assignment to \<open>__proto__\<close> reaches the inherited setter, which
  changes the prototype and creates no property. A spread source is an object or nullish.\<close>

definition put_key :: "(string \<times> jsval) list \<Rightarrow> string \<times> jsval \<Rightarrow> (string \<times> jsval) list" where
  "put_key kvs e = (if fst e = ''__proto__'' then kvs
     else if map_of kvs (fst e) = None then kvs @ [e]
     else map (\<lambda>(k, v). if k = fst e then e else (k, v)) kvs)"

fun spread_targets :: "(string \<times> string \<times> jsval) list \<Rightarrow> (string \<times> jsval) list \<Rightarrow> nat
    \<Rightarrow> (string \<times> jsval) list \<times> nat" where
  "spread_targets [] r n = (r, n)"
| "spread_targets ((kind, k, v) # ts) r n =
     (if kind = ''s''
      then (if nullish v then spread_targets ts r n
            else spread_targets ts (foldl put_key r (own_entries v)) (n + length (own_entries v)))
      else spread_targets ts (put_key r (k, v)) n)"

definition h_objspread :: "(string \<times> string \<times> jsval) list \<Rightarrow> jsval act" where
  "h_objspread targets = (case spread_targets targets [] 0 of
     (r, n) \<Rightarrow> i_bind (charge_above n) (\<lambda>_. i_ret (JObj r)))"

definition h_objspreadmeter :: "jsval \<Rightarrow> jsval act" where
  "h_objspreadmeter v =
     i_bind (if nullish v then i_ret () else charge_above (length (own_entries v))) (\<lambda>_. i_ret v)"

end
