(* ===== verification/HarnessMeterProps.thy ===== *)
theory HarnessMeterProps
  imports HarnessMeter CallProps
begin

text \<open>
  What the guards of the in-isolate meter decide: the walk over a value decides its nesting and
  charges its size, whatever the value's shape, and the scan of a JSON text decides the same
  nesting as the walk over the value it prints.
\<close>

subsection \<open>One charge\<close>

definition unit_price :: "rat \<Rightarrow> realm \<Rightarrow> bool" where
  "unit_price c r \<longleftrightarrow> gas_cost (gas (outside r)) ''VM_COMPUTATION'' = JNum (Num c) \<and> 0 \<le> c"

definition spent :: "realm \<Rightarrow> rat" where
  "spent r = used (gas (outside r))"

definition fits :: "realm \<Rightarrow> rat \<Rightarrow> bool" where
  "fits r a \<longleftrightarrow> spent r + a \<le> ceiling (gas (outside r))"

definition paid :: "rat \<Rightarrow> realm \<Rightarrow> realm" where
  "paid a r = r\<lparr>outside := (outside r)\<lparr>gas := (gas (outside r))\<lparr>used := spent r + a\<rparr>\<rparr>\<rparr>"

lemma paid_simps [simp]:
  "spent (paid a r) = spent r + a" "stackPoison (paid a r) = stackPoison r"
  "unit_price c (paid a r) = unit_price c r" "fits (paid a r) b = fits r (a + b)"
  "paid b (paid a r) = paid (a + b) r" "paid 0 r = r"
  "NR_DEPTH_LIMIT (paid a r) = NR_DEPTH_LIMIT r" "blockTime (paid a r) = blockTime r"
  "stackDepth (paid a r) = stackDepth r" "DEPTH_LIMIT (paid a r) = DEPTH_LIMIT r"
  by (simp_all add: paid_def spent_def unit_price_def fits_def gas_cost_def add.assoc)

lemma fits_less: "fits r b \<Longrightarrow> a \<le> b \<Longrightarrow> fits r a"
  by (simp add: fits_def)

definition units :: "nat \<Rightarrow> rat" where
  "units n = of_nat (max 1 n)"

lemma gas_units_nat: "gas_units fc (gas_arg (js_nat n)) = units n"
proof (cases "1 < n")
  case True
  then have "\<lfloor>of_nat n :: rat\<rfloor> = int n" by simp
  with True show ?thesis by (simp add: gas_units_def gas_arg_def units_def max_def)
next
  case False
  then show ?thesis by (simp add: gas_units_def gas_arg_def units_def max_def)
qed

definition gas_fault :: "rat \<Rightarrow> rat \<Rightarrow> exn" where
  "gas_fault u k = retag (GasExhaustedError u k)"

lemma gas_is_not_stack [simp]: "gas_fault u k \<noteq> stackError" "stackError \<noteq> gas_fault u k"
  by (auto simp: stackError_def gas_fault_def)

lemma gasRef_price:
  assumes "unit_price c r" "gas_units (failClosed r) n = u" "0 \<le> u"
  shows "if fits r (c * u) then gasRef n r = (Inr (), paid (c * u) r)
     else (\<exists>a k r'. gasRef n r = (Inl (gas_fault a k), r') \<and> stackPoison r' = stackPoison r)"
proof -
  let ?h = "outside r"
  have nn: "0 \<le> c * u" using assms by (simp add: unit_price_def)
  have call: "gas_call (failClosed r) n ?h = bind_op (charge_op (JNum (Num (c * u)))) (\<lambda>_. ret JUndef) ?h"
    using assms(1,2) by (simp add: gas_call_def bind_op_def cost_num_def unit_price_def)
  show ?thesis
  proof (cases "fits r (c * u)")
    case True
    then have "charge (gas ?h) (JNum (Num (c * u))) = (Inr (), (gas ?h)\<lparr>used := spent r + c * u\<rparr>)"
      using nn by (simp add: fits_def spent_def Let_def)
    then have "gas_call (failClosed r) n ?h = (Inr JUndef, ?h\<lparr>gas := (gas ?h)\<lparr>used := spent r + c * u\<rparr>\<rparr>)"
      unfolding call by (simp add: bind_op_def charge_op_def ret_def lift_def)
    with True show ?thesis by (simp add: gasRef_def bridge_def frame_result_def paid_def)
  next
    case False
    then obtain a k g where "charge (gas ?h) (JNum (Num (c * u))) = (Inl (GasExhaustedError a k), g)"
      using nn by (simp add: fits_def spent_def Let_def)
    then have "gas_call (failClosed r) n ?h = (Inl (GasExhaustedError a k), ?h\<lparr>gas := g\<rparr>)"
      unfolding call by (simp add: bind_op_def charge_op_def)
    then have "gasRef n r = (Inl (gas_fault a k), r\<lparr>outside := ?h\<lparr>gas := g\<rparr>\<rparr>)"
      by (simp add: gasRef_def bridge_def gas_fault_def)
    with False show ?thesis by auto
  qed
qed

lemma gasFunc_nat:
  assumes "unit_price c r" "\<not> stackPoison r"
  shows "if fits r (c * units n) then gasFunc (js_nat n) r = (Inr (), paid (c * units n) r)
     else (\<exists>u k r'. gasFunc (js_nat n) r = (Inl (gas_fault u k), r') \<and> \<not> stackPoison r')"
proof -
  have "0 \<le> units n" by (simp add: units_def)
  from gasRef_price [OF assms(1) gas_units_nat this] assms(2) show ?thesis
    by (auto simp: gasFunc_def split: if_splits)
qed

subsection \<open>The nesting of a value and the price of walking it\<close>

text \<open>\<open>nests_past W n v\<close>: some object hangs \<open>n\<close> levels below the object \<open>v\<close>.\<close>

fun nests_past :: "'v view \<Rightarrow> nat \<Rightarrow> 'v \<Rightarrow> bool" where
  "nests_past W 0 v = True"
| "nests_past W (Suc n) v = (\<exists>c \<in> set (object_slots W v). nests_past W n c)"

fun walk_units :: "'v view \<Rightarrow> nat \<Rightarrow> 'v \<Rightarrow> nat" where
  "walk_units W 0 v = 1"
| "walk_units W (Suc n) v = 1 + (if 1 < length (slots W v) then length (slots W v) else 0)
     + sum_list (map (walk_units W n) (object_slots W v))"

definition stack_nests_past :: "'v view \<Rightarrow> int \<Rightarrow> ('v \<times> int) list \<Rightarrow> bool" where
  "stack_nests_past W limit stack \<longleftrightarrow> (\<exists>(v, d) \<in> set stack. nests_past W (nat (limit + 1 - d)) v)"

definition stack_units :: "'v view \<Rightarrow> int \<Rightarrow> ('v \<times> int) list \<Rightarrow> nat" where
  "stack_units W limit stack = sum_list (map (\<lambda>(v, d). walk_units W (nat (limit + 1 - d)) v) stack)"

lemma stack_simps [simp]:
  "stack_nests_past W limit [] = False" "stack_units W limit [] = 0"
  "stack_nests_past W limit ((v, d) # stack) \<longleftrightarrow> nests_past W (nat (limit + 1 - d)) v \<or> stack_nests_past W limit stack"
  "stack_units W limit ((v, d) # stack) = walk_units W (nat (limit + 1 - d)) v + stack_units W limit stack"
  "stack_nests_past W limit (a @ b) \<longleftrightarrow> stack_nests_past W limit a \<or> stack_nests_past W limit b"
  "stack_units W limit (a @ b) = stack_units W limit a + stack_units W limit b"
  by (auto simp: stack_nests_past_def stack_units_def)

lemma walk_units_pos: "1 \<le> walk_units W n v"
  by (cases n) auto

lemma pushed_exceeds: "stack_nests_past W limit (rev (map (\<lambda>c. (c, d + 1)) cs)) \<longleftrightarrow>
  (\<exists>c \<in> set cs. nests_past W (nat (limit - d)) c)"
  by (auto simp: stack_nests_past_def algebra_simps)

lemma pushed_units: "stack_units W limit (rev (map (\<lambda>c. (c, d + 1)) cs)) = sum_list (map (walk_units W (nat (limit - d))) cs)"
proof -
  have "rev (map (walk_units W (nat (limit - d))) cs)
      = map (\<lambda>(v, d). walk_units W (nat (limit + 1 - d)) v) (rev (map (\<lambda>c. (c, d + 1)) cs))"
    by (simp add: rev_map comp_def algebra_simps)
  then show ?thesis unfolding stack_units_def by (metis sum_list_rev)
qed

definition scan_units :: "'v view \<Rightarrow> 'v \<Rightarrow> nat" where
  "scan_units W v = (if 1 < length (slots W v) then length (slots W v) else 0)"

lemma charge_width_price:
  assumes "unit_price c r" "\<not> stackPoison r" "fits r 0"
  shows "if fits r (c * of_nat (scan_units W v)) then charge_width W v r = (Inr (), paid (c * of_nat (scan_units W v)) r)
     else (\<exists>u k r'. charge_width W v r = (Inl (gas_fault u k), r') \<and> \<not> stackPoison r')"
proof (cases "1 < length (slots W v)")
  case True
  then have "units (length (slots W v)) = of_nat (scan_units W v)" by (simp add: units_def scan_units_def)
  with gasFunc_nat [OF assms(1,2), of "length (slots W v)"] True show ?thesis
    by (auto simp: charge_width_def split: if_splits)
next
  case False
  with assms(3) show ?thesis by (auto simp: charge_width_def scan_units_def i_ret_def)
qed

text \<open>The walk returns exactly when nothing is nested too deep and the whole of it is affordable.\<close>

lemma guard_walk_decides:
  assumes "unit_price c r" "\<not> stackPoison r" "fits r 0"
  shows "(if stack_nests_past W limit stack \<or> \<not> fits r (c * of_nat (stack_units W limit stack))
          then isl (fst (guard_walk W limit stack r))
          else guard_walk W limit stack r = (Inr (), paid (c * of_nat (stack_units W limit stack)) r))
     \<and> (\<forall>e. fst (guard_walk W limit stack r) = Inl e \<longrightarrow>
          e = stackError \<and> stack_nests_past W limit stack \<and> stackPoison (snd (guard_walk W limit stack r))
          \<or> (\<exists>u k. e = gas_fault u k))"
  using assms
proof (induction W limit stack r rule: guard_walk.induct)
  case (1 W limit r)
  then show ?case by simp
next
  case (2 W limit v d stack r)
  have c: "0 \<le> c" using 2(2) by (simp add: unit_price_def)
  let ?U = "stack_units W limit ((v, d) # stack)"
  have first: "c * units 1 \<le> c * of_nat ?U"
    using walk_units_pos [of W "nat (limit + 1 - d)" v] c
    by (intro mult_left_mono) (auto simp: units_def simp flip: of_nat_Suc)
  show ?case
  proof (cases "fits r (c * units 1)")
    case False
    with gasFunc_nat [OF 2(2,3), of 1] obtain u k r' where
      g: "gasFunc (js_nat 1) r = (Inl (gas_fault u k), r')" by auto
    from False first fits_less have "\<not> fits r (c * of_nat ?U)" by blast
    with g show ?thesis by auto
  next
    case True
    let ?r1 = "paid (c * units 1) r"
    from gasFunc_nat [OF 2(2,3), of 1] True have g: "gasFunc (js_nat 1) r = (Inr (), ?r1)" by simp
    show ?thesis
    proof (cases "limit < d")
      case deep: True
      then have "nests_past W (nat (limit + 1 - d)) v" by simp
      with deep g show ?thesis by (auto simp: poisoned_def)
    next
      case ok: False
      define n where "n = nat (limit - d)"
      have lv: "nat (limit + 1 - d) = Suc n" using ok by (simp add: n_def)
      define w where "w = scan_units W v"
      let ?push = "rev (map (\<lambda>c. (c, d + 1)) (object_slots W v))"
      have U: "?U = 1 + w + stack_units W limit (?push @ stack)"
        by (simp add: lv pushed_units w_def scan_units_def n_def)
      have E: "stack_nests_past W limit ((v, d) # stack) \<longleftrightarrow> stack_nests_past W limit (?push @ stack)"
        by (simp add: lv pushed_exceeds n_def)
      have second: "c * units 1 + c * of_nat w \<le> c * of_nat ?U"
        unfolding U using c by (simp add: units_def algebra_simps)
      show ?thesis
      proof (cases "fits ?r1 (c * of_nat w)")
        case False
        with charge_width_price [of c ?r1 W v] 2(2,3) True obtain u k r'
          where cw: "charge_width W v ?r1 = (Inl (gas_fault u k), r')"
          by (auto simp: w_def split: if_splits)
        from False second fits_less have "\<not> fits r (c * of_nat ?U)" by auto
        with g cw ok show ?thesis by auto
      next
        case fw: True
        let ?r2 = "paid (c * of_nat w) ?r1"
        from charge_width_price [of c ?r1 W v] 2(2,3) True fw
        have cw: "charge_width W v ?r1 = (Inr (), ?r2)" by (simp add: w_def split: if_splits)
        have step: "guard_walk W limit ((v, d) # stack) r = guard_walk W limit (?push @ stack) ?r2"
          using g cw ok by simp
        have f0: "fits ?r2 0" using fw by (simp add: add.commute)
        have price: "unit_price c ?r2" "\<not> stackPoison ?r2" using 2 by simp_all
        note ih = 2(1) [OF g [symmetric] refl ok cw [symmetric] refl price f0]
        have tot: "c * units 1 + (c * of_nat w + c * of_nat (stack_units W limit (?push @ stack))) = c * of_nat ?U"
          unfolding U by (simp add: units_def algebra_simps)
        then have F: "fits ?r2 (c * of_nat (stack_units W limit (?push @ stack))) \<longleftrightarrow> fits r (c * of_nat ?U)"
          and P: "paid (c * of_nat (stack_units W limit (?push @ stack))) ?r2 = paid (c * of_nat ?U) r"
          by (simp_all only: paid_simps add.assoc)
        show ?thesis unfolding step E using ih unfolding F P .
      qed
    qed
  qed
qed

subsection \<open>The nesting of plain data\<close>

fun nesting :: "jsval \<Rightarrow> nat" and nesting_elems :: "jsval list \<Rightarrow> nat"
and nesting_members :: "(string \<times> jsval) list \<Rightarrow> nat" where
  "nesting (JArr xs) = Suc (nesting_elems xs)"
| "nesting (JObj kvs) = Suc (nesting_members kvs)"
| "nesting (JNative s) = (if s = ''Object.prototype'' then 1 else 0)"
| "nesting v = 0"
| "nesting_elems [] = 0"
| "nesting_elems (x # xs) = max (nesting x) (nesting_elems xs)"
| "nesting_members [] = 0"
| "nesting_members ((k, v) # kvs) = max (nesting v) (nesting_members kvs)"

lemma nesting_elems_less: "n < nesting_elems xs \<longleftrightarrow> (\<exists>x \<in> set xs. n < nesting x)"
  by (induction xs) (auto simp: less_max_iff_disj)

lemma nesting_members_less: "n < nesting_members kvs \<longleftrightarrow> (\<exists>x \<in> set (map snd kvs). n < nesting x)"
  by (induction kvs) (auto simp: less_max_iff_disj)

lemma data_object: "is_object data_view v \<longleftrightarrow> 0 < nesting v"
  by (cases v) (auto simp: data_view_def)

lemma data_slots: "slots data_view (JArr xs) = xs" "slots data_view (JObj kvs) = map snd kvs"
  "slots data_view (JNative s) = []"
  by (simp_all add: data_view_def)

lemma nests_past_nesting: "is_object data_view v \<Longrightarrow> nests_past data_view n v \<longleftrightarrow> n < nesting v"
proof (induction n arbitrary: v)
  case 0
  then show ?case by (simp add: data_object)
next
  case (Suc n)
  have kids: "nests_past data_view (Suc n) v \<longleftrightarrow> (\<exists>c \<in> set (slots data_view v). n < nesting c)"
    using Suc.IH by (auto simp: object_slots_def data_object)
  from Suc.prems show ?case unfolding kids
    by (cases v) (auto simp: data_object data_slots nesting_elems_less nesting_members_less split: if_splits)
qed

subsection \<open>The scan of a printed value\<close>

definition unstructured :: "string \<Rightarrow> bool" where
  "unstructured s \<longleftrightarrow> (\<forall>c \<in> set s. c \<notin> {CHR 0x22, CHR ''['', CHR ''{'', CHR '']'', CHR ''}''})"

lemma unstructured_simps [simp]: "unstructured []"
  "unstructured (c # s) \<longleftrightarrow> c \<notin> {CHR 0x22, CHR ''['', CHR ''{'', CHR '']'', CHR ''}''} \<and> unstructured s"
  "unstructured (a @ b) \<longleftrightarrow> unstructured a \<and> unstructured b"
  by (auto simp: unstructured_def)

lemma too_deep_unstructured: "unstructured s \<Longrightarrow> too_deep L d (s @ rest) = too_deep L d rest"
  by (induction s) auto

lemma unstructured_digits: "\<forall>c \<in> set s. is_digit c \<Longrightarrow> unstructured s"
  by (auto simp: unstructured_def is_digit_def)

lemma unstructured_nat [simp]: "unstructured (nat_text n)"
  using nat_text_digits by (rule unstructured_digits)

lemma unstructured_parts: "unstructured s \<Longrightarrow> unstructured (take n s)" "unstructured s \<Longrightarrow> unstructured (drop n s)"
  by (auto simp: unstructured_def dest: in_set_takeD in_set_dropD)

lemma unstructured_replicate [simp]: "unstructured [c] \<Longrightarrow> unstructured (replicate n c)"
  by (auto simp: unstructured_def)

lemma unstructured_int [simp]: "unstructured (int_text i)"
  by (simp add: int_text_def)

lemma unstructured_pos_text: "unstructured (pos_text q)"
  by (auto simp: pos_text_def Let_def sign_text_def unstructured_parts split: prod.split)

lemma unstructured_num_text: "unstructured (num_text n)"
  by (cases n) (auto simp: unstructured_pos_text)

lemma hex_digit_plain: "d < 16 \<Longrightarrow> hex_digit d \<noteq> CHR 0x22 \<and> hex_digit d \<noteq> CHR 0x5C"
proof -
  assume "d < 16"
  then have "d \<in> set [0..<16]" by simp
  moreover have "\<forall>d \<in> set [0..<16]. hex_digit d \<noteq> CHR 0x22 \<and> hex_digit d \<noteq> CHR 0x5C" by code_simp
  ultimately show ?thesis by blast
qed

lemma after_json_char: "after_literal (json_char c @ x) = after_literal x"
proof -
  have h: "hex_digit (of_char c div 16) \<noteq> CHR 0x22" "hex_digit (of_char c div 16) \<noteq> CHR 0x5C"
    if "(of_char c :: nat) < 32"
    using that hex_digit_plain [of "of_char c div 16"] by auto
  have h': "hex_digit (of_char c mod 16) \<noteq> CHR 0x22" "hex_digit (of_char c mod 16) \<noteq> CHR 0x5C"
    using hex_digit_plain [of "of_char c mod 16"] by auto
  show ?thesis
    by (simp add: json_char_def Let_def h h')
qed

lemma after_json_string: "after_literal (concat (map json_char s) @ CHR 0x22 # rest) = rest"
  by (induction s) (simp_all add: after_json_char)

lemma too_deep_string: "too_deep L d (json_string s @ rest) = too_deep L d rest"
  by (simp add: json_string_def after_json_string)

lemma too_deep_join_Cons:
  "ws \<noteq> [] \<Longrightarrow> join_with sep (w # ws) = w @ sep @ join_with sep ws"
  by (cases ws) auto

lemma max_exceeds: "L < d + int (max a b) \<longleftrightarrow> L < d + int a \<or> L < d + int b"
  by linarith

lemma scan_elems:
  assumes "w = (case json_text x of None \<Rightarrow> ''null'' | Some t \<Rightarrow> t)"
    and "\<And>rest. too_deep L d (w @ rest) \<longleftrightarrow> L < d + int (nesting x) \<or> too_deep L d rest"
    and "\<And>rest. too_deep L d (join_with '','' (json_elems xs) @ rest) \<longleftrightarrow>
           L < d + int (nesting_elems xs) \<or> too_deep L d rest"
    and "d \<le> L"
  shows "too_deep L d (join_with '','' (json_elems (x # xs)) @ rest) \<longleftrightarrow>
           L < d + int (nesting_elems (x # xs)) \<or> too_deep L d rest"
proof (cases "json_elems xs = []")
  case True
  then have "xs = []" by (cases xs) auto
  with assms True show ?thesis by simp
next
  case False
  have "join_with '','' (json_elems (x # xs)) @ rest = w @ CHR '','' # join_with '','' (json_elems xs) @ rest"
    using too_deep_join_Cons [OF False, of "'',''" w] assms(1) by simp
  then show ?thesis using assms(2,3) by (simp add: max_exceeds)
qed

text \<open>At depth \<open>d\<close> the scan of a printed value stops exactly when the value nests past the limit, and
  otherwise carries on behind it at the same depth.\<close>

lemma scan_printed:
  "0 \<le> d \<Longrightarrow> d \<le> L \<Longrightarrow> json_text v = Some t \<Longrightarrow>
     too_deep L d (t @ rest) \<longleftrightarrow> L < d + int (nesting v) \<or> too_deep L d rest"
  "0 \<le> d \<Longrightarrow> d \<le> L \<Longrightarrow>
     too_deep L d (join_with '','' (json_elems xs) @ rest) \<longleftrightarrow> L < d + int (nesting_elems xs) \<or> too_deep L d rest"
  "0 \<le> d \<Longrightarrow> d \<le> L \<Longrightarrow>
     too_deep L d (join_with '','' (json_members kvs) @ rest) \<longleftrightarrow> L < d + int (nesting_members kvs) \<or> too_deep L d rest"
proof (induction v and xs and kvs arbitrary: d t rest and d rest and d rest
    rule: json_text_json_elems_json_members.induct)
  case (4 n)
  have "unstructured t" using 4 by (cases n) (auto simp: unstructured_num_text simp del: num_text.simps)
  with 4 show ?case by (simp add: too_deep_unstructured)
next
  case (5 s)
  then show ?case by (auto simp: too_deep_string)
next
  case (6 xs)
  show ?case
  proof (cases "L < d + 1")
    case True
    with 6 show ?thesis by auto
  next
    case False
    with 6(1) [of "d + 1" "'']'' @ rest"] 6(2-) show ?thesis by (auto simp: algebra_simps)
  qed
next
  case (7 kvs)
  show ?case
  proof (cases "L < d + 1")
    case True
    with 7 show ?thesis by auto
  next
    case False
    with 7(1) [of "d + 1" "''}'' @ rest"] 7(2-) show ?thesis by (auto simp: algebra_simps)
  qed
next
  case (8 s)
  then show ?case by (auto split: if_splits)
next
  case (10 x xs)
  show ?case
  proof (rule scan_elems [OF refl])
    fix rest'
    show "too_deep L d ((case json_text x of None \<Rightarrow> ''null'' | Some t \<Rightarrow> t) @ rest') \<longleftrightarrow>
        L < d + int (nesting x) \<or> too_deep L d rest'"
    proof (cases "json_text x")
      case None
      then have "nesting x = 0" by (auto simp: json_text_None_iff)
      with None 10(4) show ?thesis by simp
    next
      case (Some t)
      with 10(1) [OF 10(3,4) Some] show ?thesis by simp
    qed
  qed (use 10 in auto)
next
  case (12 k v kvs)
  show ?case
  proof (cases "json_text v")
    case None
    then have "nesting v = 0" by (auto simp: json_text_None_iff)
    with 12 None show ?thesis by simp
  next
    case (Some t)
    have m: "too_deep L d ((json_string k @ '':'' @ t) @ rest') \<longleftrightarrow> L < d + int (nesting v) \<or> too_deep L d rest'" for rest'
      using 12(1) [OF 12(4) 12(5) Some, of rest'] by (simp add: too_deep_string)
    show ?thesis
    proof (cases "json_members kvs = []")
      case True
      from 12(3) [OF Some 12(4,5), of rest] True
      have "L < d + int (nesting_members kvs) \<longrightarrow> too_deep L d rest" by simp blast
      with True Some m [of rest] show ?thesis by (auto simp: max_exceeds)
    next
      case False
      have "join_with '','' (json_members ((k, v) # kvs)) @ rest
          = (json_string k @ '':'' @ t) @ CHR '','' # join_with '','' (json_members kvs) @ rest"
        using too_deep_join_Cons [OF False, of "'',''" "json_string k @ '':'' @ t"] Some by simp
      with m [of "CHR '','' # join_with '','' (json_members kvs) @ rest"] 12(3) [OF Some 12(4,5), of rest]
      show ?thesis by (simp add: max_exceeds)
    qed
  qed
qed (auto simp: too_deep_unstructured)

subsection \<open>Properties\<close>

lemma guard_from_start:
  assumes "nrGuardOn r" "\<not> stackPoison r" "is_object W v"
  shows "guardNativeDepth W v r = guard_walk W (NR_DEPTH_LIMIT r) [(v, 1)] r"
    "stack_nests_past W (NR_DEPTH_LIMIT r) [(v, 1)] \<longleftrightarrow> nests_past W (nat (NR_DEPTH_LIMIT r)) v"
    "stack_units W (NR_DEPTH_LIMIT r) [(v, 1)] = walk_units W (nat (NR_DEPTH_LIMIT r)) v"
  using assms by (simp_all add: guardNativeDepth_def)

text \<open>C35. The native-depth guard decides: over any object graph, cyclic ones included, it returns exactly when
  no object hangs as many levels down as the limit and the whole scan, one unit per visited object
  and the width of each, fits the gas that is left, and then that is what it has charged. When it throws,
  it is the stack fault, with the poison set, of a value that is nested too deep, or exhaustion.\<close>

theorem native_guard_decides:
  assumes "nrGuardOn r" "\<not> stackPoison r" "unit_price c r" "fits r 0" "is_object W v"
  shows "(fst (guardNativeDepth W v r) = Inr () \<longleftrightarrow>
        \<not> nests_past W (nat (NR_DEPTH_LIMIT r)) v \<and> fits r (c * of_nat (walk_units W (nat (NR_DEPTH_LIMIT r)) v)))
     \<and> (fst (guardNativeDepth W v r) = Inr () \<longrightarrow>
        snd (guardNativeDepth W v r) = paid (c * of_nat (walk_units W (nat (NR_DEPTH_LIMIT r)) v)) r)
     \<and> (\<forall>e. fst (guardNativeDepth W v r) = Inl e \<longrightarrow>
          e = stackError \<and> nests_past W (nat (NR_DEPTH_LIMIT r)) v \<and> stackPoison (snd (guardNativeDepth W v r))
          \<or> (\<exists>u k. e = gas_fault u k))"
  using guard_walk_decides [OF assms(3,2,4), of W "NR_DEPTH_LIMIT r" "[(v, 1)]"]
  unfolding guard_from_start [OF assms(1,2,5)] by (auto split: if_splits)

definition demo_globals :: isolate_globals where
  "demo_globals = \<lparr>DEPTH_LIMIT = 256, NR_DEPTH_LIMIT = 2, PKG3_SANDBOX_ON = True, blockTime = BINARY_ALLOC_GATE_BLOCK_TIME,
      JSON_HOOK_GATE = 0, ITER_SET_METER_ON = False, APPLY_LENGTH_METER_ON = False,
      STRING_RESULT_METER_ON = False, stack_fault_signal = False, NATIVE_STACK_TERMINAL_ON = False\<rparr>"

definition demo_realm :: realm where
  "demo_realm = new_realm demo_globals True (demo_host 0)"

lemmas realm_defs = demo_realm_def new_realm_def demo_globals_def isolate_globals.defs

lemma demo_realm_ready:
  "nrGuardOn demo_realm" "\<not> stackPoison demo_realm" "unit_price 1 demo_realm" "fits demo_realm 0"
  "NR_DEPTH_LIMIT demo_realm = 2" "fits demo_realm a \<longleftrightarrow> a \<le> 25"
  by (simp_all add: realm_defs nrGuardOn_def meterUpgradeOn_def unit_price_def fits_def spent_def
      demo_host_def gas_cost_def demo_schedule_def CANONICAL_GAS_KEYS_def js_get_def)

text \<open>An array that holds itself.\<close>

definition loop_view :: "nat view" where
  "loop_view = \<lparr>is_object = (\<lambda>v. True), is_array = (\<lambda>v. True), slots = (\<lambda>v. [v])\<rparr>"

theorem native_guard_decides_witness:
  "fst (guardNativeDepth loop_view 0 demo_realm) \<noteq> Inr ()
     \<and> fst (guardNativeDepth data_view (JArr [JArr [js_nat 1, js_nat 2]]) demo_realm) = Inr ()"
proof -
  have "nests_past loop_view (nat 2) 0" by (simp add: numeral_2_eq_2 object_slots_def loop_view_def)
  moreover have "is_object loop_view 0" by (simp add: loop_view_def)
  moreover have "\<not> nests_past data_view (nat 2) (JArr [JArr [js_nat 1, js_nat 2]])"
    "walk_units data_view (nat 2) (JArr [JArr [js_nat 1, js_nat 2]]) = 4"
    "is_object data_view (JArr [JArr [js_nat 1, js_nat 2]])"
    by (simp_all add: numeral_2_eq_2 object_slots_def data_view_def)
  ultimately show ?thesis
    using native_guard_decides [OF demo_realm_ready(1-4), of loop_view 0]
      native_guard_decides [OF demo_realm_ready(1-4), of data_view "JArr [JArr [js_nat 1, js_nat 2]]"]
    by (simp add: demo_realm_ready)
qed

text \<open>C37. The guard of a JSON text and the guard of a value measure the same thing: the text
  \<open>JSON.stringify\<close> prints for plain data passes the parse guard exactly when no
  object of the value hangs as many levels down as the limit, brackets inside its strings and
  escaped quotes notwithstanding, so what the value guard lets out the parse guard lets in again.\<close>

theorem parse_guard_agrees:
  assumes "nrGuardOn r" "\<not> stackPoison r" "is_object data_view v" "json_text v = Some t"
    and "unit_price c r" "fits r 0"
  shows "(guardParseDepth t r = (if nests_past data_view (nat (NR_DEPTH_LIMIT r)) v then poisoned r else (Inr (), r)))
     \<and> (fst (guardNativeDepth data_view v r) = Inr () \<longrightarrow> guardParseDepth t r = (Inr (), r))"
proof -
  have L: "0 < NR_DEPTH_LIMIT r" using assms(1) by (simp add: nrGuardOn_def)
  then have "too_deep (NR_DEPTH_LIMIT r) 0 t \<longleftrightarrow> NR_DEPTH_LIMIT r < int (nesting v)"
    using scan_printed(1) [OF _ _ assms(4), of 0 "NR_DEPTH_LIMIT r" "[]"] by simp
  also have "\<dots> \<longleftrightarrow> nests_past data_view (nat (NR_DEPTH_LIMIT r)) v"
    unfolding nests_past_nesting [OF assms(3)] using L by (simp add: nat_less_iff)
  finally have p: "guardParseDepth t r = (if nests_past data_view (nat (NR_DEPTH_LIMIT r)) v then poisoned r else (Inr (), r))"
    using assms by (simp add: guardParseDepth_def)
  have "nests_past data_view (nat (NR_DEPTH_LIMIT r)) v \<Longrightarrow> isl (fst (guardNativeDepth data_view v r))"
    using guard_walk_decides [OF assms(5,2,6), of data_view "NR_DEPTH_LIMIT r" "[(v, 1)]"]
    unfolding guard_from_start [OF assms(1-3)] by presburger
  with p show ?thesis by auto
qed

theorem parse_guard_agrees_witness:
  "guardParseDepth ''[''  demo_realm = (Inr (), demo_realm)
     \<and> guardParseDepth (the (json_text (JArr [JStr ''[[[[''])) ) demo_realm = (Inr (), demo_realm)"
proof -
  let ?v = "JArr [JStr ''[[[['']"
  have v: "is_object data_view ?v" "json_text ?v = Some (the (json_text ?v))" by (simp_all add: data_view_def)
  have "\<not> nests_past data_view (nat 2) ?v" by (simp add: numeral_2_eq_2 object_slots_def data_view_def)
  with parse_guard_agrees [OF demo_realm_ready(1,2) v demo_realm_ready(3,4)]
  show ?thesis by (simp add: demo_realm_ready guardParseDepth_def)
qed

end
