(* ===== verification/HarnessPays.thy ===== *)
theory HarnessPays
  imports HarnessBuiltins HarnessMeterProps "HOL-Library.Log_Nat"
begin

text \<open>
  The metered builtins pay for what they do: an action \<open>earns n\<close> when every run of it that returns has
  spent at least \<open>n\<close> units, and is \<open>thrifty\<close> when it refunds nothing. Wrappers are composed of both.
\<close>

definition thrifty :: "'a act \<Rightarrow> bool" where
  "thrifty m \<longleftrightarrow> (\<forall>r x r'. m r = (Inr x, r') \<longrightarrow>
     spent r \<le> spent r' \<and> (\<forall>c. unit_price c r \<longrightarrow> unit_price c r'))"

definition earns :: "rat \<Rightarrow> 'a act \<Rightarrow> bool" where
  "earns n m \<longleftrightarrow> (\<forall>c r x r'. unit_price c r \<longrightarrow> m r = (Inr x, r') \<longrightarrow> spent r + c * n \<le> spent r')"

named_theorems thrifty_intros \<open>actions that refund nothing\<close>

lemma thriftyD: "thrifty m \<Longrightarrow> m r = (Inr x, r') \<Longrightarrow> spent r \<le> spent r'"
  "thrifty m \<Longrightarrow> m r = (Inr x, r') \<Longrightarrow> unit_price c r \<Longrightarrow> unit_price c r'"
  unfolding thrifty_def by blast+

lemma earnsD: "earns n m \<Longrightarrow> unit_price c r \<Longrightarrow> m r = (Inr x, r') \<Longrightarrow> spent r + c * n \<le> spent r'"
  unfolding earns_def by blast

lemma i_bind_Inr: "i_bind m f r = (Inr y, r'') \<longleftrightarrow> (\<exists>x r'. m r = (Inr x, r') \<and> f x r' = (Inr y, r''))"
  by (auto simp: i_bind_def split: prod.splits sum.splits)

lemma thrifty_ret [thrifty_intros]: "thrifty (i_ret x)" "thrifty (i_res y)"
  by (auto simp: thrifty_def i_ret_def i_res_def)

lemma thrifty_bind [thrifty_intros]:
  assumes "thrifty m" "\<And>x. thrifty (f x)"
  shows "thrifty (i_bind m f)"
  unfolding thrifty_def i_bind_Inr
  using thriftyD [OF assms(1)] thriftyD [OF assms(2)] by (meson order_trans)

lemma thrifty_if [thrifty_intros]: "thrifty a \<Longrightarrow> thrifty b \<Longrightarrow> thrifty (if q then a else b)"
  by simp

lemma thrifty_realm:
  "(\<And>r. thrifty (m r)) \<Longrightarrow> thrifty (\<lambda>r. m r r)"
  unfolding thrifty_def by blast

lemma steady_gas_call: "steady (gas_call fc n)"
  unfolding gas_call_def by (intro steady_intros)

lemma gasRef_thrifty: "thrifty (gasRef n)"
  unfolding thrifty_def
proof (intro allI impI)
  fix r x r' assume g: "gasRef n r = (Inr x, r')"
  obtain y h where b: "bridge (gas_call (failClosed r) n) (outside r) = (y, h)" by fastforce
  then have h: "h = snd (gas_call (failClosed r) n (outside r))"
    using bridge_host by (metis snd_conv)
  from g b have r': "r' = r\<lparr>outside := h\<rparr>" unfolding gasRef_def b by (cases y) simp_all
  have "grows (outside r) h" using steady_gas_call unfolding steady_def h by blast
  then show "spent r \<le> spent r' \<and> (\<forall>c. unit_price c r \<longrightarrow> unit_price c r')"
    by (simp add: r' grows_def spent_def unit_price_def gas_cost_def)
qed

lemma gasFunc_thrifty [thrifty_intros]: "thrifty (gasFunc n)"
  using gasRef_thrifty by (auto simp: gasFunc_def thrifty_def)

lemma allocGas_thrifty [thrifty_intros]: "thrifty (allocGas n)"
  unfolding allocGas_def by (intro thrifty_intros)

lemma earns_0: "thrifty m \<Longrightarrow> earns 0 m"
  by (simp add: earns_def thrifty_def)

lemma earns_less: "earns n m \<Longrightarrow> k \<le> n \<Longrightarrow> earns k m"
  unfolding earns_def by (metis add_left_mono mult_left_mono order_trans unit_price_def)

lemma earns_first: "earns n m \<Longrightarrow> (\<And>x. thrifty (f x)) \<Longrightarrow> earns n (i_bind m f)"
  unfolding earns_def i_bind_Inr by (meson order_trans thriftyD(1))

lemma earns_then: "thrifty m \<Longrightarrow> (\<And>x. earns n (f x)) \<Longrightarrow> earns n (i_bind m f)"
  unfolding earns_def i_bind_Inr
  by (metis (no_types, lifting) add_right_mono order_trans thriftyD)

text \<open>A charge of a finite number earns its whole part, when it is above one.\<close>

lemma gasFunc_earns:
  assumes "1 < q"
  shows "earns (of_int \<lfloor>q\<rfloor>) (gasFunc (JNum (Num q)))"
  unfolding earns_def
proof (intro allI impI)
  fix c r x r' assume c: "unit_price c r" and g: "gasFunc (JNum (Num q)) r = (Inr x, r')"
  from assms have q: "1 \<le> \<lfloor>q\<rfloor>" by linarith
  have u: "gas_units (failClosed r) (gas_arg (JNum (Num q))) = of_int \<lfloor>q\<rfloor>"
    using assms by (simp add: gas_units_def gas_arg_def)
  from g have "gasRef (gas_arg (JNum (Num q))) r = (Inr x, r')" by (auto simp: gasFunc_def split: if_splits)
  with gasRef_price [OF c u] q have "r' = paid (c * of_int \<lfloor>q\<rfloor>) r" by (auto split: if_splits)
  then show "spent r + c * of_int \<lfloor>q\<rfloor> \<le> spent r'" by simp
qed

lemma gasFunc_one: "earns 1 (gasFunc (js_nat 1))"
  unfolding earns_def
proof (intro allI impI)
  fix c r x r' assume c: "unit_price c r" and g: "gasFunc (js_nat 1) r = (Inr x, r')"
  have u: "gas_units (failClosed r) (gas_arg (js_nat 1)) = 1" by (simp add: gas_units_def gas_arg_def)
  from g have "gasRef (gas_arg (js_nat 1)) r = (Inr x, r')" by (auto simp: gasFunc_def split: if_splits)
  with gasRef_price [OF c u] have "r' = paid c r" by (auto split: if_splits)
  then show "spent r + c * 1 \<le> spent r'" by simp
qed

lemma alloc_earns: "1 < n \<Longrightarrow> earns (of_nat n) (allocGas (js_nat n))"
proof -
  assume n: "1 < n"
  then have q: "(1::rat) < of_nat n" by simp
  have "allocGas (js_nat n) = gasFunc (js_nat n)"
    using n by (simp add: allocGas_def i_bind_def i_res_def)
  with gasFunc_earns [OF q] show ?thesis by simp
qed

lemma alloc_rat_earns: "1 < q \<Longrightarrow> earns (of_int \<lfloor>q\<rfloor>) (allocGas (JNum (Num q)))"
proof -
  assume q: "1 < q"
  have "allocGas (JNum (Num q)) = gasFunc (JNum (Num q))"
    using q by (simp add: allocGas_def i_bind_def i_res_def)
  with gasFunc_earns [OF q] show ?thesis by simp
qed

subsection \<open>The work of a call\<close>

definition size_of :: "jsval \<Rightarrow> nat" where
  "size_of v = (case v of JArr xs \<Rightarrow> length xs | JStr s \<Rightarrow> utf16_len s | _ \<Rightarrow> 0)"

definition number_of :: "jsval \<Rightarrow> nat" where
  "number_of v = (case v of JNum (Num q) \<Rightarrow> nat \<lfloor>q\<rfloor> | _ \<Rightarrow> 0)"

definition text_size :: "jsval \<Rightarrow> nat" where
  "text_size v = (case v of JStr s \<Rightarrow> utf16_len s | _ \<Rightarrow> 0)"

definition plain_argument :: "jsval \<Rightarrow> bool" where
  "plain_argument v \<longleftrightarrow> (case v of JObj _ \<Rightarrow> False | JNative _ \<Rightarrow> False | _ \<Rightarrow> True)"

definition sort_work :: "jsval list \<Rightarrow> jsval \<Rightarrow> nat \<Rightarrow> nat" where
  "sort_work xs comparator bytes = (if typeof comparator = ''function'' \<or> length xs \<le> 1 then length xs
     else length xs * ceillog2 (length xs) + bytes)"

definition on_array :: "(native \<Rightarrow> jsval list \<Rightarrow> jsval list \<Rightarrow> jsval act) \<Rightarrow> native \<Rightarrow> native" where
  "on_array w native this args = (case this of JArr xs \<Rightarrow> w native xs args | _ \<Rightarrow> native this args)"

definition elements :: "jsval \<Rightarrow> jsval list" where
  "elements v = (case v of JArr xs \<Rightarrow> xs | _ \<Rightarrow> [])"

type_synonym work = "jsval \<Rightarrow> jsval list \<Rightarrow> jsval \<Rightarrow> nat"

text \<open>The wrappers with the work a call does for its receiver, its arguments and its result.\<close>

definition metered_builtins :: "(jsval \<Rightarrow> bool) \<Rightarrow> nat \<Rightarrow> (string \<times> (native \<Rightarrow> native) \<times> work) list" where
  "metered_builtins iterable bpe =
    [(''slice'', w_meterLen, \<lambda>this args v. size_of this),
     (''repeat'', w_repeat, \<lambda>this args v. number_of (arg args 0) * text_size this),
     (''padStart'', w_pad, \<lambda>this args v. number_of (arg args 0)),
     (''parseInt'', w_globalFn, \<lambda>this args v. text_size (arg args 0)),
     (''concat'', w_array_concat, \<lambda>this args v.
        if isArray this \<and> list_all plain_argument args then size_of this + sum_list (map size_of args) else 0),
     (''String concat'', w_string_concat, \<lambda>this args v.
        if typeof this = ''string'' then text_size this + sum_list (map text_size args) else 0),
     (''sort'', on_array w_sort, \<lambda>this args v. sort_work (elements this) (arg args 0) (string_bytes (elements this))),
     (''TypedArray sort'', on_array w_typed_sort, \<lambda>this args v. sort_work (elements this) (arg args 0) 0),
     (''TypedArray set'', w_typed_set, \<lambda>this args v. size_of (arg args 0)),
     (''drop'', w_drop, \<lambda>this args v. number_of (arg args 0)),
     (''apply'', w_apply, \<lambda>this args v. let n = length (elements (arg args 1)) in if GROW_THRESHOLD < n then n else 0),
     (''join'', w_join, \<lambda>this args v. text_size v),
     (''flat'', w_flat, \<lambda>this args v. size_of v),
     (''replace'', w_replace, \<lambda>this args v. if typeof this = ''string'' then max (text_size this) (text_size v) else 0),
     (''from'', w_from, \<lambda>this args v. case arg args 0 of JArr xs \<Rightarrow> length xs | JStr s \<Rightarrow> utf16_len s
        | src \<Rightarrow> if number_at src ''length'' = None \<and> number_at src ''size'' = None then size_of v else 0),
     (''anchor'', w_string_result, \<lambda>this args v. text_size v),
     (''TypedArray'', w_binary_ctor iterable (Some bpe), \<lambda>this args v. (number_of (arg args 0) + size_of (arg args 0)) * bpe),
     (''Set'', w_collection_ctor iterable, \<lambda>this args v. size_of (arg args 0))]"

definition pays :: "(native \<Rightarrow> native) \<Rightarrow> work \<Rightarrow> bool" where
  "pays w work \<longleftrightarrow> (\<forall>native this args c r v r'.
     (\<forall>t as. thrifty (native t as)) \<longrightarrow> meterUpgradeOn r \<longrightarrow> unit_price c r
     \<longrightarrow> w native this args r = (Inr v, r') \<longrightarrow> 1 < work this args v
     \<longrightarrow> spent r + c * of_nat (work this args v) \<le> spent r')"

lemma length_of_simps [simp]:
  "length_of (JArr xs) = js_nat (length xs)" "length_of (JStr s) = js_nat (utf16_len s)"
  "read_prop (JArr xs) ''length'' = js_nat (length xs)" "read_prop (JStr s) ''length'' = js_nat (utf16_len s)"
  "number_at (JArr xs) ''length'' = Some (Num (of_nat (length xs)))"
  "number_at (JStr s) ''length'' = (if s = [] then None else Some (Num (of_nat (utf16_len s))))"
  by (auto simp: length_of_def read_prop_def number_at_def js_get_def js_length_def)

lemma utf16_len_Nil [simp]: "utf16_len [] = 0"
  by (simp add: utf16_len_def)

text \<open>A wrapper that charges \<open>n\<close> before anything else.\<close>

lemma first_pays:
  assumes "i_bind (allocGas (js_nat n)) f r = (Inr v, r')" "unit_price c r" "\<And>x. thrifty (f x)" "1 < n" "k \<le> n"
  shows "spent r + c * of_nat k \<le> spent r'"
proof -
  have "earns (of_nat k) (i_bind (allocGas (js_nat n)) f)"
    using earns_first [OF alloc_earns [OF assms(4)], of f, OF assms(3)] assms(5) by (auto intro: earns_less)
  from earnsD [OF this assms(2,1)] show ?thesis .
qed

lemma meterLen_pays: "pays w_meterLen (\<lambda>this args v. size_of this)"
  unfolding pays_def w_meterLen_def
  by (auto simp: size_of_def split: jsval.splits intro: first_pays)

lemma globalFn_pays: "pays w_globalFn (\<lambda>this args v. text_size (arg args 0))"
  unfolding pays_def w_globalFn_def
  by (auto simp: text_size_def js_length_def split: jsval.splits intro: first_pays)

lemma pad_pays: "pays w_pad (\<lambda>this args v. number_of (arg args 0))"
  unfolding pays_def w_pad_def
proof (intro allI impI)
  fix native :: native and this args c r v r'
  assume t: "\<forall>t as. thrifty (native t as)" and c: "unit_price c r"
    and w: "i_bind (allocGas (arg args 0)) (\<lambda>_. native this args) r = (Inr v, r')"
    and n: "1 < number_of (arg args 0)"
  from n obtain q where q: "arg args 0 = JNum (Num q)" by (auto simp: number_of_def split: jsval.splits jsnum.splits)
  with n have "1 < q" "number_of (arg args 0) = nat \<lfloor>q\<rfloor>" by (auto simp: number_of_def)
  with earnsD [OF earns_first [OF alloc_rat_earns] c w [unfolded q]] t n q
  show "spent r + c * of_nat (number_of (arg args 0)) \<le> spent r'" by simp
qed

lemma first_rat_pays:
  assumes "i_bind (allocGas (JNum (Num q))) f r = (Inr v, r')" "unit_price c r" "\<And>x. thrifty (f x)"
    and "1 < k" "of_nat k \<le> q"
  shows "spent r + c * of_nat k \<le> spent r'"
proof -
  have "(1::rat) < of_nat k" using assms(4) by simp
  with assms(5) have q: "1 < q" by linarith
  have "of_nat k \<le> (of_int \<lfloor>q\<rfloor> :: rat)" using assms(5) le_floor_iff [of "int k" q] by simp
  with earns_first [OF alloc_rat_earns [OF q], of f, OF assms(3)]
  have "earns (of_nat k) (i_bind (allocGas (JNum (Num q))) f)" by (rule earns_less)
  from earnsD [OF this assms(2,1)] show ?thesis .
qed

lemma number_ofD: "0 < number_of v \<Longrightarrow> \<exists>q. v = JNum (Num q) \<and> of_nat (number_of v) \<le> q \<and> 0 < q"
  by (auto simp: number_of_def split: jsval.splits jsnum.splits)

lemma repeat_pays: "pays w_repeat (\<lambda>this args v. number_of (arg args 0) * text_size this)"
  unfolding pays_def w_repeat_def
proof (intro allI impI)
  fix native :: native and this args c r v r'
  assume t: "\<forall>t as. thrifty (native t as)" and c: "unit_price c r"
    and n: "1 < number_of (arg args 0) * text_size this"
    and w: "i_bind (i_res (to_num (arg args 0))) (\<lambda>c. i_bind (if num_less (Num 0) c
             then i_bind (i_res (to_num (read_prop this ''length''))) (\<lambda>n. allocGas (JNum (num_mul c n)))
             else i_ret ()) (\<lambda>_. native this args)) r = (Inr v, r')"
  from n have "0 < number_of (arg args 0)" "0 < text_size this" by (auto simp: not_less intro: ccontr)
  then obtain q s where q: "arg args 0 = JNum (Num q)" "of_nat (number_of (arg args 0)) \<le> q" "0 < q" and s: "this = JStr s"
    using number_ofD [of "arg args 0"] by (cases this) (auto simp: text_size_def)
  have le: "of_nat (number_of (arg args 0) * text_size this) \<le> q * of_nat (utf16_len s)"
    using q s by (auto simp: text_size_def intro: mult_right_mono)
  from w q s have w': "i_bind (allocGas (JNum (Num (q * of_nat (utf16_len s))))) (\<lambda>_. native this args) r = (Inr v, r')"
    by (simp add: i_bind_def i_res_def num_mul_def)
  show "spent r + c * of_nat (number_of (arg args 0) * text_size this) \<le> spent r'"
    by (rule first_rat_pays [OF w' c _ n le]) (use t in simp)
qed

lemma drop_pays: "pays w_drop (\<lambda>this args v. number_of (arg args 0))"
  unfolding pays_def w_drop_def
proof (intro allI impI)
  fix native :: native and this args c r v r'
  assume t: "\<forall>t as. thrifty (native t as)" and c: "unit_price c r" and n: "1 < number_of (arg args 0)"
    and w: "i_bind (i_res (to_num (arg args 0))) (\<lambda>c.
     i_bind (if num_less (Num 0) c then allocGas (JNum c) else i_ret ()) (\<lambda>_. native this args)) r = (Inr v, r')"
  from n number_ofD [of "arg args 0"] obtain q where q: "arg args 0 = JNum (Num q)"
    "of_nat (number_of (arg args 0)) \<le> q" "0 < q" by auto
  with w have w': "i_bind (allocGas (JNum (Num q))) (\<lambda>_. native this args) r = (Inr v, r')"
    by (simp add: i_bind_def i_res_def)
  show "spent r + c * of_nat (number_of (arg args 0)) \<le> spent r'"
    by (rule first_rat_pays [OF w' c _ n q(2)]) (use t in simp)
qed

lemma js_add_nat: "js_add (js_nat m) (js_nat n) = Inr (js_nat (m + n))"
  by (simp add: js_add_def to_primitive_def)

lemma add_lengths_total:
  assumes "\<And>a. a \<in> set args \<Longrightarrow> \<exists>l. (case len a of Some v \<Rightarrow> v | None \<Rightarrow> js_nat 1) = js_nat l \<and> g a \<le> l"
  shows "\<exists>m. add_lengths len (js_nat n) args = Inr (js_nat m) \<and> n + sum_list (map g args) \<le> m"
  using assms
proof (induction args arbitrary: n)
  case (Cons a args)
  from Cons.prems obtain l where l: "(case len a of Some v \<Rightarrow> v | None \<Rightarrow> js_nat 1) = js_nat l" "g a \<le> l" by auto
  from Cons.IH [of "n + l"] Cons.prems obtain m
    where m: "add_lengths len (js_nat (n + l)) args = Inr (js_nat m)" "n + l + sum_list (map g args) \<le> m" by auto
  have "js_add (js_nat n) (js_nat l) = Inr (js_nat (n + l))" by (rule js_add_nat)
  then have "add_lengths len (js_nat n) (a # args) = add_lengths len (js_nat (n + l)) args"
    using l(1) by simp
  with m l(2) show ?case by auto
qed simp

lemma array_lengths:
  assumes "list_all plain_argument args"
  shows "\<exists>m. add_lengths (\<lambda>a. map_option JNum (number_at a ''length'')) (js_nat n) args = Inr (js_nat m)
     \<and> n + sum_list (map size_of args) \<le> m"
proof (rule add_lengths_total)
  fix a assume "a \<in> set args"
  with assms have "plain_argument a" by (simp add: list_all_iff)
  then show "\<exists>l. (case map_option JNum (number_at a ''length'') of Some v \<Rightarrow> v | None \<Rightarrow> js_nat 1) = js_nat l \<and> size_of a \<le> l"
  proof (cases a)
    case (JStr s)
    then show ?thesis by (cases "s = []") (auto simp: size_of_def utf16_len_def intro: exI [of _ 1])
  qed (auto simp: plain_argument_def size_of_def number_at_def read_prop_def js_get_def intro: exI [of _ 1])
qed

lemma string_lengths:
  "\<exists>m. add_lengths (\<lambda>a. case a of JStr s \<Rightarrow> Some (js_length s) | _ \<Rightarrow> None) (js_nat n) args = Inr (js_nat m)
     \<and> n + sum_list (map text_size args) \<le> m"
proof (rule add_lengths_total)
  fix a
  show "\<exists>l. (case (case a of JStr s \<Rightarrow> Some (js_length s) | _ \<Rightarrow> None) of Some v \<Rightarrow> v | None \<Rightarrow> js_nat 1) = js_nat l \<and> text_size a \<le> l"
    by (cases a) (auto simp: text_size_def js_length_def intro: exI [of _ 1])
qed

lemma array_concat_pays: "pays w_array_concat (\<lambda>this args v.
  if isArray this \<and> list_all plain_argument args then size_of this + sum_list (map size_of args) else 0)"
  unfolding pays_def w_array_concat_def
proof (intro allI impI)
  fix native :: native and this args c r v r'
  assume t: "\<forall>t as. thrifty (native t as)" and c: "unit_price c r"
    and n: "1 < (if isArray this \<and> list_all plain_argument args then size_of this + sum_list (map size_of args) else 0)"
    and w: "i_bind (i_res (add_lengths (\<lambda>a. map_option JNum (number_at a ''length'')) (length_of this) args))
       (\<lambda>n. i_bind (allocGas n) (\<lambda>_. native this args)) r = (Inr v, r')"
  from n obtain xs where xs: "this = JArr xs" "list_all plain_argument args"
    by (cases this) (auto split: if_splits)
  from array_lengths [OF xs(2), of "length xs"] obtain m where m: "length xs + sum_list (map size_of args) \<le> m"
    "add_lengths (\<lambda>a. map_option JNum (number_at a ''length'')) (js_nat (length xs)) args = Inr (js_nat m)" by auto
  with w xs have w': "i_bind (allocGas (js_nat m)) (\<lambda>_. native this args) r = (Inr v, r')"
    by (simp add: i_bind_def i_res_def)
  show "spent r + c * of_nat (if isArray this \<and> list_all plain_argument args then size_of this + sum_list (map size_of args) else 0)
      \<le> spent r'"
    by (rule first_pays [OF w' c]) (use t n m(1) xs in \<open>auto simp: size_of_def\<close>)
qed

lemma string_concat_pays: "pays w_string_concat (\<lambda>this args v.
  if typeof this = ''string'' then text_size this + sum_list (map text_size args) else 0)"
  unfolding pays_def w_string_concat_def
proof (intro allI impI)
  fix native :: native and this args c r v r'
  assume t: "\<forall>t as. thrifty (native t as)" and c: "unit_price c r"
    and n: "1 < (if typeof this = ''string'' then text_size this + sum_list (map text_size args) else 0)"
    and w: "i_bind (i_res (add_lengths (\<lambda>a. case a of JStr s \<Rightarrow> Some (js_length s) | _ \<Rightarrow> None) (length_of this) args))
       (\<lambda>n. i_bind (allocGas n) (\<lambda>_. native this args)) r = (Inr v, r')"
  from n obtain s where s: "this = JStr s" by (cases this) (auto split: if_splits)
  from string_lengths [of "utf16_len s" args] obtain m where m: "utf16_len s + sum_list (map text_size args) \<le> m"
    "add_lengths (\<lambda>a. case a of JStr s \<Rightarrow> Some (js_length s) | _ \<Rightarrow> None) (js_nat (utf16_len s)) args = Inr (js_nat m)" by auto
  with w s have w': "i_bind (allocGas (js_nat m)) (\<lambda>_. native this args) r = (Inr v, r')"
    by (simp add: i_bind_def i_res_def)
  show "spent r + c * of_nat (if typeof this = ''string'' then text_size this + sum_list (map text_size args) else 0) \<le> spent r'"
    by (rule first_pays [OF w' c]) (use t n m(1) s in \<open>auto simp: text_size_def\<close>)
qed

text \<open>The doubling loop computes the rounded-up logarithm.\<close>

lemma log_loop_from: "0 < n \<Longrightarrow> log_loop n (2 ^ k) k = max k (ceillog2 n)"
proof (induction "n - 2 ^ k" arbitrary: k rule: less_induct)
  case less
  show ?case
  proof (cases "2 ^ k < n")
    case True
    then have "\<not> ceillog2 n \<le> k" using ceillog2_le_iff [OF less(2), of k] by simp
    moreover have "n - 2 ^ Suc k < n - 2 ^ k" using True by (intro diff_less_mono2) auto
    with less have "log_loop n (2 ^ Suc k) (Suc k) = max (Suc k) (ceillog2 n)" by blast
    ultimately show ?thesis using True by (simp add: log_loop.simps [of n "2 ^ k"])
  next
    case False
    then have "ceillog2 n \<le> k" using ceillog2_le_iff [OF less(2), of k] by simp
    with False show ?thesis by (simp add: log_loop.simps [of n "2 ^ k"])
  qed
qed

lemma log_loop_ceillog2: "1 < n \<Longrightarrow> log_loop n (Suc 0) 0 = ceillog2 n"
  using log_loop_from [of n 0] by simp

lemma sort_charge_big: "1 < n \<Longrightarrow> 1 < n * ceillog2 n + bytes"
proof -
  assume n: "1 < n"
  then have "\<not> ceillog2 n \<le> 0" using ceillog2_le_iff [of n 0] by simp
  then have "1 \<le> ceillog2 n" by simp
  with n have "2 * 1 \<le> n * ceillog2 n" by (intro mult_le_mono) auto
  then show ?thesis by simp
qed

lemma sort_pays: "pays (on_array w_sort) (\<lambda>this args v. sort_work (elements this) (arg args 0) (string_bytes (elements this)))"
  unfolding pays_def
proof (intro allI impI)
  fix native :: native and this args c r v r'
  assume t: "\<forall>t as. thrifty (native t as)" and up: "meterUpgradeOn r" and c: "unit_price c r"
    and w: "on_array w_sort native this args r = (Inr v, r')"
    and n: "1 < sort_work (elements this) (arg args 0) (string_bytes (elements this))"
  from n obtain xs where xs: "this = JArr xs" by (cases this) (auto simp: sort_work_def elements_def split: if_splits)
  define k where "k = sort_work xs (arg args 0) (string_bytes xs)"
  have k: "1 < k" using n xs by (simp add: k_def elements_def)
  from w up have w': "i_bind (allocGas (js_nat k)) (\<lambda>_. native (JArr xs) args) r = (Inr v, r')"
    by (auto simp: on_array_def xs w_sort_def Let_def k_def sort_work_def log_loop_ceillog2 split: if_splits)
  have "spent r + c * of_nat k \<le> spent r'"
    by (rule first_pays [OF w' c]) (use t k in auto)
  then show "spent r + c * of_nat (sort_work (elements this) (arg args 0) (string_bytes (elements this))) \<le> spent r'"
    by (simp add: xs elements_def k_def)
qed

lemma typed_sort_pays: "pays (on_array w_typed_sort) (\<lambda>this args v. sort_work (elements this) (arg args 0) 0)"
  unfolding pays_def
proof (intro allI impI)
  fix native :: native and this args c r v r'
  assume t: "\<forall>t as. thrifty (native t as)" and c: "unit_price c r"
    and w: "on_array w_typed_sort native this args r = (Inr v, r')"
    and n: "1 < sort_work (elements this) (arg args 0) 0"
  from n obtain xs where xs: "this = JArr xs" by (cases this) (auto simp: sort_work_def elements_def split: if_splits)
  define k where "k = sort_work xs (arg args 0) 0"
  have k: "1 < k" using n xs by (simp add: k_def elements_def)
  from w have w': "i_bind (allocGas (js_nat k)) (\<lambda>_. native (JArr xs) args) r = (Inr v, r')"
    by (auto simp: on_array_def xs w_typed_sort_def Let_def k_def sort_work_def log_loop_ceillog2 split: if_splits)
  have "spent r + c * of_nat k \<le> spent r'"
    by (rule first_pays [OF w' c]) (use t k in auto)
  then show "spent r + c * of_nat (sort_work (elements this) (arg args 0) 0) \<le> spent r'"
    by (simp add: xs elements_def k_def)
qed

lemma sized_number_at: "0 < size_of v \<Longrightarrow> number_at v ''length'' = Some (Num (of_nat (size_of v)))"
  by (cases v) (auto simp: size_of_def utf16_len_def)

lemma typed_set_pays: "pays w_typed_set (\<lambda>this args v. size_of (arg args 0))"
  unfolding pays_def w_typed_set_def
  by (auto simp: sized_number_at intro: first_pays)

lemma collection_pays: "pays (w_collection_ctor iterable) (\<lambda>this args v. size_of (arg args 0))"
  unfolding pays_def w_collection_ctor_def Let_def
  by (auto simp: sized_number_at intro: first_pays)

lemma apply_pays: "pays w_apply (\<lambda>this args v. let n = length (elements (arg args 1)) in if GROW_THRESHOLD < n then n else 0)"
  unfolding pays_def
proof (intro allI impI)
  fix native :: native and this args c r v r'
  assume t: "\<forall>t as. thrifty (native t as)" and c: "unit_price c r" and w: "w_apply native this args r = (Inr v, r')"
    and n: "1 < (let n = length (elements (arg args 1)) in if GROW_THRESHOLD < n then n else 0)"
  from n obtain xs where xs: "arg args 1 = JArr xs" "GROW_THRESHOLD < length xs"
    by (cases "arg args 1") (auto simp: elements_def Let_def split: if_splits)
  then have q: "(1::rat) < of_nat (length xs)" by (simp add: GROW_THRESHOLD_def)
  from w xs have w': "i_bind (gasFunc (js_nat (length xs))) (\<lambda>_. native this args) r = (Inr v, r')"
    by (simp add: w_apply_def)
  have "earns (of_nat (length xs)) (i_bind (gasFunc (js_nat (length xs))) (\<lambda>_. native this args))"
    using earns_first [OF gasFunc_earns [OF q], of "\<lambda>_. native this args"] t by simp
  from earnsD [OF this c w'] xs
  show "spent r + c * of_nat (let n = length (elements (arg args 1)) in if GROW_THRESHOLD < n then n else 0) \<le> spent r'"
    by (simp add: elements_def)
qed

text \<open>A wrapper that charges its result.\<close>

lemma after_native_pays:
  assumes "after_native native pay this args r = (Inr v, r')" "thrifty (native this args)" "unit_price c r"
    and "earns (of_nat k) (pay v)"
  shows "spent r + c * of_nat k \<le> spent r'"
proof -
  from assms(1) obtain r1 where n: "native this args r = (Inr v, r1)" "pay v r1 = (Inr (), r')"
    by (auto simp: after_native_def i_bind_Inr i_ret_def)
  from thriftyD [OF assms(2) n(1)] assms(3) have "spent r \<le> spent r1" "unit_price c r1" by auto
  with earnsD [OF assms(4) _ n(2)] show ?thesis by (meson add_right_mono order_trans)
qed

lemma charge_text_earns: "1 < text_size v \<Longrightarrow> earns (of_nat (text_size v)) (charge_text v)"
  by (cases v) (auto simp: text_size_def charge_text_def js_length_def intro: alloc_earns)

lemma charge_length_earns: "1 < size_of v \<Longrightarrow> earns (of_nat (size_of v)) (charge_length v)"
  by (simp add: charge_length_def sized_number_at alloc_earns)

lemma string_result_pays: "pays w_string_result (\<lambda>this args v. text_size v)"
  unfolding pays_def w_string_result_def
proof (intro allI impI)
  fix native :: native and this args c r v r'
  assume t: "\<forall>t as. thrifty (native t as)" and c: "unit_price c r" and n: "1 < text_size v"
    and w: "after_native native (\<lambda>v. allocGas (read_prop v ''length'')) this args r = (Inr v, r')"
  from n obtain s where "v = JStr s" by (cases v) (auto simp: text_size_def)
  with n have "earns (of_nat (text_size v)) (allocGas (read_prop v ''length''))"
    by (simp add: text_size_def alloc_earns)
  with after_native_pays [OF w _ c] t show "spent r + c * of_nat (text_size v) \<le> spent r'" by blast
qed

lemma guard_thrifty: "guard_walk W limit stack r = (Inr x, r') \<Longrightarrow>
  spent r \<le> spent r' \<and> (\<forall>c. unit_price c r \<longrightarrow> unit_price c r')"
proof (induction W limit stack r arbitrary: x r' rule: guard_walk.induct)
  case (2 W limit v d stack r)
  have cw: "thrifty (charge_width W v)" unfolding charge_width_def by (intro thrifty_intros)
  from 2(2) obtain r1 r2 where g: "gasFunc (js_nat 1) r = (Inr (), r1)" "\<not> limit < d"
    "charge_width W v r1 = (Inr (), r2)"
    "guard_walk W limit (rev (map (\<lambda>c. (c, d + 1)) (object_slots W v)) @ stack) r2 = (Inr x, r')"
    by (auto simp: poisoned_def split: prod.splits sum.splits if_splits)
  from 2(1) [OF g(1) [symmetric] refl g(2) g(3) [symmetric] refl g(4)]
    thriftyD [OF gasFunc_thrifty g(1)] thriftyD [OF cw g(3)] show ?case by fastforce
qed simp

lemma guardNativeDepth_cases:
  "guardNativeDepth W v r = (Inr x, r') \<Longrightarrow> r' = r \<or> guard_walk W (NR_DEPTH_LIMIT r) [(v, 1)] r = (Inr x, r')"
  unfolding guardNativeDepth_def
  by (cases "nrGuardOn r"; cases "stackPoison r"; cases "is_object W v") (simp_all del: guard_walk.simps)

lemma guardNativeDepth_thrifty: "thrifty (guardNativeDepth W v)"
  unfolding thrifty_def
proof (intro allI impI)
  fix r x r' assume "guardNativeDepth W v r = (Inr x, r')"
  from guardNativeDepth_cases [OF this] guard_thrifty [of W "NR_DEPTH_LIMIT r" "[(v, 1)]" r x r']
  show "spent r \<le> spent r' \<and> (\<forall>c. unit_price c r \<longrightarrow> unit_price c r')" by blast
qed

lemma join_pays: "pays w_join (\<lambda>this args v. text_size v)"
  unfolding pays_def w_join_def
proof (intro allI impI)
  fix native :: native and this args c r v r'
  assume t: "\<forall>t as. thrifty (native t as)" and up: "meterUpgradeOn r" and c: "unit_price c r" and n: "1 < text_size v"
    and w: "i_bind (guardNativeDepth data_view this) (\<lambda>_. if meterUpgradeOn r then after_native native charge_text this args
        else w_meterLen native this args) r = (Inr v, r')"
  from w up obtain r1 where g: "guardNativeDepth data_view this r = (Inr (), r1)"
    "after_native native charge_text this args r1 = (Inr v, r')" by (auto simp: i_bind_Inr)
  from thriftyD [OF guardNativeDepth_thrifty g(1)] c have "spent r \<le> spent r1" "unit_price c r1" by auto
  with after_native_pays [OF g(2) _ _ charge_text_earns [OF n]] t
  show "spent r + c * of_nat (text_size v) \<le> spent r'" by (meson add_right_mono order_trans)
qed

lemma flat_pays: "pays w_flat (\<lambda>this args v. size_of v)"
  unfolding pays_def w_flat_def
proof (intro allI impI)
  fix native :: native and this args c r v r'
  assume t: "\<forall>t as. thrifty (native t as)" and up: "meterUpgradeOn r" and c: "unit_price c r" and n: "1 < size_of v"
    and w: "i_bind (guardNativeDepth data_view this) (\<lambda>_. if meterUpgradeOn r then after_native native charge_length this args
        else w_meterLen native this args) r = (Inr v, r')"
  from w up obtain r1 where g: "guardNativeDepth data_view this r = (Inr (), r1)"
    "after_native native charge_length this args r1 = (Inr v, r')" by (auto simp: i_bind_Inr)
  from thriftyD [OF guardNativeDepth_thrifty g(1)] c have "spent r \<le> spent r1" "unit_price c r1" by auto
  with after_native_pays [OF g(2) _ _ charge_length_earns [OF n]] t
  show "spent r + c * of_nat (size_of v) \<le> spent r'" by (meson add_right_mono order_trans)
qed

lemma charge_replaced_earns:
  assumes "1 < max n (text_size v)"
  shows "earns (of_nat (max n (text_size v))) (charge_replaced (js_nat n) v)"
  using assms by (cases v) (auto simp: charge_replaced_def text_size_def js_length_def max_def intro: alloc_earns)

lemma replace_pays: "pays w_replace (\<lambda>this args v. if typeof this = ''string'' then max (text_size this) (text_size v) else 0)"
  unfolding pays_def w_replace_def
proof (intro allI impI)
  fix native :: native and this args c r v r'
  assume t: "\<forall>t as. thrifty (native t as)" and up: "meterUpgradeOn r" and c: "unit_price c r"
    and n: "1 < (if typeof this = ''string'' then max (text_size this) (text_size v) else 0)"
    and w: "(let n = length_of this in if meterUpgradeOn r then after_native native (charge_replaced n) this args
      else i_bind (allocGas n) (\<lambda>_. native this args)) r = (Inr v, r')"
  from n obtain s where s: "this = JStr s" by (cases this) (auto split: if_splits)
  have w': "after_native native (charge_replaced (js_nat (utf16_len s))) this args r = (Inr v, r')"
    using w up by (simp add: s)
  have "1 < max (utf16_len s) (text_size v)" using n by (simp add: s text_size_def)
  from after_native_pays [OF w' _ c charge_replaced_earns [OF this]] t
  show "spent r + c * of_nat (if typeof this = ''string'' then max (text_size this) (text_size v) else 0) \<le> spent r'"
    by (simp add: s text_size_def)
qed

lemma from_pays: "pays w_from (\<lambda>this args v. case arg args 0 of JArr xs \<Rightarrow> length xs | JStr s \<Rightarrow> utf16_len s
        | src \<Rightarrow> if number_at src ''length'' = None \<and> number_at src ''size'' = None then size_of v else 0)"
  unfolding pays_def
proof (intro allI impI)
  fix native :: native and this args c r v r'
  let ?work = "\<lambda>src. case src of JArr xs \<Rightarrow> length xs | JStr s \<Rightarrow> utf16_len s
        | src \<Rightarrow> if number_at src ''length'' = None \<and> number_at src ''size'' = None then size_of v else 0"
  assume t: "\<forall>t as. thrifty (native t as)" and up: "meterUpgradeOn r" and c: "unit_price c r"
    and w: "w_from native this args r = (Inr v, r')" and n: "1 < ?work (arg args 0)"
  show "spent r + c * of_nat (?work (arg args 0)) \<le> spent r'"
  proof (cases "0 < size_of (arg args 0)")
    case True
    then have k: "?work (arg args 0) = size_of (arg args 0)" by (cases "arg args 0") (auto simp: size_of_def)
    from w True have w': "i_bind (allocGas (js_nat (size_of (arg args 0)))) (\<lambda>_. native this args) r = (Inr v, r')"
      by (simp add: w_from_def sized_number_at)
    show ?thesis unfolding k by (rule first_pays [OF w' c]) (use t n k in auto)
  next
    case False
    with n have src: "number_at (arg args 0) ''length'' = None" "number_at (arg args 0) ''size'' = None"
      and k: "?work (arg args 0) = size_of v"
      by (auto simp: size_of_def split: jsval.splits if_splits)
    from w up src have w': "after_native native charge_length this args r = (Inr v, r')"
      by (simp add: w_from_def)
    have "1 < size_of v" using n k by simp
    with after_native_pays [OF w' _ c charge_length_earns] t show ?thesis unfolding k by blast
  qed
qed

lemma binary_pays: "pays (w_binary_ctor iterable (Some bpe)) (\<lambda>this args v. (number_of (arg args 0) + size_of (arg args 0)) * bpe)"
  unfolding pays_def
proof (intro allI impI)
  fix native :: native and this args c r v r'
  let ?k = "(number_of (arg args 0) + size_of (arg args 0)) * bpe"
  assume t: "\<forall>t as. thrifty (native t as)" and c: "unit_price c r"
    and w: "w_binary_ctor iterable (Some bpe) native this args r = (Inr v, r')" and n: "1 < ?k"
  show "spent r + c * of_nat ?k \<le> spent r'"
  proof (cases "0 < size_of (arg args 0)")
    case True
    then have z: "number_of (arg args 0) = 0" and nn: "\<And>m. arg args 0 \<noteq> JNum m"
      by (auto simp: size_of_def number_of_def split: jsval.splits)
    from w nn True have w': "i_bind (allocGas (js_nat ?k)) (\<lambda>_. native this args) r = (Inr v, r')"
      by (cases "arg args 0") (auto simp: w_binary_ctor_def Let_def num_mul_def size_of_def number_of_def split: if_splits)
    show ?thesis by (rule first_pays [OF w' c]) (use t n in auto)
  next
    case False
    from n False have pos: "0 < number_of (arg args 0)" by (cases "number_of (arg args 0)") auto
    from number_ofD [OF pos] obtain q where q: "arg args 0 = JNum (Num q)"
      "of_nat (number_of (arg args 0)) \<le> q" by blast
    then have le: "of_nat ?k \<le> q * of_nat bpe" using False by (simp add: mult_right_mono)
    from w q have w': "i_bind (allocGas (JNum (Num (q * of_nat bpe)))) (\<lambda>_. native this args) r = (Inr v, r')"
      by (simp add: w_binary_ctor_def Let_def num_mul_def)
    show ?thesis by (rule first_rat_pays [OF w' c _ n le]) (use t in simp)
  qed
qed

lemmas builtin_pays = meterLen_pays repeat_pays pad_pays globalFn_pays array_concat_pays string_concat_pays
  sort_pays typed_sort_pays typed_set_pays drop_pays apply_pays join_pays flat_pays replace_pays from_pays
  string_result_pays binary_pays collection_pays

lemma table_pays: "list_all (\<lambda>(name, w, work). pays w work) (metered_builtins iterable bpe)"
  unfolding metered_builtins_def by (simp only: list.pred_inject prod.case simp_thms builtin_pays)


lemma demo_slice: "w_meterLen (\<lambda>this args. i_ret this) (JStr ''abcdef'') [] demo_realm = (Inr (JStr ''abcdef''), paid 6 demo_realm)"
proof -
  have u: "gas_units (failClosed demo_realm) (gas_arg (js_nat 6)) = 6" by (simp add: gas_units_def gas_arg_def)
  have l: "utf16_len ''abcdef'' = 6" by (simp add: utf16_len_def units_of_def is_cont_def)
  have "allocGas (js_nat 6) demo_realm = (Inr (), paid 6 demo_realm)"
    using gasRef_price [OF demo_realm_ready(3) u] by (simp add: demo_realm_ready allocGas_def gasFunc_def i_bind_def i_res_def)
  then show ?thesis by (simp add: w_meterLen_def l i_bind_def i_ret_def)
qed


text \<open>An argument may report any number as its length, so a negative one cancels the charge for the others.\<close>

lemma negative_length_cancels_the_charge:
  assumes "length xs + length ys \<le> n + 1"
  shows "w_array_concat native (JArr xs) [JArr ys, JObj [(''length'', JNum (Num (- of_nat n)))]]
    = native (JArr xs) [JArr ys, JObj [(''length'', JNum (Num (- of_nat n)))]]"
proof -
  have "number_at (JObj [(''length'', JNum (Num (- of_nat n)))]) ''length'' = Some (Num (- of_nat n))"
    by (simp add: number_at_def read_prop_def js_get_def)
  moreover have "of_nat (length xs) + of_nat (length ys) - of_nat n \<le> (1::rat)"
  proof -
    have "of_nat (length xs + length ys) \<le> (of_nat (n + 1) :: rat)" using assms by (simp only: of_nat_le_iff)
    then show ?thesis by (simp add: algebra_simps)
  qed
  ultimately show ?thesis
    by (simp add: w_array_concat_def js_add_def to_primitive_def allocGas_def i_bind_def i_res_def i_ret_def fun_eq_iff)
qed

end
