(* ===== verification/HarnessGrowth.thy ===== *)
theory HarnessGrowth
  imports HarnessPays
begin

text \<open>
  What the growth charge of the concatenation helpers buys: the strings of a program that feeds
  concatenations and templates into one another are bounded by its steps and the gas it paid.
\<close>

text \<open>A program that only builds strings: each step appends to its pool the concatenation of two of its
  strings, or a template over several of them.\<close>

datatype growth = Plus nat nat | Template "nat list"

definition pooled :: "jsval list \<Rightarrow> nat \<Rightarrow> jsval" where
  "pooled pool i = pool ! (i mod length pool)"

fun grow :: "growth \<Rightarrow> jsval list \<Rightarrow> jsval act" where
  "grow (Plus i j) pool = h_concat (pooled pool i) (pooled pool j)"
| "grow (Template ks) pool = h_tmpl (map (pooled pool) ks)"

fun grow_all :: "growth list \<Rightarrow> jsval list \<Rightarrow> jsval list act" where
  "grow_all [] pool = i_ret pool"
| "grow_all (g # gs) pool = i_bind (grow g pool) (\<lambda>v. grow_all gs (pool @ [v]))"

definition longest :: "jsval list \<Rightarrow> nat" where
  "longest pool = foldr (\<lambda>v m. max (slen v) m) pool 0"

definition all_text :: "jsval list \<Rightarrow> bool" where
  "all_text pool \<longleftrightarrow> pool \<noteq> [] \<and> list_all (\<lambda>v. typeof v = ''string'') pool"

lemma longest_snoc: "longest (pool @ [v]) = max (longest pool) (slen v)"
  unfolding longest_def by (induction pool) auto

lemma slen_le_longest: "v \<in> set pool \<Longrightarrow> slen v \<le> longest pool"
  unfolding longest_def by (induction pool) auto

lemma pooled_in: "pool \<noteq> [] \<Longrightarrow> pooled pool i \<in> set pool"
  by (simp add: pooled_def)

lemma pooled_text: "all_text pool \<Longrightarrow> \<exists>s. pooled pool i = JStr s \<and> utf16_len s \<le> longest pool"
proof -
  assume t: "all_text pool"
  then have p: "pooled pool i \<in> set pool" and k: "typeof (pooled pool i) = ''string''"
    using pooled_in [of pool i] by (auto simp: all_text_def list_all_iff)
  from k obtain s where "pooled pool i = JStr s" by (cases "pooled pool i") (auto split: if_splits)
  with slen_le_longest [OF p] show ?thesis by (simp add: slen_def)
qed

lemma charge_above_earns: "charge_above n r = (Inr x, r') \<Longrightarrow> unit_price c r \<Longrightarrow>
  spent r + c * of_nat (n - 256) \<le> spent r' \<and> unit_price c r'"
proof (cases "GROW_THRESHOLD < n")
  case True
  assume a: "charge_above n r = (Inr x, r')" "unit_price c r"
  then have g: "gasFunc (js_nat n) r = (Inr x, r')" using True by (simp add: charge_above_def)
  have "earns (of_nat n) (gasFunc (js_nat n))" using gasFunc_earns [of "of_nat n"] True by (simp add: GROW_THRESHOLD_def)
  from earnsD [OF this a(2) g] have "spent r + c * of_nat n \<le> spent r'" .
  moreover have "c * of_nat (n - 256) \<le> c * of_nat n" using a(2) by (auto simp: unit_price_def intro: mult_left_mono)
  ultimately show ?thesis using thriftyD(2) [OF gasFunc_thrifty g a(2)] by linarith
qed (auto simp: charge_above_def i_ret_def GROW_THRESHOLD_def)

lemma joined_text:
  assumes "\<forall>p\<in>set ps. \<exists>s. p = JStr s \<and> utf16_len s \<le> B" "joined r m ps = Inr (t, l)" "m \<le> B"
  shows "l \<le> B"
  using assms by (induction ps arbitrary: r m) (auto simp:)

text \<open>One step: the new string exceeds the longest of the pool by at most 256 units and what was paid.\<close>

lemma grow_step:
  assumes "grow g pool r = (Inr v, r')" "all_text pool" "unit_price c r"
  shows "typeof v = ''string'' \<and> spent r + c * of_nat (slen v - longest pool - 256) \<le> spent r' \<and> unit_price c r'"
proof -
  have step: "?thesis" if v: "v = JStr s" and c: "charge_above n r = (Inr u, r')" and n: "slen v - longest pool \<le> n" for s n u
  proof -
    from charge_above_earns [OF c assms(3)] have "spent r + c * of_nat (n - 256) \<le> spent r'" "unit_price c r'" by auto
    moreover have "c * of_nat (slen v - longest pool - 256) \<le> c * of_nat (n - 256)"
      using assms(3) n by (auto simp: unit_price_def intro!: mult_left_mono)
    ultimately show ?thesis using v by auto
  qed
  show ?thesis
  proof (cases g)
    case (Plus i j)
    from pooled_text [OF assms(2), of i] pooled_text [OF assms(2), of j] obtain s t where
      st: "pooled pool i = JStr s" "utf16_len s \<le> longest pool" "pooled pool j = JStr t" "utf16_len t \<le> longest pool" by auto
    then have "v = JStr (s @ t)" "charge_above (utf16_len (s @ t) - max (utf16_len s) (utf16_len t)) r = (Inr (), r')"
      using assms(1) Plus
      by (auto simp: h_concat_def js_add_def to_primitive_def i_bind_Inr i_res_def i_ret_def grown_def slen_def)
    moreover have "slen v - longest pool \<le> utf16_len (s @ t) - max (utf16_len s) (utf16_len t)"
      using \<open>v = JStr (s @ t)\<close> st by (simp add: slen_def)
    ultimately show ?thesis using step by blast
  next
    case (Template ks)
    from assms(1) Template obtain t l where j: "joined [] 0 (map (pooled pool) ks) = Inr (t, l)"
      and v: "v = JStr t" and c: "charge_above (utf16_len t - l) r = (Inr (), r')"
      by (auto simp: h_tmpl_def i_bind_Inr i_res_def i_ret_def)
    have "\<forall>p\<in>set (map (pooled pool) ks). \<exists>s. p = JStr s \<and> utf16_len s \<le> longest pool"
      using pooled_text [OF assms(2)] by auto
    from joined_text [OF this j] have "l \<le> longest pool" by simp
    with v have "slen v - longest pool \<le> utf16_len t - l" by (simp add: slen_def)
    with step v c show ?thesis by blast
  qed
qed

text \<open>C36. String growth is paid for: however a program feeds concatenations and templates into one
  another, the longest string it reaches exceeds the longest it started from by at most 256 UTF-16
  units a step plus the computation units it has paid, so its gas bounds the memory its strings
  take and no chain of doublings runs on for free.\<close>

theorem string_growth_is_paid:
  assumes "grow_all gs pool r = (Inr pool', r')" "all_text pool" "unit_price c r"
  shows "spent r + c * of_nat (longest pool' - longest pool - 256 * length gs) \<le> spent r'"
  using assms
proof (induction gs arbitrary: pool r)
  case (Cons g gs)
  from Cons.prems(1) obtain v r1 where g: "grow g pool r = (Inr v, r1)" and gs: "grow_all gs (pool @ [v]) r1 = (Inr pool', r')"
    by (auto simp: i_bind_Inr)
  from grow_step [OF g Cons.prems(2,3)] have v: "typeof v = ''string''"
    "spent r + c * of_nat (slen v - longest pool - 256) \<le> spent r1" "unit_price c r1" by auto
  from v(1) Cons.prems(2) have "all_text (pool @ [v])" by (simp add: all_text_def)
  from Cons.IH [OF gs this v(3)] have ih: "spent r1 + c * of_nat (longest pool' - max (longest pool) (slen v) - 256 * length gs) \<le> spent r'"
    by (simp add: longest_snoc)
  let ?a = "slen v - longest pool - 256" and ?b = "longest pool' - max (longest pool) (slen v) - 256 * length gs"
  have "longest pool' - longest pool - 256 * length (g # gs) \<le> ?a + ?b" by simp
  then have "of_nat (longest pool' - longest pool - 256 * length (g # gs)) \<le> (of_nat ?a + of_nat ?b :: rat)"
    by (metis of_nat_add of_nat_le_iff)
  with Cons.prems(3) have "c * of_nat (longest pool' - longest pool - 256 * length (g # gs)) \<le> c * of_nat ?a + c * of_nat ?b"
    by (metis distrib_left mult_left_mono unit_price_def)
  with v(2) ih show ?case by linarith
qed (simp add: i_ret_def)

theorem string_growth_is_paid_witness:
  "\<exists>pool. grow_all [Plus 0 0, Template [1, 0]] [JStr ''ab''] demo_realm = (Inr pool, demo_realm) \<and> longest pool = 6
     \<and> spent demo_realm + 1 * of_nat (longest pool - 2 - 256 * 2) \<le> spent demo_realm"
proof -
  let ?pool = "[JStr ''ab'', JStr ''abab'', JStr ''ababab'']"
  have g: "grow_all [Plus 0 0, Template [1, 0]] [JStr ''ab''] demo_realm = (Inr ?pool, demo_realm)"
    by (simp add: pooled_def h_concat_def h_tmpl_def js_add_def to_primitive_def i_bind_def i_res_def i_ret_def
        grown_def slen_def charge_above_def GROW_THRESHOLD_def utf16_len_def units_of_def is_cont_def)
  have l: "longest [JStr ''ab''] = 2" "longest ?pool = 6" by (simp_all add: longest_def slen_def utf16_len_def units_of_def is_cont_def)
  have "all_text [JStr ''ab'']" by (simp add: all_text_def)
  from string_growth_is_paid [OF g this demo_realm_ready(3)] g l show ?thesis by auto
qed

end
