(* ===== verification/NativeStack.thy ===== *)
theory NativeStack
  imports HarnessMeter
begin

text \<open>
  The hooks of the armed harness against native stack overflow (src/index/native_stack/harness_hooks.js):
  the accounting of frame weights and pushed arguments in depth units, and the recognition of the
  engine's own overflow error. A contract is any sequence of events: its metered functions enter and
  leave in a nested way, and in between it may call the hooks by hand, which are reachable through
  \<open>globalThis\<close>. The limit is the injected \<open>__NR_DEPTH_LIMIT\<close>; a weight is a number, and no number
  that is infinite passes the reservation under a positive limit.
\<close>

subsection \<open>Depth units\<close>

definition ARGS_PER_UNIT :: nat where "ARGS_PER_UNIT = 64"
definition CALL_UNITS :: nat where "CALL_UNITS = 2"
definition BOUND_ARGS_MAX :: nat where "BOUND_ARGS_MAX = 16"

text \<open>One live call: a metered function with the token its \<open>__depth_enter\<close> returned, the index of its entry
  (not part of the program's state, kept for the proofs) and the units it was charged, or an \<open>apply\<close> with
  the depth and the marker it puts back.\<close>

datatype live_call =
    Frame (token: nat) (entry: nat) (frame_units: rat)
  | Apply rat int

record hold_slot =
  hold_id :: jsval
  hold_act :: nat
  hold_prior :: rat

text \<open>The variables of the hooks: \<open>acts\<close> holds \<open>__nstTokens[k]\<close> with \<open>__nstActs[k]\<close>, its length is
  \<open>__nstActN\<close>; \<open>holds\<close> has the last hold first. Tokens are fresh objects, numbered in the order they are
  made; \<open>owned\<close> are those a hand-made call returned to the contract.\<close>

record nst =
  poison :: bool
  depth :: rat
  acts :: "(nat \<times> rat) list"
  holds :: "hold_slot list"
  applyAct :: int
  bound_args :: "nat \<rightharpoonup> nat"
  fresh_token :: nat
  owned :: "nat set"
  calls :: "live_call list"

definition nst_init :: nst where
  "nst_init = \<lparr>poison = False, depth = 0, acts = [], holds = [], applyAct = - 1, bound_args = Map.empty,
     fresh_token = 0, owned = {}, calls = []\<rparr>"

definition nst_fault :: "nst \<Rightarrow> nst" where
  "nst_fault s = s\<lparr>poison := True\<rparr>"

definition nst_overruns :: "int \<Rightarrow> nst \<Rightarrow> jsnum \<Rightarrow> bool" where
  "nst_overruns limit s u \<longleftrightarrow> 0 < limit \<and> num_less (Num (of_int limit)) (num_add (Num (depth s)) u)"

definition units_value :: "jsnum \<Rightarrow> rat" where
  "units_value u = (case u of Num x \<Rightarrow> x | _ \<Rightarrow> 0)"

definition nst_weight :: "jsval \<Rightarrow> jsnum" where
  "nst_weight w = (case w of JNum n \<Rightarrow> if num_less (Num 1) n then n else Num 1 | _ \<Rightarrow> Num 1)"

definition nst_units :: "nat \<Rightarrow> nat \<Rightarrow> nat" where
  "nst_units n base = base + (n - n mod ARGS_PER_UNIT) div ARGS_PER_UNIT"

definition nst_len :: "jsnum \<Rightarrow> nat" where
  "nst_len v = (case v of
     Num q \<Rightarrow> if 0 < q then nat \<lfloor>min q 9007199254740991\<rfloor> else 0
   | PInf \<Rightarrow> 9007199254740991 | _ \<Rightarrow> 0)"

subsection \<open>The hooks\<close>

definition nst_enter :: "int \<Rightarrow> jsval \<Rightarrow> nst \<Rightarrow> (nat \<times> rat) option \<times> nst" where
  "nst_enter limit w s =
     (if poison s then (None, s)
      else let u = nst_weight w in
        if nst_overruns limit s u then (None, nst_fault s)
        else (Some (fresh_token s, units_value u),
          s\<lparr>acts := acts s @ [(fresh_token s, depth s)], depth := depth s + units_value u,
            fresh_token := fresh_token s + 1\<rparr>))"

definition nst_exit :: "nat \<Rightarrow> nst \<Rightarrow> nst" where
  "nst_exit c s =
     (if acts s = [] \<or> fst (last (acts s)) \<noteq> c then s
      else s\<lparr>holds := dropWhile (\<lambda>t. length (acts s) \<le> hold_act t) (holds s),
             acts := butlast (acts s), depth := snd (last (acts s))\<rparr>)"

definition nst_release :: "jsval \<Rightarrow> nst \<Rightarrow> nst" where
  "nst_release site s = (case holds s of
     [] \<Rightarrow> s
   | t # ts \<Rightarrow> if hold_id t = site \<and> hold_act t = length (acts s)
               then s\<lparr>depth := hold_prior t, holds := ts\<rparr> else s)"

definition nst_hold :: "int \<Rightarrow> nat \<Rightarrow> jsval \<Rightarrow> nst \<Rightarrow> nst" where
  "nst_hold limit n site s =
     (let s' = nst_release site s; u = nst_units n CALL_UNITS in
      if nst_overruns limit s' (Num (of_nat u)) then nst_fault s'
      else s'\<lparr>holds := \<lparr>hold_id = site, hold_act = length (acts s'), hold_prior = depth s'\<rparr> # holds s',
              depth := depth s' + of_nat u\<rparr>)"

text \<open>The entry of the \<open>apply\<close> wrapper with \<open>n\<close> arguments, up to the native call, and its \<open>finally\<close>. The
  gas for a long list may be refused; \<open>funded\<close> says whether it was granted.\<close>

definition nst_apply_enter :: "int \<Rightarrow> nat \<Rightarrow> bool \<Rightarrow> nst \<Rightarrow> nst" where
  "nst_apply_enter limit n funded s =
     (let u = nst_units n (if applyAct s = int (length (acts s)) then 0 else CALL_UNITS) in
      if nst_overruns limit s (Num (of_nat u)) then nst_fault s
      else if \<not> funded then s
      else s\<lparr>calls := Apply (depth s) (applyAct s) # calls s, applyAct := int (length (acts s)),
             depth := depth s + of_nat u\<rparr>)"

definition nst_bind :: "int \<Rightarrow> nat \<Rightarrow> nat \<Rightarrow> nat \<Rightarrow> nst \<Rightarrow> nst" where
  "nst_bind limit f k r s =
     (let base = (case bound_args s f of Some b \<Rightarrow> b | None \<Rightarrow> 0) in
      if BOUND_ARGS_MAX < base + k then nst_fault s
      else if 0 < base + k then s\<lparr>bound_args := (bound_args s)(r \<mapsto> base + k)\<rparr> else s)"

subsection \<open>What a contract does\<close>

datatype nst_event =
    Call jsval | Return
  | RawEnter jsval | RawExit nat
  | Hold nat jsval | Release jsval
  | ApplyCall nat bool | ApplyReturn
  | Bind nat nat nat

text \<open>A metered function runs \<open>const D = __depth_enter(w); try { .. } finally { __depth_exit(D, 0); }\<close>: when the
  entry throws, the function is not live; however its body ends, its exit runs, with its own token. A
  contract presents a token by hand only when it owns it.\<close>

fun nst_step :: "int \<Rightarrow> nst_event \<Rightarrow> nst \<Rightarrow> nst" where
  "nst_step limit (Call w) s = (case nst_enter limit w s of
     (None, s') \<Rightarrow> s'
   | (Some (t, u), s') \<Rightarrow> s'\<lparr>calls := Frame t (length (acts s)) u # calls s'\<rparr>)"
| "nst_step limit Return s = (case calls s of
     Frame t k u # cs \<Rightarrow> (nst_exit t s)\<lparr>calls := cs\<rparr>
   | _ \<Rightarrow> s)"
| "nst_step limit (RawEnter w) s = (case nst_enter limit w s of
     (None, s') \<Rightarrow> s'
   | (Some (t, u), s') \<Rightarrow> s'\<lparr>owned := insert t (owned s')\<rparr>)"
| "nst_step limit (RawExit t) s = (if t \<in> owned s then nst_exit t s else s)"
| "nst_step limit (Hold n site) s = nst_hold limit n site s"
| "nst_step limit (Release site) s = nst_release site s"
| "nst_step limit (ApplyCall n funded) s = nst_apply_enter limit n funded s"
| "nst_step limit ApplyReturn s = (case calls s of
     Apply p q # cs \<Rightarrow> s\<lparr>depth := p, applyAct := q, calls := cs\<rparr>
   | _ \<Rightarrow> s)"
| "nst_step limit (Bind f k r) s = nst_bind limit f k r s"

fun nst_run :: "int \<Rightarrow> nst_event list \<Rightarrow> nst \<Rightarrow> nst" where
  "nst_run limit [] s = s"
| "nst_run limit (e # es) s = nst_run limit es (nst_step limit e s)"

definition weigh :: "live_call \<Rightarrow> rat" where
  "weigh c = (case c of Frame t k u \<Rightarrow> u | Apply p q \<Rightarrow> 0)"

definition live_weight :: "nst \<Rightarrow> rat" where
  "live_weight s = sum_list (map weigh (calls s))"

end
