(* ===== verification/NativeStackProps.thy ===== *)
theory NativeStackProps
  imports NativeStack
begin

text \<open>
  What the accounting of the native stack guarantees: whatever a contract calls, the depth never falls
  below the weight of its live frames and never passes the limit; and one way around it, the \<open>apply\<close>
  that is reached from an \<open>apply\<close>.
\<close>

subsection \<open>The invariant\<close>

definition weight :: "live_call list \<Rightarrow> rat" where
  "weight cs = sum_list (map weigh cs)"

text \<open>The weight of the frames entered below index \<open>k\<close>.\<close>

fun below :: "live_call list \<Rightarrow> nat \<Rightarrow> rat" where
  "below [] k = 0"
| "below (Frame t j u # cs) k = (if j < k then u else 0) + below cs k"
| "below (Apply p q # cs) k = below cs k"

fun entries_below :: "nat \<Rightarrow> live_call list \<Rightarrow> bool" where
  "entries_below k [] = True"
| "entries_below k (Frame t j u # cs) = (j < k \<and> entries_below k cs)"
| "entries_below k (Apply p q # cs) = entries_below k cs"

fun stacked :: "rat \<Rightarrow> (nat \<times> rat) list \<Rightarrow> nat set \<Rightarrow> live_call list \<Rightarrow> bool" where
  "stacked L A R [] = True"
| "stacked L A R (Frame t k u # cs) =
     (k < length A \<and> fst (A ! k) = t \<and> t \<notin> R \<and> 0 \<le> u \<and> entries_below k cs \<and> stacked L A R cs)"
| "stacked L A R (Apply p q # cs) = (weight cs \<le> p \<and> p \<le> L \<and> stacked L A R cs)"

definition entries_ok :: "rat \<Rightarrow> nat \<Rightarrow> (nat \<times> rat) list \<Rightarrow> live_call list \<Rightarrow> bool" where
  "entries_ok L f A C \<longleftrightarrow> distinct (map fst A) \<and> (\<forall>k < length A. fst (A ! k) < f \<and> below C k \<le> snd (A ! k) \<and> snd (A ! k) \<le> L)"

definition holds_ok :: "rat \<Rightarrow> nat \<Rightarrow> hold_slot list \<Rightarrow> live_call list \<Rightarrow> bool" where
  "holds_ok L n H C \<longleftrightarrow> (\<forall>h \<in> set H. hold_act h \<le> n \<and> below C (hold_act h) \<le> hold_prior h \<and> hold_prior h \<le> L)
     \<and> sorted_wrt (\<lambda>x y. hold_act y \<le> hold_act x) H"

definition accounted :: "rat \<Rightarrow> nst \<Rightarrow> bool" where
  "accounted L s \<longleftrightarrow> entries_ok L (fresh_token s) (acts s) (calls s)
     \<and> holds_ok L (length (acts s)) (holds s) (calls s)
     \<and> stacked L (acts s) (owned s) (calls s)
     \<and> (\<forall>t \<in> owned s. t < fresh_token s)
     \<and> weight (calls s) \<le> depth s \<and> depth s \<le> L"

lemma weight_simps [simp]:
  "weight [] = 0" "weight (Frame t k u # cs) = u + weight cs" "weight (Apply p q # cs) = weight cs"
  by (simp_all add: weight_def weigh_def)

lemma below_le: "stacked L A R cs \<Longrightarrow> below cs k \<le> weight cs \<and> 0 \<le> below cs k"
  by (induction cs k rule: below.induct) auto

lemma below_all: "entries_below k cs \<Longrightarrow> below cs k = weight cs"
  by (induction cs k rule: below.induct) auto

lemma below_tail: "stacked L A R (c # cs) \<Longrightarrow> below cs k \<le> below (c # cs) k"
  by (cases c) auto

lemma entries_below_mono: "entries_below k cs \<Longrightarrow> k \<le> n \<Longrightarrow> entries_below n cs"
  by (induction n cs rule: entries_below.induct) auto

lemma stacked_entries: "stacked L A R cs \<Longrightarrow> entries_below (length A) cs"
  by (induction L A R cs rule: stacked.induct) auto

lemma stacked_tail: "stacked L A R (c # cs) \<Longrightarrow> stacked L A R cs"
  by (cases c) auto

lemma stacked_owned: "stacked L A R cs \<Longrightarrow> P \<inter> fst ` set A \<subseteq> R \<Longrightarrow> stacked L A P cs"
proof (induction L A R cs rule: stacked.induct)
  case (2 L A R t k u cs)
  then have "t \<in> fst ` set A" by auto
  with 2 show ?case by auto
qed auto

lemma stacked_snoc: "stacked L A R cs \<Longrightarrow> stacked L (A @ [x]) R cs"
  by (induction L A R cs rule: stacked.induct) (auto simp: nth_append)

lemma stacked_butlast: "stacked L A R cs \<Longrightarrow> entries_below (length A - 1) cs \<Longrightarrow> stacked L (butlast A) R cs"
  by (induction L A R cs rule: stacked.induct) (auto simp: nth_butlast)

text \<open>An entry whose token is not that of a live frame is above all of them.\<close>

lemma last_not_live:
  assumes "stacked L A R cs" "A \<noteq> []" "fst (last A) \<in> R"
  shows "entries_below (length A - 1) cs"
  using assms
proof (induction L A R cs rule: stacked.induct)
  case (2 L A R t k u cs)
  have "k \<noteq> length A - 1" using 2(2,3,4) by (auto simp: last_conv_nth)
  with 2 show ?case by auto
qed auto

subsection \<open>Each hook keeps it\<close>

lemma accounted_call_tail:
  assumes "accounted L s" "calls s = c # cs"
  shows "entries_ok L (fresh_token s) (acts s) cs" "holds_ok L (length (acts s)) (holds s) cs"
    "stacked L (acts s) (owned s) cs" "weight cs \<le> depth s"
proof -
  have st: "stacked L (acts s) (owned s) (c # cs)" using assms by (simp add: accounted_def)
  note b = below_tail [OF st]
  show "entries_ok L (fresh_token s) (acts s) cs"
    using assms b unfolding accounted_def entries_ok_def by (metis order_trans)
  show "holds_ok L (length (acts s)) (holds s) cs"
    using assms b unfolding accounted_def holds_ok_def by (metis order_trans)
  show "stacked L (acts s) (owned s) cs" by (rule stacked_tail [OF st])
  have "weight cs \<le> weight (c # cs)" using st by (cases c) auto
  then show "weight cs \<le> depth s" using assms by (simp add: accounted_def)
qed

lemma overruns_iff: "0 < limit \<Longrightarrow> \<not> nst_overruns limit s u \<Longrightarrow> u \<noteq> NaN \<Longrightarrow> u \<noteq> NInf \<Longrightarrow>
  \<exists>x. u = Num x \<and> depth s + x \<le> of_int limit"
  by (cases u) (auto simp: nst_overruns_def)

lemma weight_pos: "nst_weight w \<noteq> NaN \<and> nst_weight w \<noteq> NInf \<and> (\<forall>x. nst_weight w = Num x \<longrightarrow> 1 \<le> x)"
  by (auto simp: nst_weight_def split: jsval.splits if_splits)

lemma dropWhile_sorted:
  "sorted_wrt (\<lambda>x y. hold_act y \<le> hold_act x) H \<Longrightarrow>
   \<forall>h \<in> set (dropWhile (\<lambda>t. n \<le> hold_act t) H). hold_act h < n"
  by (induction H) (auto simp: not_le)

lemma sorted_dropWhile: "sorted_wrt P H \<Longrightarrow> sorted_wrt P (dropWhile Q H)"
  by (induction H) auto

text \<open>Popping the last entry is sound for the calls that were entered below it.\<close>

lemma pop_accounted:
  assumes "accounted L s" "acts s \<noteq> []" "entries_below (length (acts s) - 1) cs"
    and "entries_ok L (fresh_token s) (acts s) cs" "holds_ok L (length (acts s)) (holds s) cs"
    and "stacked L (acts s) (owned s) cs"
  shows "accounted L (s\<lparr>holds := dropWhile (\<lambda>t. length (acts s) \<le> hold_act t) (holds s),
     acts := butlast (acts s), depth := snd (last (acts s)), calls := cs\<rparr>)"
proof -
  let ?A = "acts s"
  have l: "last ?A = ?A ! (length ?A - 1)" "length ?A - 1 < length ?A" using assms(2) by (auto simp: last_conv_nth)
  have e: "entries_ok L (fresh_token s) (butlast ?A) cs"
    using assms(4) by (auto simp: entries_ok_def nth_butlast map_butlast distinct_butlast)
  have "weight cs = below cs (length ?A - 1)" using below_all [OF assms(3)] by simp
  with assms(4) l have d: "weight cs \<le> snd (last ?A)" "snd (last ?A) \<le> L" by (auto simp: entries_ok_def)
  have h: "holds_ok L (length ?A - 1) (dropWhile (\<lambda>t. length ?A \<le> hold_act t) (holds s)) cs"
    using assms(5) dropWhile_sorted [of "holds s" "length ?A"] sorted_dropWhile
    by (fastforce simp: holds_ok_def dest: set_dropWhileD)
  show ?thesis
    using e h d stacked_butlast [OF assms(6,3)] assms(1) by (simp add: accounted_def)
qed

lemma return_accounted: "accounted L s \<Longrightarrow> accounted L (nst_step limit Return s)"
proof -
  assume a: "accounted L s"
  show ?thesis
  proof (cases "calls s")
    case (Cons c cs)
    note tl = accounted_call_tail [OF a Cons]
    show ?thesis
    proof (cases c)
      case (Frame t k u)
      show ?thesis
      proof (cases "acts s = [] \<or> fst (last (acts s)) \<noteq> t")
        case True
        then show ?thesis using a tl Cons Frame by (auto simp: nst_exit_def accounted_def)
      next
        case False
        have st: "k < length (acts s)" "fst (acts s ! k) = t" "entries_below k cs"
          using a Cons Frame by (auto simp: accounted_def)
        moreover have "fst (acts s ! (length (acts s) - 1)) = t" using False by (auto simp: last_conv_nth)
        moreover have "distinct (map fst (acts s))" using tl(1) by (simp add: entries_ok_def)
        ultimately have "k = length (acts s) - 1"
          using nth_eq_iff_index_eq [of "map fst (acts s)" k "length (acts s) - 1"] False by auto
        with st(3) have "entries_below (length (acts s) - 1) cs" by simp
        from pop_accounted [OF a _ this tl(1-3)] False Cons Frame show ?thesis by (simp add: nst_exit_def)
      qed
    qed (use a Cons in simp)
  qed (use a in simp)
qed

lemma raw_exit_accounted: "accounted L s \<Longrightarrow> accounted L (nst_step limit (RawExit t) s)"
proof -
  assume a: "accounted L s"
  then have p: "entries_ok L (fresh_token s) (acts s) (calls s)" "holds_ok L (length (acts s)) (holds s) (calls s)"
    "stacked L (acts s) (owned s) (calls s)" by (auto simp: accounted_def)
  show ?thesis
  proof (cases "t \<in> owned s \<and> acts s \<noteq> [] \<and> fst (last (acts s)) = t")
    case True
    then have "entries_below (length (acts s) - 1) (calls s)" using last_not_live [OF p(3)] by blast
    from pop_accounted [OF a _ this p] True show ?thesis by (simp add: nst_exit_def)
  qed (use a in \<open>auto simp: nst_exit_def\<close>)
qed

text \<open>A new entry, of a frame or of a call by hand.\<close>

lemma push_accounted:
  assumes "accounted L s" "0 \<le> x" "depth s + x \<le> L"
  shows "accounted L (s\<lparr>acts := acts s @ [(fresh_token s, depth s)], depth := depth s + x,
       fresh_token := fresh_token s + 1, calls := Frame (fresh_token s) (length (acts s)) x # calls s\<rparr>)"
    "accounted L (s\<lparr>acts := acts s @ [(fresh_token s, depth s)], depth := depth s + x,
       fresh_token := fresh_token s + 1, owned := insert (fresh_token s) (owned s)\<rparr>)"
proof -
  let ?A = "acts s @ [(fresh_token s, depth s)]" and ?C = "calls s"
  let ?F = "Frame (fresh_token s) (length (acts s)) x # ?C"
  have e: "entries_ok L (fresh_token s) (acts s) ?C" and h: "holds_ok L (length (acts s)) (holds s) ?C"
    and st: "stacked L (acts s) (owned s) ?C" and o: "\<forall>t \<in> owned s. t < fresh_token s"
    and d: "weight ?C \<le> depth s" "depth s \<le> L" using assms(1) by (auto simp: accounted_def)
  have fresh: "fresh_token s \<notin> fst ` set (acts s)"
  proof
    assume "fresh_token s \<in> fst ` set (acts s)"
    then obtain i where "i < length (acts s)" "fst (acts s ! i) = fresh_token s" by (metis imageE in_set_conv_nth)
    with e show False by (auto simp: entries_ok_def)
  qed
  have w: "below ?C (length (acts s)) \<le> depth s" using below_le [OF st] d(1) by (meson order_trans)
  have e1: "entries_ok L (fresh_token s + 1) ?A ?C"
    using e fresh w d(2) by (auto simp: entries_ok_def nth_append less_Suc_eq)
  have e2: "entries_ok L (fresh_token s + 1) ?A ?F"
    using e1 by (auto simp: entries_ok_def nth_append)
  have h1: "holds_ok L (length ?A) (holds s) ?C" and h2: "holds_ok L (length ?A) (holds s) ?F"
    using h by (auto simp: holds_ok_def)
  have st1: "stacked L ?A (owned s) ?C" by (rule stacked_snoc [OF st])
  have st2: "stacked L ?A (owned s) ?F" using st1 o assms(2) stacked_entries [OF st] by (auto simp: nth_append)
  have st3: "stacked L ?A (insert (fresh_token s) (owned s)) ?C"
    by (rule stacked_snoc [OF stacked_owned [OF st]]) (use fresh in auto)
  show "accounted L (s\<lparr>acts := ?A, depth := depth s + x, fresh_token := fresh_token s + 1, calls := ?F\<rparr>)"
    using e2 h2 st2 o d assms(2,3) by (auto simp: accounted_def)
  show "accounted L (s\<lparr>acts := ?A, depth := depth s + x, fresh_token := fresh_token s + 1,
     owned := insert (fresh_token s) (owned s)\<rparr>)"
    using e1 h1 st3 o d assms(2,3) by (auto simp: accounted_def)
qed

lemma enter_accounted:
  assumes "accounted (of_int limit) s" "0 < limit"
  shows "accounted (of_int limit) (nst_step limit (Call w) s)" "accounted (of_int limit) (nst_step limit (RawEnter w) s)"
proof -
  have f: "accounted (of_int limit) (nst_fault s)" using assms(1) by (simp add: nst_fault_def accounted_def)
  consider "poison s" | "\<not> poison s" "nst_overruns limit s (nst_weight w)" | "\<not> poison s" "\<not> nst_overruns limit s (nst_weight w)"
    by blast
  then show "accounted (of_int limit) (nst_step limit (Call w) s)" "accounted (of_int limit) (nst_step limit (RawEnter w) s)"
  proof (atomize (full), cases)
    case 3
    from overruns_iff [OF assms(2) 3(2)] weight_pos [of w] obtain x where
      x: "nst_weight w = Num x" "depth s + x \<le> of_int limit" "1 \<le> x" by auto
    from push_accounted [OF assms(1) _ x(2)] x(3) 3 x(1)
    show "accounted (of_int limit) (nst_step limit (Call w) s) \<and> accounted (of_int limit) (nst_step limit (RawEnter w) s)"
      by (simp add: nst_enter_def units_value_def)
  qed (use assms(1) f in \<open>simp_all add: nst_enter_def\<close>)
qed

lemma release_accounted: "accounted L s \<Longrightarrow> accounted L (nst_release site s)"
proof -
  assume a: "accounted L s"
  have b: "below (calls s) (length (acts s)) = weight (calls s)"
    using a below_all stacked_entries by (auto simp: accounted_def)
  from a show ?thesis
    by (auto simp: nst_release_def accounted_def holds_ok_def b split: list.splits)
qed

lemma hold_accounted:
  assumes "accounted (of_int limit) s" "0 < limit"
  shows "accounted (of_int limit) (nst_hold limit n site s)"
proof -
  let ?s = "nst_release site s" and ?u = "of_nat (nst_units n CALL_UNITS) :: rat"
  have a: "accounted (of_int limit) ?s" by (rule release_accounted [OF assms(1)])
  have b: "below (calls ?s) (length (acts ?s)) = weight (calls ?s)"
    using a below_all stacked_entries by (auto simp: accounted_def)
  show ?thesis
  proof (cases "nst_overruns limit ?s (Num ?u)")
    case True
    then show ?thesis using a by (simp add: nst_hold_def Let_def nst_fault_def accounted_def)
  next
    case False
    from overruns_iff [OF assms(2) False] have "depth ?s + ?u \<le> of_int limit" by simp
    then show ?thesis using False a b by (auto simp: nst_hold_def Let_def accounted_def holds_ok_def)
  qed
qed

lemma apply_accounted:
  assumes "accounted (of_int limit) s" "0 < limit"
  shows "accounted (of_int limit) (nst_apply_enter limit n funded s)"
proof -
  let ?u = "nst_units n (if applyAct s = int (length (acts s)) then 0 else CALL_UNITS)"
  consider "nst_overruns limit s (Num (of_nat ?u))" | "\<not> nst_overruns limit s (Num (of_nat ?u))" "\<not> funded"
    | "\<not> nst_overruns limit s (Num (of_nat ?u))" "funded" by blast
  then show ?thesis
  proof cases
    case 3
    from overruns_iff [OF assms(2) 3(1)] have "depth s + of_nat ?u \<le> of_int limit" by simp
    then show ?thesis using 3 assms(1)
      by (auto simp: nst_apply_enter_def Let_def accounted_def entries_ok_def holds_ok_def)
  qed (use assms(1) in \<open>simp_all add: nst_apply_enter_def Let_def nst_fault_def accounted_def\<close>)
qed

lemma apply_return_accounted: "accounted L s \<Longrightarrow> accounted L (nst_step limit ApplyReturn s)"
proof -
  assume a: "accounted L s"
  show ?thesis
  proof (cases "calls s")
    case (Cons c cs)
    from accounted_call_tail [OF a Cons] a Cons show ?thesis by (cases c) (auto simp: accounted_def)
  qed (use a in simp)
qed

lemma step_accounted:
  assumes "accounted (of_int limit) s" "0 < limit"
  shows "accounted (of_int limit) (nst_step limit e s)"
proof (cases e)
  case (Bind f k r)
  then show ?thesis using assms(1) by (simp add: nst_bind_def Let_def nst_fault_def accounted_def)
qed (use assms enter_accounted return_accounted raw_exit_accounted hold_accounted release_accounted
      apply_accounted apply_return_accounted in \<open>simp_all del: nst_step.simps(1,2,3,4,8)\<close>)

lemma run_accounted: "accounted (of_int limit) s \<Longrightarrow> 0 < limit \<Longrightarrow> accounted (of_int limit) (nst_run limit es s)"
  by (induction es arbitrary: s) (auto simp del: nst_step.simps intro: step_accounted)

lemma init_accounted: "0 < limit \<Longrightarrow> accounted (of_int limit) nst_init"
  by (simp add: nst_init_def accounted_def entries_ok_def holds_ok_def)

lemma bind_bounded: "\<forall>f n. bound_args s f = Some n \<longrightarrow> n \<le> BOUND_ARGS_MAX \<Longrightarrow>
  \<forall>f n. bound_args (nst_step limit e s) f = Some n \<longrightarrow> n \<le> BOUND_ARGS_MAX"
  by (cases e) (auto simp: nst_enter_def nst_exit_def nst_hold_def nst_release_def nst_apply_enter_def nst_bind_def
      Let_def nst_fault_def split: list.splits live_call.splits option.splits)

lemma run_bounded: "\<forall>f n. bound_args s f = Some n \<longrightarrow> n \<le> BOUND_ARGS_MAX \<Longrightarrow>
  \<forall>f n. bound_args (nst_run limit es s) f = Some n \<longrightarrow> n \<le> BOUND_ARGS_MAX"
proof (induction es arbitrary: s)
  case (Cons e es)
  from Cons.IH [OF bind_bounded [OF Cons.prems]] show ?case by simp
qed simp

text \<open>C38. The depth budget binds: in every state a contract can reach, by calls of its functions nested in
  any way, ended by return or throw, and by calls of the hooks by hand with whatever tokens it owns and
  whatever sites it names, the weights of the frames that are live sum to at most the depth, the depth is
  at most the limit, and no function carries more bound arguments than the cap. So a frame never goes
  uncounted, and no way of releasing, leaving or re-entering lowers the depth below what is on the stack.\<close>

theorem live_frames_fit_the_budget:
  assumes "0 < limit"
  shows "live_weight (nst_run limit es nst_init) \<le> depth (nst_run limit es nst_init)
     \<and> depth (nst_run limit es nst_init) \<le> of_int limit
     \<and> (\<forall>f n. bound_args (nst_run limit es nst_init) f = Some n \<longrightarrow> n \<le> BOUND_ARGS_MAX)"
proof -
  have "live_weight s = weight (calls s)" for s by (simp add: live_weight_def weight_def)
  moreover have "\<forall>f n. bound_args nst_init f = Some n \<longrightarrow> n \<le> BOUND_ARGS_MAX" by (simp add: nst_init_def)
  ultimately show ?thesis
    using run_accounted [OF init_accounted [OF assms] assms, of es] run_bounded [of nst_init limit es]
    by (simp add: accounted_def)
qed

theorem live_frames_fit_the_budget_witness:
  "live_weight (nst_run 256 [Call (js_nat 5), RawEnter (js_nat 1), Hold 3 JUndef, Call (js_nat 2), RawExit 1] nst_init) = 7
     \<and> depth (nst_run 256 [Call (js_nat 5), RawEnter (js_nat 1), Hold 3 JUndef, Call (js_nat 2), RawExit 1] nst_init) = 10
     \<and> (10::rat) \<le> 256"
proof -
  let ?es = "[Call (js_nat 5), RawEnter (js_nat 1), Hold 3 JUndef, Call (js_nat 2), RawExit 1]"
  have s: "depth (nst_run 256 ?es nst_init) = 10" "live_weight (nst_run 256 ?es nst_init) = 7"
    by (simp_all add: nst_enter_def nst_init_def nst_weight_def nst_overruns_def units_value_def nst_exit_def
        nst_hold_def nst_release_def Let_def nst_units_def CALL_UNITS_def ARGS_PER_UNIT_def live_weight_def weigh_def)
  with live_frames_fit_the_budget [of 256 ?es] show ?thesis by simp
qed

subsection \<open>An apply reached from an apply\<close>

text \<open>C40. The budget does not see a chain of applies: with no contract frame in between, an apply that calls
  apply again is charged only for its arguments, so after the first one any number of them with fewer
  than 64 arguments nest inside each other, a native call deeper each time, and the depth stays where it
  was. A list built by a loop, whose element at every level is the argument list of the next, drives
  exactly this.\<close>

theorem nested_applies_are_free:
  assumes "n < 64" "2 \<le> limit"
  shows "\<not> poison (nst_run limit (replicate (Suc k) (ApplyCall n True)) nst_init)
     \<and> depth (nst_run limit (replicate (Suc k) (ApplyCall n True)) nst_init) = 2
     \<and> length (calls (nst_run limit (replicate (Suc k) (ApplyCall n True)) nst_init)) = Suc k"
proof -
  have u: "nst_units n b = b" for b using assms(1) by (simp add: nst_units_def ARGS_PER_UNIT_def)
  have inner: "\<not> poison s \<and> depth s = 2 \<and> applyAct s = 0 \<and> acts s = [] \<Longrightarrow>
     (let s' = nst_run limit (replicate k (ApplyCall n True)) s in
       \<not> poison s' \<and> depth s' = 2 \<and> length (calls s') = length (calls s) + k)" for s k
  proof (induction k arbitrary: s)
    case (Suc k)
    have "nst_step limit (ApplyCall n True) s = s\<lparr>calls := Apply 2 0 # calls s, applyAct := 0, depth := 2\<rparr>"
      using Suc.prems assms(2) by (simp add: nst_apply_enter_def Let_def u nst_overruns_def)
    with Suc.IH [of "nst_step limit (ApplyCall n True) s"] Suc.prems show ?case by (simp add: Let_def)
  qed simp
  have "nst_step limit (ApplyCall n True) nst_init
      = nst_init\<lparr>calls := [Apply 0 (- 1)], applyAct := 0, depth := 2\<rparr>"
    using assms(2) by (simp add: nst_apply_enter_def Let_def u nst_overruns_def nst_init_def CALL_UNITS_def)
  with inner [of "nst_step limit (ApplyCall n True) nst_init" k] show ?thesis
    by (simp add: Let_def nst_init_def)
qed

theorem nested_applies_are_free_witness:
  "depth (nst_run 256 (replicate (Suc 99999) (ApplyCall 2 True)) nst_init) = 2
     \<and> length (calls (nst_run 256 (replicate (Suc 99999) (ApplyCall 2 True)) nst_init)) = Suc 99999"
  using nested_applies_are_free [of 2 256 99999] by simp

end
