(* ===== verification/OverflowHook.thy ===== *)
theory OverflowHook
  imports Prelude
begin

text \<open>
  How the armed hooks tell the engine's own stack overflow from anything a contract builds
  (\<open>__nstIsOverflow\<close>, \<open>__nstWrapErrors\<close> and \<open>__nstGas\<close> of src/index/native_stack/harness_hooks.js). The objects
  a program throws live in a heap; the set \<open>seen\<close> is the private WeakSet of the hooks; \<open>held\<close> are the
  objects the contract has a reference to. \<open>raised\<close> records which objects the engine raised as
  overflows; the program does not have it. A contract gets hold of an error it did not construct only
  through a catch clause, and each hands the value to the hook first.
\<close>

datatype message_property = DataText string | OtherMessage

record err_object =
  callable :: bool
  proto_is_range :: bool
  own_tag :: bool
  builtin_tag :: string
  own_message :: "message_property option"

definition OVERFLOW_TEXT :: string where
  "OVERFLOW_TEXT = ''Maximum call stack size exceeded''"

definition overflow_object :: err_object where
  "overflow_object = \<lparr>callable = False, proto_is_range = True, own_tag = False, builtin_tag = ''Error'',
     own_message = Some (DataText OVERFLOW_TEXT)\<rparr>"

datatype thrown = Primitive | Ref nat

record hook_state =
  heap :: "nat \<rightharpoonup> err_object"
  fresh_ref :: nat
  seen :: "nat set"
  held :: "nat set"
  flying :: "thrown option"
  stack_poison :: bool
  raised :: "nat set"

definition hook_init :: hook_state where
  "hook_init = \<lparr>heap = Map.empty, fresh_ref = 0, seen = {}, held = {}, flying = None, stack_poison = False,
     raised = {}\<rparr>"

text \<open>\<open>Object.prototype.toString\<close> of an object without a tag of its own: RangeError.prototype was given a
  fixed undefined one, so the internal slot decides.\<close>

definition object_text :: "err_object \<Rightarrow> string" where
  "object_text v = ''[object '' @ builtin_tag v @ '']''"

definition nstIsOverflow :: "thrown \<Rightarrow> hook_state \<Rightarrow> bool \<times> hook_state" where
  "nstIsOverflow c s = (case c of
     Primitive \<Rightarrow> (False, s)
   | Ref r \<Rightarrow> (case heap s r of
       None \<Rightarrow> (False, s)
     | Some v \<Rightarrow>
         if callable v \<or> r \<in> seen s then (False, s)
         else let s' = s\<lparr>seen := insert r (seen s)\<rparr> in
           if \<not> proto_is_range v \<or> own_tag v then (False, s')
           else if object_text v \<noteq> ''[object Error]'' then (False, s')
           else (own_message v = Some (DataText OVERFLOW_TEXT), s')))"

subsection \<open>What a contract and the engine do\<close>

text \<open>A new object: through a wrapped constructor, which records what it built, whatever its prototype
  and properties are made to be; in any other way, which gives no error slot; by the engine.\<close>

definition allocate :: "err_object \<Rightarrow> hook_state \<Rightarrow> hook_state" where
  "allocate v s = s\<lparr>heap := (heap s)(fresh_ref s \<mapsto> v), fresh_ref := fresh_ref s + 1\<rparr>"

definition nstWrapError_construct :: "err_object \<Rightarrow> hook_state \<Rightarrow> hook_state" where
  "nstWrapError_construct v s =
     (allocate v s)\<lparr>seen := insert (fresh_ref s) (seen s), held := insert (fresh_ref s) (held s)\<rparr>"

datatype hook_event =
    Construct err_object | Make err_object | Reshape nat err_object | Throw thrown
  | EngineOverflow | EngineError err_object | Handle bool

text \<open>\<open>Handle caught\<close>: the first statement of a catch or finally block, or the exit of a frame, gives the
  value in flight to a hook. Only a catch clause binds it.\<close>

fun hook_step :: "hook_event \<Rightarrow> hook_state \<Rightarrow> hook_state" where
  "hook_step e s =
     (if stack_poison s then s
      else case e of
        Construct v \<Rightarrow> nstWrapError_construct v s
      | Make v \<Rightarrow> if builtin_tag v = ''Error'' then s
          else (allocate v s)\<lparr>held := insert (fresh_ref s) (held s)\<rparr>
      | Reshape r v \<Rightarrow> (case heap s r of
            Some old \<Rightarrow> if r \<in> held s \<and> builtin_tag v = builtin_tag old \<and> callable v = callable old
                        then s\<lparr>heap := (heap s)(r \<mapsto> v)\<rparr> else s
          | None \<Rightarrow> s)
      | Throw c \<Rightarrow> if c = Primitive \<or> (\<exists>r \<in> held s. c = Ref r) then s\<lparr>flying := Some c\<rparr> else s
      | EngineOverflow \<Rightarrow> (allocate overflow_object s)\<lparr>flying := Some (Ref (fresh_ref s)), raised := insert (fresh_ref s) (raised s)\<rparr>
      | EngineError v \<Rightarrow> if own_message v = Some (DataText OVERFLOW_TEXT) \<or> callable v then s
          else (allocate v s)\<lparr>flying := Some (Ref (fresh_ref s))\<rparr>
      | Handle caught \<Rightarrow> (case flying s of
            None \<Rightarrow> s
          | Some c \<Rightarrow> (case nstIsOverflow c s of
                (True, s') \<Rightarrow> s'\<lparr>stack_poison := True\<rparr>
              | (False, s') \<Rightarrow> if caught then s'\<lparr>flying := None, held := held s' \<union> {r. c = Ref r}\<rparr> else s')))"

fun hook_run :: "hook_event list \<Rightarrow> hook_state \<Rightarrow> hook_state" where
  "hook_run [] s = s"
| "hook_run (e # es) s = hook_run es (hook_step e s)"

subsection \<open>The invariant\<close>

definition sighted :: "hook_state \<Rightarrow> bool" where
  "sighted s \<longleftrightarrow>
     (\<forall>r v. heap s r = Some v \<longrightarrow> r < fresh_ref s)
     \<and> (\<forall>r \<in> held s. \<exists>v. heap s r = Some v \<and> (builtin_tag v = ''Error'' \<and> \<not> callable v \<longrightarrow> r \<in> seen s))
     \<and> (\<forall>r \<in> seen s. r < fresh_ref s)
     \<and> (\<forall>r \<in> raised s. heap s r = Some overflow_object)
     \<and> raised s \<inter> held s = {}
     \<and> (\<not> stack_poison s \<longrightarrow> raised s \<inter> seen s = {})
     \<and> (\<forall>r. flying s = Some (Ref r) \<longrightarrow> (\<exists>v. heap s r = Some v
          \<and> (r \<in> held s \<or> r \<in> raised s \<or> r \<in> seen s \<or> own_message v \<noteq> Some (DataText OVERFLOW_TEXT))))"

lemma object_text_Error: "object_text v = ''[object Error]'' \<longleftrightarrow> builtin_tag v = ''Error''"
proof -
  have "''[object Error]'' = ''[object '' @ ''Error'' @ '']''" by simp
  then show ?thesis unfolding object_text_def by (metis append_same_eq same_append_eq)
qed

lemma nstIsOverflow_iff: "fst (nstIsOverflow c s) \<longleftrightarrow> (\<exists>r v. c = Ref r \<and> heap s r = Some v \<and> \<not> callable v \<and> r \<notin> seen s
    \<and> proto_is_range v \<and> \<not> own_tag v \<and> builtin_tag v = ''Error'' \<and> own_message v = Some (DataText OVERFLOW_TEXT))"
  by (auto simp: nstIsOverflow_def Let_def object_text_Error split: thrown.splits option.splits)

lemma nstIsOverflow_state: "snd (nstIsOverflow c s) =
    s\<lparr>seen := seen s \<union> {r. c = Ref r \<and> (\<exists>v. heap s r = Some v \<and> \<not> callable v)}\<rparr>"
  by (rule hook_state.equality) (auto simp: nstIsOverflow_def Let_def split: thrown.splits option.splits)

lemma sighted_overflow:
  assumes "sighted s" "\<not> stack_poison s" "flying s = Some c"
  shows "fst (nstIsOverflow c s) \<longleftrightarrow> (\<exists>r \<in> raised s. c = Ref r)"
  unfolding nstIsOverflow_iff
proof (intro iffI)
  assume "\<exists>r v. c = Ref r \<and> heap s r = Some v \<and> \<not> callable v \<and> r \<notin> seen s
    \<and> proto_is_range v \<and> \<not> own_tag v \<and> builtin_tag v = ''Error'' \<and> own_message v = Some (DataText OVERFLOW_TEXT)"
  with assms show "\<exists>r \<in> raised s. c = Ref r" by (fastforce simp: sighted_def)
next
  assume "\<exists>r \<in> raised s. c = Ref r"
  then obtain r where "r \<in> raised s" "c = Ref r" by blast
  with assms show "\<exists>r v. c = Ref r \<and> heap s r = Some v \<and> \<not> callable v \<and> r \<notin> seen s
    \<and> proto_is_range v \<and> \<not> own_tag v \<and> builtin_tag v = ''Error'' \<and> own_message v = Some (DataText OVERFLOW_TEXT)"
    by (auto simp: sighted_def overflow_object_def)
qed

lemma handle_sighted:
  assumes s: "sighted s" "\<not> stack_poison s" and c: "flying s = Some c"
  shows "sighted (hook_step (Handle caught) s)"
proof -
  obtain b s' where b: "nstIsOverflow c s = (b, s')" by fastforce
  have s': "s' = s\<lparr>seen := seen s \<union> {r. c = Ref r \<and> (\<exists>v. heap s r = Some v \<and> \<not> callable v)}\<rparr>"
    using nstIsOverflow_state [of c s] b by simp
  have r: "b \<longleftrightarrow> (\<exists>r \<in> raised s. c = Ref r)" using sighted_overflow [OF s c] b by simp
  have fl: "\<And>r. c = Ref r \<Longrightarrow> \<exists>v. heap s r = Some v" using s c by (auto simp: sighted_def)
  show ?thesis
  proof (cases b)
    case True
    then show ?thesis using s c b by (fastforce simp: s' sighted_def)
  next
    case False
    with s c b r fl show ?thesis by (fastforce simp: s' sighted_def)
  qed
qed

lemma allocate_sighted:
  assumes "sighted s" "\<not> stack_poison s"
  shows "sighted (nstWrapError_construct v s)"
    "builtin_tag v \<noteq> ''Error'' \<Longrightarrow> sighted ((allocate v s)\<lparr>held := insert (fresh_ref s) (held s)\<rparr>)"
    "sighted ((allocate overflow_object s)\<lparr>flying := Some (Ref (fresh_ref s)), raised := insert (fresh_ref s) (raised s)\<rparr>)"
    "own_message v \<noteq> Some (DataText OVERFLOW_TEXT) \<Longrightarrow> sighted ((allocate v s)\<lparr>flying := Some (Ref (fresh_ref s))\<rparr>)"
proof -
  have h: "\<And>r. r \<in> held s \<Longrightarrow> r \<noteq> fresh_ref s" "\<And>r. r \<in> seen s \<Longrightarrow> r \<noteq> fresh_ref s" "\<And>r. r \<in> raised s \<Longrightarrow> r \<noteq> fresh_ref s"
    "heap s (fresh_ref s) = None" "\<And>r v. heap s r = Some v \<Longrightarrow> r < fresh_ref s"
    using assms(1) unfolding sighted_def by (metis less_irrefl not_None_eq)+
  note d = allocate_def nstWrapError_construct_def sighted_def
  show "sighted (nstWrapError_construct v s)" using assms h unfolding d by (fastforce simp: less_Suc_eq)
  show "builtin_tag v \<noteq> ''Error'' \<Longrightarrow> sighted ((allocate v s)\<lparr>held := insert (fresh_ref s) (held s)\<rparr>)"
    using assms h unfolding d by (fastforce simp: less_Suc_eq)
  show "sighted ((allocate overflow_object s)\<lparr>flying := Some (Ref (fresh_ref s)), raised := insert (fresh_ref s) (raised s)\<rparr>)"
    using assms h unfolding d by (fastforce simp: less_Suc_eq)
  show "own_message v \<noteq> Some (DataText OVERFLOW_TEXT) \<Longrightarrow> sighted ((allocate v s)\<lparr>flying := Some (Ref (fresh_ref s))\<rparr>)"
    using assms h unfolding d by (fastforce simp: less_Suc_eq)
qed

lemma step_sighted: "sighted s \<Longrightarrow> sighted (hook_step e s)"
proof -
  assume s: "sighted s"
  show ?thesis
  proof (cases "stack_poison s")
    case False
    note a = allocate_sighted [OF s False]
    show ?thesis
    proof (cases e)
      case (Reshape r v)
      have "sighted (s\<lparr>heap := (heap s)(r \<mapsto> v)\<rparr>)"
        if "heap s r = Some old" "r \<in> held s" "builtin_tag v = builtin_tag old" "callable v = callable old" for old
      proof -
        from s that have "r < fresh_ref s" "r \<notin> raised s" by (auto simp: sighted_def)
        moreover have "\<not> (builtin_tag v = ''Error'' \<and> \<not> callable v) \<or> r \<in> seen s" using s that by (auto simp: sighted_def)
        ultimately show ?thesis using s that unfolding sighted_def by (auto split: if_splits)
      qed
      with s False Reshape show ?thesis by (auto split: option.splits)
    next
      case (Throw c)
      then show ?thesis using s False by (fastforce simp: sighted_def)
    next
      case (Handle caught)
      show ?thesis
      proof (cases "flying s")
        case None
        then show ?thesis using s Handle by simp
      next
        case (Some c)
        show ?thesis unfolding Handle by (rule handle_sighted [OF s False Some])
      qed
    qed (use s False a in \<open>auto simp del: fun_upd_apply\<close>)
  qed (use s in simp)
qed

lemma run_sighted: "sighted s \<Longrightarrow> sighted (hook_run es s)"
  by (induction es arbitrary: s) (auto simp del: hook_step.simps intro: step_sighted)

lemma init_sighted: "sighted hook_init"
  by (simp add: sighted_def hook_init_def)


definition forged_run :: "hook_event list" where
  "forged_run = [EngineError (overflow_object\<lparr>own_message := Some (DataText ''Invalid array length'')\<rparr>), Handle True,
     Reshape 0 overflow_object, Throw (Ref 0)]"


end
